(* ===== verification/Prelude.thy ===== *)
theory Prelude
  imports Complex_Main "HOL-Library.Multiset" "HOL-Library.List_Lexorder" "HOL-Library.Char_ord"
begin

text \<open>
  The shared layer of the development: the sequencing of fallible Go code
  (\<open>if err != nil { return err }\<close>) as \<^term>\<open>bindE\<close>-style sequencing over sums, the
  traversal of a slice by a fallible function, table operations on lists of rows, and the
  lemma collections the component theories extend.
  \<^item> \<open>go_defs\<close> collects the unfolding equations of thin wrappers;
  \<^item> \<open>bindE_elims\<close> collects the inversion rules of successful runs.
\<close>

named_theorems go_defs
named_theorems bindE_elims

section \<open>Fallible code\<close>

definition bindE :: "'e + 'a \<Rightarrow> ('a \<Rightarrow> 'e + 'b) \<Rightarrow> 'e + 'b" where
  "bindE m f = (case m of Inl e \<Rightarrow> Inl e | Inr x \<Rightarrow> f x)"

lemma bindE_simps [simp]: "bindE (Inl e) f = Inl e" "bindE (Inr x) f = f x"
  by (simp_all add: bindE_def)

lemma bindE_Inr_iff: "bindE m f = Inr y \<longleftrightarrow> (\<exists>x. m = Inr x \<and> f x = Inr y)"
  by (cases m) auto

lemma bindE_InrE [elim!, bindE_elims]:
  assumes "bindE m f = Inr y"
  obtains x where "m = Inr x" and "f x = Inr y"
  using assms by (cases m) auto

lemma bindE_Inl_iff: "bindE m f = Inl e \<longleftrightarrow> m = Inl e \<or> (\<exists>x. m = Inr x \<and> f x = Inl e)"
  by (cases m) auto

lemma bindE_assoc: "bindE (bindE m f) g = bindE m (\<lambda>x. bindE (f x) g)"
  by (cases m) auto

lemma bindE_cong [fundef_cong]:
  assumes "m = m'" and "\<And>x. m' = Inr x \<Longrightarrow> f x = g x"
  shows "bindE m f = bindE m' g"
  using assms by (cases m') auto

text \<open>A guard clause: \<open>if !cond { return err }\<close>.\<close>

definition ensure :: "bool \<Rightarrow> 'e \<Rightarrow> 'e + unit" where
  "ensure b e = (if b then Inr () else Inl e)"

lemma ensure_Inr [simp]: "ensure b e = Inr u \<longleftrightarrow> b"
  by (auto simp: ensure_def)

lemma ensure_Inl [simp]: "ensure b e = Inl e' \<longleftrightarrow> \<not> b \<and> e' = e"
  by (auto simp: ensure_def)

lemma ensure_cases [simp]: "ensure True e = Inr ()" "ensure False e = Inl e"
  by (simp_all add: ensure_def)

definition ofOption :: "'e \<Rightarrow> 'a option \<Rightarrow> 'e + 'a" where
  "ofOption e x = (case x of None \<Rightarrow> Inl e | Some a \<Rightarrow> Inr a)"

lemma ofOption_Inr [simp]: "ofOption e x = Inr a \<longleftrightarrow> x = Some a"
  by (cases x) (auto simp: ofOption_def)

lemma ofOption_simps [simp]: "ofOption e None = Inl e" "ofOption e (Some a) = Inr a"
  by (simp_all add: ofOption_def)

text \<open>A loop over a slice that stops at the first error.\<close>

fun mapE :: "('a \<Rightarrow> 'e + 'b) \<Rightarrow> 'a list \<Rightarrow> 'e + 'b list" where
  "mapE f [] = Inr []"
| "mapE f (x # xs) = bindE (f x) (\<lambda>y. bindE (mapE f xs) (\<lambda>ys. Inr (y # ys)))"

lemma mapE_Inr_length: "mapE f xs = Inr ys \<Longrightarrow> length ys = length xs"
  by (induction xs arbitrary: ys) auto

lemma mapE_Inr_list_all2: "mapE f xs = Inr ys \<Longrightarrow> list_all2 (\<lambda>x y. f x = Inr y) xs ys"
  by (induction xs arbitrary: ys) auto

lemma mapE_Inr_ex: "(\<exists>ys. mapE f xs = Inr ys) \<longleftrightarrow> (\<forall>x \<in> set xs. \<exists>y. f x = Inr y)"
  by (induction xs) (auto simp: bindE_Inr_iff)

lemma mapE_Inr_map: "mapE (\<lambda>x. Inr (f x)) xs = Inr (map f xs)"
  by (induction xs) auto

fun foldE :: "('a \<Rightarrow> 's \<Rightarrow> 'e + 's) \<Rightarrow> 'a list \<Rightarrow> 's \<Rightarrow> 'e + 's" where
  "foldE f [] s = Inr s"
| "foldE f (x # xs) s = bindE (f x s) (foldE f xs)"

lemma foldE_append: "foldE f (xs @ ys) s = bindE (foldE f xs s) (foldE f ys)"
  by (induction xs arbitrary: s) (auto simp: bindE_assoc intro: bindE_cong)

text \<open>An invariant of the loop body is an invariant of the loop.\<close>

lemma foldE_invariant:
  assumes "foldE f xs s = Inr t" and "I s"
    and "\<And>x s t. x \<in> set xs \<Longrightarrow> I s \<Longrightarrow> f x s = Inr t \<Longrightarrow> I t"
  shows "I t"
  using assms by (induction xs arbitrary: s) auto

text \<open>A loop of checks that stops at the first failure.\<close>

fun checkAll :: "('a \<Rightarrow> 'e + unit) \<Rightarrow> 'a list \<Rightarrow> 'e + unit" where
  "checkAll f [] = Inr ()"
| "checkAll f (x # xs) = bindE (f x) (\<lambda>_. checkAll f xs)"

lemma checkAll_Inr [simp]: "checkAll f xs = Inr u \<longleftrightarrow> (\<forall>x \<in> set xs. f x = Inr ())"
  by (induction xs) (auto simp: bindE_Inr_iff)

lemma checkAll_cong [fundef_cong]:
  assumes "xs = ys" and "\<And>x. x \<in> set ys \<Longrightarrow> f x = g x"
  shows "checkAll f xs = checkAll g ys"
  unfolding assms(1) using assms(2) by (induction ys) auto

lemma checkAll_Inl: "checkAll f xs = Inl e \<Longrightarrow> \<exists>x \<in> set xs. f x = Inl e"
  by (induction xs) (auto simp: bindE_Inl_iff)

section \<open>Rows of a table\<close>

text \<open>
  A table is the list of its rows in insertion order.  An UPDATE with a WHERE clause is
  \<open>updateWhere\<close>: it returns the new rows; the affected count is the number of rows that
  satisfy the clause.
\<close>

definition updateWhere :: "('r \<Rightarrow> bool) \<Rightarrow> ('r \<Rightarrow> 'r) \<Rightarrow> 'r list \<Rightarrow> 'r list" where
  "updateWhere P f rows = map (\<lambda>r. if P r then f r else r) rows"

definition affected :: "('r \<Rightarrow> bool) \<Rightarrow> 'r list \<Rightarrow> nat" where
  "affected P rows = length (filter P rows)"

lemma length_updateWhere [simp]: "length (updateWhere P f rows) = length rows"
  by (simp add: updateWhere_def)

lemma set_updateWhere: "set (updateWhere P f rows) = (\<lambda>r. if P r then f r else r) ` set rows"
  by (simp add: updateWhere_def)

lemma updateWhere_in_iff:
  "t \<in> set (updateWhere P f rows) \<longleftrightarrow> (\<exists>r \<in> set rows. t = (if P r then f r else r))"
  by (auto simp: updateWhere_def)

lemma updateWhere_memE:
  assumes "x \<in> set (updateWhere P f rows)"
  obtains r where "r \<in> set rows" "x = (if P r then f r else r)"
  using assms unfolding updateWhere_in_iff by blast

lemma updateWhere_hit: "r \<in> set rows \<Longrightarrow> P r \<Longrightarrow> f r \<in> set (updateWhere P f rows)"
  by (force simp: updateWhere_in_iff)

lemma updateWhere_append [simp]:
  "updateWhere P f (xs @ ys) = updateWhere P f xs @ updateWhere P f ys"
  by (simp add: updateWhere_def)

lemma updateWhere_simps [simp]:
  "updateWhere P f [] = []"
  "updateWhere P f (x # xs) = (if P x then f x else x) # updateWhere P f xs"
  by (simp_all add: updateWhere_def)

lemma updateWhere_none: "(\<And>r. r \<in> set rows \<Longrightarrow> \<not> P r) \<Longrightarrow> updateWhere P f rows = rows"
  by (induction rows) auto

lemma map_updateWhere_key:
  assumes "\<And>r. key (f r) = key r"
  shows "map key (updateWhere P f rows) = map key rows"
  using assms by (induction rows) auto

lemma affected_pos: "0 < affected P rows \<longleftrightarrow> (\<exists>r \<in> set rows. P r)"
  by (auto simp: affected_def filter_empty_conv)

lemma affected_zero: "affected P rows = 0 \<longleftrightarrow> (\<forall>r \<in> set rows. \<not> P r)"
  by (auto simp: affected_def filter_empty_conv)

lemma find_Some_mem: "find P xs = Some x \<Longrightarrow> x \<in> set xs \<and> P x"
  by (induction xs) (auto split: if_splits)

lemma find_None_all: "find P xs = None \<longleftrightarrow> (\<forall>x \<in> set xs. \<not> P x)"
  by (induction xs) auto

text \<open>A key that is unique in a table selects one row.\<close>

lemma distinct_key_eq:
  assumes "distinct (map key rows)" and "r \<in> set rows" and "r' \<in> set rows" and "key r = key r'"
  shows "r = r'"
  using assms by (meson distinct_map inj_on_def)

lemma find_unique_key:
  assumes "distinct (map key rows)" and "r \<in> set rows"
  shows "find (\<lambda>x. key x = key r) rows = Some r"
  using assms
  by (induction rows) (auto simp: image_iff)

end
