(* ===== verification/Shared_Ids.thy ===== *)
theory Shared_Ids
  imports Prelude
begin

text \<open>
  The helpers of \<^verbatim>\<open>internal/approval/shared\<close>: the first-seen-order unique container, the
  normalisation of user-supplied identifier lists, and the check of a principal rule
  against the registered kinds.  Strings are byte lists, as Go's strings are.
\<close>

section \<open>strings.TrimSpace\<close>

text \<open>
  The UTF-8 encodings of the code points that Go's \<^verbatim>\<open>unicode.IsSpace\<close> accepts.
  UTF-8 is self-synchronising, so removing such an encoding from either end of a byte
  string is removing the code point it encodes.
\<close>

definition spaceEncodings :: "string list" where
  "spaceEncodings =
     [[CHR 0x09], [CHR 0x0A], [CHR 0x0B], [CHR 0x0C], [CHR 0x0D], [CHR 0x20],
      [CHR 0xC2, CHR 0x85], [CHR 0xC2, CHR 0xA0],
      [CHR 0xE1, CHR 0x9A, CHR 0x80],
      [CHR 0xE2, CHR 0x80, CHR 0x80], [CHR 0xE2, CHR 0x80, CHR 0x81],
      [CHR 0xE2, CHR 0x80, CHR 0x82], [CHR 0xE2, CHR 0x80, CHR 0x83],
      [CHR 0xE2, CHR 0x80, CHR 0x84], [CHR 0xE2, CHR 0x80, CHR 0x85],
      [CHR 0xE2, CHR 0x80, CHR 0x86], [CHR 0xE2, CHR 0x80, CHR 0x87],
      [CHR 0xE2, CHR 0x80, CHR 0x88], [CHR 0xE2, CHR 0x80, CHR 0x89],
      [CHR 0xE2, CHR 0x80, CHR 0x8A],
      [CHR 0xE2, CHR 0x80, CHR 0xA8], [CHR 0xE2, CHR 0x80, CHR 0xA9],
      [CHR 0xE2, CHR 0x80, CHR 0xAF], [CHR 0xE2, CHR 0x81, CHR 0x9F],
      [CHR 0xE3, CHR 0x80, CHR 0x80]]"

fun hasPrefix :: "'a list \<Rightarrow> 'a list \<Rightarrow> bool" where
  "hasPrefix [] ys = True"
| "hasPrefix (x # xs) [] = False"
| "hasPrefix (x # xs) (y # ys) = (x = y \<and> hasPrefix xs ys)"

lemma hasPrefix_length: "hasPrefix w s \<Longrightarrow> length w \<le> length s"
  by (induction w s rule: hasPrefix.induct) auto

lemma hasPrefix_append: "hasPrefix w s \<longleftrightarrow> (\<exists>r. s = w @ r)"
  by (induction w s rule: hasPrefix.induct) auto

function trimLeftSeqs :: "'a list list \<Rightarrow> 'a list \<Rightarrow> 'a list" where
  "trimLeftSeqs ws s =
     (case find (\<lambda>w. w \<noteq> [] \<and> hasPrefix w s) ws of
        None \<Rightarrow> s
      | Some w \<Rightarrow> trimLeftSeqs ws (drop (length w) s))"
  by pat_completeness auto

termination trimLeftSeqs
proof (relation "measure (\<lambda>(ws, s). length s)")
  fix ws :: "'a list list" and s w
  assume "find (\<lambda>w. w \<noteq> [] \<and> hasPrefix w s) ws = Some w"
  then have "w \<noteq> []" and "hasPrefix w s" by (auto dest: find_Some_mem)
  then have "0 < length w" and "length w \<le> length s" by (auto dest: hasPrefix_length)
  then show "((ws, drop (length w) s), (ws, s)) \<in> measure (\<lambda>(ws, s). length s)"
    by (simp only: in_measure prod.case length_drop)
qed simp

declare trimLeftSeqs.simps [simp del]

definition trimSpace :: "string \<Rightarrow> string" where
  "trimSpace s =
     rev (trimLeftSeqs (map rev spaceEncodings) (rev (trimLeftSeqs spaceEncodings s)))"

lemma trimLeftSeqs_fixpoint: "find (\<lambda>w. w \<noteq> [] \<and> hasPrefix w (trimLeftSeqs ws s)) ws = None"
proof (induction ws s rule: trimLeftSeqs.induct)
  case (1 ws s)
  show ?case
  proof (cases "find (\<lambda>w. w \<noteq> [] \<and> hasPrefix w s) ws")
    case None
    then show ?thesis by (subst trimLeftSeqs.simps) (simp add: None)
  next
    case (Some w)
    then show ?thesis using "1.IH"[OF Some] by (subst trimLeftSeqs.simps) (simp add: Some)
  qed
qed

lemma trimLeftSeqs_suffix: "\<exists>p. s = p @ trimLeftSeqs ws s"
proof (induction ws s rule: trimLeftSeqs.induct)
  case (1 ws s)
  show ?case
  proof (cases "find (\<lambda>w. w \<noteq> [] \<and> hasPrefix w s) ws")
    case None
    then show ?thesis by (subst trimLeftSeqs.simps) simp
  next
    case (Some w)
    then obtain p where "drop (length w) s = p @ trimLeftSeqs ws (drop (length w) s)"
      using "1.IH"[OF Some] by blast
    then have "s = (take (length w) s @ p) @ trimLeftSeqs ws (drop (length w) s)"
      by (metis append.assoc append_take_drop_id)
    then have "\<exists>q. s = q @ trimLeftSeqs ws (drop (length w) s)" by blast
    then show ?thesis by (subst trimLeftSeqs.simps) (simp add: Some)
  qed
qed

section \<open>OrderedUnique\<close>

record 'a OrderedUnique =
  seen :: "'a set"
  items :: "'a list"

definition NewOrderedUnique :: "'a OrderedUnique" where
  "NewOrderedUnique = \<lparr>seen = {}, items = []\<rparr>"

definition ou_Add :: "'a \<Rightarrow> 'a OrderedUnique \<Rightarrow> bool \<times> 'a OrderedUnique" where
  "ou_Add v u =
     (if v \<in> seen u then (False, u)
      else (True, u\<lparr>seen := insert v (seen u), items := items u @ [v]\<rparr>))"

fun ou_AddAll :: "'a list \<Rightarrow> 'a OrderedUnique \<Rightarrow> nat \<times> 'a OrderedUnique" where
  "ou_AddAll [] u = (0, u)"
| "ou_AddAll (v # vs) u =
     (let (ok, u1) = ou_Add v u; (n, u2) = ou_AddAll vs u1
      in (if ok then Suc n else n, u2))"

definition ou_ToSlice :: "'a OrderedUnique \<Rightarrow> 'a list" where
  "ou_ToSlice u = items u"

definition ou_Len :: "'a OrderedUnique \<Rightarrow> nat" where
  "ou_Len u = length (items u)"

definition ou_Contains :: "'a \<Rightarrow> 'a OrderedUnique \<Rightarrow> bool" where
  "ou_Contains v u = (v \<in> seen u)"

text \<open>The representation invariant, and the list the container stands for.\<close>

definition ou_invar :: "'a OrderedUnique \<Rightarrow> bool" where
  "ou_invar u \<longleftrightarrow> seen u = set (items u) \<and> distinct (items u)"

fun firstSeen :: "'a list \<Rightarrow> 'a list" where
  "firstSeen [] = []"
| "firstSeen (x # xs) = x # filter (\<lambda>y. y \<noteq> x) (firstSeen xs)"

lemma set_firstSeen [simp]: "set (firstSeen xs) = set xs"
  by (induction xs) auto

lemma distinct_firstSeen [simp]: "distinct (firstSeen xs)"
  by (induction xs) auto

lemma firstSeen_distinct: "distinct xs \<Longrightarrow> firstSeen xs = xs"
  by (induction xs) (auto simp: filter_id_conv)

lemma filter_firstSeen: "firstSeen (filter P xs) = filter P (firstSeen xs)"
proof (induction xs)
  case Nil
  then show ?case by simp
next
  case (Cons x xs)
  have swap: "filter (\<lambda>y. y \<noteq> x) (filter P ys) = filter P (filter (\<lambda>y. y \<noteq> x) ys)" for ys
    by (simp add: conj_commute)
  have drop: "\<not> P x \<Longrightarrow> filter P (filter (\<lambda>y. y \<noteq> x) ys) = filter P ys" for ys
    by (induction ys) auto
  show ?case using Cons swap drop by (cases "P x") auto
qed

lemma ou_invar_new [simp]: "ou_invar NewOrderedUnique"
  by (simp add: ou_invar_def NewOrderedUnique_def)

lemma ou_invar_Add: "ou_invar u \<Longrightarrow> ou_invar (snd (ou_Add v u))"
  by (auto simp: ou_invar_def ou_Add_def)

lemma ou_AddAll_items:
  assumes "ou_invar u"
  shows "items (snd (ou_AddAll vs u)) = items u @ filter (\<lambda>v. v \<notin> set (items u)) (firstSeen vs)
       \<and> ou_invar (snd (ou_AddAll vs u))"
  using assms
proof (induction vs arbitrary: u)
  case Nil
  then show ?case by simp
next
  case (Cons v vs)
  show ?case
  proof (cases "v \<in> seen u")
    case True
    with Cons.prems have v: "v \<in> set (items u)" by (simp add: ou_invar_def)
    have "filter (\<lambda>w. w \<notin> set (items u)) (filter (\<lambda>y. y \<noteq> v) (firstSeen vs))
        = filter (\<lambda>w. w \<notin> set (items u)) (firstSeen vs)"
      using v by (induction "firstSeen vs") (auto simp: filter_filter intro: filter_cong)
    with Cons True v show ?thesis
      by (auto simp: ou_Add_def Let_def split: prod.splits dest: Cons.IH)
  next
    case False
    let ?u1 = "u\<lparr>seen := insert v (seen u), items := items u @ [v]\<rparr>"
    from Cons.prems have inv1: "ou_invar ?u1" using False by (auto simp: ou_invar_def)
    have nv: "v \<notin> set (items u)" using Cons.prems False by (simp add: ou_invar_def)
    have "filter (\<lambda>w. w \<notin> set (items ?u1)) (firstSeen vs)
        = filter (\<lambda>w. w \<notin> set (items u)) (filter (\<lambda>y. y \<noteq> v) (firstSeen vs))"
      by (auto simp: filter_filter intro: filter_cong)
    with Cons.IH[OF inv1] False nv show ?thesis
      by (auto simp: ou_Add_def Let_def split: prod.splits)
  qed
qed

corollary ou_AddAll_new: "items (snd (ou_AddAll vs NewOrderedUnique)) = firstSeen vs"
  using ou_AddAll_items[OF ou_invar_new, of vs] by (simp add: NewOrderedUnique_def)

section \<open>NormalizeUniqueIDs\<close>

fun normalizeLoop :: "string list \<Rightarrow> string OrderedUnique \<Rightarrow> string OrderedUnique" where
  "normalizeLoop [] u = u"
| "normalizeLoop (rawID # rest) u =
     (let id = trimSpace rawID
      in normalizeLoop rest (if id = [] then u else snd (ou_Add id u)))"

definition NormalizeUniqueIDs :: "string list \<Rightarrow> string list" where
  "NormalizeUniqueIDs ids = (if ids = [] then [] else ou_ToSlice (normalizeLoop ids NewOrderedUnique))"

lemma normalizeLoop_AddAll:
  "normalizeLoop ids u = snd (ou_AddAll (filter (\<lambda>s. s \<noteq> []) (map trimSpace ids)) u)"
  by (induction ids arbitrary: u) (auto simp: Let_def split: prod.splits)

lemma NormalizeUniqueIDs_eq:
  "NormalizeUniqueIDs ids = firstSeen (filter (\<lambda>s. s \<noteq> []) (map trimSpace ids))"
  by (simp add: NormalizeUniqueIDs_def normalizeLoop_AddAll ou_ToSlice_def ou_AddAll_new)

lemma distinct_NormalizeUniqueIDs [simp]: "distinct (NormalizeUniqueIDs ids)"
  by (simp add: NormalizeUniqueIDs_eq)

lemma set_NormalizeUniqueIDs: "set (NormalizeUniqueIDs ids) = trimSpace ` set ids - {[]}"
  by (auto simp: NormalizeUniqueIDs_eq)

section \<open>CheckKindRule\<close>

datatype SelectionMode =
    SelectionNone | SelectionUser | SelectionRole | SelectionDepartment | SelectionFormField
  | SelectionCustom | SelectionOther string

fun SelectionMode_IsValid :: "SelectionMode \<Rightarrow> bool" where
  "SelectionMode_IsValid (SelectionOther s) = False"
| "SelectionMode_IsValid _ = True"

fun RequiresIDs :: "SelectionMode \<Rightarrow> bool" where
  "RequiresIDs SelectionUser = True"
| "RequiresIDs SelectionRole = True"
| "RequiresIDs SelectionDepartment = True"
| "RequiresIDs SelectionCustom = True"
| "RequiresIDs _ = False"

definition RequiresFormField :: "SelectionMode \<Rightarrow> bool" where
  "RequiresFormField m = (m = SelectionFormField)"

datatype KindRuleFault = KindRuleOK | KindRuleUnknownKind | KindRuleIDsRequired | KindRuleFormFieldRequired

definition HasText :: "string option \<Rightarrow> bool" where
  "HasText s = (case s of None \<Rightarrow> False | Some x \<Rightarrow> trimSpace x \<noteq> [])"

definition CheckKindRule ::
    "string \<Rightarrow> string list \<Rightarrow> string option \<Rightarrow> (string \<rightharpoonup> SelectionMode) \<Rightarrow> KindRuleFault" where
  "CheckKindRule kind ids formField selections =
     (case selections kind of
        None \<Rightarrow> KindRuleUnknownKind
      | Some selection \<Rightarrow>
          if RequiresIDs selection \<and> NormalizeUniqueIDs ids = [] then KindRuleIDsRequired
          else if RequiresFormField selection \<and> \<not> HasText formField then KindRuleFormFieldRequired
          else KindRuleOK)"

lemma CheckKindRule_OK_iff:
  "CheckKindRule kind ids formField selections = KindRuleOK \<longleftrightarrow>
     (\<exists>m. selections kind = Some m
        \<and> (RequiresIDs m \<longrightarrow> (\<exists>s \<in> set ids. trimSpace s \<noteq> []))
        \<and> (RequiresFormField m \<longrightarrow> HasText formField))"
proof -
  have "NormalizeUniqueIDs ids = [] \<longleftrightarrow> (\<forall>s \<in> set ids. trimSpace s = [])"
    using set_NormalizeUniqueIDs[of ids] by (auto simp flip: set_empty)
  then show ?thesis by (auto simp: CheckKindRule_def split: option.splits)
qed

end
