(* ===== verification/Approval_Model.thy ===== *)
theory Approval_Model
  imports Shared_Ids
begin

text \<open>
  The data model of the approval module (\<^verbatim>\<open>approval/enums.go\<close>, \<^verbatim>\<open>approval/models.go\<close>,
  \<^verbatim>\<open>approval/condition.go\<close>, \<^verbatim>\<open>approval/events_*.go\<close>).  Go's enumerations are open string
  types: an enumeration whose out-of-range values the code distinguishes has an \<open>Other\<close>
  constructor for them, and its \<open>IsValid\<close> is the source's predicate.  Status columns are
  written by the engine from the declared constants only.  A person snapshot (id, name,
  department) that the rows store as four columns is one \<open>UserInfo\<close>.
\<close>

type_synonym DateTime = int

section \<open>Enumerations\<close>

datatype InstanceStatus =
    InstanceRunning | InstanceApproved | InstanceRejected | InstanceWithdrawn
  | InstanceReturned | InstanceTerminated

definition InstanceStatus_IsFinal :: "InstanceStatus \<Rightarrow> bool" where
  "InstanceStatus_IsFinal s =
     (s = InstanceApproved \<or> s = InstanceRejected \<or> s = InstanceTerminated)"

datatype TaskStatus =
    TaskWaiting | TaskPending | TaskApproved | TaskRejected | TaskHandled | TaskTransferred
  | TaskRolledBack | TaskCanceled | TaskRemoved | TaskSkipped

definition TaskStatus_IsFinal :: "TaskStatus \<Rightarrow> bool" where
  "TaskStatus_IsFinal s =
     (s = TaskApproved \<or> s = TaskRejected \<or> s = TaskHandled \<or> s = TaskTransferred
      \<or> s = TaskRolledBack \<or> s = TaskCanceled \<or> s = TaskRemoved \<or> s = TaskSkipped)"

datatype NodeVisitStatus =
    NodeVisitActive | NodeVisitPassed | NodeVisitRejected | NodeVisitReturned | NodeVisitCanceled

datatype NodeKind =
    NodeStart | NodeApproval | NodeHandle | NodeCondition | NodeEnd | NodeCC | NodeKindOther string

datatype ExecutionType = ExecutionManual | ExecutionAutoPass | ExecutionAutoReject | ExecutionOther string

fun ExecutionType_IsValid :: "ExecutionType \<Rightarrow> bool" where
  "ExecutionType_IsValid (ExecutionOther _) = False"
| "ExecutionType_IsValid _ = True"

datatype ApprovalMethod = ApprovalSequential | ApprovalParallel | ApprovalMethodOther string

fun ApprovalMethod_IsValid :: "ApprovalMethod \<Rightarrow> bool" where
  "ApprovalMethod_IsValid (ApprovalMethodOther _) = False"
| "ApprovalMethod_IsValid _ = True"

datatype PassRule = PassAll | PassAny | PassRatio | PassFixedCount | PassRuleOther string

fun PassRule_IsValid :: "PassRule \<Rightarrow> bool" where
  "PassRule_IsValid (PassRuleOther _) = False"
| "PassRule_IsValid _ = True"

datatype EmptyAssigneeAction =
    EmptyAssigneeAutoPass | EmptyAssigneeTransferAdmin | EmptyAssigneeTransferSuperior
  | EmptyAssigneeTransferApplicant | EmptyAssigneeTransferSpecified | EmptyAssigneeOther string

fun EmptyAssigneeAction_IsValid :: "EmptyAssigneeAction \<Rightarrow> bool" where
  "EmptyAssigneeAction_IsValid (EmptyAssigneeOther _) = False"
| "EmptyAssigneeAction_IsValid _ = True"

datatype SameApplicantAction =
    SameApplicantAutoPass | SameApplicantSelfApprove | SameApplicantTransferSuperior
  | SameApplicantExclude | SameApplicantOther string

fun SameApplicantAction_IsValid :: "SameApplicantAction \<Rightarrow> bool" where
  "SameApplicantAction_IsValid (SameApplicantOther _) = False"
| "SameApplicantAction_IsValid _ = True"

datatype RollbackType =
    RollbackNone | RollbackPrevious | RollbackStart | RollbackAny | RollbackSpecified
  | RollbackOther string

fun RollbackType_IsValid :: "RollbackType \<Rightarrow> bool" where
  "RollbackType_IsValid (RollbackOther _) = False"
| "RollbackType_IsValid _ = True"

datatype RollbackDataStrategy = RollbackDataClear | RollbackDataKeep | RollbackDataOther string

fun RollbackDataStrategy_IsValid :: "RollbackDataStrategy \<Rightarrow> bool" where
  "RollbackDataStrategy_IsValid (RollbackDataOther _) = False"
| "RollbackDataStrategy_IsValid _ = True"

datatype AddAssigneeType =
    AddAssigneeBefore | AddAssigneeAfter | AddAssigneeParallel | AddAssigneeOther string

fun AddAssigneeType_IsValid :: "AddAssigneeType \<Rightarrow> bool" where
  "AddAssigneeType_IsValid (AddAssigneeOther _) = False"
| "AddAssigneeType_IsValid _ = True"

datatype ConsecutiveApproverAction =
    ConsecutiveApproverNone | ConsecutiveApproverAutoPass | ConsecutiveApproverOther string

fun ConsecutiveApproverAction_IsValid :: "ConsecutiveApproverAction \<Rightarrow> bool" where
  "ConsecutiveApproverAction_IsValid (ConsecutiveApproverOther _) = False"
| "ConsecutiveApproverAction_IsValid _ = True"

datatype TimeoutAction =
    TimeoutActionNone | TimeoutActionAutoPass | TimeoutActionAutoReject | TimeoutActionNotify
  | TimeoutActionTransferAdmin | TimeoutActionOther string

fun TimeoutAction_IsValid :: "TimeoutAction \<Rightarrow> bool" where
  "TimeoutAction_IsValid (TimeoutActionOther _) = False"
| "TimeoutAction_IsValid _ = True"

datatype Permission =
    PermissionVisible | PermissionEditable | PermissionHidden | PermissionRequired
  | PermissionOther string

fun Permission_IsValid :: "Permission \<Rightarrow> bool" where
  "Permission_IsValid (PermissionOther _) = False"
| "Permission_IsValid _ = True"

datatype CCTiming = CCTimingAlways | CCTimingOnApprove | CCTimingOnReject | CCTimingOther string

fun CCTiming_IsValid :: "CCTiming \<Rightarrow> bool" where
  "CCTiming_IsValid (CCTimingOther _) = False"
| "CCTiming_IsValid _ = True"

datatype ActionType =
    ActionSubmit | ActionApprove | ActionHandle | ActionReject | ActionTransfer | ActionWithdraw
  | ActionCancel | ActionRollback | ActionAddAssignee | ActionRemoveAssignee | ActionExecute
  | ActionResubmit | ActionReassign | ActionTerminate | ActionAddCC

datatype VersionStatus = VersionDraft | VersionPublished | VersionArchived | VersionStatusOther string

datatype BindingMode = BindingStandalone | BindingBusiness | BindingModeOther string

fun BindingMode_IsValid :: "BindingMode \<Rightarrow> bool" where
  "BindingMode_IsValid (BindingModeOther _) = False"
| "BindingMode_IsValid _ = True"

datatype StorageMode = StorageJSON | StorageTable | StorageModeOther string

fun StorageMode_IsValid :: "StorageMode \<Rightarrow> bool" where
  "StorageMode_IsValid (StorageModeOther _) = False"
| "StorageMode_IsValid _ = True"

datatype FieldKind =
    FieldInput | FieldTextarea | FieldSelect | FieldNumber | FieldDate | FieldUpload | FieldTable
  | FieldKindOther string

fun FieldKind_IsValid :: "FieldKind \<Rightarrow> bool" where
  "FieldKind_IsValid (FieldKindOther _) = False"
| "FieldKind_IsValid _ = True"

datatype ColumnDataType =
    ColumnString | ColumnText | ColumnInteger | ColumnDecimal | ColumnBoolean | ColumnDate
  | ColumnDatetime | ColumnJSON | ColumnTypeOther string

fun ColumnDataType_IsValid :: "ColumnDataType \<Rightarrow> bool" where
  "ColumnDataType_IsValid (ColumnTypeOther _) = False"
| "ColumnDataType_IsValid _ = True"

datatype OptionSourceKind = OptionSourceRemote | OptionSourceCodeSet | OptionSourceOther string

section \<open>Values of a form\<close>

datatype json =
    JNull | JBool bool | JNum rat | JStr string | JList "json list" | JObj "(string \<times> json) list"

text \<open>A form is a Go map, an association list with distinct keys; \<^term>\<open>None\<close> is the nil map.\<close>

type_synonym FormData = "(string \<times> json) list option"

section \<open>Flow definition rows\<close>

record UserInfo =
  u_ID :: string
  u_Name :: string
  u_DepartmentID :: "string option"
  u_DepartmentName :: "string option"

record Condition =
  c_Kind :: string
  c_Subject :: string
  c_Aggregate :: string
  c_Column :: string
  c_Operator :: string
  c_Value :: json
  c_Expression :: string

record ConditionGroup =
  g_Conditions :: "Condition list"

record ConditionBranch =
  b_ID :: string
  b_Label :: string
  b_ConditionGroups :: "ConditionGroup list"
  b_IsDefault :: bool
  b_Priority :: int

text \<open>A status mapping is keyed by a status, or by a string that is none (\<^term>\<open>Inl\<close>).\<close>

record BusinessBindingConfig =
  bb_TableName :: string
  bb_KeyColumns :: "string list"
  bb_StatusColumn :: string
  bb_InstanceIDColumn :: "string option"
  bb_StartedAtColumn :: "string option"
  bb_FinishedAtColumn :: "string option"
  bb_StatusMapping :: "((string + InstanceStatus) \<times> string) list"

record Flow =
  fl_ID :: string
  fl_TenantID :: string
  fl_IsShared :: bool
  fl_CategoryID :: string
  fl_Code :: string
  fl_Name :: string
  fl_Icon :: "string option"
  fl_Description :: "string option"
  fl_Labels :: "(string \<times> string) list"
  fl_BindingMode :: BindingMode
  fl_BusinessBinding :: "BusinessBindingConfig option"
  fl_AdminUserIDs :: "string list"
  fl_IsAllInitiationAllowed :: bool
  fl_InstanceTitleTemplate :: string
  fl_IsActive :: bool
  fl_CurrentVersion :: int

record FlowCategory =
  ca_ID :: string
  ca_TenantID :: string

record RemoteOptionRequest =
  ro_Resource :: string
  ro_Action :: string

record FieldOptionSource =
  os_Kind :: OptionSourceKind
  os_Request :: "RemoteOptionRequest option"
  os_CodeSet :: string

text \<open>Bounds are finite floats, which JSON can carry exactly; here they are rationals.\<close>

record ValidationRule =
  vr_MinLength :: "int option"
  vr_MaxLength :: "int option"
  vr_Min :: "rat option"
  vr_Max :: "rat option"
  vr_Pattern :: string
  vr_Message :: string

datatype FormFieldDefinition = FormField
  (ff_Key: string) (ff_Kind: FieldKind) (ff_Label: string) (ff_IsRequired: bool)
  (ff_Options: "(string \<times> json) list") (ff_OptionSource: "FieldOptionSource option")
  (ff_Validation: "ValidationRule option") (ff_SortOrder: int) (ff_ColumnType: ColumnDataType)
  (ff_Scale: "int option") (ff_Columns: "FormFieldDefinition list")

text \<open>The columns of a version; the two designer documents it keeps verbatim are left out.\<close>

record FlowVersion =
  fv_ID :: string
  fv_FlowID :: string
  fv_Version :: int
  fv_Status :: VersionStatus
  fv_Description :: "string option"
  fv_StorageMode :: StorageMode
  fv_FormFields :: "FormFieldDefinition list"
  fv_PublishedAt :: "DateTime option"
  fv_PublishedBy :: "string option"
  fv_BusinessBinding :: "BusinessBindingConfig option"

record FlowInitiator =
  fi_FlowID :: string
  fi_Kind :: string
  fi_IDs :: "string list"

record FlowNode =
  n_ID :: string
  n_FlowVersionID :: string
  n_Key :: string
  n_Kind :: NodeKind
  n_Name :: string
  n_Description :: "string option"
  n_ExecutionType :: ExecutionType
  n_ApprovalMethod :: ApprovalMethod
  n_PassRule :: PassRule
  n_PassRatio :: rat
  n_PassCount :: int
  n_EmptyAssigneeAction :: EmptyAssigneeAction
  n_FallbackUserIDs :: "string list"
  n_AdminUserIDs :: "string list"
  n_SameApplicantAction :: SameApplicantAction
  n_IsRollbackAllowed :: bool
  n_RollbackType :: RollbackType
  n_RollbackDataStrategy :: RollbackDataStrategy
  n_RollbackTargetKeys :: "string list"
  n_IsAddAssigneeAllowed :: bool
  n_AddAssigneeTypes :: "AddAssigneeType list"
  n_IsRemoveAssigneeAllowed :: bool
  n_FieldPermissions :: "(string \<times> Permission) list"
  n_IsManualCCAllowed :: bool
  n_IsTransferAllowed :: bool
  n_IsOpinionRequired :: bool
  n_TimeoutHours :: int
  n_TimeoutAction :: TimeoutAction
  n_TimeoutNotifyBeforeHours :: int
  n_UrgeCooldownMinutes :: int
  n_ConsecutiveApproverAction :: ConsecutiveApproverAction
  n_IsReadConfirmRequired :: bool
  n_Branches :: "ConditionBranch list"

record FlowEdge =
  e_ID :: string
  e_FlowVersionID :: string
  e_Key :: string
  e_SourceNodeID :: string
  e_SourceNodeKey :: string
  e_TargetNodeID :: string
  e_TargetNodeKey :: string
  e_SourceHandle :: "string option"

record FlowNodeAssignee =
  na_NodeID :: string
  na_Kind :: string
  na_IDs :: "string list"
  na_FormField :: "string option"
  na_SortOrder :: int

record FlowNodeCC =
  nc_NodeID :: string
  nc_Kind :: string
  nc_IDs :: "string list"
  nc_FormField :: "string option"
  nc_Timing :: CCTiming

text \<open>The metadata of the physical tables generated for a table-mode version.\<close>

record FormTable =
  ft_ID :: string
  ft_FlowID :: string
  ft_VersionID :: string
  ft_PhysicalTableName :: string
  ft_SourceFieldKey :: string

record FormTableColumn =
  fc_FormTableID :: string
  fc_ColumnName :: string
  fc_ColumnType :: string
  fc_IsNullable :: bool
  fc_SourceFieldKey :: "string option"
  fc_SortOrder :: nat

section \<open>Instances, tasks and visits\<close>

record Instance =
  i_ID :: string
  i_TenantID :: string
  i_FlowID :: string
  i_FlowCode :: string
  i_FlowVersionID :: string
  i_Title :: string
  i_InstanceNo :: string
  i_Applicant :: UserInfo
  i_Status :: InstanceStatus
  i_CurrentNodeID :: "string option"
  i_FinishedAt :: "DateTime option"
  i_BusinessRef :: "string option"
  i_FormData :: FormData
  i_Globals :: FormData
  i_BusinessProjectionID :: "string option"

abbreviation i_ApplicantID :: "Instance \<Rightarrow> string" where
  "i_ApplicantID i \<equiv> u_ID (i_Applicant i)"

record Task =
  t_ID :: string
  t_TenantID :: string
  t_InstanceID :: string
  t_NodeID :: string
  t_VisitID :: string
  t_Assignee :: UserInfo
  t_Delegator :: "UserInfo option"
  t_SortOrder :: int
  t_Status :: TaskStatus
  t_ReadAt :: "DateTime option"
  t_ParentTaskID :: "string option"
  t_AddAssigneeType :: "AddAssigneeType option"
  t_Deadline :: "DateTime option"
  t_IsTimeout :: bool
  t_IsPreWarningSent :: bool
  t_FinishedAt :: "DateTime option"

abbreviation t_AssigneeID :: "Task \<Rightarrow> string" where
  "t_AssigneeID t \<equiv> u_ID (t_Assignee t)"

record NodeVisit =
  v_ID :: string
  v_TenantID :: string
  v_InstanceID :: string
  v_NodeID :: string
  v_Sequence :: int
  v_Status :: NodeVisitStatus
  v_FinishedAt :: "DateTime option"

record FormSnapshot =
  fs_InstanceID :: string
  fs_NodeID :: string
  fs_FormData :: FormData

record ActionLog =
  l_InstanceID :: string
  l_NodeID :: "string option"
  l_TaskID :: "string option"
  l_Action :: ActionType
  l_Operator :: UserInfo
  l_IPAddress :: "string option"
  l_UserAgent :: "string option"
  l_Opinion :: "string option"
  l_TransferTo :: "UserInfo option"
  l_RollbackToNodeID :: "string option"
  l_AddAssigneeType :: "AddAssigneeType option"
  l_AddedAssignees :: "UserInfo list"
  l_RemovedAssignees :: "UserInfo list"
  l_CCUsers :: "UserInfo list"
  l_Attachments :: "string list"
  l_Meta :: FormData

record CCRecord =
  cc_ID :: string
  cc_InstanceID :: string
  cc_NodeID :: "string option"
  cc_VisitID :: "string option"
  cc_TaskID :: "string option"
  cc_User :: UserInfo
  cc_IsManual :: bool
  cc_ReadAt :: "DateTime option"

record Delegation =
  d_DelegatorID :: string
  d_DelegateeID :: string
  d_FlowCategoryID :: "string option"
  d_FlowID :: "string option"
  d_StartsAt :: DateTime
  d_EndsAt :: DateTime
  d_IsActive :: bool
  d_Reason :: "string option"

record UrgeRecord =
  ur_InstanceID :: string
  ur_NodeID :: string
  ur_TaskID :: "string option"
  ur_Urger :: UserInfo
  ur_Target :: UserInfo
  ur_Message :: string
  ur_CreatedAt :: DateTime

record ResolvedAssignee =
  ra_User :: UserInfo
  ra_Delegator :: "UserInfo option"

section \<open>Domain events\<close>

text \<open>
  One constructor per event constructor of \<^verbatim>\<open>approval/events_*.go\<close>, over the values the Go
  constructor copies its payload from.
\<close>

datatype TaskActivationReason =
    TaskActivationAssigned | TaskActivationQueueAdvanced | TaskActivationTransferred
  | TaskActivationReassigned

datatype FlowDefinitionEvent =
    FlowCreatedEvent Flow
  | FlowUpdatedEvent Flow
  | FlowDeployedEvent Flow string int
  | FlowToggledEvent Flow bool
  | FlowPublishedEvent Flow string

datatype DomainEvent =
    InstanceCreatedEvent Instance
  | InstanceCompletedEvent Instance InstanceStatus "string option"
  | InstanceWithdrawnEvent Instance UserInfo "string option"
  | InstanceRolledBackEvent Instance FlowNode FlowNode UserInfo "string option"
  | InstanceReturnedEvent Instance FlowNode FlowNode UserInfo "string option"
  | InstanceResubmittedEvent Instance UserInfo
  | NodeAutoPassedEvent Instance FlowNode string
  | TaskCreatedEvent Instance Task FlowNode
  | TaskActivatedEvent Instance Task FlowNode TaskActivationReason
  | TaskApprovedEvent Instance Task FlowNode UserInfo string
  | TaskHandledEvent Instance Task FlowNode UserInfo string
  | TaskRejectedEvent Instance Task FlowNode UserInfo string
  | TaskCanceledEvent Instance Task FlowNode string
  | TaskTransferredEvent Instance Task FlowNode UserInfo UserInfo string
  | TaskReassignedEvent Instance Task FlowNode UserInfo UserInfo string
  | TaskTimedOutEvent Instance Task FlowNode
  | AssigneesAddedEvent Instance Task FlowNode AddAssigneeType "UserInfo list"
  | AssigneesRemovedEvent Instance Task FlowNode "UserInfo list"
  | CCNotifiedEvent Instance FlowNode "UserInfo list" bool
  | TaskDeadlineWarningEvent Instance Task FlowNode int
  | TaskUrgedEvent Instance Task FlowNode UserInfo string
  | FlowEvent FlowDefinitionEvent

section \<open>Errors\<close>

text \<open>
  The sentinel errors of \<^verbatim>\<open>approval/api_errors.go\<close>, \<^verbatim>\<open>engine/errors.go\<close> and
  \<^verbatim>\<open>strategy/errors.go\<close> that the modelled code returns; \<open>ErrHost\<close> is an error of a host
  extension, \<open>ErrRecordNotFound\<close> a row the code loads by key and does not find, and
  \<open>ErrNilDereference\<close> a run-time panic.  The errors of the commands that edit flow definitions
  are grouped under \<open>ErrDesign\<close>, those of the built-in strategies under \<open>ErrStrategy\<close>, those of the
  business binding under \<open>ErrBinding\<close>.
\<close>

datatype design_error =
    ErrInvalidFlowDesign | ErrInvalidFormDesign | ErrInvalidStorageMode | ErrVersionNotFound
  | ErrVersionNotDraft | ErrFlowCodeExists | ErrSharedFlowCodeExists | ErrCategoryNotFound
  | ErrInvalidBindingMode | ErrInitiatorsNotAllowed | ErrInitiatorsRequired | ErrInvalidInitiatorKind
  | ErrInvalidFlowLabel | ErrInvalidTitleTemplate | ErrInvalidBusinessIdentifier
  | ErrBindingUnexpected | ErrBindingIncomplete | ErrBindingStatusMappingInvalid
  | ErrBindingColumnsConflict | ErrBindingTableMissing string | ErrBindingColumnMissing string
  | ErrBindingKeyNotUnique

text \<open>\<open>ErrSql\<close> is a statement the database rejects: a missing table or a violated constraint.\<close>

datatype storage_error =
    ErrInvalidDetailValue | ErrUnsupportedDialect | ErrInvalidGeneratedIdentifier
  | ErrReservedColumnName | ErrDuplicateColumnName | ErrFormTableMetadataMissing
  | ErrInvalidColumnType | ErrSql

datatype engine_error =
    NoMatchingEdge | ProcessorNotFound | MaxNodeDepth | ActiveVisitNotFound
  | AssigneeServiceNotConfigured | NoBranches | NoMatchingBranch | InvalidTransition
  | FlowMissingStartNode | FlowMissingTargetNode | FlowNoNodes | AmbiguousEdges
  | UnknownNodeAction | PassRuleNotFound | ConditionEvaluatorNotFound
  | AssigneeResolverNotFound | InitiatorResolverNotFound

text \<open>The errors of the built-in strategies and of their registration.\<close>

datatype strategy_error =
    AssigneeServiceNil | ApplicantIDEmpty | AggregatorNotFound | BuiltinAggregatorMissing string
  | ExpressionReturnedNonBool | UnsupportedOperator string | IncomparableValues
  | FormFieldNameEmpty | UnsupportedFieldValueType | AssigneeResolveFailed "string list"
  | NilResolver | KindEmpty | KindLabelEmpty string | InvalidSelectionMode string
  | DuplicateHostKind string | FormFieldInitiatorKind string
  | BuiltinAssigneeMissing string | BuiltinCCMissing string | BuiltinInitiatorMissing string
  | BuiltinPassRuleMissing PassRule | BuiltinEvaluatorMissing string

text \<open>The errors of the business binding.\<close>

datatype binding_error =
    BusinessRefRequired | InvalidBusinessRef | RecordKeyCorrupt | BindingMisconfigured
  | BindingTargetBusy | BindingTargetMissing | BindingTargetNotUnique | BindingOwnershipConflict
  | ProjectionStateInvalid | BindingProjectionNotFound

datatype error =
    ErrEngine engine_error
  | ErrStrategy strategy_error
  | ErrBinding binding_error
  | ErrNoAssignee
  | ErrInvalidTaskTransition | ErrTaskNotPending | ErrTaskNotFound | ErrInstanceNotFound
  | ErrInstanceCompleted | ErrNotAssignee | ErrNotApplicant | ErrInvalidInstanceTransition
  | ErrWithdrawNotAllowed | ErrTerminateNotAllowed | ErrResubmitNotAllowed
  | ErrTransferNotAllowed | ErrInvalidTransferTarget | ErrRollbackNotAllowed
  | ErrInvalidRollbackTarget | ErrOpinionRequired | ErrAddAssigneeNotAllowed
  | ErrInvalidAddAssigneeType | ErrNoUsersSpecified | ErrRemoveAssigneeNotAllowed
  | ErrLastAssigneeRemoval | ErrManualCcNotAllowed | ErrAccessDenied | ErrCrossTenantAccess
  | ErrNilDeadline | ErrNilDereference | ErrRecordNotFound | ErrFormValidation | ErrFormDataTooLarge
  | ErrUrgeTooFrequent | ErrFlowNotFound | ErrFlowNotActive | ErrNotAllowedInitiate
  | ErrNoPublishedVersion | ErrDesign design_error | ErrStorage storage_error | ErrHost string

abbreviation ErrNoMatchingEdge :: error where "ErrNoMatchingEdge \<equiv> ErrEngine NoMatchingEdge"
abbreviation ErrProcessorNotFound :: error where "ErrProcessorNotFound \<equiv> ErrEngine ProcessorNotFound"
abbreviation ErrMaxNodeDepth :: error where "ErrMaxNodeDepth \<equiv> ErrEngine MaxNodeDepth"
abbreviation ErrActiveVisitNotFound :: error where "ErrActiveVisitNotFound \<equiv> ErrEngine ActiveVisitNotFound"
abbreviation ErrAssigneeServiceNotConfigured :: error where "ErrAssigneeServiceNotConfigured \<equiv> ErrEngine AssigneeServiceNotConfigured"
abbreviation ErrNoBranches :: error where "ErrNoBranches \<equiv> ErrEngine NoBranches"
abbreviation ErrNoMatchingBranch :: error where "ErrNoMatchingBranch \<equiv> ErrEngine NoMatchingBranch"
abbreviation ErrInvalidTransition :: error where "ErrInvalidTransition \<equiv> ErrEngine InvalidTransition"
abbreviation ErrFlowMissingStartNode :: error where "ErrFlowMissingStartNode \<equiv> ErrEngine FlowMissingStartNode"
abbreviation ErrFlowMissingTargetNode :: error where "ErrFlowMissingTargetNode \<equiv> ErrEngine FlowMissingTargetNode"
abbreviation ErrFlowNoNodes :: error where "ErrFlowNoNodes \<equiv> ErrEngine FlowNoNodes"
abbreviation ErrAmbiguousEdges :: error where "ErrAmbiguousEdges \<equiv> ErrEngine AmbiguousEdges"
abbreviation ErrUnknownNodeAction :: error where "ErrUnknownNodeAction \<equiv> ErrEngine UnknownNodeAction"
abbreviation ErrPassRuleNotFound :: error where "ErrPassRuleNotFound \<equiv> ErrEngine PassRuleNotFound"
abbreviation ErrConditionEvaluatorNotFound :: error where "ErrConditionEvaluatorNotFound \<equiv> ErrEngine ConditionEvaluatorNotFound"
abbreviation ErrAssigneeResolverNotFound :: error where "ErrAssigneeResolverNotFound \<equiv> ErrEngine AssigneeResolverNotFound"
abbreviation ErrInitiatorResolverNotFound :: error where "ErrInitiatorResolverNotFound \<equiv> ErrEngine InitiatorResolverNotFound"

end
