(* ===== verification/Approval_State_Machine.thy ===== *)
theory Approval_State_Machine
  imports Approval_Model
begin

text \<open>
  \<^verbatim>\<open>internal/approval/engine/state_machine.go\<close>: the generic transition table and the two
  tables the engine is built on, the instance lifecycle and the task lifecycle.  The locale
  \<open>lifecycle\<close> states what the callers rely on: a final status has no way out, and every
  other status still has a path to a final one.
\<close>

section \<open>The transition table\<close>

record 's StateMachine =
  sm_name :: string
  sm_transitions :: "'s \<rightharpoonup> 's set"

definition NewStateMachine :: "string \<Rightarrow> 's StateMachine" where
  "NewStateMachine nm = \<lparr>sm_name = nm, sm_transitions = Map.empty\<rparr>"

definition AddTransition :: "'s \<Rightarrow> 's \<Rightarrow> 's StateMachine \<Rightarrow> 's StateMachine" where
  "AddTransition from to sm =
     (let targets = (case sm_transitions sm from of None \<Rightarrow> {} | Some ts \<Rightarrow> ts)
      in sm\<lparr>sm_transitions := (sm_transitions sm)(from \<mapsto> insert to targets)\<rparr>)"

definition CanTransition :: "'s StateMachine \<Rightarrow> 's \<Rightarrow> 's \<Rightarrow> bool" where
  "CanTransition sm from to =
     (case sm_transitions sm from of None \<Rightarrow> False | Some targets \<Rightarrow> to \<in> targets)"

definition addAll :: "('s \<times> 's) list \<Rightarrow> 's StateMachine \<Rightarrow> 's StateMachine" where
  "addAll ps sm = fold (\<lambda>(from, to). AddTransition from to) ps sm"

definition InstanceStateMachine :: "InstanceStatus StateMachine" where
  "InstanceStateMachine = addAll
     [(InstanceRunning, InstanceApproved),
      (InstanceRunning, InstanceRejected),
      (InstanceRunning, InstanceWithdrawn),
      (InstanceRunning, InstanceTerminated),
      (InstanceRunning, InstanceReturned),
      (InstanceReturned, InstanceRunning),
      (InstanceWithdrawn, InstanceRunning),
      (InstanceReturned, InstanceWithdrawn),
      (InstanceReturned, InstanceTerminated),
      (InstanceWithdrawn, InstanceTerminated)]
     (NewStateMachine ''instance'')"

definition TaskStateMachine :: "TaskStatus StateMachine" where
  "TaskStateMachine = addAll
     [(TaskWaiting, TaskPending),
      (TaskWaiting, TaskCanceled),
      (TaskWaiting, TaskSkipped),
      (TaskWaiting, TaskRemoved),
      (TaskPending, TaskApproved),
      (TaskPending, TaskHandled),
      (TaskPending, TaskRejected),
      (TaskPending, TaskTransferred),
      (TaskPending, TaskRolledBack),
      (TaskPending, TaskCanceled),
      (TaskPending, TaskWaiting),
      (TaskPending, TaskRemoved)]
     (NewStateMachine ''task'')"

section \<open>What a registration changes\<close>

lemma CanTransition_New [simp]: "\<not> CanTransition (NewStateMachine nm) f t"
  by (simp add: CanTransition_def NewStateMachine_def)

lemma CanTransition_Add [simp]:
  "CanTransition (AddTransition a b sm) f t \<longleftrightarrow> (f = a \<and> t = b) \<or> CanTransition sm f t"
  by (auto simp: CanTransition_def AddTransition_def Let_def split: option.splits)

lemma CanTransition_addAll:
  "CanTransition (addAll ps sm) f t \<longleftrightarrow> (f, t) \<in> set ps \<or> CanTransition sm f t"
proof (induction ps arbitrary: sm)
  case Nil
  then show ?case by (simp add: addAll_def)
next
  case (Cons p ps)
  obtain a b where p: "p = (a, b)" by (cases p)
  have "addAll (p # ps) sm = addAll ps (AddTransition a b sm)" by (simp add: addAll_def p)
  then show ?case unfolding p by (simp only: Cons.IH CanTransition_Add) auto
qed

lemma instance_transitions:
  "CanTransition InstanceStateMachine f t \<longleftrightarrow>
     (f = InstanceRunning \<and> t \<noteq> InstanceRunning)
     \<or> (f = InstanceReturned \<and> t \<in> {InstanceRunning, InstanceWithdrawn, InstanceTerminated})
     \<or> (f = InstanceWithdrawn \<and> t \<in> {InstanceRunning, InstanceTerminated})"
  by (cases f; cases t) (simp_all add: InstanceStateMachine_def CanTransition_addAll)

lemma task_transitions:
  "CanTransition TaskStateMachine f t \<longleftrightarrow>
     (f = TaskWaiting \<and> t \<in> {TaskPending, TaskCanceled, TaskSkipped, TaskRemoved})
     \<or> (f = TaskPending \<and> t \<notin> {TaskPending, TaskSkipped})"
  by (cases f; cases t) (simp_all add: TaskStateMachine_def CanTransition_addAll)

section \<open>The lifecycle contract\<close>

locale lifecycle =
  fixes can :: "'s \<Rightarrow> 's \<Rightarrow> bool"
    and final :: "'s \<Rightarrow> bool"
  assumes final_stuck: "final s \<Longrightarrow> \<not> can s t"
    and closes: "\<not> final s \<Longrightarrow> \<exists>t. final t \<and> can\<^sup>*\<^sup>* s t"
    and irrefl: "\<not> can s s"
begin

lemma final_iff: "final s \<longleftrightarrow> (\<forall>t. \<not> can s t)"
  by (metis closes final_stuck converse_rtranclpE)

lemma final_absorbing: "can\<^sup>*\<^sup>* s t \<Longrightarrow> final s \<Longrightarrow> t = s"
  by (metis final_stuck converse_rtranclpE)

lemma history_after_final: "successively can (xs @ s # ys) \<Longrightarrow> final s \<Longrightarrow> ys = []"
  using final_stuck by (cases ys) (auto simp: successively_append_iff)

end

lemma instance_closes:
  assumes "\<not> InstanceStatus_IsFinal s"
  shows "\<exists>t. InstanceStatus_IsFinal t \<and> (CanTransition InstanceStateMachine)\<^sup>*\<^sup>* s t"
proof -
  have "CanTransition InstanceStateMachine s InstanceTerminated"
    using assms by (cases s) (auto simp: instance_transitions InstanceStatus_IsFinal_def)
  then show ?thesis by (auto simp: InstanceStatus_IsFinal_def)
qed

lemma task_closes:
  assumes "\<not> TaskStatus_IsFinal s"
  shows "\<exists>t. TaskStatus_IsFinal t \<and> (CanTransition TaskStateMachine)\<^sup>*\<^sup>* s t"
proof -
  have "CanTransition TaskStateMachine s TaskCanceled"
    using assms by (cases s) (auto simp: task_transitions TaskStatus_IsFinal_def)
  then show ?thesis by (auto simp: TaskStatus_IsFinal_def)
qed

interpretation inst: lifecycle "CanTransition InstanceStateMachine" InstanceStatus_IsFinal
proof (unfold_locales, goal_cases)
  case (1 s t) then show ?case by (auto simp: instance_transitions InstanceStatus_IsFinal_def)
next
  case (2 s) then show ?case by (rule instance_closes)
next
  case (3 s) then show ?case by (simp add: instance_transitions)
qed

interpretation task: lifecycle "CanTransition TaskStateMachine" TaskStatus_IsFinal
proof (unfold_locales, goal_cases)
  case (1 s t) then show ?case by (auto simp: task_transitions TaskStatus_IsFinal_def)
next
  case (2 s) then show ?case by (rule task_closes)
next
  case (3 s) then show ?case by (simp add: task_transitions)
qed

text \<open>The statuses a task can still be acted on or cancelled from.\<close>

definition cancelable :: "TaskStatus \<Rightarrow> bool" where
  "cancelable s \<longleftrightarrow> s = TaskPending \<or> s = TaskWaiting"

lemma cancelable_iff_not_final: "cancelable s \<longleftrightarrow> \<not> TaskStatus_IsFinal s"
  by (cases s) (simp_all add: cancelable_def TaskStatus_IsFinal_def)

end
