(* ===== verification/Form_Tables.thy ===== *)
theory Form_Tables
  imports Approval_Model
begin

text \<open>
  The physical tables of table-mode form storage (\<^verbatim>\<open>internal/approval/storage/ddl.go\<close> and
  \<^verbatim>\<open>types.go\<close>): the identifiers derived from form field keys, the deploy-time check of a field
  list, the resolved table specifications and the DDL text rendered from them.
\<close>

section \<open>Identifiers\<close>

definition inRange :: "nat \<Rightarrow> nat \<Rightarrow> char \<Rightarrow> bool" where
  "inRange lo hi c = (lo \<le> of_char c \<and> of_char c \<le> hi)"

definition lowerChar :: "char \<Rightarrow> bool" where
  "lowerChar c = (inRange 97 122 c \<or> inRange 48 57 c \<or> c = CHR ''_'')"

definition identStart :: "char \<Rightarrow> bool" where
  "identStart c = (inRange 65 90 c \<or> inRange 97 122 c \<or> c = CHR ''_'')"

definition identChar :: "char \<Rightarrow> bool" where
  "identChar c = (identStart c \<or> inRange 48 57 c)"

text \<open>\<open>businessIdentifierPattern\<close>.\<close>

definition identifierMaxLen :: nat where
  "identifierMaxLen = 63"

fun matchesIdentifier :: "string \<Rightarrow> bool" where
  "matchesIdentifier [] = False"
| "matchesIdentifier (c # cs) = (identStart c \<and> list_all identChar cs \<and> length cs \<le> 62)"

text \<open>\<^term>\<open>True\<close> is the nil error: a blank string passes.\<close>

definition ValidateBusinessIdentifier :: "string \<Rightarrow> bool" where
  "ValidateBusinessIdentifier s = (let trimmed = trimSpace s in trimmed = [] \<or> matchesIdentifier trimmed)"

text \<open>
  \<^verbatim>\<open>strings.ToLower\<close> up to the runes outside the identifier alphabet: beside the ASCII letters,
  the dotted capital I (U+0130) and the Kelvin sign (U+212A) are the only runes whose lower case is
  an ASCII letter; every other rune outside ASCII stays outside.
\<close>

definition lowerAscii :: "char \<Rightarrow> char" where
  "lowerAscii c = (if inRange 65 90 c then char_of (of_char c + 32 :: nat) else c)"

fun toLower :: "string \<Rightarrow> string" where
  "toLower [] = []"
| "toLower (c # cs) =
     (if hasPrefix [CHR 0xC4, CHR 0xB0] (c # cs) then CHR ''i'' # toLower (drop 1 cs)
      else if hasPrefix [CHR 0xE2, CHR 0x84, CHR 0xAA] (c # cs) then CHR ''k'' # toLower (drop 2 cs)
      else lowerAscii c # toLower cs)"

text \<open>A run of other characters becomes one underscore; the flag says that one is under way.\<close>

fun replaceRuns :: "bool \<Rightarrow> string \<Rightarrow> string" where
  "replaceRuns inRun [] = []"
| "replaceRuns inRun (c # cs) =
     (if lowerChar c then c # replaceRuns False cs
      else if inRun then replaceRuns True cs
      else CHR ''_'' # replaceRuns True cs)"

definition sanitizeForIdentifier :: "string \<Rightarrow> string" where
  "sanitizeForIdentifier s = replaceRuns False (toLower (trimSpace s))"

definition trimRightUnderscores :: "string \<Rightarrow> string" where
  "trimRightUnderscores s = rev (dropWhile (\<lambda>c. c = CHR ''_'') (rev s))"

section \<open>Dialects\<close>

datatype DBKind = Oracle | SQLServer | Postgres | MySQL | SQLite | DBKindOther string

record sqlTypes =
  ty_pk :: string
  ty_id :: string
  ty_text :: string
  ty_number :: string
  ty_integer :: string
  ty_boolean :: string
  ty_date :: string
  ty_datetime :: string
  ty_json :: string
  ty_timestamp :: string
  ty_now :: string

definition pkConstraint :: "DBKind \<Rightarrow> string \<Rightarrow> string" where
  "pkConstraint kind tableName =
     (if kind = Postgres then ''CONSTRAINT pk_'' @ tableName @ '' PRIMARY KEY'' else ''PRIMARY KEY'')"

definition postgresTypes :: sqlTypes where
  "postgresTypes = \<lparr>ty_pk = ''VARCHAR(32)'', ty_id = ''VARCHAR(32)'', ty_text = ''TEXT'', ty_number = ''NUMERIC'',
     ty_integer = ''BIGINT'', ty_boolean = ''BOOLEAN'', ty_date = ''DATE'', ty_datetime = ''TIMESTAMP'',
     ty_json = ''JSONB'', ty_timestamp = ''TIMESTAMP'', ty_now = ''LOCALTIMESTAMP''\<rparr>"

definition mysqlTypes :: sqlTypes where
  "mysqlTypes = \<lparr>ty_pk = ''VARCHAR(32)'', ty_id = ''VARCHAR(32)'', ty_text = ''TEXT'', ty_number = ''DECIMAL(38,10)'',
     ty_integer = ''BIGINT'', ty_boolean = ''BOOLEAN'', ty_date = ''DATE'', ty_datetime = ''DATETIME'',
     ty_json = ''JSON'', ty_timestamp = ''DATETIME'', ty_now = ''CURRENT_TIMESTAMP''\<rparr>"

text \<open>The quotes of the SQLite default are the character 39.\<close>

definition sqliteTypes :: sqlTypes where
  "sqliteTypes = \<lparr>ty_pk = ''TEXT'', ty_id = ''TEXT'', ty_text = ''TEXT'', ty_number = ''NUMERIC'',
     ty_integer = ''INTEGER'', ty_boolean = ''INTEGER'', ty_date = ''TEXT'', ty_datetime = ''TEXT'',
     ty_json = ''TEXT'', ty_timestamp = ''TIMESTAMP'',
     ty_now = ''(datetime('' @ [CHR 39] @ ''now'' @ [CHR 39] @ '', '' @ [CHR 39] @ ''localtime'' @ [CHR 39] @ ''))''\<rparr>"

definition typesFor :: "DBKind \<Rightarrow> sqlTypes option" where
  "typesFor kind =
     (case kind of Postgres \<Rightarrow> Some postgresTypes | MySQL \<Rightarrow> Some mysqlTypes | SQLite \<Rightarrow> Some sqliteTypes | _ \<Rightarrow> None)"

text \<open>\<^verbatim>\<open>%d\<close> of a number that is not negative.\<close>

function showNat :: "nat \<Rightarrow> string" where
  "showNat n = (if n < 10 then [char_of (48 + n)] else showNat (n div 10) @ [char_of (48 + n mod 10)])"
  by pat_completeness auto

termination showNat
  by (relation "measure id") auto

declare showNat.simps [simp del]

definition varcharType :: "DBKind \<Rightarrow> nat \<Rightarrow> string" where
  "varcharType kind len =
     (if kind = SQLite then ''TEXT''
      else if len > (if kind = MySQL then 16383 else 10485760) then ''TEXT''
      else ''VARCHAR('' @ showNat len @ '')'')"

definition maxDecimalScale :: nat where
  "maxDecimalScale = 30"

definition decimalType :: "DBKind \<Rightarrow> nat \<Rightarrow> string" where
  "decimalType kind scale =
     (let s = min scale maxDecimalScale
      in case kind of
           SQLite \<Rightarrow> ''NUMERIC''
         | MySQL \<Rightarrow> ''DECIMAL(38,'' @ showNat s @ '')''
         | _ \<Rightarrow> ''NUMERIC(38,'' @ showNat s @ '')'')"

definition sqlTypeForKind :: "sqlTypes \<Rightarrow> FieldKind \<Rightarrow> string" where
  "sqlTypeForKind t kind = (if kind = FieldNumber then ty_number t else ty_text t)"

definition columnTypeFor :: "DBKind \<Rightarrow> sqlTypes \<Rightarrow> FormFieldDefinition \<Rightarrow> string" where
  "columnTypeFor kind t field =
     (if ff_ColumnType field = ColumnTypeOther [] then sqlTypeForKind t (ff_Kind field)
      else case ff_ColumnType field of
        ColumnString \<Rightarrow>
          (case Option.bind (ff_Validation field) vr_MaxLength of
             Some n \<Rightarrow> if n > 0 then varcharType kind (nat n) else ty_text t
           | None \<Rightarrow> ty_text t)
      | ColumnInteger \<Rightarrow> ty_integer t
      | ColumnDecimal \<Rightarrow>
          decimalType kind (case ff_Scale field of Some s \<Rightarrow> if s > 0 then nat s else 0 | None \<Rightarrow> 0)
      | ColumnBoolean \<Rightarrow> ty_boolean t
      | ColumnDate \<Rightarrow> ty_date t
      | ColumnDatetime \<Rightarrow> ty_datetime t
      | ColumnJSON \<Rightarrow> ty_json t
      | _ \<Rightarrow> ty_text t)"

section \<open>The deploy-time check\<close>

definition reservedColumns :: "string list" where
  "reservedColumns = [''id'', ''instance_id'', ''row_index'', ''created_at'']"

definition validateColumnField :: "FormFieldDefinition \<Rightarrow> string list \<Rightarrow> storage_error + string list" where
  "validateColumnField field pool =
     bindE (ensure (ff_ColumnType field = ColumnTypeOther [] \<or> ColumnDataType_IsValid (ff_ColumnType field))
              ErrInvalidColumnType) (\<lambda>_.
     let column = sanitizeForIdentifier (ff_Key field)
     in bindE (ensure (ValidateBusinessIdentifier column) ErrInvalidGeneratedIdentifier) (\<lambda>_.
        bindE (ensure (column \<notin> set reservedColumns) ErrReservedColumnName) (\<lambda>_.
        bindE (ensure (column \<notin> set pool) ErrDuplicateColumnName) (\<lambda>_.
          Inr (column # pool)))))"

definition physicalTablePrefix :: string where
  "physicalTablePrefix = ''apv_form_''"

definition childSuffixBudget :: nat where
  "childSuffixBudget = identifierMaxLen - length physicalTablePrefix - 20 - 2"

definition childTableSuffix :: "string \<Rightarrow> string" where
  "childTableSuffix fieldKey =
     (let suffix = sanitizeForIdentifier fieldKey
      in if length suffix > childSuffixBudget then trimRightUnderscores (take childSuffixBudget suffix) else suffix)"

definition validateChildTableSchema :: "FormFieldDefinition \<Rightarrow> string list \<Rightarrow> storage_error + string list" where
  "validateChildTableSchema field childNames =
     (let suffix = childTableSuffix (ff_Key field)
      in bindE (ensure (ValidateBusinessIdentifier suffix) ErrInvalidGeneratedIdentifier) (\<lambda>_.
         bindE (ensure (suffix \<notin> set childNames) ErrDuplicateColumnName) (\<lambda>_.
         bindE (foldE validateColumnField (ff_Columns field) reservedColumns) (\<lambda>_.
           Inr (suffix # childNames)))))"

text \<open>The loop over the fields, with the columns and the child table names taken so far.\<close>

definition validateTableEntry ::
    "FormFieldDefinition \<Rightarrow> string list \<times> string list \<Rightarrow> storage_error + (string list \<times> string list)" where
  "validateTableEntry field st =
     (let (pool, childNames) = st
      in if ff_Kind field = FieldTable
         then bindE (validateChildTableSchema field childNames) (\<lambda>childNames'. Inr (pool, childNames'))
         else bindE (validateColumnField field pool) (\<lambda>pool'. Inr (pool', childNames)))"

definition ValidateTableFormSchema :: "FormFieldDefinition list \<Rightarrow> storage_error + unit" where
  "ValidateTableFormSchema fs = bindE (foldE validateTableEntry fs (reservedColumns, [])) (\<lambda>_. Inr ())"

section \<open>Table specifications\<close>

record columnSpec =
  cs_Name :: string
  cs_Type :: string
  cs_IsNullable :: bool
  cs_SourceFieldKey :: "string option"
  cs_SortOrder :: nat

record tableSpec =
  ts_Name :: string
  ts_SourceFieldKey :: string
  ts_Columns :: "columnSpec list"

definition IsChild :: "tableSpec \<Rightarrow> bool" where
  "IsChild s = (ts_SourceFieldKey s \<noteq> [])"

definition buildPhysicalTableName :: "string \<Rightarrow> string \<Rightarrow> storage_error + string" where
  "buildPhysicalTableName flowCode versionID =
     (let code = sanitizeForIdentifier flowCode;
          codeBudget = int identifierMaxLen - int (length physicalTablePrefix) - int (length versionID) - 1;
          cut = (if codeBudget > 0 \<and> int (length code) > codeBudget then take (nat codeBudget) code else code);
          readable = trimRightUnderscores cut;
          name = (if codeBudget > 0 \<and> readable \<noteq> []
                  then physicalTablePrefix @ readable @ ''_'' @ versionID else physicalTablePrefix @ versionID)
      in bindE (ensure (ValidateBusinessIdentifier name) ErrInvalidGeneratedIdentifier) (\<lambda>_. Inr name))"

definition buildChildTableName :: "string \<Rightarrow> string \<Rightarrow> storage_error + string" where
  "buildChildTableName versionID fieldKey =
     (let name = physicalTablePrefix @ versionID @ ''__'' @ childTableSuffix fieldKey
      in bindE (ensure (ValidateBusinessIdentifier name) ErrInvalidGeneratedIdentifier) (\<lambda>_. Inr name))"

text \<open>The columns of the fields, numbered from the built-in ones on.\<close>

definition builtinColumn :: "string \<Rightarrow> string \<Rightarrow> nat \<Rightarrow> columnSpec" where
  "builtinColumn name ty n =
     \<lparr>cs_Name = name, cs_Type = ty, cs_IsNullable = False, cs_SourceFieldKey = None, cs_SortOrder = n\<rparr>"

definition fieldColumn :: "DBKind \<Rightarrow> sqlTypes \<Rightarrow> FormFieldDefinition \<Rightarrow> nat \<Rightarrow> columnSpec" where
  "fieldColumn kind t field n =
     \<lparr>cs_Name = sanitizeForIdentifier (ff_Key field), cs_Type = columnTypeFor kind t field,
      cs_IsNullable = (\<not> ff_IsRequired field), cs_SourceFieldKey = Some (ff_Key field), cs_SortOrder = n\<rparr>"

fun childColumns :: "DBKind \<Rightarrow> sqlTypes \<Rightarrow> FormFieldDefinition list \<Rightarrow> nat \<Rightarrow> columnSpec list" where
  "childColumns kind t [] n = [builtinColumn ''created_at'' (ty_timestamp t) n]"
| "childColumns kind t (c # cs) n = fieldColumn kind t c n # childColumns kind t cs (Suc n)"

definition buildChildTableSpec ::
    "DBKind \<Rightarrow> sqlTypes \<Rightarrow> string \<Rightarrow> FormFieldDefinition \<Rightarrow> storage_error + tableSpec" where
  "buildChildTableSpec kind t versionID field =
     bindE (buildChildTableName versionID (ff_Key field)) (\<lambda>name.
       Inr \<lparr>ts_Name = name, ts_SourceFieldKey = ff_Key field,
            ts_Columns = [builtinColumn ''id'' (ty_pk t) 0, builtinColumn ''instance_id'' (ty_id t) 1,
              builtinColumn ''row_index'' (ty_integer t) 2] @ childColumns kind t (ff_Columns field) 3\<rparr>)"

fun buildEntries ::
    "DBKind \<Rightarrow> sqlTypes \<Rightarrow> string \<Rightarrow> FormFieldDefinition list \<Rightarrow> nat
     \<Rightarrow> storage_error + (columnSpec list \<times> tableSpec list)" where
  "buildEntries kind t versionID [] n = Inr ([builtinColumn ''created_at'' (ty_timestamp t) n], [])"
| "buildEntries kind t versionID (f # fs) n =
     (if ff_Kind f = FieldTable then
        bindE (buildChildTableSpec kind t versionID f) (\<lambda>child.
        bindE (buildEntries kind t versionID fs n) (\<lambda>(cols, children). Inr (cols, child # children)))
      else
        bindE (buildEntries kind t versionID fs (Suc n)) (\<lambda>(cols, children).
          Inr (fieldColumn kind t f n # cols, children)))"

definition buildTableSpecs ::
    "DBKind \<Rightarrow> string \<Rightarrow> string \<Rightarrow> FormFieldDefinition list \<Rightarrow> storage_error + tableSpec list" where
  "buildTableSpecs kind flowCode versionID fs =
     bindE (ofOption ErrUnsupportedDialect (typesFor kind)) (\<lambda>t.
     bindE (ValidateTableFormSchema fs) (\<lambda>_.
     bindE (buildPhysicalTableName flowCode versionID) (\<lambda>mainName.
     bindE (buildEntries kind t versionID fs 2) (\<lambda>(cols, children).
       Inr (\<lparr>ts_Name = mainName, ts_SourceFieldKey = [],
             ts_Columns = [builtinColumn ''id'' (ty_pk t) 0, builtinColumn ''instance_id'' (ty_id t) 1] @ cols\<rparr>
            # children)))))"

section \<open>DDL\<close>

definition childIndexName :: "string \<Rightarrow> string" where
  "childIndexName tableName =
     (let suffix = ''__instance_id''; base = ''idx_'' @ tableName
      in (if length base + length suffix > identifierMaxLen
          then trimRightUnderscores (take (identifierMaxLen - length suffix) base) else base) @ suffix)"

definition columnLine :: "DBKind \<Rightarrow> sqlTypes \<Rightarrow> tableSpec \<Rightarrow> columnSpec \<Rightarrow> string" where
  "columnLine kind t table spec =
     (let nullClause = (if cs_IsNullable spec then [] else '' NOT NULL'');
          head = ''    '' @ cs_Name spec @ '' '' @ cs_Type spec
      in if cs_Name spec = ''id'' then head @ '' '' @ pkConstraint kind (ts_Name table)
         else if cs_Name spec = ''instance_id''
              then head @ (if IsChild table then '' NOT NULL'' else '' NOT NULL UNIQUE'')
         else if cs_Name spec = ''created_at'' then head @ '' NOT NULL DEFAULT '' @ ty_now t
         else head @ nullClause)"

text \<open>\<^verbatim>\<open>strings.Join\<close>.\<close>

fun joinWith :: "string \<Rightarrow> string list \<Rightarrow> string" where
  "joinWith sep [] = []"
| "joinWith sep [x] = x"
| "joinWith sep (x # y # ys) = x @ sep @ joinWith sep (y # ys)"

definition renderCreateTable :: "DBKind \<Rightarrow> tableSpec \<Rightarrow> storage_error + string" where
  "renderCreateTable kind table =
     bindE (ensure (ValidateBusinessIdentifier (ts_Name table)) ErrInvalidGeneratedIdentifier) (\<lambda>_.
     bindE (ofOption ErrUnsupportedDialect (typesFor kind)) (\<lambda>t.
     bindE (mapE (\<lambda>spec.
              bindE (ensure (ValidateBusinessIdentifier (cs_Name spec)) ErrInvalidGeneratedIdentifier) (\<lambda>_.
                Inr (columnLine kind t table spec))) (ts_Columns table)) (\<lambda>columnLines.
       let lines = columnLines @ (if IsChild table \<and> kind = MySQL then [''    INDEX idx_instance_id (instance_id)''] else [])
       in Inr (''CREATE TABLE IF NOT EXISTS '' @ ts_Name table @ '' (\<newline>'' @ joinWith '',\<newline>'' lines @ ''\<newline>)''))))"

definition renderTableStatements :: "DBKind \<Rightarrow> tableSpec \<Rightarrow> storage_error + string list" where
  "renderTableStatements kind table =
     bindE (renderCreateTable kind table) (\<lambda>createSQL.
       Inr (createSQL # (if IsChild table \<and> kind \<noteq> MySQL
         then [''CREATE INDEX IF NOT EXISTS '' @ childIndexName (ts_Name table) @ '' ON '' @ ts_Name table @ ''(instance_id)'']
         else [])))"

end
