(* ===== verification/Approval_Store.thy ===== *)
theory Approval_Store
  imports Approval_State_Machine Form_Tables
begin

text \<open>
  The persistent state of the approval module and the environment it runs in.  A table is the
  list of its rows in insertion order, so \<^verbatim>\<open>ORDER BY created_at\<close> is the order of the list and a
  stable sort models \<^verbatim>\<open>ORDER BY sort_order\<close>.  A command runs in one transaction under the
  instance's row lock: it is a function from the state to an error or a new state, and an
  error leaves the state as it was.  Domain events and audit rows are appended to the state in
  the order they are emitted.

  The environment \<open>env\<close> holds what the code calls but does not define: the clock, the id
  generator, the host's user directory and organisation service, the registered resolvers and
  evaluators, the lifecycle hooks, the host's data dictionaries, and of the standard library the
  regular expressions (a pattern that compiles gives its matcher), \<^verbatim>\<open>fmt.Sprint\<close> of a form value
  and the length of the JSON encoding of a form, the encoding of a composite value and the
  conversion to \<^verbatim>\<open>int64\<close> of a float out of its range; the dialect of table-mode form storage
  (\<^term>\<open>None\<close> without a dispatcher); for the start of an instance, the instance
  number generator, the execution of a title template by \<^verbatim>\<open>text/template\<close>, the provider of the
  business reference and the claim of the business record.
\<close>

section \<open>State and environment\<close>

text \<open>
  A physical form table: the columns it was created with, whether it is a child table (many rows
  per instance), and its rows.  A bound value is what the driver is handed for a placeholder.
\<close>

datatype BindValue = VNull | VBool bool | VNum rat | VStr string | VInt int

record PhysicalTable =
  pt_Columns :: "columnSpec list"
  pt_Child :: bool
  pt_Rows :: "(string \<times> BindValue) list list"

record db =
  db_categories :: "FlowCategory list"
  db_flows :: "Flow list"
  db_versions :: "FlowVersion list"
  db_initiators :: "FlowInitiator list"
  db_nodes :: "FlowNode list"
  db_edges :: "FlowEdge list"
  db_node_assignees :: "FlowNodeAssignee list"
  db_node_ccs :: "FlowNodeCC list"
  db_form_tables :: "FormTable list"
  db_form_columns :: "FormTableColumn list"
  db_physical :: "string \<rightharpoonup> PhysicalTable"
  db_delegations :: "Delegation list"
  db_instances :: "Instance list"
  db_tasks :: "Task list"
  db_visits :: "NodeVisit list"
  db_snapshots :: "FormSnapshot list"
  db_ccs :: "CCRecord list"
  db_urges :: "UrgeRecord list"
  db_logs :: "ActionLog list"
  db_events :: "DomainEvent list"
  db_next_id :: nat

record EvaluationContext =
  ec_FormData :: FormData
  ec_ApplicantID :: string
  ec_ApplicantDepartmentID :: "string option"
  ec_Globals :: FormData

record NodeResolveContext =
  rc_Instance :: Instance
  rc_Node :: FlowNode
  rc_FormData :: FormData

record InitiatorResolveContext =
  irc_FlowID :: string
  irc_TenantID :: string
  irc_Applicant :: UserInfo

record env =
  env_now :: DateTime
  env_new_id :: "nat \<Rightarrow> string"
  env_collector :: bool
  env_resolve_users :: "(string list \<Rightarrow> error + (string \<rightharpoonup> UserInfo)) option"
  env_get_superior :: "(string \<Rightarrow> error + UserInfo option) option"
  env_assignee_resolvers ::
    "string \<rightharpoonup> (FlowNodeAssignee \<Rightarrow> NodeResolveContext \<Rightarrow> error + ResolvedAssignee list)"
  env_cc_resolvers :: "string \<rightharpoonup> (FlowNodeCC \<Rightarrow> NodeResolveContext \<Rightarrow> error + string list)"
  env_condition_evaluators :: "string \<rightharpoonup> (Condition \<Rightarrow> EvaluationContext \<Rightarrow> error + bool)"
  env_inexactFloat64 :: "rat \<Rightarrow> rat"
  env_on_transition :: "db \<Rightarrow> Instance \<Rightarrow> InstanceStatus \<Rightarrow> InstanceStatus \<Rightarrow> error option"
  env_on_created :: "db \<Rightarrow> Instance \<Rightarrow> error option"
  env_regexp_match :: "string \<Rightarrow> (string \<Rightarrow> bool) option"
  env_sprint :: "json \<Rightarrow> string"
  env_code_sets :: "(string \<Rightarrow> error + (string \<rightharpoonup> string)) option"
  env_form_size :: "(string \<times> json) list \<Rightarrow> int"
  env_form_max_bytes :: int
  env_form_storage :: "DBKind option"
  env_marshal :: "json \<Rightarrow> string"
  env_int64_overflow :: "rat \<Rightarrow> int"
  env_initiator_resolvers :: "string \<rightharpoonup> (FlowInitiator \<Rightarrow> InitiatorResolveContext \<Rightarrow> error + bool)"
  env_instance_no :: "string \<Rightarrow> string \<Rightarrow> error + string"
  env_execute_template :: "string \<Rightarrow> Flow \<Rightarrow> string \<Rightarrow> FormData \<Rightarrow> UserInfo \<Rightarrow> error + string"
  env_business_ref :: "db \<Rightarrow> Flow \<Rightarrow> FlowVersion \<Rightarrow> Instance \<Rightarrow> error + string"
  env_bind_projection :: "(db \<Rightarrow> Flow \<Rightarrow> FlowVersion \<Rightarrow> Instance \<Rightarrow> error + string) option"

section \<open>Row operations\<close>

definition allocId :: "env \<Rightarrow> db \<Rightarrow> string \<times> db" where
  "allocId env db = (env_new_id env (db_next_id db), db\<lparr>db_next_id := Suc (db_next_id db)\<rparr>)"

definition insertTask :: "env \<Rightarrow> Task \<Rightarrow> db \<Rightarrow> Task \<times> db" where
  "insertTask env task db =
     (let (id, db1) = allocId env db; row = task\<lparr>t_ID := id\<rparr>
      in (row, db1\<lparr>db_tasks := db_tasks db1 @ [row]\<rparr>))"

definition insertVisit :: "env \<Rightarrow> NodeVisit \<Rightarrow> db \<Rightarrow> NodeVisit \<times> db" where
  "insertVisit env visit db =
     (let (id, db1) = allocId env db; row = visit\<lparr>v_ID := id\<rparr>
      in (row, db1\<lparr>db_visits := db_visits db1 @ [row]\<rparr>))"

definition insertCC :: "env \<Rightarrow> CCRecord \<Rightarrow> db \<Rightarrow> db" where
  "insertCC env rec db =
     (let (id, db1) = allocId env db
      in db1\<lparr>db_ccs := db_ccs db1 @ [rec\<lparr>cc_ID := id\<rparr>]\<rparr>)"

definition insertInstance :: "env \<Rightarrow> Instance \<Rightarrow> db \<Rightarrow> Instance \<times> db" where
  "insertInstance env inst db =
     (let (id, db1) = allocId env db; row = inst\<lparr>i_ID := id\<rparr>
      in (row, db1\<lparr>db_instances := db_instances db1 @ [row]\<rparr>))"

definition updateTasks :: "(Task \<Rightarrow> bool) \<Rightarrow> (Task \<Rightarrow> Task) \<Rightarrow> db \<Rightarrow> db" where
  "updateTasks P f db = db\<lparr>db_tasks := updateWhere P f (db_tasks db)\<rparr>"

definition updateVisits :: "(NodeVisit \<Rightarrow> bool) \<Rightarrow> (NodeVisit \<Rightarrow> NodeVisit) \<Rightarrow> db \<Rightarrow> db" where
  "updateVisits P f db = db\<lparr>db_visits := updateWhere P f (db_visits db)\<rparr>"

definition updateInstances :: "(Instance \<Rightarrow> bool) \<Rightarrow> (Instance \<Rightarrow> Instance) \<Rightarrow> db \<Rightarrow> db" where
  "updateInstances P f db = db\<lparr>db_instances := updateWhere P f (db_instances db)\<rparr>"

text \<open>An UPDATE with a model and a column list copies those columns of the model to the row.\<close>

datatype InstanceCol = ColStatus | ColCurrentNodeID | ColFinishedAt | ColFormData

fun copyInstanceCol :: "Instance \<Rightarrow> InstanceCol \<Rightarrow> Instance \<Rightarrow> Instance" where
  "copyInstanceCol m ColStatus row = row\<lparr>i_Status := i_Status m\<rparr>"
| "copyInstanceCol m ColCurrentNodeID row = row\<lparr>i_CurrentNodeID := i_CurrentNodeID m\<rparr>"
| "copyInstanceCol m ColFinishedAt row = row\<lparr>i_FinishedAt := i_FinishedAt m\<rparr>"
| "copyInstanceCol m ColFormData row = row\<lparr>i_FormData := i_FormData m\<rparr>"

definition copyInstanceCols :: "InstanceCol list \<Rightarrow> Instance \<Rightarrow> Instance \<Rightarrow> Instance" where
  "copyInstanceCols cols m row = fold (copyInstanceCol m) cols row"

definition findInstance :: "string \<Rightarrow> db \<Rightarrow> Instance option" where
  "findInstance iid db = find (\<lambda>i. i_ID i = iid) (db_instances db)"

definition findTask :: "string \<Rightarrow> db \<Rightarrow> Task option" where
  "findTask tid db = find (\<lambda>t. t_ID t = tid) (db_tasks db)"

definition findNode :: "string \<Rightarrow> db \<Rightarrow> FlowNode option" where
  "findNode nid db = find (\<lambda>n. n_ID n = nid) (db_nodes db)"

definition findVersion :: "string \<Rightarrow> db \<Rightarrow> FlowVersion option" where
  "findVersion vid db = find (\<lambda>v. fv_ID v = vid) (db_versions db)"

definition findFlow :: "string \<Rightarrow> db \<Rightarrow> Flow option" where
  "findFlow fid db = find (\<lambda>f. fl_ID f = fid) (db_flows db)"

text \<open>
  \<^verbatim>\<open>behavior.EmitEvents\<close>: inside the command pipeline the request's collector buffers the
  events and publishes them in order; the scanner publishes them directly.
\<close>

definition EmitEvents :: "DomainEvent list \<Rightarrow> db \<Rightarrow> db" where
  "EmitEvents evs db = db\<lparr>db_events := db_events db @ evs\<rparr>"

definition addLog :: "env \<Rightarrow> ActionLog \<Rightarrow> db \<Rightarrow> db" where
  "addLog env l db = (if env_collector env then db\<lparr>db_logs := db_logs db @ [l]\<rparr> else db)"

definition NewFormData :: "FormData \<Rightarrow> FormData" where
  "NewFormData d = (case d of None \<Rightarrow> Some [] | Some m \<Rightarrow> Some m)"

definition zeroUserInfo :: UserInfo where
  "zeroUserInfo = \<lparr>u_ID = [], u_Name = [], u_DepartmentID = None, u_DepartmentName = None\<rparr>"

definition SystemOperator :: UserInfo where
  "SystemOperator = zeroUserInfo\<lparr>u_ID := ''system'',
     u_Name := [CHR 0xE7, CHR 0xB3, CHR 0xBB, CHR 0xE7, CHR 0xBB, CHR 0x9F]\<rparr>"

definition NewActionLog :: "UserInfo \<Rightarrow> string \<Rightarrow> ActionType \<Rightarrow> ActionLog" where
  "NewActionLog u iid action =
     \<lparr>l_InstanceID = iid, l_NodeID = None, l_TaskID = None, l_Action = action, l_Operator = u,
      l_IPAddress = None, l_UserAgent = None, l_Opinion = None, l_TransferTo = None,
      l_RollbackToNodeID = None, l_AddAssigneeType = None, l_AddedAssignees = [],
      l_RemovedAssignees = [], l_CCUsers = [], l_Attachments = [], l_Meta = None\<rparr>"

section \<open>The user directory\<close>

fun restrictInfos :: "string list \<Rightarrow> (string \<rightharpoonup> UserInfo) \<Rightarrow> (string \<rightharpoonup> UserInfo) \<Rightarrow> (string \<rightharpoonup> UserInfo)" where
  "restrictInfos [] resolved infos = infos"
| "restrictInfos (uid # ids) resolved infos =
     restrictInfos ids resolved (case resolved uid of None \<Rightarrow> infos | Some info \<Rightarrow> infos(uid \<mapsto> info))"

definition ResolveUserInfoMap :: "env \<Rightarrow> string list \<Rightarrow> error + (string \<rightharpoonup> UserInfo)" where
  "ResolveUserInfoMap env ids =
     (case env_resolve_users env of
        None \<Rightarrow> Inr Map.empty
      | Some resolve \<Rightarrow>
          if ids = [] then Inr Map.empty
          else bindE (resolve ids) (\<lambda>resolved. Inr (restrictInfos ids resolved Map.empty)))"

definition ResolveUserInfoMapSilent :: "env \<Rightarrow> string list \<Rightarrow> (string \<rightharpoonup> UserInfo)" where
  "ResolveUserInfoMapSilent env ids =
     (case ResolveUserInfoMap env ids of Inl _ \<Rightarrow> Map.empty | Inr m \<Rightarrow> m)"

definition infoOf :: "(string \<rightharpoonup> UserInfo) \<Rightarrow> string \<Rightarrow> UserInfo" where
  "infoOf infos uid = (case infos uid of None \<Rightarrow> zeroUserInfo | Some info \<Rightarrow> info)\<lparr>u_ID := uid\<rparr>"

definition ResolveUserInfo :: "env \<Rightarrow> string \<Rightarrow> UserInfo" where
  "ResolveUserInfo env uid =
     (if uid = [] then zeroUserInfo else infoOf (ResolveUserInfoMapSilent env [uid]) uid)"

definition UserInfos :: "string list \<Rightarrow> (string \<rightharpoonup> UserInfo) \<Rightarrow> UserInfo list" where
  "UserInfos ids infos = map (infoOf infos) ids"

text \<open>\<open>timex.Now().AddHours\<close>; instants are in seconds.\<close>

definition AddHours :: "DateTime \<Rightarrow> int \<Rightarrow> DateTime" where
  "AddHours t h = t + h * 3600"

definition ComputeTaskDeadline :: "env \<Rightarrow> int \<Rightarrow> DateTime option" where
  "ComputeTaskDeadline env timeoutHours =
     (if timeoutHours \<le> 0 then None else Some (AddHours (env_now env) timeoutHours))"

lemma restrictInfos_eq:
  "restrictInfos ids resolved infos uid =
     (if uid \<in> set ids \<and> resolved uid \<noteq> None then resolved uid else infos uid)"
  by (induction ids arbitrary: infos) (auto split: option.splits)

lemma infoOf_ID [simp]: "u_ID (infoOf infos uid) = uid"
  by (simp add: infoOf_def)

section \<open>Carbon copy records\<close>

fun insertCCs :: "env \<Rightarrow> CCRecord list \<Rightarrow> db \<Rightarrow> db" where
  "insertCCs env [] db = db"
| "insertCCs env (r # rs) db = insertCCs env rs (insertCC env r db)"

definition InsertCCRecords ::
    "env \<Rightarrow> string \<Rightarrow> string option \<Rightarrow> string option \<Rightarrow> string list \<Rightarrow> (string \<rightharpoonup> UserInfo) \<Rightarrow> bool
     \<Rightarrow> db \<Rightarrow> string list \<times> db" where
  "InsertCCRecords env iid nodeID visitID userIDs userInfos isManual db =
     (let normalizedUserIDs = NormalizeUniqueIDs userIDs
      in if normalizedUserIDs = [] then ([], db)
      else
        let existing = map (\<lambda>r. u_ID (cc_User r))
              (filter (\<lambda>r. cc_InstanceID r = iid \<and> u_ID (cc_User r) \<in> set normalizedUserIDs
                 \<and> (case nodeID of
                      None \<Rightarrow> cc_NodeID r = None
                    | Some n \<Rightarrow> cc_NodeID r = Some n \<and> cc_VisitID r = visitID)) (db_ccs db));
            inserted = filter (\<lambda>u. u \<notin> set existing) normalizedUserIDs
        in if inserted = [] then ([], db)
        else
          let records = map (\<lambda>u. \<lparr>cc_ID = [], cc_InstanceID = iid, cc_NodeID = nodeID,
                 cc_VisitID = visitID, cc_TaskID = None, cc_User = infoOf userInfos u,
                 cc_IsManual = isManual, cc_ReadAt = None\<rparr>) inserted
          in (inserted, insertCCs env records db))"

definition InsertAutoCCRecords ::
    "env \<Rightarrow> string \<Rightarrow> string \<Rightarrow> string \<Rightarrow> string list \<Rightarrow> (string \<rightharpoonup> UserInfo) \<Rightarrow> db \<Rightarrow> string list \<times> db" where
  "InsertAutoCCRecords env iid nodeID visitID userIDs infos db =
     InsertCCRecords env iid (Some nodeID) (Some visitID) userIDs infos False db"

definition InsertManualCCRecords ::
    "env \<Rightarrow> string \<Rightarrow> string \<Rightarrow> string \<Rightarrow> string list \<Rightarrow> (string \<rightharpoonup> UserInfo) \<Rightarrow> db \<Rightarrow> string list \<times> db" where
  "InsertManualCCRecords env iid nodeID visitID userIDs infos db =
     InsertCCRecords env iid (Some nodeID) (Some visitID) userIDs infos True db"

definition HasUnreadCCRecords :: "string \<Rightarrow> string \<Rightarrow> string \<Rightarrow> db \<Rightarrow> bool" where
  "HasUnreadCCRecords iid nodeID visitID db =
     list_ex (\<lambda>r. cc_InstanceID r = iid \<and> cc_NodeID r = Some nodeID \<and> cc_VisitID r = Some visitID
       \<and> cc_ReadAt r = None) (db_ccs db)"

section \<open>Zero values\<close>

text \<open>The zero value of the node struct.\<close>

definition zeroFlowNode :: FlowNode where
  "zeroFlowNode =
     \<lparr>n_ID = [], n_FlowVersionID = [], n_Key = [], n_Kind = NodeKindOther [], n_Name = [],
      n_Description = None, n_ExecutionType = ExecutionOther [], n_ApprovalMethod = ApprovalMethodOther [],
      n_PassRule = PassRuleOther [], n_PassRatio = 0, n_PassCount = 0,
      n_EmptyAssigneeAction = EmptyAssigneeOther [], n_FallbackUserIDs = [], n_AdminUserIDs = [],
      n_SameApplicantAction = SameApplicantOther [], n_IsRollbackAllowed = False,
      n_RollbackType = RollbackOther [], n_RollbackDataStrategy = RollbackDataOther [],
      n_RollbackTargetKeys = [], n_IsAddAssigneeAllowed = False, n_AddAssigneeTypes = [],
      n_IsRemoveAssigneeAllowed = False, n_FieldPermissions = [], n_IsManualCCAllowed = False,
      n_IsTransferAllowed = False, n_IsOpinionRequired = False, n_TimeoutHours = 0,
      n_TimeoutAction = TimeoutActionOther [], n_TimeoutNotifyBeforeHours = 0,
      n_UrgeCooldownMinutes = 0, n_ConsecutiveApproverAction = ConsecutiveApproverOther [],
      n_IsReadConfirmRequired = False, n_Branches = []\<rparr>"

section \<open>A concrete store and environment\<close>

text \<open>The instances the witnesses of the development evaluate.\<close>

definition emptyDb :: db where
  "emptyDb = \<lparr>db_categories = [], db_flows = [], db_versions = [], db_initiators = [], db_nodes = [],
     db_edges = [], db_node_assignees = [], db_node_ccs = [], db_form_tables = [], db_form_columns = [],
     db_physical = Map.empty, db_delegations = [], db_instances = [], db_tasks = [], db_visits = [], db_snapshots = [],
     db_ccs = [], db_urges = [], db_logs = [], db_events = [], db_next_id = 0\<rparr>"

definition exampleEnv :: env where
  "exampleEnv = \<lparr>env_now = 1000, env_new_id = (\<lambda>n. replicate (Suc n) (CHR ''i'')), env_collector = True,
     env_resolve_users = None, env_get_superior = None,
     env_assignee_resolvers = [''user'' \<mapsto> (\<lambda>a rc. Inr (map (\<lambda>i.
         \<lparr>ra_User = infoOf Map.empty i, ra_Delegator = None\<rparr>) (na_IDs a)))],
     env_cc_resolvers = [''user'' \<mapsto> (\<lambda>c rc. Inr (NormalizeUniqueIDs (nc_IDs c)))],
     env_condition_evaluators = Map.empty, env_inexactFloat64 = (\<lambda>x. x),
     env_on_transition = (\<lambda>db inst from to. None), env_on_created = (\<lambda>db inst. None),
     env_regexp_match = (\<lambda>p. Some (\<lambda>s. p = s)),
     env_sprint = (\<lambda>v. case v of JStr s \<Rightarrow> s | _ \<Rightarrow> []), env_code_sets = None, env_form_size = (\<lambda>d. 0), env_form_max_bytes = 1000,
     env_form_storage = Some Postgres,
     env_marshal = (\<lambda>v. ''[]''), env_int64_overflow = (\<lambda>f. 0), env_initiator_resolvers = Map.empty,
     env_instance_no = (\<lambda>tenant code. Inr (code @ ''-1'')),
     env_execute_template = (\<lambda>tmpl flow no d u. Inr tmpl),
     env_business_ref = (\<lambda>db flow version inst. Inr []), env_bind_projection = None\<rparr>"

end
