(* ===== verification/Compiled_Flow.thy ===== *)
theory Compiled_Flow
  imports Approval_Store
begin

text \<open>
  \<^verbatim>\<open>engine/compiled_flow.go\<close>: the compiled form of a published version and the edge lookup the
  engine advances by.  The cache in front of \<open>compile\<close> is modelled, and shown to make no
  difference, in \<^verbatim>\<open>Flow_Cache\<close>.
\<close>

record CompiledFlow =
  cf_FlowVersionID :: string
  cf_Nodes :: "string \<rightharpoonup> FlowNode"
  cf_StartNode :: "FlowNode option"
  cf_EdgesBySource :: "string \<Rightarrow> FlowEdge list"

definition FindOutgoing :: "CompiledFlow \<Rightarrow> string \<Rightarrow> string option \<Rightarrow> error + FlowEdge" where
  "FindOutgoing c sourceNodeID branchID =
     (let candidates = cf_EdgesBySource c sourceNodeID
      in if candidates = [] then Inl ErrNoMatchingEdge
      else
        let matches = (case branchID of
              None \<Rightarrow> candidates
            | Some b \<Rightarrow> filter (\<lambda>e. e_SourceHandle e = Some b) candidates)
        in case matches of
            [] \<Rightarrow> Inl ErrNoMatchingEdge
          | [e] \<Rightarrow> Inr e
          | _ \<Rightarrow> Inl ErrAmbiguousEdges)"

fun compileNodes :: "FlowNode list \<Rightarrow> CompiledFlow \<Rightarrow> CompiledFlow" where
  "compileNodes [] c = c"
| "compileNodes (n # ns) c =
     compileNodes ns (c\<lparr>cf_Nodes := (cf_Nodes c)(n_ID n \<mapsto> n),
       cf_StartNode := (if n_Kind n = NodeStart then Some n else cf_StartNode c)\<rparr>)"

fun compileEdges :: "FlowEdge list \<Rightarrow> CompiledFlow \<Rightarrow> CompiledFlow" where
  "compileEdges [] c = c"
| "compileEdges (e # es) c =
     compileEdges es (c\<lparr>cf_EdgesBySource := (cf_EdgesBySource c)
       (e_SourceNodeID e := cf_EdgesBySource c (e_SourceNodeID e) @ [e])\<rparr>)"

definition compile :: "string \<Rightarrow> db \<Rightarrow> error + CompiledFlow" where
  "compile versionID db =
     (let ns = filter (\<lambda>n. n_FlowVersionID n = versionID) (db_nodes db);
          es = filter (\<lambda>e. e_FlowVersionID e = versionID) (db_edges db)
      in if ns = [] then Inl ErrFlowNoNodes
      else Inr (compileEdges es (compileNodes ns
             \<lparr>cf_FlowVersionID = versionID, cf_Nodes = Map.empty, cf_StartNode = None,
              cf_EdgesBySource = (\<lambda>_. [])\<rparr>)))"

section \<open>The compiled indexes\<close>

lemma compileNodes_other [simp]:
  "cf_EdgesBySource (compileNodes ns c) = cf_EdgesBySource c"
  "cf_FlowVersionID (compileNodes ns c) = cf_FlowVersionID c"
  by (induction ns arbitrary: c) simp_all

lemma compileEdges_other [simp]:
  "cf_Nodes (compileEdges es c) = cf_Nodes c"
  "cf_StartNode (compileEdges es c) = cf_StartNode c"
  "cf_FlowVersionID (compileEdges es c) = cf_FlowVersionID c"
  by (induction es arbitrary: c) simp_all

lemma compileEdges_lookup:
  "cf_EdgesBySource (compileEdges es c) s =
     cf_EdgesBySource c s @ filter (\<lambda>e. e_SourceNodeID e = s) es"
  by (induction es arbitrary: c) auto

lemma compileNodes_lookup:
  assumes "distinct (map n_ID ns)"
  shows "cf_Nodes (compileNodes ns c) nid =
     (case find (\<lambda>n. n_ID n = nid) ns of None \<Rightarrow> cf_Nodes c nid | Some n \<Rightarrow> Some n)"
  using assms
proof (induction ns arbitrary: c)
  case (Cons n ns)
  then have "n_ID n \<notin> n_ID ` set ns" by simp
  then have "nid = n_ID n \<Longrightarrow> find (\<lambda>m. n_ID m = nid) ns = None"
    by (auto simp: find_None_all image_iff)
  with Cons show ?case by (auto split: option.splits)
qed simp

lemma compileNodes_mem:
  "cf_Nodes (compileNodes ns c) nid = Some n \<Longrightarrow> cf_Nodes c nid = Some n \<or> (n \<in> set ns \<and> n_ID n = nid)"
  by (induction ns arbitrary: c) (fastforce split: if_splits)+

lemma compileNodes_start:
  "cf_StartNode (compileNodes ns c) =
     (case find (\<lambda>n. n_Kind n = NodeStart) (rev ns) of None \<Rightarrow> cf_StartNode c | Some n \<Rightarrow> Some n)"
proof (induction ns arbitrary: c)
  case (Cons n ns)
  have "find P (xs @ ys) = (case find P xs of None \<Rightarrow> find P ys | Some x \<Rightarrow> Some x)"
    for P and xs ys :: "FlowNode list" by (induction xs) auto
  then show ?case using Cons by (auto split: option.splits)
qed simp

lemma compile_edges:
  "compile v db = Inr c \<Longrightarrow> cf_EdgesBySource c s =
     filter (\<lambda>e. e_FlowVersionID e = v \<and> e_SourceNodeID e = s) (db_edges db)"
  by (auto simp: compile_def Let_def compileEdges_lookup split: if_splits intro: filter_cong)

lemma compile_node_mem:
  "compile v db = Inr c \<Longrightarrow> cf_Nodes c nid = Some n \<Longrightarrow>
     n \<in> set (db_nodes db) \<and> n_FlowVersionID n = v \<and> n_ID n = nid"
  by (auto simp: compile_def Let_def split: if_splits dest!: compileNodes_mem)

lemma compile_start_mem:
  "compile v db = Inr c \<Longrightarrow> cf_StartNode c = Some n \<Longrightarrow>
     n \<in> set (db_nodes db) \<and> n_FlowVersionID n = v \<and> n_Kind n = NodeStart"
  by (auto simp: compile_def Let_def compileNodes_start split: if_splits option.splits
      dest!: find_Some_mem)

lemma compile_cong:
  "db_nodes db' = db_nodes db \<Longrightarrow> db_edges db' = db_edges db \<Longrightarrow> compile v db' = compile v db"
  by (simp add: compile_def)

lemma FindOutgoing_Inr:
  "FindOutgoing c s b = Inr e \<longleftrightarrow>
     (case b of None \<Rightarrow> cf_EdgesBySource c s
              | Some h \<Rightarrow> filter (\<lambda>e. e_SourceHandle e = Some h) (cf_EdgesBySource c s)) = [e]"
  by (auto simp: FindOutgoing_def Let_def split: option.splits list.splits)

end
