(* ===== verification/Delegation.thy ===== *)
theory Delegation
  imports Approval_Store
begin

text \<open>
  Delegation of approval seats (\<^verbatim>\<open>engine/helpers.go\<close>): the choice of the applicable
  delegation, the chain walk with its cycle guard and depth limit, the replacement of the
  assignees of a node, and the removal of duplicate seats.  Instants count from the zero time
  of \<^verbatim>\<open>timex.DateTime\<close>.
\<close>

section \<open>Definitions\<close>

definition DateTime_IsZero :: "DateTime \<Rightarrow> bool" where
  "DateTime_IsZero t = (t = 0)"

fun matchLoop ::
    "Delegation list \<Rightarrow> DateTime \<Rightarrow> string \<Rightarrow> string \<Rightarrow> Delegation option \<Rightarrow> Delegation option
     \<Rightarrow> Delegation option" where
  "matchLoop [] now flowID catID categoryMatch globalMatch =
     (if categoryMatch \<noteq> None then categoryMatch else globalMatch)"
| "matchLoop (d # ds) now flowID catID categoryMatch globalMatch =
     (if \<not> DateTime_IsZero (d_StartsAt d) \<and> now < d_StartsAt d then
        matchLoop ds now flowID catID categoryMatch globalMatch
      else if \<not> DateTime_IsZero (d_EndsAt d) \<and> now > d_EndsAt d then
        matchLoop ds now flowID catID categoryMatch globalMatch
      else if d_FlowCategoryID d \<noteq> None \<and> d_FlowCategoryID d \<noteq> Some catID then
        matchLoop ds now flowID catID categoryMatch globalMatch
      else if d_FlowID d \<noteq> None \<and> d_FlowID d \<noteq> Some flowID then
        matchLoop ds now flowID catID categoryMatch globalMatch
      else if d_FlowID d \<noteq> None then Some d
      else
        matchLoop ds now flowID catID
          (if d_FlowCategoryID d \<noteq> None \<and> categoryMatch = None then Some d else categoryMatch)
          (if d_FlowCategoryID d = None \<and> globalMatch = None then Some d else globalMatch))"

definition matchDelegation :: "Delegation list \<Rightarrow> DateTime \<Rightarrow> string \<Rightarrow> string \<Rightarrow> Delegation option" where
  "matchDelegation ds now flowID catID = matchLoop ds now flowID catID None None"

text \<open>The active delegations of a user, newest first, at most one hundred.\<close>

definition loadDelegations :: "db \<Rightarrow> string \<Rightarrow> Delegation list" where
  "loadDelegations db uid =
     take 100 (rev (filter (\<lambda>d. d_DelegatorID d = uid \<and> d_IsActive d) (db_delegations db)))"

fun delegationLoop ::
    "nat \<Rightarrow> env \<Rightarrow> db \<Rightarrow> string \<Rightarrow> string \<Rightarrow> string \<Rightarrow> string set \<Rightarrow> string" where
  "delegationLoop 0 env db flowID catID currentID visited = currentID"
| "delegationLoop (Suc k) env db flowID catID currentID visited =
     (let delegations = loadDelegations db currentID
      in if delegations = [] then currentID
      else case matchDelegation delegations (env_now env) flowID catID of
          None \<Rightarrow> currentID
        | Some matched \<Rightarrow>
            let nextID = d_DelegateeID matched
            in if nextID \<in> visited then currentID
               else delegationLoop k env db flowID catID nextID (insert nextID visited))"

definition delegationMaxDepth :: nat where
  "delegationMaxDepth = 10"

definition resolveDelegationChain :: "env \<Rightarrow> db \<Rightarrow> string \<Rightarrow> string \<Rightarrow> string \<Rightarrow> string \<times> string" where
  "resolveDelegationChain env db userID flowID catID =
     (let currentID = delegationLoop delegationMaxDepth env db flowID catID userID {userID}
      in if currentID = userID then (currentID, []) else (currentID, userID))"

definition loadFlowCategoryID :: "string \<Rightarrow> db \<Rightarrow> error + string" where
  "loadFlowCategoryID flowID db =
     bindE (ofOption ErrRecordNotFound (findFlow flowID db)) (\<lambda>f. Inr (fl_CategoryID f))"

definition applyDelegation ::
    "env \<Rightarrow> db \<Rightarrow> string \<Rightarrow> ResolvedAssignee list \<Rightarrow> error + ResolvedAssignee list" where
  "applyDelegation env db flowID assignees =
     bindE (loadFlowCategoryID flowID db) (\<lambda>catID.
       let delegatee = (\<lambda>a. fst (resolveDelegationChain env db (u_ID (ra_User a)) flowID catID));
           delegateeIDs = map delegatee (filter (\<lambda>a. delegatee a \<noteq> u_ID (ra_User a)) assignees)
       in bindE (ResolveUserInfoMap env delegateeIDs) (\<lambda>infos.
         Inr (map (\<lambda>a. if delegatee a \<noteq> u_ID (ra_User a)
                       then \<lparr>ra_User = infoOf infos (delegatee a), ra_Delegator = Some (ra_User a)\<rparr>
                       else a) assignees)))"

fun dedupLoop :: "ResolvedAssignee list \<Rightarrow> string set \<Rightarrow> ResolvedAssignee list" where
  "dedupLoop [] seenIDs = []"
| "dedupLoop (a # as) seenIDs =
     (if u_ID (ra_User a) = [] then dedupLoop as seenIDs
      else if u_ID (ra_User a) \<in> seenIDs then dedupLoop as seenIDs
      else a # dedupLoop as (insert (u_ID (ra_User a)) seenIDs))"

definition deduplicateAssignees :: "ResolvedAssignee list \<Rightarrow> ResolvedAssignee list" where
  "deduplicateAssignees assignees = dedupLoop assignees {}"

section \<open>The choice of a delegation\<close>

definition applicable :: "DateTime \<Rightarrow> string \<Rightarrow> string \<Rightarrow> Delegation \<Rightarrow> bool" where
  "applicable now flowID catID d \<longleftrightarrow>
     (d_StartsAt d = 0 \<or> d_StartsAt d \<le> now) \<and> (d_EndsAt d = 0 \<or> now \<le> d_EndsAt d)
     \<and> (d_FlowCategoryID d = None \<or> d_FlowCategoryID d = Some catID)
     \<and> (d_FlowID d = None \<or> d_FlowID d = Some flowID)"

definition orElse :: "'a option \<Rightarrow> 'a option \<Rightarrow> 'a option" where
  "orElse x y = (case x of None \<Rightarrow> y | Some _ \<Rightarrow> x)"

lemma orElse_simps [simp]: "orElse None y = y" "orElse (Some a) y = Some a"
  by (simp_all add: orElse_def)

lemma orElse_eq_Some: "orElse x y = Some d \<longleftrightarrow> x = Some d \<or> (x = None \<and> y = Some d)"
  by (cases x) auto

lemma matchLoop_eq:
  "matchLoop ds now f c cm gm =
     orElse (find (\<lambda>d. applicable now f c d \<and> d_FlowID d \<noteq> None) ds)
       (orElse (orElse cm (find (\<lambda>d. applicable now f c d \<and> d_FlowID d = None \<and> d_FlowCategoryID d \<noteq> None) ds))
         (orElse gm (find (\<lambda>d. applicable now f c d \<and> d_FlowID d = None \<and> d_FlowCategoryID d = None) ds)))"
proof (induction ds arbitrary: cm gm)
  case Nil
  then show ?case by (cases cm; cases gm) simp_all
next
  case (Cons d ds)
  show ?case
  proof (cases "applicable now f c d")
    case False
    then have skip: "matchLoop (d # ds) now f c cm gm = matchLoop ds now f c cm gm"
      by (auto simp: applicable_def DateTime_IsZero_def)
    show ?thesis unfolding skip Cons.IH using False by simp
  next
    case True
    note app = True
    show ?thesis
    proof (cases "d_FlowID d")
      case None
      then have step: "matchLoop (d # ds) now f c cm gm = matchLoop ds now f c
          (if d_FlowCategoryID d \<noteq> None \<and> cm = None then Some d else cm)
          (if d_FlowCategoryID d = None \<and> gm = None then Some d else gm)"
        using app by (auto simp: applicable_def DateTime_IsZero_def)
      show ?thesis unfolding step Cons.IH using app None
        by (cases cm; cases gm; cases "d_FlowCategoryID d") simp_all
    next
      case (Some x)
      then show ?thesis using app by (auto simp: applicable_def DateTime_IsZero_def)
    qed
  qed
qed

lemma matchDelegation_eq:
  "matchDelegation ds now f c =
     orElse (find (\<lambda>d. applicable now f c d \<and> d_FlowID d \<noteq> None) ds)
       (orElse (find (\<lambda>d. applicable now f c d \<and> d_FlowID d = None \<and> d_FlowCategoryID d \<noteq> None) ds)
         (find (\<lambda>d. applicable now f c d \<and> d_FlowID d = None \<and> d_FlowCategoryID d = None) ds))"
  by (simp add: matchDelegation_def matchLoop_eq)

lemma matchDelegation_applicable:
  "matchDelegation ds now f c = Some d \<Longrightarrow> d \<in> set ds \<and> applicable now f c d"
  by (auto simp: matchDelegation_eq orElse_eq_Some dest!: find_Some_mem)

lemma matchDelegation_None_iff:
  "matchDelegation ds now f c = None \<longleftrightarrow> (\<forall>d \<in> set ds. \<not> applicable now f c d)"
  unfolding matchDelegation_eq orElse_def
  by (auto simp: find_None_all split: option.splits dest: find_Some_mem)

section \<open>The chain\<close>

text \<open>One step of delegation: the newest best-matching delegation of \<open>a\<close> names \<open>b\<close>.\<close>

definition delegates :: "env \<Rightarrow> db \<Rightarrow> string \<Rightarrow> string \<Rightarrow> string \<Rightarrow> string \<Rightarrow> bool" where
  "delegates env db f c a b \<longleftrightarrow>
     (\<exists>d. matchDelegation (loadDelegations db a) (env_now env) f c = Some d \<and> d_DelegateeID d = b)"

lemma delegates_fun: "delegates env db f c a b \<Longrightarrow> delegates env db f c a b' \<Longrightarrow> b' = b"
  by (auto simp: delegates_def)

text \<open>
  A path the loop takes: successive delegations, no user twice, at most \<open>k\<close> steps, and it stops
  only for lack of a delegation, at a user already passed, or at the depth limit.
\<close>

definition chain_path :: "(string \<Rightarrow> string \<Rightarrow> bool) \<Rightarrow> nat \<Rightarrow> string set \<Rightarrow> string list \<Rightarrow> bool" where
  "chain_path R k visited xs \<longleftrightarrow> xs \<noteq> [] \<and> successively R xs \<and> distinct xs
     \<and> set (tl xs) \<inter> visited = {} \<and> length xs \<le> Suc k
     \<and> (length xs < Suc k \<longrightarrow> (\<forall>b. R (last xs) b \<longrightarrow> b \<in> visited \<union> set xs))"

lemma delegationLoop_path:
  assumes "cur \<in> visited"
  shows "\<exists>xs. chain_path (delegates env db f c) k visited xs \<and> hd xs = cur
    \<and> last xs = delegationLoop k env db f c cur visited"
  using assms
proof (induction k arbitrary: cur visited)
  case 0
  then show ?case by (intro exI[of _ "[cur]"]) (simp add: chain_path_def)
next
  case (Suc k)
  let ?R = "delegates env db f c"
  show ?case
  proof (cases "\<exists>b. ?R cur b \<and> b \<notin> visited")
    case False
    then have "delegationLoop (Suc k) env db f c cur visited = cur"
      by (auto simp: delegates_def Let_def split: option.splits)
    with False show ?thesis by (intro exI[of _ "[cur]"]) (auto simp: chain_path_def)
  next
    case True
    then obtain b where b: "?R cur b" "b \<notin> visited" by blast
    then have nonempty: "loadDelegations db cur \<noteq> []"
      by (auto simp: delegates_def matchDelegation_def)
    have step: "delegationLoop (Suc k) env db f c cur visited
        = delegationLoop k env db f c b (insert b visited)"
      using b nonempty by (auto simp: delegates_def Let_def)
    obtain xs where xs: "chain_path ?R k (insert b visited) xs" "hd xs = b"
      "last xs = delegationLoop k env db f c b (insert b visited)"
      using Suc.IH[of b "insert b visited"] by auto
    obtain ys where ys: "xs = b # ys" using xs(1,2) by (cases xs) (auto simp: chain_path_def)
    have "chain_path ?R (Suc k) visited (cur # xs)"
      using xs(1) b Suc.prems unfolding chain_path_def ys by auto
    with xs(3) step ys show ?thesis by (intro exI[of _ "cur # xs"]) simp
  qed
qed

lemma dedupLoop_ids:
  "map (\<lambda>a. u_ID (ra_User a)) (dedupLoop as seenIDs) =
     filter (\<lambda>i. i \<noteq> [] \<and> i \<notin> seenIDs) (firstSeen (map (\<lambda>a. u_ID (ra_User a)) as))"
proof (induction as arbitrary: seenIDs)
  case Nil
  then show ?case by simp
next
  case (Cons a as)
  let ?i = "u_ID (ra_User a)" and ?rest = "firstSeen (map (\<lambda>a. u_ID (ra_User a)) as)"
  have fuse: "filter (\<lambda>i. i \<noteq> [] \<and> i \<notin> insert ?i seenIDs) ?rest
      = filter (\<lambda>i. i \<noteq> [] \<and> i \<notin> seenIDs) (filter (\<lambda>i. i \<noteq> ?i) ?rest)"
    by (auto simp: filter_filter intro: filter_cong)
  have drop: "?i = [] \<or> ?i \<in> seenIDs \<Longrightarrow> filter (\<lambda>i. i \<noteq> [] \<and> i \<notin> seenIDs) (filter (\<lambda>i. i \<noteq> ?i) ?rest)
      = filter (\<lambda>i. i \<noteq> [] \<and> i \<notin> seenIDs) ?rest"
    by (auto simp: filter_filter intro: filter_cong)
  show ?case using Cons.IH[of seenIDs] Cons.IH[of "insert ?i seenIDs"] fuse drop by auto
qed

lemma set_dedupLoop: "x \<in> set (dedupLoop as seenIDs) \<Longrightarrow> x \<in> set as"
  by (induction as arbitrary: seenIDs) (auto split: if_splits)

lemma deduplicateAssignees_ids:
  "map (\<lambda>a. u_ID (ra_User a)) (deduplicateAssignees as) =
     filter (\<lambda>i. i \<noteq> []) (firstSeen (map (\<lambda>a. u_ID (ra_User a)) as))"
  by (simp add: deduplicateAssignees_def dedupLoop_ids)

section \<open>Properties\<close>

text \<open>
  C23: the chain walk terminates at a well-defined actor. The user that
  \<open>resolveDelegationChain\<close> returns ends a path of at most ten delegation steps that starts at the
  assignee and passes no user twice; the walk stops early only where no delegation applies or
  where the next one would close a cycle.  A delegator is reported exactly when the seat moved.
\<close>

theorem delegation_chain_resolves:
  "\<exists>xs. hd xs = userID \<and> last xs = fst (resolveDelegationChain env db userID flowID catID)
      \<and> successively (delegates env db flowID catID) xs \<and> distinct xs \<and> length xs \<le> 11
      \<and> (length xs = 11 \<or> {b. delegates env db flowID catID (last xs) b} \<subseteq> set xs)
      \<and> (snd (resolveDelegationChain env db userID flowID catID)
           = (if last xs = userID then [] else userID))"
proof -
  obtain xs where xs: "chain_path (delegates env db flowID catID) delegationMaxDepth {userID} xs"
      "hd xs = userID"
      "last xs = delegationLoop delegationMaxDepth env db flowID catID userID {userID}"
    using delegationLoop_path[of userID "{userID}" env db flowID catID delegationMaxDepth] by auto
  then have "userID \<in> set xs" by (auto simp: chain_path_def)
  with xs show ?thesis
    by (intro exI[of _ xs])
      (auto simp: chain_path_def delegationMaxDepth_def resolveDelegationChain_def Let_def)
qed

text \<open>
  C24: the delegation that applies is the most specific one: the newest one bound to the
  flow, else the newest bound to the category, else the newest global one; and one is found
  exactly when some active delegation is in its time window and scope.
\<close>

theorem delegation_priority:
  "matchDelegation ds now flowID catID =
     (case find (\<lambda>d. applicable now flowID catID d \<and> d_FlowID d \<noteq> None) ds of
        Some d \<Rightarrow> Some d
      | None \<Rightarrow>
          (case find (\<lambda>d. applicable now flowID catID d \<and> d_FlowCategoryID d \<noteq> None) ds of
             Some d \<Rightarrow> Some d
           | None \<Rightarrow> find (applicable now flowID catID) ds))"
proof (cases "find (\<lambda>d. applicable now flowID catID d \<and> d_FlowID d \<noteq> None) ds")
  case None
  then have noflow: "\<forall>d \<in> set ds. applicable now flowID catID d \<longrightarrow> d_FlowID d = None"
    by (auto simp: find_None_all)
  have cat: "find (\<lambda>d. applicable now flowID catID d \<and> d_FlowID d = None \<and> d_FlowCategoryID d \<noteq> None) ds
      = find (\<lambda>d. applicable now flowID catID d \<and> d_FlowCategoryID d \<noteq> None) ds"
    using noflow by (intro find_cong) auto
  show ?thesis
  proof (cases "find (\<lambda>d. applicable now flowID catID d \<and> d_FlowCategoryID d \<noteq> None) ds")
    case None
    then have nocat: "\<forall>d \<in> set ds. applicable now flowID catID d \<longrightarrow> d_FlowCategoryID d = None"
      by (auto simp: find_None_all)
    have "find (\<lambda>d. applicable now flowID catID d \<and> d_FlowID d = None \<and> d_FlowCategoryID d = None) ds
        = find (applicable now flowID catID) ds"
      using noflow nocat by (intro find_cong) auto
    with None \<open>find (\<lambda>d. applicable now flowID catID d \<and> d_FlowID d \<noteq> None) ds = None\<close> cat
    show ?thesis by (simp add: matchDelegation_eq)
  next
    case (Some d)
    with None cat show ?thesis by (simp add: matchDelegation_eq)
  qed
next
  case (Some d)
  then show ?thesis by (simp add: matchDelegation_eq)
qed

end
