(* ===== verification/Float64.thy ===== *)
theory Float64
  imports Complex_Main "HOL-Library.Log_Nat"
begin

text \<open>
  IEEE 754 binary64 rounding as Go's \<^verbatim>\<open>float64\<close> arithmetic performs it on finite values in the
  normal range: the exact rational result is rounded to 53 significant bits, ties to even.
  The pass-ratio strategy is the client; its operands lie between 0 and 100 times the
  largest vote count, far inside the normal range.
\<close>

definition roundEven :: "rat \<Rightarrow> int" where
  "roundEven m =
     (let f = \<lfloor>m\<rfloor>; d = m - of_int f
      in if d < 1 / 2 then f else if 1 / 2 < d then f + 1 else if even f then f else f + 1)"

text \<open>For positive \<open>x\<close>, the scaling exponent that puts \<open>x\<close> into \<open>[2^52, 2^53)\<close>.\<close>

definition expo64 :: "rat \<Rightarrow> int" where
  "expo64 x =
     (let (a, b) = quotient_of x; k = 52 - (bitlen a - bitlen b)
      in if x * 2 powi k < 2 ^ 52 then k + 1 else k)"

definition rndPos :: "rat \<Rightarrow> rat" where
  "rndPos x = of_int (roundEven (x * 2 powi (expo64 x))) / 2 powi (expo64 x)"

definition rnd64 :: "rat \<Rightarrow> rat" where
  "rnd64 x = (if x = 0 then 0 else if 0 < x then rndPos x else - rndPos (- x))"

definition fdiv :: "rat \<Rightarrow> rat \<Rightarrow> rat" where
  "fdiv x y = rnd64 (x / y)"

definition fmul :: "rat \<Rightarrow> rat \<Rightarrow> rat" where
  "fmul x y = rnd64 (x * y)"

definition floatOfInt :: "int \<Rightarrow> rat" where
  "floatOfInt n = rnd64 (of_int n)"

section \<open>Rounding is monotone\<close>

lemma roundEven_bounds: "\<lfloor>m\<rfloor> \<le> roundEven m \<and> roundEven m \<le> \<lfloor>m\<rfloor> + 1"
  by (simp add: roundEven_def Let_def)

lemma roundEven_of_int [simp]: "roundEven (of_int n) = n"
  by (simp add: roundEven_def)

lemma roundEven_mono: "m \<le> n \<Longrightarrow> roundEven m \<le> roundEven n"
proof -
  assume le: "m \<le> n"
  then have fl: "\<lfloor>m\<rfloor> \<le> \<lfloor>n\<rfloor>" by (rule floor_mono)
  show ?thesis
  proof (cases "\<lfloor>m\<rfloor> = \<lfloor>n\<rfloor>")
    case True
    with le show ?thesis by (auto simp: roundEven_def Let_def)
  next
    case False
    with fl have "\<lfloor>m\<rfloor> + 1 \<le> \<lfloor>n\<rfloor>" by simp
    with roundEven_bounds[of m] roundEven_bounds[of n] show ?thesis by linarith
  qed
qed

lemma two_powi_pos [simp]: "(0::rat) < 2 powi k"
  by (simp add: zero_less_power_int)

lemma expo64_bounds:
  assumes "0 < x"
  shows "2 ^ 52 \<le> x * 2 powi (expo64 x) \<and> x * 2 powi (expo64 x) < 2 ^ 53"
proof -
  obtain a b where q: "quotient_of x = (a, b)" by (cases "quotient_of x")
  then have b: "0 < b" and x: "x = of_int a / of_int b"
    using quotient_of_denom_pos quotient_of_div by blast+
  with assms have a: "0 < a" by (simp add: zero_less_divide_iff)
  define la lb where "la = bitlen a" and "lb = bitlen b"
  have "2 ^ nat (la - 1) \<le> a \<and> a < 2 ^ nat la" and "2 ^ nat (lb - 1) \<le> b \<and> b < 2 ^ nat lb"
    unfolding la_def lb_def using bitlen_bounds a b by blast+
  moreover have "0 < la" "0 < lb" unfolding la_def lb_def
    using a b by (simp_all add: bitlen_eq_zero_iff less_le bitlen_nonneg)
  ultimately have "(2::rat) powi (la - 1) \<le> of_int a \<and> of_int a < (2::rat) powi la"
    and "(2::rat) powi (lb - 1) \<le> of_int b \<and> of_int b < (2::rat) powi lb"
    by (simp_all add: power_int_def)
  then have lo: "(2::rat) powi (la - 1) / 2 powi lb < x" and hi: "x < (2::rat) powi la / 2 powi (lb - 1)"
    unfolding x using a b by (auto intro: frac_less2 frac_less)
  let ?k = "52 - (la - lb)"
  have e: "expo64 x = (if x * 2 powi ?k < 2 ^ 52 then ?k + 1 else ?k)"
    by (simp add: expo64_def q la_def lb_def)
  have "(2::rat) powi (la - 1) / 2 powi lb * 2 powi ?k = 2 ^ 51"
    and "(2::rat) powi la / 2 powi (lb - 1) * 2 powi ?k = 2 ^ 53"
    by (simp_all add: power_int_add power_int_diff)
  moreover have "(2::rat) powi (la - 1) / 2 powi lb * 2 powi ?k < x * 2 powi ?k"
    and "x * 2 powi ?k < (2::rat) powi la / 2 powi (lb - 1) * 2 powi ?k"
    using lo hi by (auto intro!: mult_strict_right_mono simp del: times_divide_eq_left)
  ultimately have "2 ^ 51 < x * 2 powi ?k" and "x * 2 powi ?k < 2 ^ 53" by simp_all
  moreover have "x * 2 powi (?k + 1) = 2 * (x * 2 powi ?k)"
    by (subst power_int_add) simp_all
  ultimately show ?thesis unfolding e by auto
qed

lemma rndPos_mono:
  assumes "0 < x" and "x \<le> y"
  shows "rndPos x \<le> rndPos y"
proof -
  let ?k = "expo64 x" and ?l = "expo64 y"
  have X: "2 ^ 52 \<le> x * 2 powi ?k" "x * 2 powi ?k < 2 ^ 53"
    and Y: "2 ^ 52 \<le> y * 2 powi ?l" "y * 2 powi ?l < 2 ^ 53"
    using expo64_bounds assms by auto
  have "?l \<le> ?k"
  proof (rule ccontr)
    assume "\<not> ?l \<le> ?k"
    then have "(2::rat) powi (?k + 1) \<le> 2 powi ?l" by (intro power_int_increasing) auto
    then have "x * (2 powi ?k * 2) \<le> y * 2 powi ?l"
      using assms by (intro mult_mono) (auto simp: power_int_add)
    with X Y show False by simp
  qed
  show ?thesis
  proof (cases "?l = ?k")
    case True
    have "x * 2 powi ?k \<le> y * 2 powi ?k" using assms by (simp add: mult_right_mono)
    then have "roundEven (x * 2 powi ?k) \<le> roundEven (y * 2 powi ?k)" by (rule roundEven_mono)
    then show ?thesis unfolding rndPos_def True by (simp add: divide_right_mono)
  next
    case False
    with \<open>?l \<le> ?k\<close> have kl: "?l + 1 \<le> ?k" by simp
    have "roundEven (x * 2 powi ?k) \<le> roundEven (of_int (2 ^ 53))"
      using X by (intro roundEven_mono) simp
    then have rx: "(of_int (roundEven (x * 2 powi ?k)) :: rat) \<le> 2 ^ 53"
      by (simp only: roundEven_of_int) (metis of_int_le_iff of_int_numeral of_int_power)
    have "roundEven (of_int (2 ^ 52)) \<le> roundEven (y * 2 powi ?l)"
      using Y by (intro roundEven_mono) simp
    then have ry: "2 ^ 52 \<le> (of_int (roundEven (y * 2 powi ?l)) :: rat)"
      by (simp only: roundEven_of_int) (metis of_int_le_iff of_int_numeral of_int_power)
    have "(2::rat) ^ 53 / 2 powi ?k \<le> 2 ^ 53 / 2 powi (?l + 1)"
      using kl by (intro divide_left_mono power_int_increasing) auto
    also have "(2::rat) ^ 53 / 2 powi (?l + 1) = 2 ^ 52 / 2 powi ?l"
      by (simp add: power_int_add)
    finally have "(2::rat) ^ 53 / 2 powi ?k \<le> 2 ^ 52 / 2 powi ?l" .
    moreover have "rndPos x \<le> 2 ^ 53 / 2 powi ?k" unfolding rndPos_def using rx by (simp add: divide_right_mono)
    moreover have "2 ^ 52 / 2 powi ?l \<le> rndPos y" unfolding rndPos_def using ry by (simp add: divide_right_mono)
    ultimately show ?thesis by linarith
  qed
qed

lemma rndPos_pos: "0 < x \<Longrightarrow> 0 < rndPos x"
proof -
  assume "0 < x"
  then have "of_int (2 ^ 52) \<le> x * 2 powi (expo64 x)" using expo64_bounds by simp
  then have "2 ^ 52 \<le> roundEven (x * 2 powi (expo64 x))"
    using roundEven_mono[of "of_int (2 ^ 52)"] by (simp only: roundEven_of_int)
  then show ?thesis unfolding rndPos_def by (simp add: zero_less_divide_iff)
qed

lemma rnd64_mono: "x \<le> y \<Longrightarrow> rnd64 x \<le> rnd64 y"
  using rndPos_mono[of x y] rndPos_mono[of "- y" "- x"] rndPos_pos[of y] rndPos_pos[of "- x"]
  by (auto simp: rnd64_def not_less intro: order_trans[of _ 0])

lemma rnd64_zero [simp]: "rnd64 0 = 0"
  by (simp add: rnd64_def)

lemma rnd64_nonneg: "0 \<le> x \<Longrightarrow> 0 \<le> rnd64 x"
  using rnd64_mono[of 0 x] by simp

end
