(* ===== verification/Pass_Rule.thy ===== *)
theory Pass_Rule
  imports Approval_State_Machine Float64
begin

text \<open>
  The node decision: the four strategies of \<^verbatim>\<open>internal/approval/strategy/pass_rule.go\<close>, the
  tally of the visit's tasks (\<open>buildPassRuleContext\<close>) and the guarded evaluation
  (\<open>evaluatePassRule\<close>) of \<^verbatim>\<open>engine/engine.go\<close>.  The locale \<open>pass_rule\<close> is the contract of a
  strategy; from it follows that deciding early is deciding right.
\<close>

section \<open>Definitions\<close>

datatype PassRuleResult = PassRulePending | PassRulePassed | PassRuleRejected

record PassRuleContext =
  ApprovedCount :: int
  RejectedCount :: int
  TotalCount :: int
  ctx_PassRatio :: rat
  ctx_PassCount :: int

definition AllPass_Evaluate :: "PassRuleContext \<Rightarrow> PassRuleResult" where
  "AllPass_Evaluate ctx =
     (if RejectedCount ctx > 0 then PassRuleRejected
      else if ApprovedCount ctx = TotalCount ctx \<and> TotalCount ctx > 0 then PassRulePassed
      else PassRulePending)"

definition AnyPass_Evaluate :: "PassRuleContext \<Rightarrow> PassRuleResult" where
  "AnyPass_Evaluate ctx =
     (if ApprovedCount ctx > 0 then PassRulePassed
      else if RejectedCount ctx = TotalCount ctx \<and> TotalCount ctx > 0 then PassRuleRejected
      else PassRulePending)"

definition RatioPass_Evaluate :: "PassRuleContext \<Rightarrow> PassRuleResult" where
  "RatioPass_Evaluate ctx =
     (if TotalCount ctx = 0 then PassRulePending
      else
        let ratio = fmul (fdiv (floatOfInt (ApprovedCount ctx)) (floatOfInt (TotalCount ctx))) 100
        in if ratio \<ge> ctx_PassRatio ctx then PassRulePassed
        else
          let maxRatio = fmul (fdiv (floatOfInt (TotalCount ctx - RejectedCount ctx))
                                    (floatOfInt (TotalCount ctx))) 100
          in if maxRatio < ctx_PassRatio ctx then PassRuleRejected else PassRulePending)"

definition FixedCountPass_Evaluate :: "PassRuleContext \<Rightarrow> PassRuleResult" where
  "FixedCountPass_Evaluate ctx =
     (if TotalCount ctx = 0 then PassRulePending
      else
        let required = min (ctx_PassCount ctx) (TotalCount ctx)
        in if ApprovedCount ctx \<ge> required then PassRulePassed
           else if TotalCount ctx - RejectedCount ctx < required then PassRuleRejected
           else PassRulePending)"

text \<open>The registry of the production module: one strategy per declared rule.\<close>

fun GetPassRuleStrategy :: "PassRule \<Rightarrow> error + (PassRuleContext \<Rightarrow> PassRuleResult)" where
  "GetPassRuleStrategy PassAll = Inr AllPass_Evaluate"
| "GetPassRuleStrategy PassAny = Inr AnyPass_Evaluate"
| "GetPassRuleStrategy PassRatio = Inr RatioPass_Evaluate"
| "GetPassRuleStrategy PassFixedCount = Inr FixedCountPass_Evaluate"
| "GetPassRuleStrategy (PassRuleOther _) = Inl ErrPassRuleNotFound"

definition excludedFromTally :: "TaskStatus \<Rightarrow> bool" where
  "excludedFromTally s =
     (s = TaskTransferred \<or> s = TaskCanceled \<or> s = TaskRemoved \<or> s = TaskSkipped \<or> s = TaskRolledBack)"

fun tallyTasks :: "Task list \<Rightarrow> PassRuleContext \<Rightarrow> PassRuleContext" where
  "tallyTasks [] ctx = ctx"
| "tallyTasks (t # ts) ctx =
     (if excludedFromTally (t_Status t) then tallyTasks ts ctx
      else
        let ctx1 = ctx\<lparr>TotalCount := TotalCount ctx + 1\<rparr>;
            ctx2 = (case t_Status t of
                      TaskApproved \<Rightarrow> ctx1\<lparr>ApprovedCount := ApprovedCount ctx1 + 1\<rparr>
                    | TaskHandled \<Rightarrow> ctx1\<lparr>ApprovedCount := ApprovedCount ctx1 + 1\<rparr>
                    | TaskRejected \<Rightarrow> ctx1\<lparr>RejectedCount := RejectedCount ctx1 + 1\<rparr>
                    | _ \<Rightarrow> ctx1)
        in tallyTasks ts ctx2)"

text \<open>
  \<open>inexactFloat64\<close> is the conversion of the decimal column to \<^verbatim>\<open>float64\<close>, a method of the
  decimal library.
\<close>

definition buildPassRuleContext :: "(rat \<Rightarrow> rat) \<Rightarrow> FlowNode \<Rightarrow> Task list \<Rightarrow> PassRuleContext" where
  "buildPassRuleContext inexactFloat64 node tasks =
     tallyTasks tasks
       \<lparr>ApprovedCount = 0, RejectedCount = 0, TotalCount = 0,
        ctx_PassRatio = inexactFloat64 (n_PassRatio node), ctx_PassCount = n_PassCount node\<rparr>"

definition evaluatePassRule :: "(rat \<Rightarrow> rat) \<Rightarrow> FlowNode \<Rightarrow> Task list \<Rightarrow> error + PassRuleResult" where
  "evaluatePassRule inexactFloat64 node tasks =
     bindE (GetPassRuleStrategy (n_PassRule node)) (\<lambda>strategy.
       let prc = buildPassRuleContext inexactFloat64 node tasks
       in if length tasks > 0 \<and> TotalCount prc = 0 then Inr PassRulePassed
          else Inr (strategy prc))"

section \<open>The tally\<close>

definition countStatus :: "(TaskStatus \<Rightarrow> bool) \<Rightarrow> Task list \<Rightarrow> int" where
  "countStatus P tasks = int (length (filter (\<lambda>t. P (t_Status t)) tasks))"

lemma countStatus_simps [simp]:
  "countStatus P [] = 0"
  "countStatus P (t # ts) = (if P (t_Status t) then 1 else 0) + countStatus P ts"
  by (simp_all add: countStatus_def)

lemma countStatus_nonneg [simp]: "0 \<le> countStatus P ts"
  by (simp add: countStatus_def)

lemma countStatus_mset: "mset ts = mset ts' \<Longrightarrow> countStatus P ts = countStatus P ts'"
  unfolding countStatus_def by (metis mset_filter size_mset)

abbreviation approvedStatus :: "TaskStatus \<Rightarrow> bool" where
  "approvedStatus s \<equiv> s = TaskApproved \<or> s = TaskHandled"

abbreviation participates :: "TaskStatus \<Rightarrow> bool" where
  "participates s \<equiv> \<not> excludedFromTally s"

lemma tallyTasks_eq:
  "tallyTasks ts ctx =
     ctx\<lparr>ApprovedCount := ApprovedCount ctx + countStatus approvedStatus ts,
         RejectedCount := RejectedCount ctx + countStatus (\<lambda>s. s = TaskRejected) ts,
         TotalCount := TotalCount ctx + countStatus participates ts\<rparr>"
proof (induction ts arbitrary: ctx)
  case Nil
  then show ?case by simp
next
  case (Cons t ts)
  then show ?case
    by (cases "t_Status t") (simp_all add: excludedFromTally_def Let_def algebra_simps)
qed

lemma buildPassRuleContext_eq:
  "buildPassRuleContext h node tasks =
     \<lparr>ApprovedCount = countStatus approvedStatus tasks,
      RejectedCount = countStatus (\<lambda>s. s = TaskRejected) tasks,
      TotalCount = countStatus participates tasks,
      ctx_PassRatio = h (n_PassRatio node), ctx_PassCount = n_PassCount node\<rparr>"
  by (simp add: buildPassRuleContext_def tallyTasks_eq)

lemma tally_bound:
  "countStatus approvedStatus ts + countStatus (\<lambda>s. s = TaskRejected) ts
     + countStatus cancelable ts = countStatus participates ts"
proof (induction ts)
  case (Cons t ts)
  then show ?case
    by (cases "t_Status t") (simp_all add: excludedFromTally_def cancelable_def)
qed simp

lemma evaluatePassRule_mset:
  "mset ts = mset ts' \<Longrightarrow> evaluatePassRule h node ts = evaluatePassRule h node ts'"
  using countStatus_mset[of ts ts'] mset_eq_length[of ts ts']
  by (simp add: evaluatePassRule_def buildPassRuleContext_eq)

section \<open>The contract of a strategy\<close>

text \<open>A well-formed tally of at least one participating task.\<close>

definition valid_tally :: "PassRuleContext \<Rightarrow> bool" where
  "valid_tally c \<longleftrightarrow> 0 \<le> ApprovedCount c \<and> 0 \<le> RejectedCount c
     \<and> ApprovedCount c + RejectedCount c \<le> TotalCount c \<and> 0 < TotalCount c"

text \<open>\<open>c'\<close> is a later tally of the same round: votes were only added.\<close>

definition later_tally :: "PassRuleContext \<Rightarrow> PassRuleContext \<Rightarrow> bool" where
  "later_tally c c' \<longleftrightarrow> TotalCount c' = TotalCount c \<and> ctx_PassRatio c' = ctx_PassRatio c
     \<and> ctx_PassCount c' = ctx_PassCount c
     \<and> ApprovedCount c \<le> ApprovedCount c' \<and> RejectedCount c \<le> RejectedCount c'"

definition all_voted :: "PassRuleContext \<Rightarrow> bool" where
  "all_voted c \<longleftrightarrow> ApprovedCount c + RejectedCount c = TotalCount c"

text \<open>The thresholds deploy validation (\<^verbatim>\<open>validatePassThreshold\<close>) accepts for a rule.\<close>

fun threshold_ok :: "PassRule \<Rightarrow> PassRuleContext \<Rightarrow> bool" where
  "threshold_ok PassRatio c = (0 < ctx_PassRatio c \<and> ctx_PassRatio c \<le> 100)"
| "threshold_ok PassFixedCount c = (0 < ctx_PassCount c)"
| "threshold_ok _ c = True"

locale pass_rule =
  fixes evaluate :: "PassRuleContext \<Rightarrow> PassRuleResult"
    and ok :: "PassRuleContext \<Rightarrow> bool"
  assumes ok_later: "later_tally c c' \<Longrightarrow> ok c' = ok c"
    and decisive: "valid_tally c \<Longrightarrow> ok c \<Longrightarrow> all_voted c \<Longrightarrow> evaluate c \<noteq> PassRulePending"
    and passed_stable: "valid_tally c \<Longrightarrow> valid_tally c' \<Longrightarrow> later_tally c c' \<Longrightarrow>
      evaluate c = PassRulePassed \<Longrightarrow> evaluate c' = PassRulePassed"
    and rejected_stable: "valid_tally c \<Longrightarrow> valid_tally c' \<Longrightarrow> later_tally c c' \<Longrightarrow>
      evaluate c = PassRuleRejected \<Longrightarrow> evaluate c' = PassRuleRejected"
    and unanimous_pass: "valid_tally c \<Longrightarrow> ok c \<Longrightarrow> ApprovedCount c = TotalCount c \<Longrightarrow>
      evaluate c = PassRulePassed"
    and unanimous_reject: "valid_tally c \<Longrightarrow> ok c \<Longrightarrow> RejectedCount c = TotalCount c \<Longrightarrow>
      evaluate c = PassRuleRejected"
begin

lemma early_decision_sound:
  assumes "valid_tally c" and "valid_tally c'" and "later_tally c c'"
    and "evaluate c \<noteq> PassRulePending"
  shows "evaluate c' = evaluate c"
  using assms passed_stable rejected_stable by (cases "evaluate c") auto

end

lemma AllPass_contract: "pass_rule AllPass_Evaluate (threshold_ok PassAll)"
  by unfold_locales
    (auto simp: AllPass_Evaluate_def valid_tally_def later_tally_def all_voted_def split: if_splits)

lemma AnyPass_contract: "pass_rule AnyPass_Evaluate (threshold_ok PassAny)"
  by unfold_locales
    (auto simp: AnyPass_Evaluate_def valid_tally_def later_tally_def all_voted_def split: if_splits)

lemma FixedCountPass_contract: "pass_rule FixedCountPass_Evaluate (threshold_ok PassFixedCount)"
  by unfold_locales
    (auto simp: FixedCountPass_Evaluate_def valid_tally_def later_tally_def all_voted_def Let_def
      split: if_splits)

text \<open>The percentage the ratio strategy computes for \<open>n\<close> of \<open>tot\<close> votes.\<close>

definition percentage :: "int \<Rightarrow> int \<Rightarrow> rat" where
  "percentage n tot = fmul (fdiv (floatOfInt n) (floatOfInt tot)) 100"

lemma percentage_mono: "n \<le> m \<Longrightarrow> 0 \<le> tot \<Longrightarrow> percentage n tot \<le> percentage m tot"
  unfolding percentage_def fmul_def fdiv_def floatOfInt_def
  by (intro rnd64_mono mult_right_mono divide_right_mono rnd64_nonneg) simp_all

lemma rnd64_consts: "rnd64 1 = 1" "rnd64 100 = 100"
  by code_simp+

lemma floatOfInt_pos: "0 < n \<Longrightarrow> 0 < floatOfInt n"
  unfolding floatOfInt_def rnd64_def using rndPos_pos by simp

lemma percentage_all: "0 < tot \<Longrightarrow> percentage tot tot = 100"
  using floatOfInt_pos[of tot] by (simp add: percentage_def fmul_def fdiv_def rnd64_consts)

lemma percentage_none: "percentage 0 tot = 0"
  by (simp add: percentage_def fmul_def fdiv_def floatOfInt_def)

lemma RatioPass_percentage:
  "TotalCount c \<noteq> 0 \<Longrightarrow> RatioPass_Evaluate c =
     (if ctx_PassRatio c \<le> percentage (ApprovedCount c) (TotalCount c) then PassRulePassed
      else if percentage (TotalCount c - RejectedCount c) (TotalCount c) < ctx_PassRatio c
      then PassRuleRejected else PassRulePending)"
  by (simp add: RatioPass_Evaluate_def percentage_def Let_def)

lemma RatioPass_contract: "pass_rule RatioPass_Evaluate (threshold_ok PassRatio)"
proof (unfold_locales, goal_cases)
  case (1 c c') then show ?case by (simp add: later_tally_def)
next
  case (2 c)
  then have "TotalCount c - RejectedCount c = ApprovedCount c" by (simp add: all_voted_def)
  with 2 show ?case by (simp add: RatioPass_percentage valid_tally_def)
next
  case (3 c c')
  then have "percentage (ApprovedCount c) (TotalCount c) \<le> percentage (ApprovedCount c') (TotalCount c)"
    by (intro percentage_mono) (auto simp: later_tally_def valid_tally_def)
  with 3 show ?case
    by (auto simp: RatioPass_percentage valid_tally_def later_tally_def split: if_splits)
next
  case (4 c c')
  then have "percentage (ApprovedCount c') (TotalCount c) \<le> percentage (TotalCount c - RejectedCount c) (TotalCount c)"
    and "percentage (TotalCount c - RejectedCount c') (TotalCount c) \<le> percentage (TotalCount c - RejectedCount c) (TotalCount c)"
    by (auto intro!: percentage_mono simp: later_tally_def valid_tally_def)
  with 4 show ?case
    by (auto simp: RatioPass_percentage valid_tally_def later_tally_def split: if_splits)
next
  case (5 c)
  then show ?case by (simp add: RatioPass_percentage valid_tally_def percentage_all)
next
  case (6 c)
  then have "ApprovedCount c = 0" by (simp add: valid_tally_def)
  with 6 show ?case by (simp add: RatioPass_percentage valid_tally_def percentage_none)
qed

interpretation all_rule: pass_rule AllPass_Evaluate "threshold_ok PassAll"
  by (rule AllPass_contract)

interpretation any_rule: pass_rule AnyPass_Evaluate "threshold_ok PassAny"
  by (rule AnyPass_contract)

interpretation ratio_rule: pass_rule RatioPass_Evaluate "threshold_ok PassRatio"
  by (rule RatioPass_contract)

interpretation count_rule: pass_rule FixedCountPass_Evaluate "threshold_ok PassFixedCount"
  by (rule FixedCountPass_contract)

lemma strategy_contract: "GetPassRuleStrategy r = Inr ev \<Longrightarrow> pass_rule ev (threshold_ok r)"
  by (cases r) (auto intro: AllPass_contract AnyPass_contract RatioPass_contract FixedCountPass_contract)

section \<open>Properties of the node decision\<close>

text \<open>
  The tasks of a visit after further votes: a task either is untouched or was still open
  and has been approved, handled or rejected.
\<close>

definition vote_step :: "Task \<Rightarrow> Task \<Rightarrow> bool" where
  "vote_step t t' \<longleftrightarrow> t' = t \<or>
     (cancelable (t_Status t) \<and> t_Status t' \<in> {TaskApproved, TaskHandled, TaskRejected})"

lemma vote_step_counts:
  assumes "list_all2 vote_step ts ts'"
  shows "countStatus participates ts' = countStatus participates ts
    \<and> countStatus approvedStatus ts \<le> countStatus approvedStatus ts'
    \<and> countStatus (\<lambda>s. s = TaskRejected) ts \<le> countStatus (\<lambda>s. s = TaskRejected) ts'"
  using assms
proof (induction rule: list_all2_induct)
  case (Cons t ts t' ts')
  then show ?case
    by (auto simp: vote_step_def cancelable_def excludedFromTally_def)
qed simp

lemma tally_valid:
  "0 < countStatus participates ts \<Longrightarrow> valid_tally (buildPassRuleContext h node ts)"
proof -
  assume "0 < countStatus participates ts"
  moreover have "countStatus approvedStatus ts + countStatus (\<lambda>s. s = TaskRejected) ts
      \<le> countStatus participates ts"
    using tally_bound[of ts] countStatus_nonneg[of cancelable ts] by linarith
  ultimately show ?thesis by (simp add: valid_tally_def buildPassRuleContext_eq)
qed

text \<open>
  C3: deciding a node early is sound. Once \<open>evaluatePassRule\<close> has decided a round that still
  has participating tasks, no further votes on the open tasks change the decision, so the
  engine may cancel the remaining tasks.
\<close>

theorem node_decision_stable:
  assumes "list_all2 vote_step ts ts'"
    and "0 < countStatus participates ts"
    and "evaluatePassRule h node ts = Inr r" and "r \<noteq> PassRulePending"
  shows "evaluatePassRule h node ts' = Inr r"
proof -
  obtain ev where ev: "GetPassRuleStrategy (n_PassRule node) = Inr ev"
    using assms(3) by (auto simp: evaluatePassRule_def)
  note contract = pass_rule.early_decision_sound[OF strategy_contract[OF ev]]
  let ?c = "buildPassRuleContext h node ts" and ?c' = "buildPassRuleContext h node ts'"
  have len: "length ts' = length ts" using assms(1) by (simp add: list_all2_lengthD)
  have later: "later_tally ?c ?c'"
    using vote_step_counts[OF assms(1)] by (simp add: later_tally_def buildPassRuleContext_eq)
  have "valid_tally ?c" and "valid_tally ?c'"
    using vote_step_counts[OF assms(1)] assms(2) by (auto intro: tally_valid)
  moreover have r: "ev ?c = r"
    using assms(2,3) ev by (simp add: evaluatePassRule_def buildPassRuleContext_eq split: if_splits)
  ultimately have "ev ?c' = r" using contract[of ?c ?c'] later assms(4) by simp
  then show ?thesis
    using ev assms(2) vote_step_counts[OF assms(1)]
    by (simp add: evaluatePassRule_def buildPassRuleContext_eq)
qed

text \<open>A node and tasks with given statuses, for the concrete instances below.\<close>

definition exampleUser :: "string \<Rightarrow> UserInfo" where
  "exampleUser uid = \<lparr>u_ID = uid, u_Name = uid, u_DepartmentID = None, u_DepartmentName = None\<rparr>"

definition exampleTask :: "string \<Rightarrow> int \<Rightarrow> TaskStatus \<Rightarrow> Task" where
  "exampleTask uid order status =
     \<lparr>t_ID = uid, t_TenantID = ''tenant'', t_InstanceID = ''inst'', t_NodeID = ''node'',
      t_VisitID = ''visit'', t_Assignee = exampleUser uid, t_Delegator = None,
      t_SortOrder = order, t_Status = status, t_ReadAt = None, t_ParentTaskID = None, t_AddAssigneeType = None,
      t_Deadline = None, t_IsTimeout = False, t_IsPreWarningSent = False, t_FinishedAt = None\<rparr>"

definition exampleNode :: "PassRule \<Rightarrow> rat \<Rightarrow> int \<Rightarrow> FlowNode" where
  "exampleNode rule ratio cnt =
     \<lparr>n_ID = ''node'', n_FlowVersionID = ''v'', n_Key = ''node'', n_Kind = NodeApproval,
      n_Name = ''node'', n_Description = None, n_ExecutionType = ExecutionManual, n_ApprovalMethod = ApprovalParallel,
      n_PassRule = rule, n_PassRatio = ratio, n_PassCount = cnt,
      n_EmptyAssigneeAction = EmptyAssigneeAutoPass, n_FallbackUserIDs = [], n_AdminUserIDs = [],
      n_SameApplicantAction = SameApplicantSelfApprove, n_IsRollbackAllowed = True,
      n_RollbackType = RollbackPrevious, n_RollbackDataStrategy = RollbackDataKeep,
      n_RollbackTargetKeys = [], n_IsAddAssigneeAllowed = True, n_AddAssigneeTypes = [],
      n_IsRemoveAssigneeAllowed = True, n_FieldPermissions = [], n_IsManualCCAllowed = True,
      n_IsTransferAllowed = True, n_IsOpinionRequired = False, n_TimeoutHours = 0,
      n_TimeoutAction = TimeoutActionNone, n_TimeoutNotifyBeforeHours = 0,
      n_UrgeCooldownMinutes = 0, n_ConsecutiveApproverAction = ConsecutiveApproverNone,
      n_IsReadConfirmRequired = False, n_Branches = []\<rparr>"

lemmas example_defs = exampleUser_def exampleTask_def exampleNode_def

theorem node_decision_stable_witness:
  "evaluatePassRule id (exampleNode PassAny 0 0)
     [exampleTask ''a'' 1 TaskApproved, exampleTask ''b'' 2 TaskRejected] = Inr PassRulePassed"
  by (rule node_decision_stable
        [of "[exampleTask ''a'' 1 TaskApproved, exampleTask ''b'' 2 TaskPending]"])
    (simp_all add: vote_step_def cancelable_def example_defs excludedFromTally_def
      evaluatePassRule_def buildPassRuleContext_eq AnyPass_Evaluate_def)

lemma evaluate_decides:
  assumes "ts \<noteq> []" and "\<forall>t \<in> set ts. TaskStatus_IsFinal (t_Status t)"
    and "PassRule_IsValid (n_PassRule node)"
    and "threshold_ok (n_PassRule node) (buildPassRuleContext h node ts)"
  shows "\<exists>r. evaluatePassRule h node ts = Inr r \<and> r \<noteq> PassRulePending"
proof -
  obtain ev where ev: "GetPassRuleStrategy (n_PassRule node) = Inr ev"
    using assms(3) by (cases "n_PassRule node") auto
  let ?c = "buildPassRuleContext h node ts"
  show ?thesis
  proof (cases "countStatus participates ts = 0")
    case True
    with assms(1) ev show ?thesis by (simp add: evaluatePassRule_def buildPassRuleContext_eq)
  next
    case False
    then have pos: "0 < countStatus participates ts"
      using countStatus_nonneg[of participates ts] by linarith
    have "countStatus cancelable ts = 0"
      using assms(2) by (simp add: countStatus_def cancelable_iff_not_final filter_empty_conv)
    then have "all_voted ?c" using tally_bound[of ts] by (simp add: all_voted_def buildPassRuleContext_eq)
    then have "ev ?c \<noteq> PassRulePending"
      using pass_rule.decisive[OF strategy_contract[OF ev]] tally_valid[OF pos] assms(4) by blast
    with ev False show ?thesis by (simp add: evaluatePassRule_def buildPassRuleContext_eq)
  qed
qed

text \<open>
  C13: a node is never stuck. When every task of a non-empty round has reached a final status
  and the node carries a threshold that deployment accepts, the pass rule decides.
\<close>

theorem node_decision_total:
  assumes "ts \<noteq> []" and "\<forall>t \<in> set ts. TaskStatus_IsFinal (t_Status t)"
    and "PassRule_IsValid (n_PassRule node)"
    and "threshold_ok (n_PassRule node) (buildPassRuleContext h node ts)"
  shows "\<exists>r. evaluatePassRule h node ts = Inr r \<and> r \<noteq> PassRulePending"
  using assms by (rule evaluate_decides)

theorem node_decision_total_witness:
  "\<exists>r. evaluatePassRule id (exampleNode PassRatio 60 0)
     [exampleTask ''a'' 1 TaskApproved, exampleTask ''b'' 2 TaskRejected,
      exampleTask ''c'' 3 TaskTransferred] = Inr r \<and> r \<noteq> PassRulePending"
  by (rule node_decision_total)
    (simp_all add: TaskStatus_IsFinal_def example_defs buildPassRuleContext_eq)

text \<open>
  C25: the decision depends on the votes of the round and not on the order in which the
  store returns its tasks.
\<close>

theorem node_decision_order_irrelevant:
  assumes "mset ts = mset ts'"
  shows "evaluatePassRule h node ts = evaluatePassRule h node ts'"
  using assms by (rule evaluatePassRule_mset)

theorem node_decision_order_irrelevant_witness:
  "evaluatePassRule id (exampleNode PassFixedCount 0 1)
     [exampleTask ''a'' 1 TaskApproved, exampleTask ''b'' 2 TaskPending]
   = evaluatePassRule id (exampleNode PassFixedCount 0 1)
     [exampleTask ''b'' 2 TaskPending, exampleTask ''a'' 1 TaskApproved]"
  by (rule node_decision_order_irrelevant) simp


end
