(* ===== verification/Flow_Engine.thy ===== *)
theory Flow_Engine
  imports Compiled_Flow Delegation Pass_Rule "HOL-Library.Product_Lexorder"
begin

text \<open>
  The flow engine (\<^verbatim>\<open>internal/approval/engine\<close>): node visits, the instance transition
  primitive, the six node processors and the traversal that drives them.  The traversal depth
  \<^verbatim>\<open>ProcessNode\<close> carries in its context is the recursion argument: \<open>ProcessNode k\<close> may enter \<open>k\<close>
  more nodes, and an outside call starts with \<open>maxNodeDepth\<close>.
\<close>

section \<open>Node visits\<close>

definition beginNodeVisit :: "env \<Rightarrow> Instance \<Rightarrow> FlowNode \<Rightarrow> db \<Rightarrow> NodeVisit \<times> db" where
  "beginNodeVisit env inst node db =
     (let cnt = length (filter (\<lambda>v. v_InstanceID v = i_ID inst) (db_visits db))
      in insertVisit env
           \<lparr>v_ID = [], v_TenantID = i_TenantID inst, v_InstanceID = i_ID inst, v_NodeID = n_ID node,
            v_Sequence = int cnt + 1, v_Status = NodeVisitActive, v_FinishedAt = None\<rparr> db)"

definition concludeNodeVisit :: "env \<Rightarrow> NodeVisit \<Rightarrow> NodeVisitStatus \<Rightarrow> db \<Rightarrow> db" where
  "concludeNodeVisit env visit status db =
     updateVisits (\<lambda>v. v_ID v = v_ID visit)
       (\<lambda>v. v\<lparr>v_Status := status, v_FinishedAt := Some (env_now env)\<rparr>) db"

definition activeVisitOf :: "string \<Rightarrow> string \<Rightarrow> NodeVisit \<Rightarrow> bool" where
  "activeVisitOf iid nid v =
     (v_InstanceID v = iid \<and> v_NodeID v = nid \<and> v_Status v = NodeVisitActive)"

definition FindActiveNodeVisit :: "string \<Rightarrow> string \<Rightarrow> db \<Rightarrow> error + NodeVisit" where
  "FindActiveNodeVisit iid nid db =
     ofOption ErrActiveVisitNotFound (find (activeVisitOf iid nid) (db_visits db))"

definition ConcludeActiveNodeVisit ::
    "env \<Rightarrow> string \<Rightarrow> string \<Rightarrow> NodeVisitStatus \<Rightarrow> db \<Rightarrow> error + db" where
  "ConcludeActiveNodeVisit env iid nid status db =
     (if affected (activeVisitOf iid nid) (db_visits db) \<noteq> 1 then Inl ErrActiveVisitNotFound
      else Inr (updateVisits (activeVisitOf iid nid)
             (\<lambda>v. v\<lparr>v_Status := status, v_FinishedAt := Some (env_now env)\<rparr>) db))"

definition CancelActiveNodeVisits :: "env \<Rightarrow> string \<Rightarrow> db \<Rightarrow> db" where
  "CancelActiveNodeVisits env iid db =
     updateVisits (\<lambda>v. v_InstanceID v = iid \<and> v_Status v = NodeVisitActive)
       (\<lambda>v. v\<lparr>v_Status := NodeVisitCanceled, v_FinishedAt := Some (env_now env)\<rparr>) db"

section \<open>The instance transition primitive\<close>

definition transitionCols :: "InstanceCol list \<Rightarrow> InstanceCol list" where
  "transitionCols extra =
     fold (\<lambda>c cols. if c = ColStatus then cols else if c \<in> set cols then cols else cols @ [c])
       extra [ColStatus]"

definition OnInstanceTransition ::
    "env \<Rightarrow> db \<Rightarrow> Instance \<Rightarrow> InstanceStatus \<Rightarrow> InstanceStatus \<Rightarrow> error + unit" where
  "OnInstanceTransition env db inst from to =
     (case env_on_transition env db inst from to of None \<Rightarrow> Inr () | Some e \<Rightarrow> Inl e)"

definition ApplyInstanceTransitionWithHooks ::
    "env \<Rightarrow> Instance \<Rightarrow> InstanceStatus \<Rightarrow> InstanceCol list \<Rightarrow> db \<Rightarrow> error + (Instance \<times> db)" where
  "ApplyInstanceTransitionWithHooks env inst to extraCols db =
     (let from = i_Status inst
      in bindE (ensure (CanTransition InstanceStateMachine from to) ErrInvalidTransition) (\<lambda>_.
        let inst1 = inst\<lparr>i_Status := to\<rparr>;
            whereClause = (\<lambda>r. i_ID r = i_ID inst \<and> i_Status r = from);
            db1 = updateInstances whereClause (copyInstanceCols (transitionCols extraCols) inst1) db
        in bindE (ensure (affected whereClause (db_instances db) \<noteq> 0) ErrInvalidTransition) (\<lambda>_.
          bindE (OnInstanceTransition env db1 inst1 from to) (\<lambda>_. Inr (inst1, db1)))))"

section \<open>Processing contexts and results\<close>

datatype NodeAction = NodeActionWait | NodeActionContinue | NodeActionComplete

record ProcessResult =
  pr_Action :: NodeAction
  pr_FinalStatus :: "InstanceStatus option"
  pr_BranchID :: "string option"
  pr_Events :: "DomainEvent list"

record ProcessContext =
  pc_Instance :: Instance
  pc_Node :: FlowNode
  pc_Visit :: NodeVisit
  pc_FormData :: FormData

definition pc_NodeResolveContext :: "ProcessContext \<Rightarrow> NodeResolveContext" where
  "pc_NodeResolveContext pc =
     \<lparr>rc_Instance = pc_Instance pc, rc_Node = pc_Node pc, rc_FormData = pc_FormData pc\<rparr>"

definition waitResult :: "DomainEvent list \<Rightarrow> ProcessResult" where
  "waitResult evs = \<lparr>pr_Action = NodeActionWait, pr_FinalStatus = None, pr_BranchID = None, pr_Events = evs\<rparr>"

definition continueResult :: "string option \<Rightarrow> DomainEvent list \<Rightarrow> ProcessResult" where
  "continueResult b evs = \<lparr>pr_Action = NodeActionContinue, pr_FinalStatus = None, pr_BranchID = b, pr_Events = evs\<rparr>"

definition completeResult :: "InstanceStatus \<Rightarrow> ProcessResult" where
  "completeResult st = \<lparr>pr_Action = NodeActionComplete, pr_FinalStatus = Some st, pr_BranchID = None, pr_Events = []\<rparr>"

section \<open>Helpers of the task nodes\<close>

definition autoPassReasonExecutionType :: string where
  "autoPassReasonExecutionType =
     [CHR 0xE8, CHR 0x8A, CHR 0x82, CHR 0xE7, CHR 0x82, CHR 0xB9, CHR 0xE6, CHR 0x89, CHR 0xA7,
      CHR 0xE8, CHR 0xA1, CHR 0x8C, CHR 0xE7, CHR 0xB1, CHR 0xBB, CHR 0xE5, CHR 0x9E, CHR 0x8B,
      CHR 0xE4, CHR 0xB8, CHR 0xBA, CHR 0xE8, CHR 0x87, CHR 0xAA, CHR 0xE5, CHR 0x8A, CHR 0xA8,
      CHR 0xE9, CHR 0x80, CHR 0x9A, CHR 0xE8, CHR 0xBF, CHR 0x87]"

definition autoRejectReasonExecutionType :: string where
  "autoRejectReasonExecutionType =
     [CHR 0xE8, CHR 0x8A, CHR 0x82, CHR 0xE7, CHR 0x82, CHR 0xB9, CHR 0xE6, CHR 0x89, CHR 0xA7,
      CHR 0xE8, CHR 0xA1, CHR 0x8C, CHR 0xE7, CHR 0xB1, CHR 0xBB, CHR 0xE5, CHR 0x9E, CHR 0x8B,
      CHR 0xE4, CHR 0xB8, CHR 0xBA, CHR 0xE8, CHR 0x87, CHR 0xAA, CHR 0xE5, CHR 0x8A, CHR 0xA8,
      CHR 0xE6, CHR 0x8B, CHR 0x92, CHR 0xE7, CHR 0xBB, CHR 0x9D]"

definition autoPassReasonEmptyAssignee :: string where
  "autoPassReasonEmptyAssignee =
     [CHR 0xE6, CHR 0x97, CHR 0xA0, CHR 0xE5, CHR 0xAE, CHR 0xA1, CHR 0xE6, CHR 0x89, CHR 0xB9,
      CHR 0xE4, CHR 0xBA, CHR 0xBA, CHR 0xEF, CHR 0xBC, CHR 0x8C, CHR 0xE6, CHR 0x8C, CHR 0x89,
      CHR 0xE8, CHR 0x8A, CHR 0x82, CHR 0xE7, CHR 0x82, CHR 0xB9, CHR 0xE9, CHR 0x85, CHR 0x8D,
      CHR 0xE7, CHR 0xBD, CHR 0xAE, CHR 0xE8, CHR 0x87, CHR 0xAA, CHR 0xE5, CHR 0x8A, CHR 0xA8,
      CHR 0xE9, CHR 0x80, CHR 0x9A, CHR 0xE8, CHR 0xBF, CHR 0x87]"

definition autoPassReasonConsecutiveApprover :: string where
  "autoPassReasonConsecutiveApprover =
     [CHR 0xE5, CHR 0xAE, CHR 0xA1, CHR 0xE6, CHR 0x89, CHR 0xB9, CHR 0xE4, CHR 0xBA, CHR 0xBA,
      CHR 0xE5, CHR 0x9C, CHR 0xA8, CHR 0xE4, CHR 0xB8, CHR 0x8A, CHR 0xE4, CHR 0xB8, CHR 0x80,
      CHR 0xE8, CHR 0x8A, CHR 0x82, CHR 0xE7, CHR 0x82, CHR 0xB9, CHR 0xE5, CHR 0xB7, CHR 0xB2,
      CHR 0xE9, CHR 0x80, CHR 0x9A, CHR 0xE8, CHR 0xBF, CHR 0x87, CHR 0xEF, CHR 0xBC, CHR 0x8C,
      CHR 0xE8, CHR 0x87, CHR 0xAA, CHR 0xE5, CHR 0x8A, CHR 0xA8, CHR 0xE9, CHR 0x80, CHR 0x9A,
      CHR 0xE8, CHR 0xBF, CHR 0x87]"

definition excludeReasonSameApplicant :: string where
  "excludeReasonSameApplicant =
     [CHR 0xE5, CHR 0xAE, CHR 0xA1, CHR 0xE6, CHR 0x89, CHR 0xB9, CHR 0xE4, CHR 0xBA, CHR 0xBA,
      CHR 0xE4, CHR 0xB8, CHR 0x8E, CHR 0xE5, CHR 0x8F, CHR 0x91, CHR 0xE8, CHR 0xB5, CHR 0xB7,
      CHR 0xE4, CHR 0xBA, CHR 0xBA, CHR 0xE7, CHR 0x9B, CHR 0xB8, CHR 0xE5, CHR 0x90, CHR 0x8C,
      CHR 0xEF, CHR 0xBC, CHR 0x8C, CHR 0xE6, CHR 0x8C, CHR 0x89, CHR 0xE8, CHR 0x8A, CHR 0x82,
      CHR 0xE7, CHR 0x82, CHR 0xB9, CHR 0xE9, CHR 0x85, CHR 0x8D, CHR 0xE7, CHR 0xBD, CHR 0xAE,
      CHR 0xE5, CHR 0x9B, CHR 0x9E, CHR 0xE9, CHR 0x81, CHR 0xBF]"

definition cancelReasonEntryNodePassed :: string where
  "cancelReasonEntryNodePassed =
     [CHR 0xE8, CHR 0x8A, CHR 0x82, CHR 0xE7, CHR 0x82, CHR 0xB9, CHR 0xE5, CHR 0xB7, CHR 0xB2,
      CHR 0xE9, CHR 0x80, CHR 0x9A, CHR 0xE8, CHR 0xBF, CHR 0x87, CHR 0xEF, CHR 0xBC, CHR 0x8C,
      CHR 0xE5, CHR 0x89, CHR 0xA9, CHR 0xE4, CHR 0xBD, CHR 0x99, CHR 0xE4, CHR 0xBB, CHR 0xBB,
      CHR 0xE5, CHR 0x8A, CHR 0xA1, CHR 0xE6, CHR 0x97, CHR 0xA0, CHR 0xE9, CHR 0x9C, CHR 0x80,
      CHR 0xE5, CHR 0xA4, CHR 0x84, CHR 0xE7, CHR 0x90, CHR 0x86]"

definition AutoPassReasonSameApplicant :: string where
  "AutoPassReasonSameApplicant =
     [CHR 0xE5, CHR 0xAE, CHR 0xA1, CHR 0xE6, CHR 0x89, CHR 0xB9, CHR 0xE4, CHR 0xBA, CHR 0xBA,
      CHR 0xE4, CHR 0xB8, CHR 0x8E, CHR 0xE5, CHR 0x8F, CHR 0x91, CHR 0xE8, CHR 0xB5, CHR 0xB7,
      CHR 0xE4, CHR 0xBA, CHR 0xBA, CHR 0xE7, CHR 0x9B, CHR 0xB8, CHR 0xE5, CHR 0x90, CHR 0x8C,
      CHR 0xEF, CHR 0xBC, CHR 0x8C, CHR 0xE6, CHR 0x8C, CHR 0x89, CHR 0xE8, CHR 0x8A, CHR 0x82,
      CHR 0xE7, CHR 0x82, CHR 0xB9, CHR 0xE9, CHR 0x85, CHR 0x8D, CHR 0xE7, CHR 0xBD, CHR 0xAE,
      CHR 0xE8, CHR 0x87, CHR 0xAA, CHR 0xE5, CHR 0x8A, CHR 0xA8, CHR 0xE9, CHR 0x80, CHR 0x9A,
      CHR 0xE8, CHR 0xBF, CHR 0x87]"

definition recordSystemActionLog :: "env \<Rightarrow> ProcessContext \<Rightarrow> Task option \<Rightarrow> string \<Rightarrow> db \<Rightarrow> db" where
  "recordSystemActionLog env pc task reason db =
     addLog env ((NewActionLog SystemOperator (i_ID (pc_Instance pc)) ActionExecute)
       \<lparr>l_NodeID := Some (n_ID (pc_Node pc)), l_Opinion := Some reason,
        l_TaskID := map_option t_ID task\<rparr>) db"

definition resolveAutoExecution :: "env \<Rightarrow> ProcessContext \<Rightarrow> db \<Rightarrow> (ProcessResult \<times> db) option" where
  "resolveAutoExecution env pc db =
     (case n_ExecutionType (pc_Node pc) of
        ExecutionAutoPass \<Rightarrow>
          Some (continueResult None
                  [NodeAutoPassedEvent (pc_Instance pc) (pc_Node pc) autoPassReasonExecutionType],
                recordSystemActionLog env pc None autoPassReasonExecutionType db)
      | ExecutionAutoReject \<Rightarrow>
          Some (completeResult InstanceRejected,
                recordSystemActionLog env pc None autoRejectReasonExecutionType db)
      | _ \<Rightarrow> None)"

definition nodeAutoPassResult :: "env \<Rightarrow> ProcessContext \<Rightarrow> string \<Rightarrow> db \<Rightarrow> ProcessResult \<times> db" where
  "nodeAutoPassResult env pc reason db =
     (continueResult None [NodeAutoPassedEvent (pc_Instance pc) (pc_Node pc) reason],
      recordSystemActionLog env pc None reason db)"

definition saveFormSnapshot :: "ProcessContext \<Rightarrow> db \<Rightarrow> db" where
  "saveFormSnapshot pc db =
     db\<lparr>db_snapshots := db_snapshots db @
       [\<lparr>fs_InstanceID = i_ID (pc_Instance pc), fs_NodeID = n_ID (pc_Node pc),
         fs_FormData = pc_FormData pc\<rparr>]\<rparr>"

definition ResolveAll ::
    "env \<Rightarrow> FlowNodeAssignee list \<Rightarrow> NodeResolveContext \<Rightarrow> error + ResolvedAssignee list" where
  "ResolveAll env assignees base =
     bindE (mapE (\<lambda>a. bindE (ofOption ErrAssigneeResolverNotFound (env_assignee_resolvers env (na_Kind a)))
                        (\<lambda>resolver. resolver a base)) assignees)
       (\<lambda>rs. Inr (concat rs))"

definition resolveAssignees :: "env \<Rightarrow> ProcessContext \<Rightarrow> db \<Rightarrow> error + ResolvedAssignee list" where
  "resolveAssignees env pc db =
     ResolveAll env
       (sort_key na_SortOrder (filter (\<lambda>a. na_NodeID a = n_ID (pc_Node pc)) (db_node_assignees db)))
       (pc_NodeResolveContext pc)"

definition resolveNodeAssignees :: "env \<Rightarrow> ProcessContext \<Rightarrow> db \<Rightarrow> error + ResolvedAssignee list" where
  "resolveNodeAssignees env pc db =
     bindE (resolveAssignees env pc db) (\<lambda>assignees.
     bindE (applyDelegation env db (i_FlowID (pc_Instance pc)) (deduplicateAssignees assignees)) (\<lambda>as.
       Inr (deduplicateAssignees as)))"

definition computeDeadline :: "env \<Rightarrow> FlowNode \<Rightarrow> DateTime option" where
  "computeDeadline env node = ComputeTaskDeadline env (n_TimeoutHours node)"

definition buildTask :: "ProcessContext \<Rightarrow> ResolvedAssignee \<Rightarrow> DateTime option \<Rightarrow> Task" where
  "buildTask pc assignee deadline =
     \<lparr>t_ID = [], t_TenantID = i_TenantID (pc_Instance pc), t_InstanceID = i_ID (pc_Instance pc),
      t_NodeID = n_ID (pc_Node pc), t_VisitID = v_ID (pc_Visit pc), t_Assignee = ra_User assignee,
      t_Delegator = ra_Delegator assignee, t_SortOrder = 0, t_Status = TaskPending,
      t_ReadAt = None, t_ParentTaskID = None, t_AddAssigneeType = None, t_Deadline = deadline,
      t_IsTimeout = False, t_IsPreWarningSent = False, t_FinishedAt = None\<rparr>"

definition taskInsertedEvents :: "ProcessContext \<Rightarrow> Task \<Rightarrow> DomainEvent list" where
  "taskInsertedEvents pc task =
     TaskCreatedEvent (pc_Instance pc) task (pc_Node pc) #
     (if t_Status task = TaskPending
      then [TaskActivatedEvent (pc_Instance pc) task (pc_Node pc) TaskActivationAssigned] else [])"

fun activatedTaskID :: "DomainEvent \<Rightarrow> string option" where
  "activatedTaskID (TaskActivatedEvent inst task node reason) = Some (t_ID task)"
| "activatedTaskID _ = None"

definition suppressActivationsForClearedTasks :: "DomainEvent list \<Rightarrow> Task list \<Rightarrow> DomainEvent list" where
  "suppressActivationsForClearedTasks evs tasks =
     (let cleared = set (map t_ID (filter (\<lambda>t. t_Status t \<noteq> TaskPending) tasks))
      in filter (\<lambda>e. case activatedTaskID e of None \<Rightarrow> True | Some tid \<Rightarrow> tid \<notin> cleared) evs)"

fun insertTasks :: "env \<Rightarrow> Task list \<Rightarrow> db \<Rightarrow> Task list \<times> db" where
  "insertTasks env [] db = ([], db)"
| "insertTasks env (t # ts) db =
     (let (t1, db1) = insertTask env t db; (ts1, db2) = insertTasks env ts db1
      in (t1 # ts1, db2))"

definition taskCreatedEventsFor :: "ProcessContext \<Rightarrow> Task list \<Rightarrow> DomainEvent list" where
  "taskCreatedEventsFor pc tasks = concat (map (taskInsertedEvents pc) tasks)"

definition createTasksForUsers ::
    "env \<Rightarrow> ProcessContext \<Rightarrow> string list \<Rightarrow> db \<Rightarrow> error + (ProcessResult \<times> db)" where
  "createTasksForUsers env pc userIDs db =
     (let normalizedIDs = NormalizeUniqueIDs userIDs
      in if normalizedIDs = [] then Inl ErrNoAssignee
      else bindE (ResolveUserInfoMap env normalizedIDs) (\<lambda>infos.
        let deadline = computeDeadline env (pc_Node pc);
            (tasks, db1) = insertTasks env
              (map (\<lambda>uid. buildTask pc \<lparr>ra_User = infoOf infos uid, ra_Delegator = None\<rparr> deadline)
                 normalizedIDs) db
        in Inr (waitResult (taskCreatedEventsFor pc tasks), db1)))"

definition createTasksWithDelegation ::
    "env \<Rightarrow> ProcessContext \<Rightarrow> ResolvedAssignee list \<Rightarrow> db \<Rightarrow> DomainEvent list \<times> db" where
  "createTasksWithDelegation env pc assignees db =
     (let deadline = computeDeadline env (pc_Node pc);
          (tasks, db1) = insertTasks env (map (\<lambda>a. buildTask pc a deadline) assignees) db
      in (taskCreatedEventsFor pc tasks, db1))"

definition getSuperior :: "env \<Rightarrow> string \<Rightarrow> error + UserInfo option" where
  "getSuperior env uid =
     bindE (ofOption ErrAssigneeServiceNotConfigured (env_get_superior env)) (\<lambda>get. get uid)"

definition handleEmptyAssignee :: "env \<Rightarrow> ProcessContext \<Rightarrow> db \<Rightarrow> error + (ProcessResult \<times> db)" where
  "handleEmptyAssignee env pc db =
     (case n_EmptyAssigneeAction (pc_Node pc) of
        EmptyAssigneeAutoPass \<Rightarrow> Inr (nodeAutoPassResult env pc autoPassReasonEmptyAssignee db)
      | EmptyAssigneeTransferAdmin \<Rightarrow> createTasksForUsers env pc (n_AdminUserIDs (pc_Node pc)) db
      | EmptyAssigneeTransferApplicant \<Rightarrow>
          createTasksForUsers env pc [i_ApplicantID (pc_Instance pc)] db
      | EmptyAssigneeTransferSpecified \<Rightarrow> createTasksForUsers env pc (n_FallbackUserIDs (pc_Node pc)) db
      | EmptyAssigneeTransferSuperior \<Rightarrow>
          bindE (getSuperior env (i_ApplicantID (pc_Instance pc))) (\<lambda>superior.
            case superior of
              None \<Rightarrow> Inl ErrNoAssignee
            | Some u \<Rightarrow> if u_ID u = [] then Inl ErrNoAssignee
                        else createTasksForUsers env pc [u_ID u] db)
      | EmptyAssigneeOther _ \<Rightarrow> Inl ErrNoAssignee)"

definition findPreviousApprovalApprovers :: "Instance \<Rightarrow> string \<Rightarrow> db \<Rightarrow> string set" where
  "findPreviousApprovalApprovers inst currentNodeID db =
     (let approvalNodeIDs = map n_ID (filter (\<lambda>n. n_FlowVersionID n = i_FlowVersionID inst
             \<and> n_Kind n = NodeApproval \<and> n_ID n \<noteq> currentNodeID) (db_nodes db));
          prior = filter (\<lambda>t. t_InstanceID t = i_ID inst \<and> t_NodeID t \<in> set approvalNodeIDs) (db_tasks db)
      in if approvalNodeIDs = [] then {}
      else if prior = [] then {}
      else
        let prevNodeID = t_NodeID (last prior)
        in set (map t_AssigneeID (filter (\<lambda>t. t_InstanceID t = i_ID inst \<and> t_NodeID t = prevNodeID
             \<and> t_Status t = TaskApproved) (db_tasks db))))"

section \<open>Start, end and condition nodes\<close>

definition Start_Process :: "ProcessContext \<Rightarrow> db \<Rightarrow> error + (ProcessResult \<times> db)" where
  "Start_Process pc db = Inr (continueResult None [], db)"

definition End_Process :: "ProcessContext \<Rightarrow> db \<Rightarrow> error + (ProcessResult \<times> db)" where
  "End_Process pc db = Inr (completeResult InstanceApproved, db)"

fun evaluateGroupConditions :: "env \<Rightarrow> EvaluationContext \<Rightarrow> Condition list \<Rightarrow> error + bool" where
  "evaluateGroupConditions env ec [] = Inr True"
| "evaluateGroupConditions env ec (c # cs) =
     bindE (ofOption ErrConditionEvaluatorNotFound (env_condition_evaluators env (c_Kind c))) (\<lambda>evaluator.
     bindE (evaluator c ec) (\<lambda>match.
       if \<not> match then Inr False else evaluateGroupConditions env ec cs))"

fun groupsLoop :: "env \<Rightarrow> EvaluationContext \<Rightarrow> ConditionGroup list \<Rightarrow> error + bool" where
  "groupsLoop env ec [] = Inr False"
| "groupsLoop env ec (g # gs) =
     bindE (evaluateGroupConditions env ec (g_Conditions g)) (\<lambda>match.
       if match then Inr True else groupsLoop env ec gs)"

definition evaluateConditionGroups :: "env \<Rightarrow> EvaluationContext \<Rightarrow> ConditionGroup list \<Rightarrow> error + bool" where
  "evaluateConditionGroups env ec groups = (if groups = [] then Inr True else groupsLoop env ec groups)"

text \<open>
  The branches are sorted by priority and then id; deployment rejects two branches with the
  same id, so the sort has no ties.
\<close>

definition sortBranches :: "ConditionBranch list \<Rightarrow> ConditionBranch list" where
  "sortBranches branches = sort_key (\<lambda>b. (b_Priority b, b_ID b)) branches"

fun selectBranch ::
    "env \<Rightarrow> EvaluationContext \<Rightarrow> ConditionBranch list \<Rightarrow> ConditionBranch option \<Rightarrow> error + string" where
  "selectBranch env ec [] defaultBranch =
     (case defaultBranch of Some b \<Rightarrow> Inr (b_ID b) | None \<Rightarrow> Inl ErrNoMatchingBranch)"
| "selectBranch env ec (b # bs) defaultBranch =
     (if b_IsDefault b then selectBranch env ec bs (Some b)
      else bindE (evaluateConditionGroups env ec (b_ConditionGroups b)) (\<lambda>match.
        if match then Inr (b_ID b) else selectBranch env ec bs defaultBranch))"

definition Condition_Process :: "env \<Rightarrow> ProcessContext \<Rightarrow> db \<Rightarrow> error + (ProcessResult \<times> db)" where
  "Condition_Process env pc db =
     (if n_Branches (pc_Node pc) = [] then Inl ErrNoBranches
      else
        let inst = pc_Instance pc;
            ec = \<lparr>ec_FormData = pc_FormData pc, ec_ApplicantID = i_ApplicantID inst,
                  ec_ApplicantDepartmentID = u_DepartmentID (i_Applicant inst), ec_Globals = i_Globals inst\<rparr>
        in bindE (selectBranch env ec (sortBranches (n_Branches (pc_Node pc))) None) (\<lambda>b.
          Inr (continueResult (Some b) [], db)))"

section \<open>Carbon copy nodes\<close>

fun collectCCs ::
    "env \<Rightarrow> NodeResolveContext \<Rightarrow> (FlowNodeCC \<Rightarrow> bool) \<Rightarrow> FlowNodeCC list \<Rightarrow> string OrderedUnique
     \<Rightarrow> string OrderedUnique" where
  "collectCCs env base selector [] userIDs = userIDs"
| "collectCCs env base selector (cfg # cfgs) userIDs =
     collectCCs env base selector cfgs
       (if \<not> selector cfg then userIDs
        else case env_cc_resolvers env (nc_Kind cfg) of
            None \<Rightarrow> userIDs
          | Some resolver \<Rightarrow>
              (case resolver cfg base of
                 Inl _ \<Rightarrow> userIDs
               | Inr resolved \<Rightarrow> snd (ou_AddAll resolved userIDs)))"

definition CollectUserIDs ::
    "env \<Rightarrow> FlowNodeCC list \<Rightarrow> NodeResolveContext \<Rightarrow> (FlowNodeCC \<Rightarrow> bool) \<Rightarrow> string list" where
  "CollectUserIDs env configs base selector =
     ou_ToSlice (collectCCs env base selector configs NewOrderedUnique)"

definition createCCRecords :: "env \<Rightarrow> ProcessContext \<Rightarrow> db \<Rightarrow> UserInfo list \<times> db" where
  "createCCRecords env pc db =
     (let configs = filter (\<lambda>c. nc_NodeID c = n_ID (pc_Node pc)) (db_node_ccs db);
          resolved = CollectUserIDs env configs (pc_NodeResolveContext pc) (\<lambda>_. True)
      in if resolved = [] then ([], db)
      else
        let infos = ResolveUserInfoMapSilent env resolved;
            (inserted, db1) = InsertAutoCCRecords env (i_ID (pc_Instance pc)) (n_ID (pc_Node pc))
              (v_ID (pc_Visit pc)) resolved infos db
        in (UserInfos inserted infos, db1))"

definition CC_Process :: "env \<Rightarrow> ProcessContext \<Rightarrow> db \<Rightarrow> error + (ProcessResult \<times> db)" where
  "CC_Process env pc db =
     (let (recipients, db1) = createCCRecords env pc db;
          evs = (if recipients = [] then []
                 else [CCNotifiedEvent (pc_Instance pc) (pc_Node pc) recipients False])
      in if \<not> n_IsReadConfirmRequired (pc_Node pc) then Inr (continueResult None evs, db1)
      else if HasUnreadCCRecords (i_ID (pc_Instance pc)) (n_ID (pc_Node pc)) (v_ID (pc_Visit pc)) db1
      then Inr (waitResult evs, db1)
      else Inr (continueResult None evs, db1))"

section \<open>Handle nodes\<close>

definition Handle_Process :: "env \<Rightarrow> ProcessContext \<Rightarrow> db \<Rightarrow> error + (ProcessResult \<times> db)" where
  "Handle_Process env pc db =
     (case resolveAutoExecution env pc db of
        Some r \<Rightarrow> Inr r
      | None \<Rightarrow>
          let db1 = saveFormSnapshot pc db
          in bindE (resolveNodeAssignees env pc db1) (\<lambda>assignees.
            if assignees = [] then handleEmptyAssignee env pc db1
            else
              let (evs, db2) = createTasksWithDelegation env pc assignees db1
              in Inr (waitResult evs, db2)))"

section \<open>Approval nodes\<close>

fun createApprovalTasks ::
    "env \<Rightarrow> ProcessContext \<Rightarrow> nat \<Rightarrow> ResolvedAssignee list \<Rightarrow> db \<Rightarrow> DomainEvent list \<times> db" where
  "createApprovalTasks env pc i [] db = ([], db)"
| "createApprovalTasks env pc i (a # as) db =
     (let task = buildTask pc a (computeDeadline env (pc_Node pc));
          task1 = (if n_ApprovalMethod (pc_Node pc) = ApprovalSequential
                   then (let t = task\<lparr>t_SortOrder := int i + 1\<rparr>
                         in if i > 0 then t\<lparr>t_Status := TaskWaiting, t_Deadline := None\<rparr> else t)
                   else task);
          (row, db1) = insertTask env task1 db;
          (evs, db2) = createApprovalTasks env pc (Suc i) as db1
      in (taskInsertedEvents pc row @ evs, db2))"

definition containsApplicant :: "ResolvedAssignee list \<Rightarrow> string \<Rightarrow> bool" where
  "containsApplicant assignees applicantID = list_ex (\<lambda>a. u_ID (ra_User a) = applicantID) assignees"

definition resolveSuperiorSeat :: "env \<Rightarrow> ProcessContext \<Rightarrow> error + ResolvedAssignee" where
  "resolveSuperiorSeat env pc =
     bindE (getSuperior env (i_ApplicantID (pc_Instance pc))) (\<lambda>superior.
       case superior of
         None \<Rightarrow> Inl ErrNoAssignee
       | Some u \<Rightarrow>
           if u_ID u = [] then Inl ErrNoAssignee
           else bindE (ResolveUserInfoMap env [u_ID u]) (\<lambda>infos.
             Inr \<lparr>ra_User = infoOf infos (u_ID u), ra_Delegator = None\<rparr>))"

text \<open>The remaining seats, or a result that decides the node, with the state.\<close>

definition applySameApplicantPolicy ::
    "env \<Rightarrow> ProcessContext \<Rightarrow> ResolvedAssignee list \<Rightarrow> db
     \<Rightarrow> error + (ResolvedAssignee list \<times> ProcessResult option \<times> db)" where
  "applySameApplicantPolicy env pc assignees db =
     (let applicant = i_ApplicantID (pc_Instance pc)
      in if \<not> containsApplicant assignees applicant then Inr (assignees, None, db)
      else case n_SameApplicantAction (pc_Node pc) of
        SameApplicantAutoPass \<Rightarrow>
          if length assignees = 1 then
            let (r, db1) = nodeAutoPassResult env pc AutoPassReasonSameApplicant db
            in Inr ([], Some r, db1)
          else Inr (assignees, None, db)
      | SameApplicantExclude \<Rightarrow>
          let db1 = recordSystemActionLog env pc None excludeReasonSameApplicant db;
              remaining = filter (\<lambda>a. u_ID (ra_User a) \<noteq> applicant) assignees
          in if remaining = [] then
               bindE (handleEmptyAssignee env pc db1) (\<lambda>(r, db2). Inr ([], Some r, db2))
             else Inr (remaining, None, db1)
      | SameApplicantTransferSuperior \<Rightarrow>
          bindE (resolveSuperiorSeat env pc) (\<lambda>superior.
            Inr (deduplicateAssignees
                   (map (\<lambda>a. if u_ID (ra_User a) = applicant then superior else a) assignees), None, db))
      | _ \<Rightarrow> Inr (assignees, None, db))"

text \<open>A rule names the audit reason for clearing a seat, or \<^term>\<open>None\<close>.\<close>

type_synonym autoPassRule = "string \<Rightarrow> string option"

definition entryAutoPassRule ::
    "ProcessContext \<Rightarrow> ResolvedAssignee list \<Rightarrow> db \<Rightarrow> autoPassRule option" where
  "entryAutoPassRule pc assignees db =
     (let applicant = i_ApplicantID (pc_Instance pc);
          r1 = (if n_SameApplicantAction (pc_Node pc) = SameApplicantAutoPass
                   \<and> containsApplicant assignees applicant
                then [\<lambda>uid. if uid = applicant then Some AutoPassReasonSameApplicant else None] else []);
          prev = findPreviousApprovalApprovers (pc_Instance pc) (n_ID (pc_Node pc)) db;
          r2 = (if n_ConsecutiveApproverAction (pc_Node pc) = ConsecutiveApproverAutoPass \<and> prev \<noteq> {}
                then [\<lambda>uid. if uid \<in> prev then Some autoPassReasonConsecutiveApprover else None] else []);
          rules = r1 @ r2
      in if rules = [] then None
         else Some (\<lambda>uid. case find (\<lambda>rule. rule uid \<noteq> None) rules of
                 None \<Rightarrow> None | Some rule \<Rightarrow> rule uid))"

record sweep =
  sw_tasks :: "Task list"
  sw_db :: db
  sw_events :: "DomainEvent list"
  sw_any :: bool

text \<open>Activation of the next waiting task after position \<open>i\<close> (sequential approval).\<close>

definition activateNextInSweep :: "env \<Rightarrow> ProcessContext \<Rightarrow> nat \<Rightarrow> sweep \<Rightarrow> sweep" where
  "activateNextInSweep env pc i st =
     (let tasks = sw_tasks st
      in case find (\<lambda>j. t_Status (tasks ! j) = TaskWaiting) [Suc i ..< length tasks] of
          None \<Rightarrow> st
        | Some j \<Rightarrow>
            let task = (tasks ! j)\<lparr>t_Status := TaskPending, t_Deadline := computeDeadline env (pc_Node pc)\<rparr>;
                whereClause = (\<lambda>r. t_ID r = t_ID task \<and> t_Status r = TaskWaiting);
                db1 = updateTasks whereClause
                  (\<lambda>r. r\<lparr>t_Status := t_Status task, t_Deadline := t_Deadline task\<rparr>) (sw_db st)
            in if affected whereClause (db_tasks (sw_db st)) = 0
               then st\<lparr>sw_tasks := tasks[j := task\<lparr>t_Status := TaskWaiting, t_Deadline := None\<rparr>], sw_db := db1\<rparr>
               else st\<lparr>sw_tasks := tasks[j := task], sw_db := db1,
                       sw_events := sw_events st @
                         [TaskActivatedEvent (pc_Instance pc) task (pc_Node pc) TaskActivationQueueAdvanced]\<rparr>)"

definition autoPassStep :: "env \<Rightarrow> ProcessContext \<Rightarrow> autoPassRule \<Rightarrow> nat \<Rightarrow> sweep \<Rightarrow> sweep" where
  "autoPassStep env pc rule i st =
     (let task = sw_tasks st ! i
      in case rule (t_AssigneeID task) of
          None \<Rightarrow> st
        | Some reason \<Rightarrow>
            if t_Status task \<noteq> TaskPending then st
            else
              let task1 = task\<lparr>t_Status := TaskApproved, t_FinishedAt := Some (env_now env)\<rparr>;
                  db1 = updateTasks (\<lambda>r. t_ID r = t_ID task1 \<and> t_Status r = TaskPending)
                    (\<lambda>r. r\<lparr>t_Status := t_Status task1, t_FinishedAt := t_FinishedAt task1\<rparr>) (sw_db st);
                  st1 = st\<lparr>sw_tasks := (sw_tasks st)[i := task1],
                           sw_db := recordSystemActionLog env pc (Some task1) reason db1,
                           sw_events := sw_events st @
                             [TaskApprovedEvent (pc_Instance pc) task1 (pc_Node pc) SystemOperator reason],
                           sw_any := True\<rparr>
              in if n_ApprovalMethod (pc_Node pc) = ApprovalSequential
                 then activateNextInSweep env pc i st1 else st1)"

definition cancelRemainingEntryTasks ::
    "env \<Rightarrow> ProcessContext \<Rightarrow> Task list \<Rightarrow> db \<Rightarrow> DomainEvent list \<times> Task list \<times> db" where
  "cancelRemainingEntryTasks env pc tasks db =
     (let isOpen = (\<lambda>t. t_Status t = TaskPending \<or> t_Status t = TaskWaiting);
          remaining = filter isOpen tasks
      in if remaining = [] then ([], tasks, db)
      else
        let ids = map t_ID remaining;
            cancel = (\<lambda>t. t\<lparr>t_Status := TaskCanceled, t_FinishedAt := Some (env_now env)\<rparr>);
            db1 = updateTasks (\<lambda>r. t_ID r \<in> set ids) cancel db
        in (map (\<lambda>t. TaskCanceledEvent (pc_Instance pc) (cancel t) (pc_Node pc) cancelReasonEntryNodePassed) remaining,
            map (\<lambda>t. if isOpen t then cancel t else t) tasks, db1))"

definition autoPassEligibleTasks ::
    "env \<Rightarrow> ProcessContext \<Rightarrow> DomainEvent list \<Rightarrow> autoPassRule \<Rightarrow> db \<Rightarrow> error + (ProcessResult \<times> db)" where
  "autoPassEligibleTasks env pc creationEvents rule db =
     (let tasks = sort_key t_SortOrder (filter (\<lambda>t. t_InstanceID t = i_ID (pc_Instance pc)
                     \<and> t_NodeID t = n_ID (pc_Node pc)) (db_tasks db));
          st = fold (autoPassStep env pc rule) [0 ..< length tasks]
                 \<lparr>sw_tasks = tasks, sw_db = db, sw_events = [], sw_any = False\<rparr>;
          evs = creationEvents @ sw_events st
      in if \<not> sw_any st then Inr (waitResult evs, sw_db st)
      else bindE (evaluatePassRule (env_inexactFloat64 env) (pc_Node pc) (sw_tasks st)) (\<lambda>completion.
        if completion = PassRulePassed then
          let (cancelEvents, tasks2, db2) = cancelRemainingEntryTasks env pc (sw_tasks st) (sw_db st)
          in Inr (continueResult None (suppressActivationsForClearedTasks (evs @ cancelEvents) tasks2), db2)
        else Inr (waitResult (suppressActivationsForClearedTasks evs (sw_tasks st)), sw_db st)))"

definition Approval_Process :: "env \<Rightarrow> ProcessContext \<Rightarrow> db \<Rightarrow> error + (ProcessResult \<times> db)" where
  "Approval_Process env pc db =
     (case resolveAutoExecution env pc db of
        Some r \<Rightarrow> Inr r
      | None \<Rightarrow>
          let db1 = saveFormSnapshot pc db
          in bindE (resolveNodeAssignees env pc db1) (\<lambda>assignees0.
            if assignees0 = [] then handleEmptyAssignee env pc db1
            else bindE (applySameApplicantPolicy env pc assignees0 db1) (\<lambda>(assignees, decided, db2).
              case decided of
                Some r \<Rightarrow> Inr (r, db2)
              | None \<Rightarrow>
                  let (evs, db3) = createApprovalTasks env pc 0 assignees db2
                  in case entryAutoPassRule pc assignees db3 of
                      None \<Rightarrow> Inr (waitResult evs, db3)
                    | Some rule \<Rightarrow> autoPassEligibleTasks env pc evs rule db3)))"

section \<open>The traversal\<close>

fun Process :: "env \<Rightarrow> ProcessContext \<Rightarrow> NodeKind \<Rightarrow> db \<Rightarrow> error + (ProcessResult \<times> db)" where
  "Process env pc NodeStart db = Start_Process pc db"
| "Process env pc NodeApproval db = Approval_Process env pc db"
| "Process env pc NodeHandle db = Handle_Process env pc db"
| "Process env pc NodeCondition db = Condition_Process env pc db"
| "Process env pc NodeEnd db = End_Process pc db"
| "Process env pc NodeCC db = CC_Process env pc db"
| "Process env pc (NodeKindOther k) db = Inl ErrProcessorNotFound"

type_synonym process_fn = "db \<Rightarrow> Instance \<Rightarrow> FlowNode \<Rightarrow> error + (Instance \<times> db)"

definition advanceVia ::
    "process_fn \<Rightarrow> Instance \<Rightarrow> FlowNode \<Rightarrow> string option \<Rightarrow> db \<Rightarrow> error + (Instance \<times> db)" where
  "advanceVia process inst fromNode branchID db =
     bindE (compile (i_FlowVersionID inst) db) (\<lambda>compiled.
     bindE (FindOutgoing compiled (n_ID fromNode) branchID) (\<lambda>edge.
     bindE (ofOption ErrFlowMissingTargetNode (cf_Nodes compiled (e_TargetNodeID edge))) (\<lambda>nextNode.
       process db inst nextNode)))"

definition handleProcessResult ::
    "process_fn \<Rightarrow> env \<Rightarrow> Instance \<Rightarrow> FlowNode \<Rightarrow> NodeVisit \<Rightarrow> ProcessResult \<Rightarrow> db \<Rightarrow> error + (Instance \<times> db)" where
  "handleProcessResult process env inst node visit result db0 =
     (let db = EmitEvents (pr_Events result) db0
      in case pr_Action result of
        NodeActionWait \<Rightarrow>
          let inst1 = inst\<lparr>i_CurrentNodeID := Some (n_ID node)\<rparr>
          in Inr (inst1, updateInstances (\<lambda>r. i_ID r = i_ID inst)
                           (copyInstanceCols [ColCurrentNodeID] inst1) db)
      | NodeActionContinue \<Rightarrow>
          advanceVia process inst node (pr_BranchID result) (concludeNodeVisit env visit NodeVisitPassed db)
      | NodeActionComplete \<Rightarrow>
          bindE (ofOption ErrNilDereference (pr_FinalStatus result)) (\<lambda>final.
            let db1 = concludeNodeVisit env visit
                  (if final = InstanceRejected then NodeVisitRejected else NodeVisitPassed) db;
                inst1 = inst\<lparr>i_CurrentNodeID := Some (n_ID node), i_FinishedAt := Some (env_now env)\<rparr>
            in bindE (ApplyInstanceTransitionWithHooks env inst1 final [ColCurrentNodeID, ColFinishedAt] db1)
              (\<lambda>(inst2, db2). Inr (inst2, EmitEvents [InstanceCompletedEvent inst2 final None] db2))))"

definition registeredKind :: "NodeKind \<Rightarrow> bool" where
  "registeredKind k = (case k of NodeKindOther _ \<Rightarrow> False | _ \<Rightarrow> True)"

primrec ProcessNode :: "nat \<Rightarrow> env \<Rightarrow> process_fn" where
  "ProcessNode 0 env = (\<lambda>db inst node. Inl ErrMaxNodeDepth)"
| "ProcessNode (Suc k) env = (\<lambda>db inst node.
     bindE (ensure (registeredKind (n_Kind node)) ErrProcessorNotFound) (\<lambda>_.
       let (visit, db1) = beginNodeVisit env inst node db;
           pc = \<lparr>pc_Instance = inst, pc_Node = node, pc_Visit = visit,
                 pc_FormData = NewFormData (i_FormData inst)\<rparr>
       in bindE (Process env pc (n_Kind node) db1) (\<lambda>(result, db2).
            handleProcessResult (ProcessNode k env) env inst node visit result db2)))"

definition maxNodeDepth :: nat where
  "maxNodeDepth = 100"

definition AdvanceToNextNode ::
    "env \<Rightarrow> Instance \<Rightarrow> FlowNode \<Rightarrow> string option \<Rightarrow> db \<Rightarrow> error + (Instance \<times> db)" where
  "AdvanceToNextNode env = advanceVia (ProcessNode maxNodeDepth env)"

definition StartProcess :: "env \<Rightarrow> Instance \<Rightarrow> db \<Rightarrow> error + (Instance \<times> db)" where
  "StartProcess env inst db =
     bindE (compile (i_FlowVersionID inst) db) (\<lambda>compiled.
     bindE (ofOption ErrFlowMissingStartNode (cf_StartNode compiled)) (\<lambda>start.
       ProcessNode maxNodeDepth env db inst start))"

definition EvaluateNodeCompletion :: "env \<Rightarrow> Instance \<Rightarrow> FlowNode \<Rightarrow> db \<Rightarrow> error + PassRuleResult" where
  "EvaluateNodeCompletion env inst node db =
     bindE (FindActiveNodeVisit (i_ID inst) (n_ID node) db) (\<lambda>visit.
       evaluatePassRule (env_inexactFloat64 env) node
         (filter (\<lambda>t. t_VisitID t = v_ID visit) (db_tasks db)))"

end
