(* ===== verification/Store_Evolution.thy ===== *)
theory Store_Evolution
  imports Approval_Store
begin

text \<open>
  How the store may change.  Rows are never deleted: a table evolves by rewriting rows in
  place and appending new ones.  \<open>evolves env iid\<close> is the contract every operation on the
  instance \<open>iid\<close> keeps: rows of other instances and the flow definitions are untouched, the
  identity columns of a row never change, statuses move along the declared state machines,
  and the audit log and the event stream only grow.
\<close>

section \<open>Append-only tables\<close>

definition rows_evolve :: "('r \<Rightarrow> 'r \<Rightarrow> bool) \<Rightarrow> ('r \<Rightarrow> bool) \<Rightarrow> 'r list \<Rightarrow> 'r list \<Rightarrow> bool" where
  "rows_evolve R N xs ys \<longleftrightarrow> (\<exists>us vs. ys = us @ vs \<and> list_all2 R xs us \<and> (\<forall>v \<in> set vs. N v))"

lemma rows_evolve_refl [intro, simp]: "(\<And>x. R x x) \<Longrightarrow> rows_evolve R N xs xs"
  unfolding rows_evolve_def by (intro exI[of _ xs] exI[of _ "[]"]) (simp add: list.rel_refl)

lemma rows_evolve_trans:
  assumes "rows_evolve R N xs ys" and "rows_evolve R N ys zs"
    and trans: "\<And>x y z. R x y \<Longrightarrow> R y z \<Longrightarrow> R x z" and new: "\<And>x y. R x y \<Longrightarrow> N x \<Longrightarrow> N y"
  shows "rows_evolve R N xs zs"
proof -
  obtain us vs where ys: "ys = us @ vs" "list_all2 R xs us" "\<forall>v \<in> set vs. N v"
    using assms(1) by (auto simp: rows_evolve_def)
  obtain ws rs where zs: "zs = ws @ rs" "list_all2 R ys ws" "\<forall>v \<in> set rs. N v"
    using assms(2) by (auto simp: rows_evolve_def)
  obtain w1 w2 where w: "ws = w1 @ w2" "list_all2 R us w1" "list_all2 R vs w2"
    using zs(2) ys(1) by (auto simp: list_all2_append1)
  have "list_all2 R xs w1" using ys(2) w(2) trans by (rule list_all2_trans[rotated]) blast+
  moreover have "\<forall>v \<in> set w2. N v"
    using w(3) ys(3) new by (auto simp: list_all2_conv_all_nth in_set_conv_nth) (metis nth_mem)
  ultimately show ?thesis
    unfolding rows_evolve_def using zs(1,3) w(1) by (intro exI[of _ w1] exI[of _ "w2 @ rs"]) auto
qed

lemma rows_evolve_update:
  assumes "\<And>x. x \<in> set xs \<Longrightarrow> \<not> P x \<Longrightarrow> R x x" and "\<And>x. x \<in> set xs \<Longrightarrow> P x \<Longrightarrow> R x (f x)"
  shows "rows_evolve R N xs (updateWhere P f xs)"
  unfolding rows_evolve_def updateWhere_def using assms
  by (intro exI[of _ "map (\<lambda>r. if P r then f r else r) xs"] exI[of _ "[]"])
    (auto simp: list_all2_map2 list_all2_same)

lemma rows_evolve_append:
  "(\<And>x. R x x) \<Longrightarrow> (\<And>v. v \<in> set vs \<Longrightarrow> N v) \<Longrightarrow> rows_evolve R N xs (xs @ vs)"
  unfolding rows_evolve_def by (intro exI[of _ xs] exI[of _ vs]) (auto simp: list.rel_refl)

lemma rows_evolve_append1: "(\<forall>x. R x x) \<Longrightarrow> N v \<Longrightarrow> rows_evolve R N xs (xs @ [v])"
  by (rule rows_evolve_append) auto

lemma list_all2_mem2: "list_all2 R xs ys \<Longrightarrow> y \<in> set ys \<Longrightarrow> \<exists>x \<in> set xs. R x y"
  by (induction rule: list_all2_induct) auto

lemma list_all2_mem1: "list_all2 R xs ys \<Longrightarrow> x \<in> set xs \<Longrightarrow> \<exists>y \<in> set ys. R x y"
  by (induction rule: list_all2_induct) auto

lemma rows_evolve_mem:
  assumes "rows_evolve R N xs ys" and "y \<in> set ys"
  shows "N y \<or> (\<exists>x \<in> set xs. R x y)"
proof -
  obtain us vs where "ys = us @ vs" "list_all2 R xs us" "\<forall>v \<in> set vs. N v"
    using assms(1) by (auto simp: rows_evolve_def)
  with assms(2) show ?thesis by (auto dest: list_all2_mem2)
qed

lemma rows_evolve_kept:
  assumes "rows_evolve R N xs ys" and "x \<in> set xs"
  shows "\<exists>y \<in> set ys. R x y"
proof -
  obtain us vs where "ys = us @ vs" "list_all2 R xs us" using assms(1) by (auto simp: rows_evolve_def)
  with assms(2) show ?thesis by (auto dest: list_all2_mem1)
qed

lemma rows_evolve_nth:
  assumes "rows_evolve R N xs ys" and "i < length xs"
  shows "i < length ys \<and> R (xs ! i) (ys ! i)"
  using assms by (auto simp: rows_evolve_def list_all2_conv_all_nth nth_append)

text \<open>Rows outside the reach of a step are left alone, and no row enters or leaves that part.\<close>

lemma rows_evolve_frame:
  assumes "rows_evolve R N xs ys" and same: "\<And>x y. R x y \<Longrightarrow> P x \<Longrightarrow> y = x"
    and out: "\<And>x y. R x y \<Longrightarrow> \<not> P x \<Longrightarrow> \<not> P y" and new: "\<And>y. N y \<Longrightarrow> \<not> P y"
  shows "filter P ys = filter P xs"
proof -
  obtain us vs where ys: "ys = us @ vs" "list_all2 R xs us" "\<forall>v \<in> set vs. N v"
    using assms(1) by (auto simp: rows_evolve_def)
  have "filter P us = filter P xs" using ys(2)
  proof (induction rule: list_all2_induct)
    case (Cons x xs y ys)
    then show ?case using same[of x y] out[of x y] by auto
  qed simp
  moreover have "filter P vs = []" using ys(3) new by (auto simp: filter_empty_conv)
  ultimately show ?thesis using ys(1) by simp
qed

section \<open>What may happen to a row\<close>

definition task_rel :: "string \<Rightarrow> Task \<Rightarrow> Task \<Rightarrow> bool" where
  "task_rel iid t t' \<longleftrightarrow>
     t_ID t' = t_ID t \<and> t_TenantID t' = t_TenantID t \<and> t_InstanceID t' = t_InstanceID t
     \<and> t_NodeID t' = t_NodeID t \<and> t_VisitID t' = t_VisitID t
     \<and> (CanTransition TaskStateMachine)\<^sup>*\<^sup>* (t_Status t) (t_Status t')
     \<and> (t_InstanceID t \<noteq> iid \<longrightarrow> t' = t)"

definition visit_rel :: "string \<Rightarrow> NodeVisit \<Rightarrow> NodeVisit \<Rightarrow> bool" where
  "visit_rel iid v v' \<longleftrightarrow>
     v_ID v' = v_ID v \<and> v_TenantID v' = v_TenantID v \<and> v_InstanceID v' = v_InstanceID v
     \<and> v_NodeID v' = v_NodeID v \<and> v_Sequence v' = v_Sequence v
     \<and> (v' = v \<or> v_Status v = NodeVisitActive) \<and> (v_InstanceID v \<noteq> iid \<longrightarrow> v' = v)"

definition instance_rel :: "string \<Rightarrow> Instance \<Rightarrow> Instance \<Rightarrow> bool" where
  "instance_rel iid i i' \<longleftrightarrow>
     i_ID i' = i_ID i \<and> i_TenantID i' = i_TenantID i \<and> i_FlowID i' = i_FlowID i
     \<and> i_FlowVersionID i' = i_FlowVersionID i \<and> i_Applicant i' = i_Applicant i
     \<and> (CanTransition InstanceStateMachine)\<^sup>*\<^sup>* (i_Status i) (i_Status i')
     \<and> (i_ID i \<noteq> iid \<longrightarrow> i' = i)"

definition cc_rel :: "string \<Rightarrow> CCRecord \<Rightarrow> CCRecord \<Rightarrow> bool" where
  "cc_rel iid r r' \<longleftrightarrow> r' = r
     \<or> (cc_InstanceID r = iid \<and> cc_ReadAt r = None \<and> (\<exists>x. r' = r\<lparr>cc_ReadAt := Some x\<rparr>))"

lemma task_rel_refl [simp]: "task_rel iid t t"
  by (simp add: task_rel_def)

lemma task_rel_trans: "task_rel iid a b \<Longrightarrow> task_rel iid b c \<Longrightarrow> task_rel iid a c"
  unfolding task_rel_def by (auto intro: rtranclp_trans)

lemma task_rel_new: "task_rel iid a b \<Longrightarrow> t_InstanceID a = iid \<Longrightarrow> t_InstanceID b = iid"
  by (simp add: task_rel_def)

lemma visit_rel_refl [simp]: "visit_rel iid t t"
  by (simp add: visit_rel_def)

lemma visit_rel_trans: "visit_rel iid a b \<Longrightarrow> visit_rel iid b c \<Longrightarrow> visit_rel iid a c"
  by (auto simp: visit_rel_def)

lemma visit_rel_new: "visit_rel iid a b \<Longrightarrow> v_InstanceID a = iid \<Longrightarrow> v_InstanceID b = iid"
  by (simp add: visit_rel_def)

lemma instance_rel_refl [simp]: "instance_rel iid t t"
  by (simp add: instance_rel_def)

lemma instance_rel_trans: "instance_rel iid a b \<Longrightarrow> instance_rel iid b c \<Longrightarrow> instance_rel iid a c"
  unfolding instance_rel_def by (auto intro: rtranclp_trans)

lemma instance_rel_new: "instance_rel iid a b \<Longrightarrow> i_ID a = iid \<Longrightarrow> i_ID b = iid"
  by (simp add: instance_rel_def)

lemma cc_rel_refl [simp]: "cc_rel iid t t"
  by (simp add: cc_rel_def)

lemma cc_rel_trans: "cc_rel iid a b \<Longrightarrow> cc_rel iid b c \<Longrightarrow> cc_rel iid a c"
  by (auto simp: cc_rel_def)

lemma cc_rel_new: "cc_rel iid a b \<Longrightarrow> cc_InstanceID a = iid \<Longrightarrow> cc_InstanceID b = iid"
  by (auto simp: cc_rel_def)

section \<open>Fresh identifiers\<close>

definition used_ids :: "db \<Rightarrow> string set" where
  "used_ids db = t_ID ` set (db_tasks db) \<union> v_ID ` set (db_visits db) \<union> i_ID ` set (db_instances db)
     \<union> cc_ID ` set (db_ccs db) \<union> n_ID ` set (db_nodes db) \<union> fl_ID ` set (db_flows db)
     \<union> fv_ID ` set (db_versions db) \<union> ft_ID ` set (db_form_tables db)"

text \<open>A parent link points to a task of the same instance.\<close>

definition parents_ok :: "Task list \<Rightarrow> bool" where
  "parents_ok ts \<longleftrightarrow> (\<forall>t \<in> set ts. \<forall>p. t_ParentTaskID t = Some p \<longrightarrow>
     (\<exists>r \<in> set ts. t_ID r = p \<and> t_InstanceID r = t_InstanceID t))"

text \<open>Every task was created in a visit of its own node and instance.\<close>

definition visits_ok :: "Task list \<Rightarrow> NodeVisit list \<Rightarrow> bool" where
  "visits_ok ts vs \<longleftrightarrow> (\<forall>t \<in> set ts. \<exists>v \<in> set vs.
     v_ID v = t_VisitID t \<and> v_InstanceID v = t_InstanceID t \<and> v_NodeID v = t_NodeID t)"

text \<open>A visit belongs to an existing instance.\<close>

definition owners_ok :: "NodeVisit list \<Rightarrow> Instance list \<Rightarrow> bool" where
  "owners_ok vs ins \<longleftrightarrow> (\<forall>v \<in> set vs. v_InstanceID v \<in> i_ID ` set ins)"

text \<open>A visit is at a node of a deployed version.\<close>

definition places_ok :: "NodeVisit list \<Rightarrow> FlowNode list \<Rightarrow> bool" where
  "places_ok vs ns \<longleftrightarrow> (\<forall>v \<in> set vs. v_NodeID v \<in> n_ID ` set ns)"

text \<open>Tasks exist on approval and handle nodes only.\<close>

definition works :: "FlowNode \<Rightarrow> bool" where
  "works n \<longleftrightarrow> n_Kind n = NodeApproval \<or> n_Kind n = NodeHandle"

definition hosts_ok :: "Task list \<Rightarrow> FlowNode list \<Rightarrow> bool" where
  "hosts_ok ts ns \<longleftrightarrow> (\<forall>t \<in> set ts. \<forall>n \<in> set ns. n_ID n = t_NodeID t \<longrightarrow> works n)"

definition wf_store :: "env \<Rightarrow> db \<Rightarrow> bool" where
  "wf_store env db \<longleftrightarrow> inj (env_new_id env) \<and> (\<forall>n \<ge> db_next_id db. env_new_id env n \<notin> used_ids db)
     \<and> distinct (map t_ID (db_tasks db)) \<and> distinct (map v_ID (db_visits db))
     \<and> distinct (map i_ID (db_instances db)) \<and> distinct (map cc_ID (db_ccs db))
     \<and> distinct (map n_ID (db_nodes db)) \<and> parents_ok (db_tasks db)
     \<and> visits_ok (db_tasks db) (db_visits db) \<and> hosts_ok (db_tasks db) (db_nodes db)
     \<and> owners_ok (db_visits db) (db_instances db) \<and> places_ok (db_visits db) (db_nodes db)
     \<and> distinct (map fv_ID (db_versions db))"

lemma wf_store_unused: "wf_store env db \<Longrightarrow> db_next_id db \<le> n \<Longrightarrow> env_new_id env n \<notin> used_ids db"
  by (simp add: wf_store_def)

section \<open>The contract of an operation on an instance\<close>

definition same_config :: "db \<Rightarrow> db \<Rightarrow> bool" where
  "same_config db db' \<longleftrightarrow> db_categories db' = db_categories db \<and> db_form_tables db' = db_form_tables db
     \<and> db_form_columns db' = db_form_columns db \<and> db_flows db' = db_flows db \<and> db_versions db' = db_versions db
     \<and> db_initiators db' = db_initiators db \<and> db_nodes db' = db_nodes db
     \<and> db_edges db' = db_edges db \<and> db_node_assignees db' = db_node_assignees db
     \<and> db_node_ccs db' = db_node_ccs db \<and> db_delegations db' = db_delegations db"

definition store_step :: "string \<Rightarrow> db \<Rightarrow> db \<Rightarrow> bool" where
  "store_step iid db db' \<longleftrightarrow> same_config db db'
     \<and> rows_evolve (instance_rel iid) (\<lambda>i. i_ID i = iid) (db_instances db) (db_instances db')
     \<and> rows_evolve (task_rel iid) (\<lambda>t. t_InstanceID t = iid) (db_tasks db) (db_tasks db')
     \<and> rows_evolve (visit_rel iid) (\<lambda>v. v_InstanceID v = iid) (db_visits db) (db_visits db')
     \<and> rows_evolve (cc_rel iid) (\<lambda>r. cc_InstanceID r = iid) (db_ccs db) (db_ccs db')
     \<and> rows_evolve (=) (\<lambda>r. fs_InstanceID r = iid) (db_snapshots db) (db_snapshots db')
     \<and> rows_evolve (=) (\<lambda>r. ur_InstanceID r = iid) (db_urges db) (db_urges db')
     \<and> rows_evolve (=) (\<lambda>_. True) (db_logs db) (db_logs db')
     \<and> rows_evolve (=) (\<lambda>_. True) (db_events db) (db_events db')"

definition evolves :: "env \<Rightarrow> string \<Rightarrow> db \<Rightarrow> db \<Rightarrow> bool" where
  "evolves env iid db db' \<longleftrightarrow> (wf_store env db \<longrightarrow> wf_store env db' \<and> store_step iid db db')"

lemma same_config_refl [simp]: "same_config db db"
  by (simp add: same_config_def)

lemma store_step_refl [simp]: "store_step iid db db"
  by (simp add: store_step_def)

lemma store_step_trans:
  assumes "store_step iid a b" and "store_step iid b c"
  shows "store_step iid a c"
  unfolding store_step_def
proof (intro conjI)
  show "same_config a c" using assms by (simp add: store_step_def same_config_def)
  show "rows_evolve (instance_rel iid) (\<lambda>i. i_ID i = iid) (db_instances a) (db_instances c)"
    by (rule rows_evolve_trans[where ys = "db_instances b", OF _ _ instance_rel_trans])
      (use assms in \<open>simp_all add: store_step_def instance_rel_new\<close>)
  show "rows_evolve (task_rel iid) (\<lambda>t. t_InstanceID t = iid) (db_tasks a) (db_tasks c)"
    by (rule rows_evolve_trans[where ys = "db_tasks b", OF _ _ task_rel_trans])
      (use assms in \<open>simp_all add: store_step_def task_rel_new\<close>)
  show "rows_evolve (visit_rel iid) (\<lambda>v. v_InstanceID v = iid) (db_visits a) (db_visits c)"
    by (rule rows_evolve_trans[where ys = "db_visits b", OF _ _ visit_rel_trans])
      (use assms in \<open>simp_all add: store_step_def visit_rel_new\<close>)
  show "rows_evolve (cc_rel iid) (\<lambda>r. cc_InstanceID r = iid) (db_ccs a) (db_ccs c)"
    by (rule rows_evolve_trans[where ys = "db_ccs b", OF _ _ cc_rel_trans])
      (use assms in \<open>simp_all add: store_step_def cc_rel_new\<close>)
  show "rows_evolve (=) (\<lambda>r. fs_InstanceID r = iid) (db_snapshots a) (db_snapshots c)"
    by (rule rows_evolve_trans[where ys = "db_snapshots b"]) (use assms in \<open>auto simp: store_step_def\<close>)
  show "rows_evolve (=) (\<lambda>r. ur_InstanceID r = iid) (db_urges a) (db_urges c)"
    by (rule rows_evolve_trans[where ys = "db_urges b"]) (use assms in \<open>auto simp: store_step_def\<close>)
  show "rows_evolve (=) (\<lambda>_. True) (db_logs a) (db_logs c)"
    by (rule rows_evolve_trans[where ys = "db_logs b"]) (use assms in \<open>auto simp: store_step_def\<close>)
  show "rows_evolve (=) (\<lambda>_. True) (db_events a) (db_events c)"
    by (rule rows_evolve_trans[where ys = "db_events b"]) (use assms in \<open>auto simp: store_step_def\<close>)
qed

lemma evolves_refl [simp]: "evolves env iid db db"
  by (simp add: evolves_def)

lemma evolves_trans [trans]: "evolves env iid a b \<Longrightarrow> evolves env iid b c \<Longrightarrow> evolves env iid a c"
  unfolding evolves_def using store_step_trans by blast

section \<open>Primitive operations keep the contract\<close>

lemmas store_unfold = evolves_def store_step_def same_config_def

lemma wf_store_unchanged:
  assumes "wf_store env db" and "db_next_id db' = db_next_id db"
    and "map t_ID (db_tasks db') = map t_ID (db_tasks db)"
    and "map v_ID (db_visits db') = map v_ID (db_visits db)"
    and "map i_ID (db_instances db') = map i_ID (db_instances db)"
    and "map cc_ID (db_ccs db') = map cc_ID (db_ccs db)"
    and "parents_ok (db_tasks db) \<Longrightarrow> parents_ok (db_tasks db')"
    and "visits_ok (db_tasks db) (db_visits db) \<Longrightarrow> visits_ok (db_tasks db') (db_visits db')"
    and "db_nodes db' = db_nodes db" and "hosts_ok (db_tasks db) (db_nodes db) \<Longrightarrow> hosts_ok (db_tasks db') (db_nodes db)"
    and "owners_ok (db_visits db) (db_instances db) \<Longrightarrow> owners_ok (db_visits db') (db_instances db')"
    and "places_ok (db_visits db) (db_nodes db) \<Longrightarrow> places_ok (db_visits db') (db_nodes db)"
    and "db_flows db' = db_flows db" and "db_versions db' = db_versions db" and "db_form_tables db' = db_form_tables db"
  shows "wf_store env db'"
proof -
  have "used_ids db' = used_ids db"
    using assms(3-6,9,13-15) unfolding used_ids_def by (metis list.set_map)
  with assms show ?thesis unfolding wf_store_def by metis
qed

lemma wf_store_insert:
  assumes "wf_store env db" and "db_next_id db' = Suc (db_next_id db)"
    and "used_ids db' = insert (env_new_id env (db_next_id db)) (used_ids db)"
    and "distinct (map t_ID (db_tasks db'))" and "distinct (map v_ID (db_visits db'))"
    and "distinct (map i_ID (db_instances db'))" and "distinct (map cc_ID (db_ccs db'))"
    and "parents_ok (db_tasks db) \<Longrightarrow> parents_ok (db_tasks db')"
    and "visits_ok (db_tasks db) (db_visits db) \<Longrightarrow> visits_ok (db_tasks db') (db_visits db')"
    and "db_nodes db' = db_nodes db" and "hosts_ok (db_tasks db) (db_nodes db) \<Longrightarrow> hosts_ok (db_tasks db') (db_nodes db)"
    and "owners_ok (db_visits db) (db_instances db) \<Longrightarrow> owners_ok (db_visits db') (db_instances db')"
    and "places_ok (db_visits db) (db_nodes db) \<Longrightarrow> places_ok (db_visits db') (db_nodes db)"
    and "db_flows db' = db_flows db" and "db_versions db' = db_versions db" and "db_form_tables db' = db_form_tables db"
  shows "wf_store env db'"
proof -
  have inj: "inj (env_new_id env)" and unused: "\<And>n. db_next_id db \<le> n \<Longrightarrow> env_new_id env n \<notin> used_ids db"
    using assms(1) by (auto simp: wf_store_def)
  have "env_new_id env n \<notin> used_ids db'" if "db_next_id db' \<le> n" for n
    using that unused[of n] inj assms(2,3) by (auto dest: injD)
  with inj assms show ?thesis by (simp add: wf_store_def)
qed

lemma wf_store_distinct:
  assumes "wf_store env db"
  shows "distinct (map t_ID (db_tasks db))" "distinct (map v_ID (db_visits db))"
    "distinct (map i_ID (db_instances db))" "distinct (map cc_ID (db_ccs db))"
    "env_new_id env (db_next_id db) \<notin> t_ID ` set (db_tasks db)"
    "env_new_id env (db_next_id db) \<notin> v_ID ` set (db_visits db)"
    "env_new_id env (db_next_id db) \<notin> i_ID ` set (db_instances db)"
    "env_new_id env (db_next_id db) \<notin> cc_ID ` set (db_ccs db)"
  using assms by (auto simp: wf_store_def used_ids_def)

lemma wf_store_nodes: "wf_store env db \<Longrightarrow> distinct (map n_ID (db_nodes db))"
  by (simp add: wf_store_def)

lemma evolves_EmitEvents [simp]: "evolves env iid db (EmitEvents evs db)"
  unfolding store_unfold
  by (auto simp: EmitEvents_def intro: wf_store_unchanged rows_evolve_append)

lemma evolves_addLog [simp]: "evolves env iid db (addLog env' l db)"
  unfolding store_unfold
  by (auto simp: addLog_def intro: wf_store_unchanged rows_evolve_append)

lemma parents_ok_update:
  assumes "parents_ok ts"
    and "\<And>t. t \<in> set ts \<Longrightarrow> P t \<Longrightarrow> t_ID (f t) = t_ID t \<and> t_InstanceID (f t) = t_InstanceID t"
    and "\<And>t p. t \<in> set ts \<Longrightarrow> P t \<Longrightarrow> t_ParentTaskID (f t) = Some p \<Longrightarrow>
        (\<exists>r \<in> set ts. t_ID r = p \<and> t_InstanceID r = t_InstanceID t)"
  shows "parents_ok (updateWhere P f ts)"
  unfolding parents_ok_def
proof (intro ballI allI impI)
  fix t' p assume t': "t' \<in> set (updateWhere P f ts)" and p: "t_ParentTaskID t' = Some p"
  from t' obtain t where t: "t \<in> set ts" "t' = (if P t then f t else t)" by (rule updateWhere_memE)
  have inst: "t_InstanceID t' = t_InstanceID t" using t assms(2) by simp
  have "\<exists>r \<in> set ts. t_ID r = p \<and> t_InstanceID r = t_InstanceID t"
    using t p assms(1,3) by (cases "P t") (auto simp: parents_ok_def)
  then obtain r where r: "r \<in> set ts" "t_ID r = p" "t_InstanceID r = t_InstanceID t" by blast
  let ?r' = "if P r then f r else r"
  have "?r' \<in> set (updateWhere P f ts)" using r(1) by (auto simp: updateWhere_in_iff)
  moreover have "t_ID ?r' = p" "t_InstanceID ?r' = t_InstanceID t'" using r inst assms(2)[OF r(1)] by auto
  ultimately show "\<exists>r \<in> set (updateWhere P f ts). t_ID r = p \<and> t_InstanceID r = t_InstanceID t'" by blast
qed

lemma visits_ok_update_tasks:
  assumes "visits_ok ts vs"
    and "\<And>t. t \<in> set ts \<Longrightarrow> P t \<Longrightarrow> t_VisitID (f t) = t_VisitID t \<and> t_InstanceID (f t) = t_InstanceID t
        \<and> t_NodeID (f t) = t_NodeID t"
  shows "visits_ok (updateWhere P f ts) vs"
  unfolding visits_ok_def
proof
  fix t' assume "t' \<in> set (updateWhere P f ts)"
  then obtain t where "t \<in> set ts" "t' = (if P t then f t else t)" by (rule updateWhere_memE)
  then show "\<exists>v \<in> set vs. v_ID v = t_VisitID t' \<and> v_InstanceID v = t_InstanceID t' \<and> v_NodeID v = t_NodeID t'"
    using assms by (cases "P t") (auto simp: visits_ok_def)
qed

lemma hosts_ok_update:
  assumes "hosts_ok ts ns" and "\<And>t. t \<in> set ts \<Longrightarrow> P t \<Longrightarrow> t_NodeID (f t) = t_NodeID t"
  shows "hosts_ok (updateWhere P f ts) ns"
  unfolding hosts_ok_def
proof
  fix t' assume "t' \<in> set (updateWhere P f ts)"
  then obtain t where "t \<in> set ts" "t' = (if P t then f t else t)" by (rule updateWhere_memE)
  then show "\<forall>n \<in> set ns. n_ID n = t_NodeID t' \<longrightarrow> works n"
    using assms by (cases "P t") (auto simp: hosts_ok_def)
qed

lemma owners_ok_update:
  assumes "owners_ok vs ins" and "\<And>v. v \<in> set vs \<Longrightarrow> P v \<Longrightarrow> v_InstanceID (f v) = v_InstanceID v"
  shows "owners_ok (updateWhere P f vs) ins"
  unfolding owners_ok_def
proof
  fix v' assume "v' \<in> set (updateWhere P f vs)"
  then obtain v where "v \<in> set vs" "v' = (if P v then f v else v)" by (rule updateWhere_memE)
  then show "v_InstanceID v' \<in> i_ID ` set ins" using assms by (cases "P v") (auto simp: owners_ok_def)
qed

lemma places_ok_update:
  assumes "places_ok vs ns" and "\<And>v. v \<in> set vs \<Longrightarrow> P v \<Longrightarrow> v_NodeID (f v) = v_NodeID v"
  shows "places_ok (updateWhere P f vs) ns"
  unfolding places_ok_def
proof
  fix v' assume "v' \<in> set (updateWhere P f vs)"
  then obtain v where "v \<in> set vs" "v' = (if P v then f v else v)" by (rule updateWhere_memE)
  then show "v_NodeID v' \<in> n_ID ` set ns" using assms by (cases "P v") (auto simp: places_ok_def)
qed

lemma visits_ok_mono:
  assumes "visits_ok ts vs"
    and "\<And>v. v \<in> set vs \<Longrightarrow> \<exists>w \<in> set ws. v_ID w = v_ID v \<and> v_InstanceID w = v_InstanceID v \<and> v_NodeID w = v_NodeID v"
  shows "visits_ok ts ws"
  unfolding visits_ok_def
proof
  fix t assume "t \<in> set ts"
  then obtain v where "v \<in> set vs" "v_ID v = t_VisitID t" "v_InstanceID v = t_InstanceID t" "v_NodeID v = t_NodeID t"
    using assms(1) by (auto simp: visits_ok_def)
  with assms(2)[of v] show "\<exists>v \<in> set ws. v_ID v = t_VisitID t \<and> v_InstanceID v = t_InstanceID t \<and> v_NodeID v = t_NodeID t"
    by auto
qed

lemma visits_ok_append: "visits_ok ts vs \<Longrightarrow> visits_ok ts (vs @ ws)"
  by (erule visits_ok_mono) auto

lemma visits_ok_update_visits:
  assumes "visits_ok ts vs"
    and "\<And>v. v \<in> set vs \<Longrightarrow> P v \<Longrightarrow> v_ID (f v) = v_ID v \<and> v_InstanceID (f v) = v_InstanceID v \<and> v_NodeID (f v) = v_NodeID v"
  shows "visits_ok ts (updateWhere P f vs)"
proof (rule visits_ok_mono[OF assms(1)])
  fix v assume v: "v \<in> set vs"
  then have "(if P v then f v else v) \<in> set (updateWhere P f vs)" by (auto simp: updateWhere_in_iff)
  with assms(2)[OF v] show "\<exists>w \<in> set (updateWhere P f vs). v_ID w = v_ID v \<and> v_InstanceID w = v_InstanceID v \<and> v_NodeID w = v_NodeID v"
    by (intro bexI[of _ "if P v then f v else v"]) auto
qed

lemma parents_ok_append1:
  assumes "parents_ok ts"
    and "\<And>p. t_ParentTaskID t = Some p \<Longrightarrow> \<exists>r \<in> set ts. t_ID r = p \<and> t_InstanceID r = t_InstanceID t"
  shows "parents_ok (ts @ [t])"
  using assms by (auto simp: parents_ok_def)

lemma evolves_updateTasks_parent:
  assumes "\<And>t. wf_store env db \<Longrightarrow> t \<in> set (db_tasks db) \<Longrightarrow> P t \<Longrightarrow> task_rel iid t (f t)"
    and "\<And>t. t_ID (f t) = t_ID t"
    and "\<And>t p. wf_store env db \<Longrightarrow> t \<in> set (db_tasks db) \<Longrightarrow> P t \<Longrightarrow> t_ParentTaskID (f t) = Some p \<Longrightarrow>
        (\<exists>r \<in> set (db_tasks db). t_ID r = p \<and> t_InstanceID r = t_InstanceID t)"
  shows "evolves env iid db (updateTasks P f db)"
proof -
  have "wf_store env (updateTasks P f db)" if fr: "wf_store env db"
  proof (rule wf_store_unchanged[OF fr])
    assume "visits_ok (db_tasks db) (db_visits db)"
    then show "visits_ok (db_tasks (updateTasks P f db)) (db_visits (updateTasks P f db))"
      unfolding updateTasks_def using assms(1)[OF fr]
      by (auto simp: task_rel_def intro!: visits_ok_update_tasks)
  next
    assume "hosts_ok (db_tasks db) (db_nodes db)"
    then show "hosts_ok (db_tasks (updateTasks P f db)) (db_nodes db)"
      unfolding updateTasks_def using assms(1)[OF fr] by (auto simp: task_rel_def intro!: hosts_ok_update)
  next
    assume "parents_ok (db_tasks db)"
    then show "parents_ok (db_tasks (updateTasks P f db))"
      unfolding updateTasks_def using assms(1,3)[OF fr]
      by (auto simp: task_rel_def intro!: parents_ok_update)
  qed (simp_all add: updateTasks_def map_updateWhere_key assms(2))
  moreover have "wf_store env db \<Longrightarrow> store_step iid db (updateTasks P f db)"
    unfolding store_step_def same_config_def
    by (simp add: updateTasks_def rows_evolve_update assms(1))
  ultimately show ?thesis by (simp add: evolves_def)
qed

lemma evolves_updateTasks:
  assumes "\<And>t. wf_store env db \<Longrightarrow> t \<in> set (db_tasks db) \<Longrightarrow> P t \<Longrightarrow> task_rel iid t (f t)"
    and "\<And>t. t_ID (f t) = t_ID t" and "\<And>t. t_ParentTaskID (f t) = t_ParentTaskID t"
  shows "evolves env iid db (updateTasks P f db)"
  using assms by (intro evolves_updateTasks_parent) (auto simp: wf_store_def parents_ok_def)

lemma evolves_updateVisits:
  assumes "\<And>t. wf_store env db \<Longrightarrow> t \<in> set (db_visits db) \<Longrightarrow> P t \<Longrightarrow> visit_rel iid t (f t)"
    and "\<And>t. v_ID (f t) = v_ID t"
  shows "evolves env iid db (updateVisits P f db)"
proof -
  have "wf_store env (updateVisits P f db)" if fr: "wf_store env db"
  proof (rule wf_store_unchanged[OF fr])
    assume "visits_ok (db_tasks db) (db_visits db)"
    then show "visits_ok (db_tasks (updateVisits P f db)) (db_visits (updateVisits P f db))"
      unfolding updateVisits_def using assms(1)[OF fr]
      by (auto simp: visit_rel_def intro!: visits_ok_update_visits)
  next
    assume "owners_ok (db_visits db) (db_instances db)"
    then show "owners_ok (db_visits (updateVisits P f db)) (db_instances (updateVisits P f db))"
      unfolding updateVisits_def using assms(1)[OF fr]
      by (auto simp: visit_rel_def intro!: owners_ok_update)
  next
    assume "places_ok (db_visits db) (db_nodes db)"
    then show "places_ok (db_visits (updateVisits P f db)) (db_nodes db)"
      unfolding updateVisits_def using assms(1)[OF fr]
      by (auto simp: visit_rel_def intro!: places_ok_update)
  qed (simp_all add: updateVisits_def map_updateWhere_key assms(2))
  moreover have "wf_store env db \<Longrightarrow> store_step iid db (updateVisits P f db)"
    unfolding store_step_def same_config_def
    by (simp add: updateVisits_def rows_evolve_update assms(1))
  ultimately show ?thesis by (simp add: evolves_def)
qed

lemma evolves_updateInstances:
  assumes "\<And>t. wf_store env db \<Longrightarrow> t \<in> set (db_instances db) \<Longrightarrow> P t \<Longrightarrow> instance_rel iid t (f t)"
    and "\<And>t. i_ID (f t) = i_ID t"
  shows "evolves env iid db (updateInstances P f db)"
proof -
  have ids: "map i_ID (updateWhere P f (db_instances db)) = map i_ID (db_instances db)"
    by (simp add: map_updateWhere_key assms(2))
  then have img: "i_ID ` set (updateWhere P f (db_instances db)) = i_ID ` set (db_instances db)"
    by (metis list.set_map)
  have "wf_store env db \<Longrightarrow> wf_store env (updateInstances P f db)"
    by (rule wf_store_unchanged) (simp_all add: updateInstances_def ids img owners_ok_def)
  moreover have "wf_store env db \<Longrightarrow> store_step iid db (updateInstances P f db)"
    unfolding store_step_def same_config_def
    by (simp add: updateInstances_def rows_evolve_update assms(1))
  ultimately show ?thesis by (simp add: evolves_def)
qed

lemma evolves_insertTask:
  assumes "t_InstanceID t = iid"
    and "\<And>p. t_ParentTaskID t = Some p \<Longrightarrow> \<exists>r \<in> set (db_tasks db). t_ID r = p \<and> t_InstanceID r = iid"
    and "\<exists>v \<in> set (db_visits db). v_ID v = t_VisitID t \<and> v_InstanceID v = iid \<and> v_NodeID v = t_NodeID t"
    and "\<forall>n \<in> set (db_nodes db). n_ID n = t_NodeID t \<longrightarrow> works n"
  shows "evolves env iid db (snd (insertTask env t db))"
proof -
  let ?db' = "snd (insertTask env t db)"
  have "wf_store env db \<Longrightarrow> wf_store env ?db'"
    by (rule wf_store_insert)
      (use wf_store_distinct[of env db] assms in
        \<open>auto simp: insertTask_def allocId_def used_ids_def Let_def visits_ok_def hosts_ok_def intro!: parents_ok_append1\<close>)
  moreover have "store_step iid db ?db'"
    unfolding store_step_def same_config_def using assms
    by (simp add: insertTask_def allocId_def Let_def rows_evolve_append1)
  ultimately show ?thesis by (simp add: evolves_def)
qed

lemma evolves_insertVisit:
  assumes "v_InstanceID v = iid" and "iid \<in> i_ID ` set (db_instances db)" and "v_NodeID v \<in> n_ID ` set (db_nodes db)"
  shows "evolves env iid db (snd (insertVisit env v db))"
proof -
  let ?db' = "snd (insertVisit env v db)"
  have "wf_store env db \<Longrightarrow> wf_store env ?db'"
    by (rule wf_store_insert)
      (use wf_store_distinct[of env db] assms in
        \<open>auto simp: insertVisit_def allocId_def used_ids_def Let_def owners_ok_def places_ok_def intro: visits_ok_append\<close>)
  moreover have "store_step iid db ?db'"
    unfolding store_step_def same_config_def using assms
    by (simp add: insertVisit_def allocId_def Let_def rows_evolve_append1)
  ultimately show ?thesis by (simp add: evolves_def)
qed

lemma evolves_insertCC:
  assumes "cc_InstanceID r = iid"
  shows "evolves env iid db (insertCC env r db)"
proof -
  let ?db' = "insertCC env r db"
  have "wf_store env db \<Longrightarrow> wf_store env ?db'"
    by (rule wf_store_insert)
      (use wf_store_distinct[of env db] in \<open>auto simp: insertCC_def allocId_def used_ids_def Let_def\<close>)
  moreover have "store_step iid db ?db'"
    unfolding store_step_def same_config_def using assms
    by (simp add: insertCC_def allocId_def Let_def rows_evolve_append1)
  ultimately show ?thesis by (simp add: evolves_def)
qed

lemma evolves_insertCCs:
  assumes "\<forall>r \<in> set rs. cc_InstanceID r = iid"
  shows "evolves env iid db (insertCCs env rs db)"
  using assms
proof (induction rs arbitrary: db)
  case (Cons r rs)
  then have "evolves env iid db (insertCC env r db)" by (intro evolves_insertCC) simp
  also have "evolves env iid (insertCC env r db) (insertCCs env rs (insertCC env r db))"
    using Cons by simp
  finally show ?case by simp
qed simp

lemma evolves_InsertCCRecords:
  "InsertCCRecords env iid n v us infos m db = (ids, db') \<Longrightarrow> evolves env iid db db'"
  by (auto simp: InsertCCRecords_def Let_def split: if_splits intro!: evolves_insertCCs)

end
