(* ===== verification/Engine_Invariants.thy ===== *)
theory Engine_Invariants
  imports Flow_Engine Store_Evolution
begin

text \<open>
  What the engine keeps.  \<open>settled iid db\<close> is the consistency of an instance between commands: a
  running instance has exactly one active visit, at its current node, and every open task
  belongs to that visit; any other instance has neither active visits nor open tasks.
\<close>

section \<open>Consistency of an instance\<close>

definition quiet :: "string \<Rightarrow> db \<Rightarrow> bool" where
  "quiet iid db \<longleftrightarrow> (\<forall>t \<in> set (db_tasks db). t_InstanceID t = iid \<longrightarrow> \<not> cancelable (t_Status t))"

definition open_at :: "string \<Rightarrow> string \<Rightarrow> string \<Rightarrow> db \<Rightarrow> bool" where
  "open_at iid nid vid db \<longleftrightarrow>
     (\<forall>t \<in> set (db_tasks db). t_InstanceID t = iid \<longrightarrow> cancelable (t_Status t) \<longrightarrow>
        t_NodeID t = nid \<and> t_VisitID t = vid)"

definition active_of :: "string \<Rightarrow> NodeVisit \<Rightarrow> bool" where
  "active_of iid v \<longleftrightarrow> v_InstanceID v = iid \<and> v_Status v = NodeVisitActive"

definition idle :: "string \<Rightarrow> db \<Rightarrow> bool" where
  "idle iid db \<longleftrightarrow> (\<forall>v \<in> set (db_visits db). \<not> active_of iid v)"

definition running_at :: "string \<Rightarrow> string option \<Rightarrow> db \<Rightarrow> bool" where
  "running_at iid current db \<longleftrightarrow>
     (\<exists>v \<in> set (db_visits db). active_of iid v \<and> current = Some (v_NodeID v)
        \<and> (\<forall>w \<in> set (db_visits db). active_of iid w \<longrightarrow> w = v)
        \<and> open_at iid (v_NodeID v) (v_ID v) db)"

definition settled :: "string \<Rightarrow> db \<Rightarrow> bool" where
  "settled iid db \<longleftrightarrow> (\<forall>i \<in> set (db_instances db). i_ID i = iid \<longrightarrow>
     (if i_Status i = InstanceRunning then running_at iid (i_CurrentNodeID i) db
      else idle iid db \<and> quiet iid db))"

text \<open>The in-memory instance agrees with its row on the columns the engine reads back.\<close>

definition mirrors :: "Instance \<Rightarrow> db \<Rightarrow> bool" where
  "mirrors inst db \<longleftrightarrow> (\<exists>r \<in> set (db_instances db). i_ID r = i_ID inst \<and> i_Status r = i_Status inst
     \<and> i_FlowVersionID r = i_FlowVersionID inst)"

lemma quiet_open_at: "quiet iid db \<Longrightarrow> open_at iid nid vid db"
  by (auto simp: quiet_def open_at_def)

section \<open>Statuses along the task machine\<close>

lemma task_path_final: "(CanTransition TaskStateMachine)\<^sup>*\<^sup>* s s' \<Longrightarrow> cancelable s' \<Longrightarrow> cancelable s"
  using task.final_absorbing cancelable_iff_not_final by metis

lemma task_path1: "CanTransition TaskStateMachine s s' \<Longrightarrow> (CanTransition TaskStateMachine)\<^sup>*\<^sup>* s s'"
  by (rule r_into_rtranclp)

lemma task_rel_open: "task_rel iid t t' \<Longrightarrow> cancelable (t_Status t') \<Longrightarrow> cancelable (t_Status t)"
  by (auto simp: task_rel_def dest: task_path_final)

lemma open_at_updateTasks:
  assumes "open_at iid nid vid db"
    and "\<And>t. t \<in> set (db_tasks db) \<Longrightarrow> P t \<Longrightarrow> task_rel iid t (f t)"
  shows "open_at iid nid vid (updateTasks P f db)"
  unfolding open_at_def updateTasks_def
proof (intro ballI impI)
  fix t' assume t': "t' \<in> set (db_tasks (db\<lparr>db_tasks := updateWhere P f (db_tasks db)\<rparr>))"
    and iid: "t_InstanceID t' = iid" and op: "cancelable (t_Status t')"
  then obtain t where t: "t \<in> set (db_tasks db)" "t' = (if P t then f t else t)"
    by (auto simp: updateWhere_in_iff)
  then have rel: "task_rel iid t t'" using assms(2) by auto
  then have "t_InstanceID t = iid" and "cancelable (t_Status t)"
    using iid task_rel_open[OF rel op] by (auto simp: task_rel_def)
  then show "t_NodeID t' = nid \<and> t_VisitID t' = vid"
    using assms(1) t(1) rel by (auto simp: open_at_def task_rel_def)
qed

section \<open>Creation of tasks\<close>

text \<open>Operations that touch neither the visits nor the instances.\<close>

definition node_local :: "env \<Rightarrow> string \<Rightarrow> db \<Rightarrow> db \<Rightarrow> bool" where
  "node_local env iid db db' \<longleftrightarrow> evolves env iid db db'
     \<and> db_visits db' = db_visits db \<and> db_instances db' = db_instances db \<and> db_nodes db' = db_nodes db"

lemma node_local_refl [simp]: "node_local env iid db db"
  by (simp add: node_local_def)

lemma node_local_trans [trans]:
  "node_local env iid a b \<Longrightarrow> node_local env iid b c \<Longrightarrow> node_local env iid a c"
  by (auto simp: node_local_def intro: evolves_trans)

lemma insertTask_run:
  assumes "insertTask env t db = (row, db')"
  shows "db_tasks db' = db_tasks db @ [row]" "row = t\<lparr>t_ID := env_new_id env (db_next_id db)\<rparr>"
    "t_InstanceID t = iid \<Longrightarrow> t_ParentTaskID t = None \<Longrightarrow>
      \<exists>v \<in> set (db_visits db). v_ID v = t_VisitID t \<and> v_InstanceID v = iid \<and> v_NodeID v = t_NodeID t \<Longrightarrow>
      \<forall>n \<in> set (db_nodes db). n_ID n = t_NodeID t \<longrightarrow> works n \<Longrightarrow> node_local env iid db db'"
  using assms evolves_insertTask[of t iid db env]
  by (auto simp: insertTask_def allocId_def Let_def node_local_def)

lemma insertTasks_run:
  assumes "insertTasks env ts db = (rows, db')" and "\<forall>t \<in> set ts. t_InstanceID t = iid \<and> t_ParentTaskID t = None \<and>
      (\<exists>v \<in> set (db_visits db). v_ID v = t_VisitID t \<and> v_InstanceID v = iid \<and> v_NodeID v = t_NodeID t)
      \<and> (\<forall>n \<in> set (db_nodes db). n_ID n = t_NodeID t \<longrightarrow> works n)"
  shows "node_local env iid db db' \<and> db_tasks db' = db_tasks db @ rows
    \<and> list_all2 (\<lambda>t row. \<exists>x. row = t\<lparr>t_ID := x\<rparr>) ts rows"
  using assms
proof (induction ts arbitrary: db rows db')
  case Nil
  then show ?case by simp
next
  case (Cons t ts)
  obtain row db1 where 1: "insertTask env t db = (row, db1)" by fastforce
  obtain rows' where 2: "insertTasks env ts db1 = (rows', db')" and rows: "rows = row # rows'"
    using Cons.prems(1) 1 by (auto split: prod.splits)
  have step: "node_local env iid db db1" using insertTask_run(3)[OF 1] Cons.prems(2) by simp
  then have "db_visits db1 = db_visits db" "db_nodes db1 = db_nodes db" by (simp_all add: node_local_def)
  with Cons.IH[OF 2] Cons.prems(2) have "node_local env iid db1 db' \<and> db_tasks db' = db_tasks db1 @ rows'
      \<and> list_all2 (\<lambda>t row. \<exists>x. row = t\<lparr>t_ID := x\<rparr>) ts rows'" by simp
  then show ?case using node_local_trans[OF step] insertTask_run(1,2)[OF 1] rows by auto
qed

lemma insertTasks_rows:
  "insertTasks env ts db = (rows, db') \<Longrightarrow> db_tasks db' = db_tasks db @ rows
     \<and> list_all2 (\<lambda>t row. \<exists>x. row = t\<lparr>t_ID := x\<rparr>) ts rows"
proof (induction ts arbitrary: db rows)
  case (Cons t ts)
  obtain row db1 where 1: "insertTask env t db = (row, db1)" by fastforce
  obtain rows' where "insertTasks env ts db1 = (rows', db')" "rows = row # rows'"
    using Cons.prems 1 by (auto split: prod.splits)
  then show ?case using Cons.IH insertTask_run(1,2)[OF 1] by auto
qed simp

lemma open_at_append:
  assumes "open_at iid nid vid db" and "db_tasks db' = db_tasks db @ rows"
    and "\<forall>r \<in> set rows. t_NodeID r = nid \<and> t_VisitID r = vid"
  shows "open_at iid nid vid db'"
  using assms by (auto simp: open_at_def)

lemma buildTask_sel [simp]:
  "t_InstanceID (buildTask pc a d) = i_ID (pc_Instance pc)"
  "t_NodeID (buildTask pc a d) = n_ID (pc_Node pc)"
  "t_VisitID (buildTask pc a d) = v_ID (pc_Visit pc)"
  "t_Status (buildTask pc a d) = TaskPending"
  "t_Assignee (buildTask pc a d) = ra_User a"
  "t_SortOrder (buildTask pc a d) = 0" "t_ParentTaskID (buildTask pc a d) = None"
  by (simp_all add: buildTask_def)

text \<open>What a node processor establishes about the tasks of its instance.\<close>

definition in_visit :: "ProcessContext \<Rightarrow> db \<Rightarrow> bool" where
  "in_visit pc db \<longleftrightarrow> pc_Visit pc \<in> set (db_visits db) \<and> v_InstanceID (pc_Visit pc) = i_ID (pc_Instance pc)
     \<and> v_NodeID (pc_Visit pc) = n_ID (pc_Node pc)
     \<and> (\<forall>n \<in> set (db_nodes db). n_ID n = n_ID (pc_Node pc) \<longrightarrow> n_Kind n = n_Kind (pc_Node pc))"

lemma in_visit_local: "node_local env iid db db' \<Longrightarrow> in_visit pc db' = in_visit pc db"
  by (simp add: node_local_def in_visit_def)

definition processed :: "env \<Rightarrow> ProcessContext \<Rightarrow> db \<Rightarrow> ProcessResult \<Rightarrow> db \<Rightarrow> bool" where
  "processed env pc db r db' \<longleftrightarrow> (wf_store env db \<longrightarrow> in_visit pc db \<longrightarrow> quiet (i_ID (pc_Instance pc)) db \<longrightarrow>
     node_local env (i_ID (pc_Instance pc)) db db'
     \<and> open_at (i_ID (pc_Instance pc)) (n_ID (pc_Node pc)) (v_ID (pc_Visit pc)) db'
     \<and> (pr_Action r \<noteq> NodeActionWait \<longrightarrow> quiet (i_ID (pc_Instance pc)) db')
     \<and> (\<forall>s. pr_FinalStatus r = Some s \<longrightarrow> s = InstanceApproved \<or> s = InstanceRejected))"

lemma result_sel [simp]:
  "pr_Action (waitResult evs) = NodeActionWait" "pr_FinalStatus (waitResult evs) = None"
  "pr_Action (continueResult b evs) = NodeActionContinue" "pr_FinalStatus (continueResult b evs) = None"
  "pr_BranchID (continueResult b evs) = b"
  "pr_Action (completeResult s) = NodeActionComplete" "pr_FinalStatus (completeResult s) = Some s"
  by (simp_all add: waitResult_def continueResult_def completeResult_def)

lemma node_local_log [simp]: "node_local env iid db (recordSystemActionLog env pc t reason db)"
  by (simp add: node_local_def recordSystemActionLog_def) (simp add: addLog_def)

lemma tasks_log [simp]: "db_tasks (recordSystemActionLog env pc t reason db) = db_tasks db"
  by (simp add: recordSystemActionLog_def addLog_def)

lemma quiet_tasks: "db_tasks db' = db_tasks db \<Longrightarrow> quiet iid db' = quiet iid db"
  by (simp add: quiet_def)

lemma node_local_snapshot [simp]:
  "i_ID (pc_Instance pc) = iid \<Longrightarrow> node_local env iid db (saveFormSnapshot pc db)"
  unfolding node_local_def store_unfold
  by (auto simp: saveFormSnapshot_def intro: wf_store_unchanged rows_evolve_append)

lemma tasks_snapshot [simp]: "db_tasks (saveFormSnapshot pc db) = db_tasks db"
  by (simp add: saveFormSnapshot_def)

lemma node_local_fresh: "node_local env iid db db' \<Longrightarrow> wf_store env db \<Longrightarrow> wf_store env db'"
  by (simp add: node_local_def evolves_def)

lemma processed_prefix:
  assumes "node_local env (i_ID (pc_Instance pc)) db db1" and "db_tasks db1 = db_tasks db"
    and "processed env pc db1 r db'"
  shows "processed env pc db r db'"
  using assms quiet_tasks[OF assms(2)] node_local_fresh[OF assms(1)] node_local_trans[OF assms(1)]
    in_visit_local[OF assms(1), of pc]
  unfolding processed_def by auto

lemma processed_idle:
  assumes "node_local env (i_ID (pc_Instance pc)) db db'" and "db_tasks db' = db_tasks db"
    and "pr_FinalStatus r \<in> {None, Some InstanceApproved, Some InstanceRejected}"
  shows "processed env pc db r db'"
  using assms quiet_tasks[OF assms(2)] unfolding processed_def by (auto intro: quiet_open_at)

lemma processed_created:
  assumes "in_visit pc db \<Longrightarrow> node_local env (i_ID (pc_Instance pc)) db db'" and "db_tasks db' = db_tasks db @ rows"
    and "\<forall>r \<in> set rows. t_NodeID r = n_ID (pc_Node pc) \<and> t_VisitID r = v_ID (pc_Visit pc)"
  shows "processed env pc db (waitResult evs) db'"
  using assms open_at_append[OF quiet_open_at assms(2,3)] unfolding processed_def by auto

section \<open>The node processors\<close>

lemma insertTasks_processed:
  assumes "insertTasks env ts db = (rows, db')"
    and "\<forall>t \<in> set ts. t_InstanceID t = i_ID (pc_Instance pc) \<and> t_NodeID t = n_ID (pc_Node pc)
           \<and> t_VisitID t = v_ID (pc_Visit pc) \<and> t_ParentTaskID t = None"
    and "works (pc_Node pc)"
  shows "processed env pc db (waitResult evs) db'"
proof -
  have rows: "db_tasks db' = db_tasks db @ rows" "list_all2 (\<lambda>t row. \<exists>x. row = t\<lparr>t_ID := x\<rparr>) ts rows"
    using insertTasks_rows[OF assms(1)] by auto
  have loc: "node_local env (i_ID (pc_Instance pc)) db db'" if "in_visit pc db"
    using insertTasks_run[OF assms(1), of "i_ID (pc_Instance pc)"] assms(2,3) that by (auto simp: in_visit_def works_def)
  have "\<forall>r \<in> set rows. t_NodeID r = n_ID (pc_Node pc) \<and> t_VisitID r = v_ID (pc_Visit pc)"
    using rows(2) assms(2) by (auto dest!: list_all2_mem2)
  with rows loc show ?thesis by (intro processed_created[where rows = rows]) auto
qed

lemma createTasksForUsers_processed:
  assumes "createTasksForUsers env pc us db = Inr (r, db')" and wk: "works (pc_Node pc)"
  shows "processed env pc db r db'"
proof -
  obtain ids infos d rows evs where
    ins: "insertTasks env (map (\<lambda>u. buildTask pc \<lparr>ra_User = infoOf infos u, ra_Delegator = None\<rparr> d) ids) db
            = (rows, db')" and r: "r = waitResult evs"
    using assms by (auto simp: createTasksForUsers_def Let_def split: if_splits prod.splits)
  show ?thesis unfolding r by (rule insertTasks_processed[OF ins _ wk]) auto
qed

lemma nodeAutoPassResult_processed: "nodeAutoPassResult env pc reason db = (r, db') \<Longrightarrow> processed env pc db r db'"
  by (auto simp: nodeAutoPassResult_def intro!: processed_idle)

lemma handleEmptyAssignee_processed:
  "handleEmptyAssignee env pc db = Inr (r, db') \<Longrightarrow> works (pc_Node pc) \<Longrightarrow> processed env pc db r db'"
  by (auto simp: handleEmptyAssignee_def split: EmptyAssigneeAction.splits option.splits if_splits
      intro: createTasksForUsers_processed nodeAutoPassResult_processed)

lemma resolveAutoExecution_processed:
  "resolveAutoExecution env pc db = Some (r, db') \<Longrightarrow> processed env pc db r db'"
  by (auto simp: resolveAutoExecution_def split: ExecutionType.splits intro!: processed_idle)

lemma snapshot_processed:
  "processed env pc (saveFormSnapshot pc db) r db' \<Longrightarrow> processed env pc db r db'"
  by (rule processed_prefix) simp_all

lemma Handle_processed:
  assumes run: "Handle_Process env pc db = Inr (r, db')" and wk: "works (pc_Node pc)"
  shows "processed env pc db r db'"
proof (cases "resolveAutoExecution env pc db")
  case (Some x)
  then show ?thesis using run
    by (auto simp: Handle_Process_def intro: resolveAutoExecution_processed)
next
  case None
  let ?db1 = "saveFormSnapshot pc db"
  obtain as where as: "resolveNodeAssignees env pc ?db1 = Inr as"
    and body: "(if as = [] then handleEmptyAssignee env pc ?db1
       else let (evs, db2) = createTasksWithDelegation env pc as ?db1 in Inr (waitResult evs, db2)) = Inr (r, db')"
    using None run by (auto simp: Handle_Process_def Let_def)
  have "processed env pc ?db1 r db'"
  proof (cases "as = []")
    case True
    then show ?thesis using body wk by (auto intro: handleEmptyAssignee_processed)
  next
    case False
    then obtain d rows evs where
      ins: "insertTasks env (map (\<lambda>a. buildTask pc a d) as) ?db1 = (rows, db')" and r: "r = waitResult evs"
      using body by (auto simp: createTasksWithDelegation_def Let_def split: prod.splits)
    show ?thesis unfolding r by (rule insertTasks_processed[OF ins _ wk]) auto
  qed
  then show ?thesis by (rule snapshot_processed)
qed

lemma node_local_ccs:
  assumes "InsertCCRecords env iid n v us infos m db = (ids, db')"
  shows "node_local env iid db db' \<and> db_tasks db' = db_tasks db"
proof -
  have "db_visits (insertCCs env rs d) = db_visits d \<and> db_nodes (insertCCs env rs d) = db_nodes d \<and> db_instances (insertCCs env rs d) = db_instances d
      \<and> db_tasks (insertCCs env rs d) = db_tasks d" for rs d
    by (induction rs arbitrary: d) (simp_all add: insertCC_def allocId_def)
  with assms evolves_InsertCCRecords[OF assms] show ?thesis
    by (auto simp: node_local_def InsertCCRecords_def Let_def split: if_splits)
qed

lemma CC_processed: "CC_Process env pc db = Inr (r, db') \<Longrightarrow> processed env pc db r db'"
  by (auto simp: CC_Process_def createCCRecords_def InsertAutoCCRecords_def Let_def
      split: if_splits prod.splits intro!: processed_idle dest: node_local_ccs)

lemma Condition_processed: "Condition_Process env pc db = Inr (r, db') \<Longrightarrow> processed env pc db r db'"
  by (auto simp: Condition_Process_def Let_def split: if_splits intro!: processed_idle)

section \<open>The entry sweep of approval nodes\<close>

lemma createApprovalTasks_run:
  assumes "createApprovalTasks env pc i as db = (evs, db')" and wk: "works (pc_Node pc)"
  shows "(in_visit pc db \<longrightarrow> node_local env (i_ID (pc_Instance pc)) db db') \<and> (\<exists>rows. db_tasks db' = db_tasks db @ rows
    \<and> (\<forall>r \<in> set rows. t_InstanceID r = i_ID (pc_Instance pc) \<and> t_NodeID r = n_ID (pc_Node pc)
         \<and> t_VisitID r = v_ID (pc_Visit pc)))"
  using assms(1)
proof (induction as arbitrary: i db evs db')
  case Nil
  then show ?case by simp
next
  case (Cons a as)
  let ?task = "let task = buildTask pc a (computeDeadline env (pc_Node pc)) in
      if n_ApprovalMethod (pc_Node pc) = ApprovalSequential
      then (let t = task\<lparr>t_SortOrder := int i + 1\<rparr>
            in if i > 0 then t\<lparr>t_Status := TaskWaiting, t_Deadline := None\<rparr> else t)
      else task"
  obtain row db1 where 1: "insertTask env ?task db = (row, db1)" by fastforce
  obtain evs' where 2: "createApprovalTasks env pc (Suc i) as db1 = (evs', db')"
    using Cons.prems 1 by (auto simp: Let_def split: prod.splits)
  have sel: "t_InstanceID ?task = i_ID (pc_Instance pc)" "t_NodeID ?task = n_ID (pc_Node pc)"
    "t_VisitID ?task = v_ID (pc_Visit pc)" "t_ParentTaskID ?task = None" by (simp_all add: Let_def)
  obtain rows where rows: "in_visit pc db1 \<longrightarrow> node_local env (i_ID (pc_Instance pc)) db1 db'"
    "db_tasks db' = db_tasks db1 @ rows"
    "\<forall>r \<in> set rows. t_InstanceID r = i_ID (pc_Instance pc) \<and> t_NodeID r = n_ID (pc_Node pc)
         \<and> t_VisitID r = v_ID (pc_Visit pc)"
    using Cons.IH[OF 2] by auto
  have "node_local env (i_ID (pc_Instance pc)) db db'" if v: "in_visit pc db"
  proof -
    have "node_local env (i_ID (pc_Instance pc)) db db1"
      by (rule insertTask_run(3)[OF 1 sel(1) sel(4)]) (use v sel wk in \<open>auto simp: in_visit_def works_def\<close>)
    with rows(1) v in_visit_local[OF this, of pc] show ?thesis by (auto intro: node_local_trans)
  qed
  moreover have "db_tasks db' = db_tasks db @ (row # rows)"
    using rows(2) insertTask_run(1)[OF 1] by simp
  ultimately show ?case using rows(3) insertTask_run(2)[OF 1] sel
    by (intro conjI exI[of _ "row # rows"]) simp_all
qed

text \<open>A list of in-memory copies and the selected rows of a table, updated together.\<close>

definition in_sync :: "('r \<Rightarrow> bool) \<Rightarrow> ('r \<Rightarrow> 'k) \<Rightarrow> 'r list \<Rightarrow> 'r list \<Rightarrow> bool" where
  "in_sync S key xs rows \<longleftrightarrow> set xs = {r \<in> set rows. S r} \<and> distinct (map key xs) \<and> distinct (map key rows)"

lemma in_sync_update:
  assumes "in_sync S key xs rows" and "i < length xs"
    and P: "\<And>r. P r \<longleftrightarrow> key r = key (xs ! i) \<and> Q r" and Q: "Q (xs ! i)"
    and f: "\<And>r. key (f r) = key r" "\<And>r. S (f r) = S r"
  shows "in_sync S key (xs[i := f (xs ! i)]) (updateWhere P f rows)"
proof -
  let ?x = "xs ! i"
  have sync: "set xs = {r \<in> set rows. S r}" "distinct (map key xs)" "distinct (map key rows)"
    using assms(1) by (auto simp: in_sync_def)
  have x: "?x \<in> set rows" "S ?x" using sync(1) assms(2) nth_mem by blast+
  have uniq: "r = ?x" if "r \<in> set rows" "key r = key ?x" for r
    using distinct_key_eq[OF sync(3) that(1) x(1) that(2)] .
  have set_xs: "set (xs[i := f ?x]) = insert (f ?x) (set xs - {?x})"
    using sync(2) assms(2) by (metis distinct_map set_update_distinct)
  have "set (updateWhere P f rows) = insert (f ?x) (set rows - {?x})"
    using uniq x(1) P Q by (auto simp: set_updateWhere image_iff)
  then have "set (xs[i := f ?x]) = {r \<in> set (updateWhere P f rows). S r}"
    unfolding set_xs sync(1) using f(2) x(2) by auto
  moreover have "map key (xs[i := f ?x]) = map key xs"
    using f(1) by (simp add: map_update list_update_same_conv)
      (metis assms(2) list_update_id nth_map)
  moreover have "map key (updateWhere P f rows) = map key rows" using f(1) by (rule map_updateWhere_key)
  ultimately show ?thesis using sync by (simp add: in_sync_def)
qed

definition sweep_ok :: "env \<Rightarrow> string \<Rightarrow> string \<Rightarrow> string \<Rightarrow> db \<Rightarrow> sweep \<Rightarrow> bool" where
  "sweep_ok env iid nid vid db0 st \<longleftrightarrow> wf_store env db0 \<and> node_local env iid db0 (sw_db st)
     \<and> open_at iid nid vid (sw_db st)
     \<and> in_sync (\<lambda>t. t_InstanceID t = iid \<and> t_NodeID t = nid) t_ID (sw_tasks st) (db_tasks (sw_db st))"

lemma node_local_updateTasks:
  assumes "\<And>t. wf_store env db \<Longrightarrow> t \<in> set (db_tasks db) \<Longrightarrow> P t \<Longrightarrow> task_rel iid t (f t)"
    and "\<And>t. t_ID (f t) = t_ID t" and "\<And>t. t_ParentTaskID (f t) = t_ParentTaskID t"
  shows "node_local env iid db (updateTasks P f db)"
  using evolves_updateTasks[OF assms] by (simp add: node_local_def) (simp add: updateTasks_def)

text \<open>A guarded update of the row of an in-memory copy keeps the sweep consistent.\<close>

lemma sweep_ok_update:
  assumes ok: "sweep_ok env iid nid vid db0 st" and i: "i < length (sw_tasks st)"
    and s: "t_Status (sw_tasks st ! i) = from" and to: "CanTransition TaskStateMachine from to"
    and f: "\<And>t. t_ID (f t) = t_ID t \<and> t_TenantID (f t) = t_TenantID t \<and> t_InstanceID (f t) = t_InstanceID t
        \<and> t_NodeID (f t) = t_NodeID t \<and> t_VisitID (f t) = t_VisitID t \<and> t_ParentTaskID (f t) = t_ParentTaskID t \<and> t_Status (f t) = to"
    and P: "P = (\<lambda>r. t_ID r = t_ID (sw_tasks st ! i) \<and> t_Status r = from)"
    and db1: "db1 = updateTasks P f (sw_db st)"
  shows "sweep_ok env iid nid vid db0 (st\<lparr>sw_tasks := (sw_tasks st)[i := f (sw_tasks st ! i)], sw_db := db1\<rparr>)"
proof -
  let ?x = "sw_tasks st ! i"
  have sync: "in_sync (\<lambda>t. t_InstanceID t = iid \<and> t_NodeID t = nid) t_ID (sw_tasks st) (db_tasks (sw_db st))"
    using ok by (simp add: sweep_ok_def)
  have x: "?x \<in> set (db_tasks (sw_db st))" "t_InstanceID ?x = iid"
    using sync i nth_mem[OF i] by (auto simp: in_sync_def)
  have only: "r = ?x" if "r \<in> set (db_tasks (sw_db st))" "P r" for r
    using that x sync distinct_key_eq[of t_ID "db_tasks (sw_db st)" r ?x] by (auto simp: in_sync_def P)
  have rel: "task_rel iid r (f r)" if "r \<in> set (db_tasks (sw_db st))" "P r" for r
    using only[OF that] x f s task_path1[OF to] by (auto simp: task_rel_def)
  have "node_local env iid (sw_db st) db1"
    unfolding db1 using rel f by (intro node_local_updateTasks) auto
  moreover have "open_at iid nid vid db1"
    unfolding db1 using ok rel by (intro open_at_updateTasks) (auto simp: sweep_ok_def)
  moreover have "in_sync (\<lambda>t. t_InstanceID t = iid \<and> t_NodeID t = nid) t_ID
      ((sw_tasks st)[i := f ?x]) (db_tasks db1)"
    unfolding db1 updateTasks_def using f s
    by (auto simp: P intro!: in_sync_update[OF sync i, where Q = "\<lambda>r. t_Status r = from"])
  ultimately show ?thesis using ok by (auto simp: sweep_ok_def intro: node_local_trans)
qed

lemma sweep_ok_more:
  "sweep_ok env iid nid vid db0 (st\<lparr>sw_events := evs\<rparr>) = sweep_ok env iid nid vid db0 st"
  "sweep_ok env iid nid vid db0 (st\<lparr>sw_any := b\<rparr>) = sweep_ok env iid nid vid db0 st"
  by (simp_all add: sweep_ok_def)

lemma sweep_ok_log:
  assumes "sweep_ok env iid nid vid db0 st"
  shows "sweep_ok env iid nid vid db0 (st\<lparr>sw_db := recordSystemActionLog env pc t reason (sw_db st)\<rparr>)"
  using assms node_local_trans[OF _ node_local_log] by (auto simp: sweep_ok_def open_at_def)

lemma activateNext_ok:
  assumes ok: "sweep_ok env iid nid vid db0 st"
  shows "sweep_ok env iid nid vid db0 (activateNextInSweep env pc i st)
    \<and> length (sw_tasks (activateNextInSweep env pc i st)) = length (sw_tasks st)"
proof (cases "find (\<lambda>j. t_Status (sw_tasks st ! j) = TaskWaiting) [Suc i ..< length (sw_tasks st)]")
  case None
  then show ?thesis using ok by (simp add: activateNextInSweep_def)
next
  case (Some j)
  then have j: "j < length (sw_tasks st)" "t_Status (sw_tasks st ! j) = TaskWaiting"
    by (auto dest!: find_Some_mem)
  let ?x = "sw_tasks st ! j"
  let ?f = "\<lambda>r. r\<lparr>t_Status := TaskPending, t_Deadline := computeDeadline env (pc_Node pc)\<rparr>"
  let ?P = "\<lambda>r. t_ID r = t_ID ?x \<and> t_Status r = TaskWaiting"
  let ?db1 = "updateTasks ?P ?f (sw_db st)"
  have "?x \<in> set (db_tasks (sw_db st))"
    using ok nth_mem[OF j(1)] by (auto simp: sweep_ok_def in_sync_def)
  then have "affected ?P (db_tasks (sw_db st)) \<noteq> 0" using j(2) by (auto simp: affected_zero)
  then have eq: "activateNextInSweep env pc i st =
      (st\<lparr>sw_tasks := (sw_tasks st)[j := ?f ?x], sw_db := ?db1\<rparr>)
        \<lparr>sw_events := sw_events st @ [TaskActivatedEvent (pc_Instance pc) (?f ?x) (pc_Node pc) TaskActivationQueueAdvanced]\<rparr>"
    using Some by (simp add: activateNextInSweep_def Let_def)
  have "sweep_ok env iid nid vid db0 (st\<lparr>sw_tasks := (sw_tasks st)[j := ?f ?x], sw_db := ?db1\<rparr>)"
    by (rule sweep_ok_update[OF ok j, where to = TaskPending]) (simp_all add: task_transitions)
  then show ?thesis unfolding eq by (simp add: sweep_ok_more)
qed

lemma autoPassStep_ok:
  assumes ok: "sweep_ok env iid nid vid db0 st" and i: "i < length (sw_tasks st)"
  shows "sweep_ok env iid nid vid db0 (autoPassStep env pc rule i st)
    \<and> length (sw_tasks (autoPassStep env pc rule i st)) = length (sw_tasks st)"
proof (cases "rule (t_AssigneeID (sw_tasks st ! i)) = None \<or> t_Status (sw_tasks st ! i) \<noteq> TaskPending")
  case True
  then show ?thesis using ok by (auto simp: autoPassStep_def Let_def split: option.splits)
next
  case False
  then obtain reason where r: "rule (t_AssigneeID (sw_tasks st ! i)) = Some reason"
    and p: "t_Status (sw_tasks st ! i) = TaskPending" by auto
  let ?x = "sw_tasks st ! i"
  let ?f = "\<lambda>t. t\<lparr>t_Status := TaskApproved, t_FinishedAt := Some (env_now env)\<rparr>"
  let ?P = "\<lambda>r. t_ID r = t_ID ?x \<and> t_Status r = TaskPending"
  let ?st1 = "st\<lparr>sw_tasks := (sw_tasks st)[i := ?f ?x], sw_db := updateTasks ?P ?f (sw_db st)\<rparr>"
  let ?st2 = "?st1\<lparr>sw_db := recordSystemActionLog env pc (Some (?f ?x)) reason (sw_db ?st1)\<rparr>"
  let ?st3 = "?st2\<lparr>sw_events := sw_events st @ [TaskApprovedEvent (pc_Instance pc) (?f ?x) (pc_Node pc) SystemOperator reason]\<rparr>
      \<lparr>sw_any := True\<rparr>"
  have eq: "autoPassStep env pc rule i st =
      (if n_ApprovalMethod (pc_Node pc) = ApprovalSequential then activateNextInSweep env pc i ?st3 else ?st3)"
    using r p by (simp add: autoPassStep_def Let_def)
  have "sweep_ok env iid nid vid db0 ?st1"
    by (rule sweep_ok_update[OF ok i p, where to = TaskApproved]) (simp_all add: task_transitions)
  then have st3: "sweep_ok env iid nid vid db0 ?st3"
    unfolding sweep_ok_more by (rule sweep_ok_log)
  show ?thesis unfolding eq using st3 activateNext_ok[OF st3, of pc i] by auto
qed

lemma sweep_fold_ok:
  assumes "sweep_ok env iid nid vid db0 st" and "\<forall>i \<in> set is. i < length (sw_tasks st)"
  shows "sweep_ok env iid nid vid db0 (fold (autoPassStep env pc rule) is st)"
  using assms
proof (induction "is" arbitrary: st)
  case (Cons i "is")
  then show ?case using autoPassStep_ok[of env iid nid vid db0 st i pc rule] by simp
qed simp

lemma cancelRemaining_ok:
  assumes st: "sweep_ok env iid nid vid db0 st"
    and run: "cancelRemainingEntryTasks env pc (sw_tasks st) (sw_db st) = (evs, tasks2, db')"
  shows "node_local env iid db0 db' \<and> quiet iid db'"
proof -
  define op where "op = (\<lambda>t::Task. cancelable (t_Status t))"
  have sync: "set (sw_tasks st) = {r \<in> set (db_tasks (sw_db st)). t_InstanceID r = iid \<and> t_NodeID r = nid}"
    "distinct (map t_ID (db_tasks (sw_db st)))" and oa: "open_at iid nid vid (sw_db st)"
    and nl: "node_local env iid db0 (sw_db st)"
    using st by (auto simp: sweep_ok_def in_sync_def)
  have open_iff: "t \<in> set (filter op (sw_tasks st)) \<longleftrightarrow> t \<in> set (db_tasks (sw_db st)) \<and> t_InstanceID t = iid \<and> op t" for t
    using sync(1) oa by (auto simp: open_at_def op_def)
  show ?thesis
  proof (cases "filter op (sw_tasks st) = []")
    case True
    then have "db' = sw_db st" using run
      by (auto simp: cancelRemainingEntryTasks_def Let_def op_def cancelable_def)
    moreover have "\<not> op t" if "t \<in> set (db_tasks (sw_db st))" "t_InstanceID t = iid" for t
      using open_iff[of t] that by (simp add: True)
    then have "quiet iid (sw_db st)" by (simp add: quiet_def op_def)
    ultimately show ?thesis using nl by simp
  next
    case False
    let ?P = "\<lambda>r. t_ID r \<in> set (map t_ID (filter op (sw_tasks st)))"
    let ?f = "\<lambda>t. t\<lparr>t_Status := TaskCanceled, t_FinishedAt := Some (env_now env)\<rparr>"
    have db': "db' = updateTasks ?P ?f (sw_db st)"
      using run False by (auto simp: cancelRemainingEntryTasks_def Let_def op_def cancelable_def)
    have P_iff: "?P r \<longleftrightarrow> r \<in> set (filter op (sw_tasks st))" if "r \<in> set (db_tasks (sw_db st))" for r
    proof
      assume "?P r"
      then obtain t where t: "t \<in> set (filter op (sw_tasks st))" "t_ID r = t_ID t" by auto
      then show "r \<in> set (filter op (sw_tasks st))"
        using distinct_key_eq[OF sync(2) that, of t] open_iff by auto
    qed auto
    have rel: "task_rel iid r (?f r)" if "r \<in> set (db_tasks (sw_db st))" "?P r" for r
    proof -
      have "t_InstanceID r = iid" "op r" using that P_iff open_iff by blast+
      moreover have "op r \<Longrightarrow> (CanTransition TaskStateMachine)\<^sup>*\<^sup>* (t_Status r) TaskCanceled"
        by (rule task_path1) (auto simp: op_def cancelable_def task_transitions)
      ultimately show ?thesis by (simp add: task_rel_def)
    qed
    have "node_local env iid (sw_db st) db'" unfolding db' using rel by (intro node_local_updateTasks) auto
    moreover have "quiet iid db'"
      unfolding quiet_def db' updateTasks_def
    proof (intro ballI impI)
      fix t' assume "t' \<in> set (db_tasks (sw_db st\<lparr>db_tasks := updateWhere ?P ?f (db_tasks (sw_db st))\<rparr>))"
        and iid: "t_InstanceID t' = iid"
      then obtain t where t: "t \<in> set (db_tasks (sw_db st))" "t' = (if ?P t then ?f t else t)"
        by (auto simp: updateWhere_in_iff)
      then show "\<not> cancelable (t_Status t')"
        using iid P_iff[OF t(1)] open_iff by (cases "?P t") (auto simp: cancelable_def op_def)
    qed
    ultimately show ?thesis using nl by (auto intro: node_local_trans)
  qed
qed

lemma distinct_map_sort_key: "distinct (map k (sort_key f xs)) = distinct (map k xs)"
  by (rule mset_eq_imp_distinct_iff) (simp add: mset_map)

lemma autoPassEligibleTasks_processed:
  assumes run: "autoPassEligibleTasks env pc evs rule db = Inr (r, db')" and fresh: "wf_store env db"
    and oa: "open_at (i_ID (pc_Instance pc)) (n_ID (pc_Node pc)) (v_ID (pc_Visit pc)) db"
  shows "node_local env (i_ID (pc_Instance pc)) db db'
     \<and> open_at (i_ID (pc_Instance pc)) (n_ID (pc_Node pc)) (v_ID (pc_Visit pc)) db'
     \<and> (pr_Action r \<noteq> NodeActionWait \<longrightarrow> quiet (i_ID (pc_Instance pc)) db') \<and> pr_FinalStatus r = None"
proof -
  let ?iid = "i_ID (pc_Instance pc)" and ?nid = "n_ID (pc_Node pc)" and ?vid = "v_ID (pc_Visit pc)"
  define tasks where "tasks = sort_key t_SortOrder (filter (\<lambda>t. t_InstanceID t = ?iid \<and> t_NodeID t = ?nid) (db_tasks db))"
  define st0 where "st0 = \<lparr>sw_tasks = tasks, sw_db = db, sw_events = [], sw_any = False\<rparr>"
  define st where "st = fold (autoPassStep env pc rule) [0 ..< length tasks] st0"
  have "distinct (map t_ID (filter (\<lambda>t. t_InstanceID t = ?iid \<and> t_NodeID t = ?nid) (db_tasks db)))"
    using wf_store_distinct(1)[OF fresh] by (rule distinct_map_filter)
  then have "distinct (map t_ID tasks)" unfolding tasks_def by (simp only: distinct_map_sort_key)
  then have "sweep_ok env ?iid ?nid ?vid db st0"
    using fresh oa wf_store_distinct(1)[OF fresh]
    by (auto simp: sweep_ok_def st0_def in_sync_def tasks_def)
  then have ok: "sweep_ok env ?iid ?nid ?vid db st"
    unfolding st_def by (rule sweep_fold_ok) (simp add: st0_def)
  then have st_facts: "node_local env ?iid db (sw_db st)" "open_at ?iid ?nid ?vid (sw_db st)"
    by (auto simp: sweep_ok_def)
  have run': "(if \<not> sw_any st then Inr (waitResult (evs @ sw_events st), sw_db st)
      else bindE (evaluatePassRule (env_inexactFloat64 env) (pc_Node pc) (sw_tasks st)) (\<lambda>completion.
        if completion = PassRulePassed then
          let (cancelEvents, tasks2, db2) = cancelRemainingEntryTasks env pc (sw_tasks st) (sw_db st)
          in Inr (continueResult None (suppressActivationsForClearedTasks ((evs @ sw_events st) @ cancelEvents) tasks2), db2)
        else Inr (waitResult (suppressActivationsForClearedTasks (evs @ sw_events st) (sw_tasks st)), sw_db st)))
      = Inr (r, db')"
    using run unfolding autoPassEligibleTasks_def tasks_def[symmetric] Let_def[of tasks]
      st0_def[symmetric] st_def[symmetric] Let_def[of st] Let_def[of "evs @ sw_events st"] .
  consider (wait) "db' = sw_db st" "pr_Action r = NodeActionWait" "pr_FinalStatus r = None"
    | (pass) ce t2 where "cancelRemainingEntryTasks env pc (sw_tasks st) (sw_db st) = (ce, t2, db')"
        "pr_FinalStatus r = None"
  proof (cases "sw_any st")
    case False
    then show ?thesis using run' by (intro wait) auto
  next
    case True
    then obtain c where c: "evaluatePassRule (env_inexactFloat64 env) (pc_Node pc) (sw_tasks st) = Inr c"
      using run' by (cases "evaluatePassRule (env_inexactFloat64 env) (pc_Node pc) (sw_tasks st)") simp_all
    obtain ce t2 db2 where can: "cancelRemainingEntryTasks env pc (sw_tasks st) (sw_db st) = (ce, t2, db2)"
      by (cases "cancelRemainingEntryTasks env pc (sw_tasks st) (sw_db st)") auto
    show ?thesis
    proof (cases "c = PassRulePassed")
      case True
      then show ?thesis using run' \<open>sw_any st\<close> c can by (intro pass[of ce t2]) auto
    next
      case False
      then show ?thesis using run' \<open>sw_any st\<close> c by (intro wait) auto
    qed
  qed
  then show ?thesis
  proof cases
    case wait
    with st_facts show ?thesis by simp
  next
    case pass
    with cancelRemaining_ok[OF ok pass(1)] show ?thesis by (auto intro: quiet_open_at)
  qed
qed

lemma log_processed:
  "processed env pc (recordSystemActionLog env pc t reason db) r db' \<Longrightarrow> processed env pc db r db'"
  by (rule processed_prefix) simp_all

lemma applySameApplicantPolicy_run:
  assumes "applySameApplicantPolicy env pc as db = Inr (as', decided, db')" and wk: "works (pc_Node pc)"
  shows "case decided of Some r \<Rightarrow> processed env pc db r db'
    | None \<Rightarrow> node_local env (i_ID (pc_Instance pc)) db db' \<and> db_tasks db' = db_tasks db"
  using assms(1) unfolding applySameApplicantPolicy_def Let_def
  by (auto split: if_splits SameApplicantAction.splits prod.splits
      dest!: handleEmptyAssignee_processed[OF _ wk] nodeAutoPassResult_processed intro: log_processed)

lemma createApprovalTasks_autoPass:
  assumes ca: "createApprovalTasks env pc i as db = (evs, db3)"
    and run: "autoPassEligibleTasks env pc evs rule db3 = Inr (r, db')" and wk: "works (pc_Node pc)"
  shows "processed env pc db r db'"
  unfolding processed_def
proof (intro impI)
  let ?iid = "i_ID (pc_Instance pc)" and ?nid = "n_ID (pc_Node pc)" and ?vid = "v_ID (pc_Visit pc)"
  assume fresh: "wf_store env db" and v: "in_visit pc db" and q: "quiet ?iid db"
  obtain rows where rows: "node_local env ?iid db db3" "db_tasks db3 = db_tasks db @ rows"
    "\<forall>r \<in> set rows. t_NodeID r = ?nid \<and> t_VisitID r = ?vid"
    using createApprovalTasks_run[OF ca wk] v by blast
  have "open_at ?iid ?nid ?vid db3" using open_at_append[OF quiet_open_at[OF q] rows(2,3)] .
  from autoPassEligibleTasks_processed[OF run node_local_fresh[OF rows(1) fresh] this]
  show "node_local env ?iid db db' \<and> open_at ?iid ?nid ?vid db'
      \<and> (pr_Action r \<noteq> NodeActionWait \<longrightarrow> quiet ?iid db')
      \<and> (\<forall>s. pr_FinalStatus r = Some s \<longrightarrow> s = InstanceApproved \<or> s = InstanceRejected)"
    using node_local_trans[OF rows(1)] by auto
qed

lemma Approval_processed:
  assumes run: "Approval_Process env pc db = Inr (r, db')" and wk: "works (pc_Node pc)"
  shows "processed env pc db r db'"
proof (cases "resolveAutoExecution env pc db")
  case (Some x)
  then show ?thesis using run by (auto simp: Approval_Process_def intro: resolveAutoExecution_processed)
next
  case None
  let ?db1 = "saveFormSnapshot pc db"
  obtain as0 where as0: "resolveNodeAssignees env pc ?db1 = Inr as0"
    and rest: "(if as0 = [] then handleEmptyAssignee env pc ?db1
       else bindE (applySameApplicantPolicy env pc as0 ?db1) (\<lambda>(assignees, decided, db2).
              case decided of
                Some r \<Rightarrow> Inr (r, db2)
              | None \<Rightarrow>
                  let (evs, db3) = createApprovalTasks env pc 0 assignees db2
                  in case entryAutoPassRule pc assignees db3 of
                      None \<Rightarrow> Inr (waitResult evs, db3)
                    | Some rule \<Rightarrow> autoPassEligibleTasks env pc evs rule db3)) = Inr (r, db')"
    using run None by (auto simp: Approval_Process_def Let_def)
  have "processed env pc ?db1 r db'"
  proof (cases "as0 = []")
    case True
    then show ?thesis using rest wk by (auto intro: handleEmptyAssignee_processed)
  next
    case False
    then obtain as decided db2 where pol: "applySameApplicantPolicy env pc as0 ?db1 = Inr (as, decided, db2)"
      using rest by auto
    show ?thesis
    proof (cases decided)
      case (Some d)
      then show ?thesis using rest False pol applySameApplicantPolicy_run[OF pol wk] by auto
    next
      case None
      then have step: "node_local env (i_ID (pc_Instance pc)) ?db1 db2" "db_tasks db2 = db_tasks ?db1"
        using applySameApplicantPolicy_run[OF pol wk] by auto
      obtain evs db3 where ca: "createApprovalTasks env pc 0 as db2 = (evs, db3)" by fastforce
      have "processed env pc db2 r db'"
      proof (cases "entryAutoPassRule pc as db3")
        case None
        obtain rows where "in_visit pc db2 \<longrightarrow> node_local env (i_ID (pc_Instance pc)) db2 db3" "db_tasks db3 = db_tasks db2 @ rows"
          "\<forall>r \<in> set rows. t_NodeID r = n_ID (pc_Node pc) \<and> t_VisitID r = v_ID (pc_Visit pc)"
          using createApprovalTasks_run[OF ca wk] by blast
        moreover have "r = waitResult evs" "db' = db3"
          using rest False pol ca None \<open>decided = None\<close> by auto
        ultimately show ?thesis by (auto intro: processed_created)
      next
        case (Some rule)
        then show ?thesis
          using rest False pol ca wk \<open>decided = None\<close> by (auto intro: createApprovalTasks_autoPass)
      qed
      then show ?thesis by (rule processed_prefix[OF step])
    qed
  qed
  then show ?thesis by (rule snapshot_processed)
qed

lemma Process_processed:
  "Process env pc (n_Kind (pc_Node pc)) db = Inr (r, db') \<Longrightarrow> processed env pc db r db'"
  by (cases "n_Kind (pc_Node pc)") (auto simp: works_def Start_Process_def End_Process_def intro: processed_idle Approval_processed
      Handle_processed Condition_processed CC_processed)

section \<open>The traversal\<close>

lemma beginNodeVisit_run:
  assumes "beginNodeVisit env inst node db = (visit, db')"
  shows "i_ID inst \<in> i_ID ` set (db_instances db) \<Longrightarrow> node \<in> set (db_nodes db) \<Longrightarrow> evolves env (i_ID inst) db db'"
    "db_tasks db' = db_tasks db" "db_instances db' = db_instances db"
    "db_visits db' = db_visits db @ [visit]" "active_of (i_ID inst) visit" "v_NodeID visit = n_ID node"
    "db_nodes db' = db_nodes db"
proof -
  let ?v = "\<lparr>v_ID = [], v_TenantID = i_TenantID inst, v_InstanceID = i_ID inst, v_NodeID = n_ID node,
      v_Sequence = int (length (filter (\<lambda>v. v_InstanceID v = i_ID inst) (db_visits db))) + 1,
      v_Status = NodeVisitActive, v_FinishedAt = None\<rparr>"
  have run: "insertVisit env ?v db = (visit, db')" using assms by (simp add: beginNodeVisit_def Let_def)
  show "i_ID inst \<in> i_ID ` set (db_instances db) \<Longrightarrow> node \<in> set (db_nodes db) \<Longrightarrow> evolves env (i_ID inst) db db'"
    using evolves_insertVisit[of ?v "i_ID inst" db env] run by simp
  show "db_tasks db' = db_tasks db" "db_instances db' = db_instances db"
    "db_visits db' = db_visits db @ [visit]" "active_of (i_ID inst) visit" "v_NodeID visit = n_ID node"
    "db_nodes db' = db_nodes db"
    using run by (auto simp: insertVisit_def allocId_def Let_def active_of_def)
qed

lemma copyInstanceCols_id [simp]:
  "i_ID (copyInstanceCols cols m r) = i_ID r" "i_TenantID (copyInstanceCols cols m r) = i_TenantID r"
  "i_FlowID (copyInstanceCols cols m r) = i_FlowID r" "i_FlowVersionID (copyInstanceCols cols m r) = i_FlowVersionID r"
  "i_Applicant (copyInstanceCols cols m r) = i_Applicant r"
proof -
  have "i_ID (copyInstanceCol m c r) = i_ID r \<and> i_TenantID (copyInstanceCol m c r) = i_TenantID r
      \<and> i_FlowID (copyInstanceCol m c r) = i_FlowID r \<and> i_FlowVersionID (copyInstanceCol m c r) = i_FlowVersionID r
      \<and> i_Applicant (copyInstanceCol m c r) = i_Applicant r" for c r
    by (cases c) simp_all
  then have "i_ID (copyInstanceCols cols m r) = i_ID r \<and> i_TenantID (copyInstanceCols cols m r) = i_TenantID r
      \<and> i_FlowID (copyInstanceCols cols m r) = i_FlowID r \<and> i_FlowVersionID (copyInstanceCols cols m r) = i_FlowVersionID r
      \<and> i_Applicant (copyInstanceCols cols m r) = i_Applicant r"
    unfolding copyInstanceCols_def by (induction cols arbitrary: r) simp_all
  then show "i_ID (copyInstanceCols cols m r) = i_ID r" "i_TenantID (copyInstanceCols cols m r) = i_TenantID r"
    "i_FlowID (copyInstanceCols cols m r) = i_FlowID r" "i_FlowVersionID (copyInstanceCols cols m r) = i_FlowVersionID r"
    "i_Applicant (copyInstanceCols cols m r) = i_Applicant r" by simp_all
qed

lemma copyInstanceCols_status:
  "i_Status (copyInstanceCols cols m r) = (if ColStatus \<in> set cols then i_Status m else i_Status r)"
proof (induction cols arbitrary: r)
  case (Cons c cols)
  then show ?case by (cases c) (simp_all add: copyInstanceCols_def)
qed (simp add: copyInstanceCols_def)

lemma copyInstanceCols_current:
  "i_CurrentNodeID (copyInstanceCols cols m r)
     = (if ColCurrentNodeID \<in> set cols then i_CurrentNodeID m else i_CurrentNodeID r)"
proof (induction cols arbitrary: r)
  case (Cons c cols)
  then show ?case by (cases c) (simp_all add: copyInstanceCols_def)
qed (simp add: copyInstanceCols_def)

lemma transitionCols_set [simp]: "set (transitionCols extra) = insert ColStatus (set extra)"
proof -
  have "set (fold (\<lambda>c cols. if c = ColStatus then cols else if c \<in> set cols then cols else cols @ [c]) extra cols)
      = set cols \<union> (set extra - {ColStatus})" for cols
    by (induction extra arbitrary: cols) auto
  then show ?thesis by (auto simp: transitionCols_def)
qed

text \<open>Operations that change instance rows only.\<close>

lemma updateInstances_sel [simp]:
  "db_tasks (updateInstances P f db) = db_tasks db" "db_visits (updateInstances P f db) = db_visits db"
  "db_instances (updateInstances P f db) = updateWhere P f (db_instances db)"
  by (simp_all add: updateInstances_def)

lemma ApplyInstanceTransition_run:
  assumes "ApplyInstanceTransitionWithHooks env inst to cols db = Inr (inst', db')"
  shows "evolves env (i_ID inst) db db'" "db_tasks db' = db_tasks db" "db_visits db' = db_visits db"
    "inst' = inst\<lparr>i_Status := to\<rparr>" "CanTransition InstanceStateMachine (i_Status inst) to"
    "db_instances db' = updateWhere (\<lambda>r. i_ID r = i_ID inst \<and> i_Status r = i_Status inst)
        (copyInstanceCols (transitionCols cols) inst') (db_instances db)"
    "\<exists>r \<in> set (db_instances db). i_ID r = i_ID inst \<and> i_Status r = i_Status inst"
proof -
  let ?P = "\<lambda>r. i_ID r = i_ID inst \<and> i_Status r = i_Status inst"
  have can: "CanTransition InstanceStateMachine (i_Status inst) to" and inst': "inst' = inst\<lparr>i_Status := to\<rparr>"
    and aff: "affected ?P (db_instances db) \<noteq> 0"
    and db': "db' = updateInstances ?P (copyInstanceCols (transitionCols cols) inst') db"
    using assms by (auto simp: ApplyInstanceTransitionWithHooks_def Let_def)
  show "evolves env (i_ID inst) db db'"
    unfolding db' using can
    by (intro evolves_updateInstances) (auto simp: instance_rel_def copyInstanceCols_status inst')
  show "db_tasks db' = db_tasks db" "db_visits db' = db_visits db" "inst' = inst\<lparr>i_Status := to\<rparr>"
    "CanTransition InstanceStateMachine (i_Status inst) to"
    "db_instances db' = updateWhere ?P (copyInstanceCols (transitionCols cols) inst') (db_instances db)"
    using can inst' db' by simp_all
  show "\<exists>r \<in> set (db_instances db). i_ID r = i_ID inst \<and> i_Status r = i_Status inst"
    using aff by (auto simp: affected_zero)
qed

lemma emit_sel [simp]:
  "db_tasks (EmitEvents evs db) = db_tasks db" "db_visits (EmitEvents evs db) = db_visits db"
  "db_instances (EmitEvents evs db) = db_instances db" "db_nodes (EmitEvents evs db) = db_nodes db"
  "db_edges (EmitEvents evs db) = db_edges db"
  by (simp_all add: EmitEvents_def)

lemma updateVisits_sel [simp]:
  "db_tasks (updateVisits P f db) = db_tasks db"
  "db_instances (updateVisits P f db) = db_instances db"
  "db_visits (updateVisits P f db) = updateWhere P f (db_visits db)"
  by (simp_all add: updateVisits_def)

lemma concludeNodeVisit_run:
  assumes "wf_store env db" and "db_visits db = vs @ [visit]" and "active_of iid visit"
    and "\<forall>v \<in> set vs. \<not> active_of iid v" and "st \<noteq> NodeVisitActive"
  shows "evolves env iid db (concludeNodeVisit env visit st db)" "idle iid (concludeNodeVisit env visit st db)"
proof -
  let ?f = "\<lambda>v. v\<lparr>v_Status := st, v_FinishedAt := Some (env_now env)\<rparr>"
  have d: "distinct (map v_ID (vs @ [visit]))" using wf_store_distinct(2)[OF assms(1)] assms(2) by simp
  have uniq: "v = visit" if "v \<in> set (db_visits db)" "v_ID v = v_ID visit" for v
    using that d assms(2) by (auto simp: image_iff)
  show "evolves env iid db (concludeNodeVisit env visit st db)"
    unfolding concludeNodeVisit_def using uniq assms(3)
    by (intro evolves_updateVisits) (auto simp: visit_rel_def active_of_def)
  show "idle iid (concludeNodeVisit env visit st db)"
    unfolding idle_def concludeNodeVisit_def
  proof
    fix w assume "w \<in> set (db_visits (updateVisits (\<lambda>v. v_ID v = v_ID visit) ?f db))"
    then have "w \<in> set (updateWhere (\<lambda>v. v_ID v = v_ID visit) ?f (vs @ [visit]))"
      using assms(2) by simp
    then obtain v where v: "v \<in> set (vs @ [visit])" "w = (if v_ID v = v_ID visit then ?f v else v)"
      by (rule updateWhere_memE)
    then show "\<not> active_of iid w" using assms(4,5) by (auto simp: active_of_def split: if_splits)
  qed
qed

lemma concludeNodeVisit_sel [simp]:
  "db_tasks (concludeNodeVisit env visit st db) = db_tasks db"
  "db_instances (concludeNodeVisit env visit st db) = db_instances db"
  by (simp_all add: concludeNodeVisit_def)

lemma settled_final:
  assumes "idle iid db" and "quiet iid db" and "\<forall>i \<in> set (db_instances db). i_ID i = iid \<longrightarrow> i_Status i \<noteq> InstanceRunning"
  shows "settled iid db"
  using assms by (auto simp: settled_def)

lemma evolves_fresh: "evolves env iid db db' \<Longrightarrow> wf_store env db \<Longrightarrow> wf_store env db'"
  by (simp add: evolves_def)

lemma mirrors_cong: "db_instances db' = db_instances db \<Longrightarrow> mirrors inst db' = mirrors inst db"
  by (simp add: mirrors_def)

lemma mirrors_row:
  assumes "wf_store env db" and "mirrors inst db" and "r \<in> set (db_instances db)" and "i_ID r = i_ID inst"
  shows "i_Status r = i_Status inst" "i_FlowVersionID r = i_FlowVersionID inst"
proof -
  obtain r' where r': "r' \<in> set (db_instances db)" "i_ID r' = i_ID inst" "i_Status r' = i_Status inst"
    "i_FlowVersionID r' = i_FlowVersionID inst" using assms(2) by (auto simp: mirrors_def)
  have "r = r'"
    by (rule distinct_key_eq[OF wf_store_distinct(3)[OF assms(1)] assms(3) r'(1)]) (simp add: assms(4) r'(2))
  with r' show "i_Status r = i_Status inst" "i_FlowVersionID r = i_FlowVersionID inst" by simp_all
qed

text \<open>The state a node is entered in.\<close>

definition enterable :: "env \<Rightarrow> Instance \<Rightarrow> db \<Rightarrow> bool" where
  "enterable env inst db \<longleftrightarrow> wf_store env db \<and> quiet (i_ID inst) db \<and> idle (i_ID inst) db
     \<and> i_Status inst = InstanceRunning \<and> mirrors inst db"

text \<open>What a traversal leaves behind.\<close>

definition left_by :: "env \<Rightarrow> Instance \<Rightarrow> db \<Rightarrow> Instance \<Rightarrow> db \<Rightarrow> bool" where
  "left_by env inst db inst' db' \<longleftrightarrow> evolves env (i_ID inst) db db' \<and> settled (i_ID inst) db'
     \<and> mirrors inst' db' \<and> i_ID inst' = i_ID inst"

lemma wait_left:
  assumes fresh: "wf_store env db" and vis: "db_visits db = vs @ [visit]" and act: "active_of (i_ID inst) visit"
    and nact: "\<forall>v \<in> set vs. \<not> active_of (i_ID inst) v"
    and oa: "open_at (i_ID inst) (n_ID node) (v_ID visit) db" and node: "v_NodeID visit = n_ID node"
    and m: "mirrors inst db" and run: "i_Status inst = InstanceRunning"
    and inst1: "inst1 = inst\<lparr>i_CurrentNodeID := Some (n_ID node)\<rparr>"
    and db': "db' = updateInstances (\<lambda>r. i_ID r = i_ID inst) (copyInstanceCols [ColCurrentNodeID] inst1) db"
  shows "left_by env inst db inst1 db'"
proof -
  let ?iid = "i_ID inst"
  have ev: "evolves env ?iid db db'" unfolding db'
    by (intro evolves_updateInstances) (auto simp: instance_rel_def copyInstanceCols_status)
  have "running_at ?iid (Some (n_ID node)) db'"
    unfolding running_at_def
    by (rule bexI[of _ visit]) (use vis act nact node oa in \<open>auto simp: db' open_at_def\<close>)
  moreover have "i_Status r = InstanceRunning \<and> i_CurrentNodeID r = Some (n_ID node)"
    if r: "r \<in> set (db_instances db')" "i_ID r = ?iid" for r
  proof -
    obtain r0 where r0: "r0 \<in> set (db_instances db)"
      "r = (if i_ID r0 = ?iid then copyInstanceCols [ColCurrentNodeID] inst1 r0 else r0)"
      using r(1) unfolding db' by (auto simp: updateWhere_in_iff)
    then show ?thesis using r(2) mirrors_row(1)[OF fresh m r0(1)] run
      by (cases "i_ID r0 = ?iid") (simp_all add: copyInstanceCols_status copyInstanceCols_current inst1)
  qed
  ultimately have "settled ?iid db'" by (auto simp: settled_def)
  moreover have "mirrors inst1 db'"
  proof -
    obtain r where "r \<in> set (db_instances db)" "i_ID r = ?iid" "i_Status r = i_Status inst"
      "i_FlowVersionID r = i_FlowVersionID inst" using m by (auto simp: mirrors_def)
    then show ?thesis unfolding mirrors_def db'
      by (intro bexI[of _ "copyInstanceCols [ColCurrentNodeID] inst1 r"])
        (simp_all add: copyInstanceCols_status inst1 updateWhere_hit)
  qed
  ultimately show ?thesis using ev by (simp add: left_by_def inst1)
qed

lemma complete_left:
  assumes fresh: "wf_store env db" and q: "quiet (i_ID inst) db" and i: "idle (i_ID inst) db"
    and fin: "final \<noteq> InstanceRunning" and m: "mirrors inst db"
    and tr: "ApplyInstanceTransitionWithHooks env inst final cols db = Inr (inst', db')"
  shows "left_by env inst db inst' db'"
proof -
  note run = ApplyInstanceTransition_run[OF tr]
  have st: "i_Status r = final" if "r \<in> set (db_instances db')" "i_ID r = i_ID inst" for r
  proof -
    from that(1)[unfolded run(6)]
    obtain r0 where "r0 \<in> set (db_instances db)" "r = (if i_ID r0 = i_ID inst \<and> i_Status r0 = i_Status inst
        then copyInstanceCols (transitionCols cols) inst' r0 else r0)"
      by (rule updateWhere_memE)
    then show ?thesis
      using that(2) mirrors_row(1)[OF fresh m, of r0] run(4) by (auto simp: copyInstanceCols_status split: if_splits)
  qed
  have "settled (i_ID inst) db'"
    by (rule settled_final) (use i q run(2,3) st fin in \<open>auto simp: idle_def quiet_def\<close>)
  moreover have "mirrors inst' db'"
  proof -
    obtain r where "r \<in> set (db_instances db)" "i_ID r = i_ID inst" "i_Status r = i_Status inst"
      "i_FlowVersionID r = i_FlowVersionID inst" using m by (auto simp: mirrors_def)
    then show ?thesis unfolding mirrors_def run(6)
      by (intro bexI[of _ "copyInstanceCols (transitionCols cols) inst' r"])
        (simp_all add: copyInstanceCols_status run(4) updateWhere_hit)
  qed
  ultimately show ?thesis using run(1,4) by (simp add: left_by_def)
qed

lemma left_by_prefix:
  assumes "evolves env (i_ID inst) db db1" and "left_by env inst1 db1 inst' db'" and "i_ID inst1 = i_ID inst"
  shows "left_by env inst db inst' db'"
  using assms evolves_trans by (auto simp: left_by_def)

lemma left_by_emit: "left_by env inst db inst' db' \<Longrightarrow> left_by env inst db inst' (EmitEvents evs db')"
  using evolves_trans[OF _ evolves_EmitEvents]
  by (auto simp: left_by_def settled_def running_at_def open_at_def idle_def quiet_def mirrors_def)

lemma handleProcessResult_left:
  assumes run: "handleProcessResult process env inst node visit r db0 = Inr (inst', db')"
    and fresh: "wf_store env db0" and vis: "db_visits db0 = vs @ [visit]" and act: "active_of (i_ID inst) visit"
    and nact: "\<forall>v \<in> set vs. \<not> active_of (i_ID inst) v" and node: "v_NodeID visit = n_ID node"
    and oa: "open_at (i_ID inst) (n_ID node) (v_ID visit) db0"
    and q: "pr_Action r \<noteq> NodeActionWait \<Longrightarrow> quiet (i_ID inst) db0"
    and fs: "\<forall>s. pr_FinalStatus r = Some s \<longrightarrow> s = InstanceApproved \<or> s = InstanceRejected"
    and m: "mirrors inst db0" and st: "i_Status inst = InstanceRunning"
    and IH: "\<And>db1 n inst' db'. process db1 inst n = Inr (inst', db') \<Longrightarrow> enterable env inst db1 \<Longrightarrow>
        n \<in> set (db_nodes db1) \<Longrightarrow> left_by env inst db1 inst' db'"
  shows "left_by env inst db0 inst' db'"
proof -
  let ?iid = "i_ID inst" and ?db = "EmitEvents (pr_Events r) db0"
  have ev: "evolves env ?iid db0 ?db" by simp
  have fr: "wf_store env ?db" using evolves_fresh[OF ev fresh] .
  have "left_by env inst ?db inst' db'"
  proof (cases "pr_Action r")
    case NodeActionWait
    show ?thesis
      by (rule wait_left[OF fr, of vs visit inst node])
        (use run NodeActionWait vis act nact node oa m st in \<open>auto simp: handleProcessResult_def Let_def open_at_def mirrors_def\<close>)
  next
    case NodeActionContinue
    let ?db1 = "concludeNodeVisit env visit NodeVisitPassed ?db"
    note con = concludeNodeVisit_run[OF fr _ act nact, of NodeVisitPassed]
    have e1: "evolves env ?iid ?db ?db1" and id1: "idle ?iid ?db1" using con vis by auto
    obtain n where n: "process ?db1 inst n = Inr (inst', db')" "n \<in> set (db_nodes ?db1)"
      using run NodeActionContinue by (auto simp: handleProcessResult_def Let_def advanceVia_def dest: compile_node_mem)
    have "enterable env inst ?db1"
      using evolves_fresh[OF e1 fr] id1 q NodeActionContinue m st
      by (auto simp: enterable_def quiet_def mirrors_def)
    from left_by_prefix[OF e1 IH[OF n(1) this n(2)]] show ?thesis by simp
  next
    case NodeActionComplete
    then obtain final inst2 db2 where f: "pr_FinalStatus r = Some final"
      and tr: "ApplyInstanceTransitionWithHooks env
          (inst\<lparr>i_CurrentNodeID := Some (n_ID node), i_FinishedAt := Some (env_now env)\<rparr>) final
          [ColCurrentNodeID, ColFinishedAt] (concludeNodeVisit env visit
             (if final = InstanceRejected then NodeVisitRejected else NodeVisitPassed) ?db) = Inr (inst2, db2)"
      and out: "inst' = inst2" "db' = EmitEvents [InstanceCompletedEvent inst2 final None] db2"
      using run by (auto simp: handleProcessResult_def Let_def)
    let ?vst = "if final = InstanceRejected then NodeVisitRejected else NodeVisitPassed"
    let ?db1 = "concludeNodeVisit env visit ?vst ?db"
    let ?inst1 = "inst\<lparr>i_CurrentNodeID := Some (n_ID node), i_FinishedAt := Some (env_now env)\<rparr>"
    have e1: "evolves env ?iid ?db ?db1" and id1: "idle ?iid ?db1"
      using concludeNodeVisit_run[OF fr _ act nact, of ?vst] vis by (auto split: if_splits)
    have "left_by env ?inst1 ?db1 inst2 db2"
      by (rule complete_left[OF _ _ _ _ _ tr])
        (use evolves_fresh[OF e1 fr] id1 q NodeActionComplete m fs f in \<open>auto simp: quiet_def mirrors_def\<close>)
    from left_by_prefix[OF e1 this] have "left_by env inst ?db inst2 db2" by simp
    then show ?thesis unfolding out by (rule left_by_emit)
  qed
  then show ?thesis by (rule left_by_prefix[OF ev]) simp
qed

text \<open>What the processor of a node leaves to the engine.\<close>

lemma Process_entered:
  assumes en: "enterable env inst db" and node: "node \<in> set (db_nodes db)"
    and bv: "beginNodeVisit env inst node db = (visit, db1)"
    and p: "Process env \<lparr>pc_Instance = inst, pc_Node = node, pc_Visit = visit, pc_FormData = NewFormData (i_FormData inst)\<rparr>
        (n_Kind node) db1 = Inr (r, db2)"
  shows "node_local env (i_ID inst) db1 db2" "open_at (i_ID inst) (n_ID node) (v_ID visit) db2"
    "pr_Action r \<noteq> NodeActionWait \<Longrightarrow> quiet (i_ID inst) db2"
    "\<forall>s. pr_FinalStatus r = Some s \<longrightarrow> s = InstanceApproved \<or> s = InstanceRejected"
    "wf_store env db2" "evolves env (i_ID inst) db db2"
proof -
  note b = beginNodeVisit_run[OF bv]
  have fr: "wf_store env db" "quiet (i_ID inst) db" "mirrors inst db" using en by (auto simp: enterable_def)
  have "i_ID inst \<in> i_ID ` set (db_instances db)" using fr(3) unfolding mirrors_def by (metis image_eqI)
  note ev1 = b(1)[OF this node]
  have fr1: "wf_store env db1" using evolves_fresh[OF ev1 fr(1)] .
  have known: "\<forall>n \<in> set (db_nodes db1). n_ID n = n_ID node \<longrightarrow> n_Kind n = n_Kind node"
    using distinct_key_eq[OF wf_store_nodes[OF fr(1)] _ node] b(7) by auto
  have pr: "node_local env (i_ID inst) db1 db2 \<and> open_at (i_ID inst) (n_ID node) (v_ID visit) db2
      \<and> (pr_Action r \<noteq> NodeActionWait \<longrightarrow> quiet (i_ID inst) db2)
      \<and> (\<forall>s. pr_FinalStatus r = Some s \<longrightarrow> s = InstanceApproved \<or> s = InstanceRejected)"
    using p fr1 fr(2) b(2,4,5,6) known
      Process_processed[of env "\<lparr>pc_Instance = inst, pc_Node = node, pc_Visit = visit, pc_FormData = NewFormData (i_FormData inst)\<rparr>" db1 r db2]
    by (simp add: processed_def quiet_def in_visit_def active_of_def)
  then show "node_local env (i_ID inst) db1 db2" "open_at (i_ID inst) (n_ID node) (v_ID visit) db2"
    "pr_Action r \<noteq> NodeActionWait \<Longrightarrow> quiet (i_ID inst) db2"
    "\<forall>s. pr_FinalStatus r = Some s \<longrightarrow> s = InstanceApproved \<or> s = InstanceRejected" by blast+
  show "wf_store env db2" using pr node_local_fresh[OF _ fr1] by blast
  show "evolves env (i_ID inst) db db2" using pr ev1 evolves_trans by (auto simp: node_local_def)
qed

lemma ProcessNode_left:
  assumes "ProcessNode k env db inst node = Inr (inst', db')" and "enterable env inst db" and "node \<in> set (db_nodes db)"
  shows "left_by env inst db inst' db'"
  using assms
proof (induction k arbitrary: db inst node inst' db')
  case 0
  then show ?case by simp
next
  case (Suc k)
  let ?iid = "i_ID inst"
  obtain visit db1 where bv: "beginNodeVisit env inst node db = (visit, db1)" by fastforce
  note b = beginNodeVisit_run[OF bv]
  let ?pc = "\<lparr>pc_Instance = inst, pc_Node = node, pc_Visit = visit, pc_FormData = NewFormData (i_FormData inst)\<rparr>"
  obtain r db2 where p: "Process env ?pc (n_Kind node) db1 = Inr (r, db2)"
    and h: "handleProcessResult (ProcessNode k env) env inst node visit r db2 = Inr (inst', db')"
    using Suc.prems(1) bv by (auto simp: Let_def)
  have fr: "idle ?iid db" "mirrors inst db" "i_Status inst = InstanceRunning"
    using Suc.prems(2) by (auto simp: enterable_def)
  note e = Process_entered[OF Suc.prems(2,3) bv p]
  have "left_by env inst db2 inst' db'"
    by (rule handleProcessResult_left[OF h, of "db_visits db"])
      (use e b(2-7) fr Suc.IH in \<open>auto simp: node_local_def idle_def mirrors_def\<close>)
  then show ?case using e(6) by (auto intro: left_by_prefix)
qed

text \<open>When a node lets the traversal continue, the next node is entered in the same way.\<close>

lemma continue_enterable:
  assumes en: "enterable env inst db" and node: "node \<in> set (db_nodes db)"
    and bv: "beginNodeVisit env inst node db = (visit, db1)"
    and p: "Process env \<lparr>pc_Instance = inst, pc_Node = node, pc_Visit = visit, pc_FormData = NewFormData (i_FormData inst)\<rparr>
        (n_Kind node) db1 = Inr (r, db2)"
    and act: "pr_Action r = NodeActionContinue"
  shows "enterable env inst (concludeNodeVisit env visit NodeVisitPassed (EmitEvents (pr_Events r) db2))"
    "evolves env (i_ID inst) db (concludeNodeVisit env visit NodeVisitPassed (EmitEvents (pr_Events r) db2))"
proof -
  let ?db = "EmitEvents (pr_Events r) db2" and ?iid = "i_ID inst"
  note b = beginNodeVisit_run[OF bv] and e = Process_entered[OF en node bv p]
  have fr: "idle ?iid db" "mirrors inst db" "i_Status inst = InstanceRunning" using en by (auto simp: enterable_def)
  have wf: "wf_store env ?db" using evolves_fresh[OF evolves_EmitEvents e(5)] .
  have vis: "db_visits ?db = db_visits db @ [visit]" using e(1) b(4) by (simp add: node_local_def)
  have nact: "\<forall>v \<in> set (db_visits db). \<not> active_of ?iid v" using fr(1) by (simp add: idle_def)
  note con = concludeNodeVisit_run[OF wf vis b(5) nact, of NodeVisitPassed]
  have c: "evolves env ?iid ?db (concludeNodeVisit env visit NodeVisitPassed ?db)" "idle ?iid (concludeNodeVisit env visit NodeVisitPassed ?db)"
    using con by simp_all
  show "evolves env ?iid db (concludeNodeVisit env visit NodeVisitPassed ?db)"
    using e(6) evolves_EmitEvents c(1) by (meson evolves_trans)
  have "mirrors inst db2" using fr(2) e(1) b(3) by (simp add: node_local_def mirrors_def)
  then show "enterable env inst (concludeNodeVisit env visit NodeVisitPassed ?db)"
    using evolves_fresh[OF c(1) wf] c(2) e(3) act fr(3) by (auto simp: enterable_def quiet_def mirrors_def)
qed

lemma AdvanceToNextNode_left:
  "AdvanceToNextNode env inst node b db = Inr (inst', db') \<Longrightarrow> enterable env inst db \<Longrightarrow>
     left_by env inst db inst' db'"
  by (auto simp: AdvanceToNextNode_def advanceVia_def intro: ProcessNode_left dest: compile_node_mem)

lemma StartProcess_left:
  "StartProcess env inst db = Inr (inst', db') \<Longrightarrow> enterable env inst db \<Longrightarrow>
     left_by env inst db inst' db'"
  by (auto simp: StartProcess_def intro: ProcessNode_left dest: compile_start_mem)

end
