(* ===== verification/Tenancy.thy ===== *)
theory Tenancy
  imports Approval_Store
begin

text \<open>
  \<^verbatim>\<open>approval/tenancy.go\<close> and the tenant guards of \<^verbatim>\<open>service/task.go\<close>: who may reach an entity.
\<close>

record CallerContext =
  caller_TenantID :: string
  caller_IsSuperAdmin :: bool
  caller_IsSystemInternal :: bool

definition SystemCaller :: CallerContext where
  "SystemCaller = \<lparr>caller_TenantID = [], caller_IsSuperAdmin = False, caller_IsSystemInternal = True\<rparr>"

definition memberTenant :: "CallerContext \<Rightarrow> string \<times> bool" where
  "memberTenant c = (caller_TenantID c, caller_TenantID c \<noteq> [])"

definition Authorize :: "CallerContext \<Rightarrow> string \<Rightarrow> error + unit" where
  "Authorize c entityTenantID =
     (if caller_IsSuperAdmin c \<or> caller_IsSystemInternal c then Inr ()
      else let (tenantID, ok) = memberTenant c
           in if \<not> ok \<or> tenantID \<noteq> entityTenantID then Inl ErrCrossTenantAccess else Inr ())"

definition Allows :: "CallerContext \<Rightarrow> string \<Rightarrow> bool" where
  "Allows c entityTenantID = (Authorize c entityTenantID = Inr ())"

definition AllowsParticipant :: "CallerContext \<Rightarrow> string \<Rightarrow> bool \<Rightarrow> bool" where
  "AllowsParticipant c entityTenantID participant =
     (if Allows c entityTenantID then True else participant \<and> snd (memberTenant c))"

definition TenantScopeFilter :: "CallerContext \<Rightarrow> string \<Rightarrow> error + string option" where
  "TenantScopeFilter c override =
     (if caller_IsSuperAdmin c \<or> caller_IsSystemInternal c then
        (if override = [] then Inr None else Inr (Some override))
      else let (tenantID, ok) = memberTenant c
           in if \<not> ok then Inl ErrCrossTenantAccess else Inr (Some tenantID))"

definition DefaultTenantID :: string where
  "DefaultTenantID = ''default''"

definition ResolveWriteTenant :: "CallerContext \<Rightarrow> string \<Rightarrow> error + string" where
  "ResolveWriteTenant c requested =
     (if caller_IsSuperAdmin c \<or> caller_IsSystemInternal c then
        (if requested \<noteq> [] then Inr requested
         else let (tenantID, ok) = memberTenant c
              in if ok then Inr tenantID else Inr DefaultTenantID)
      else let (tenantID, ok) = memberTenant c
           in if \<not> ok then Inl ErrCrossTenantAccess else Inr tenantID)"

definition isRoutedTo :: "string \<Rightarrow> string \<Rightarrow> db \<Rightarrow> bool" where
  "isRoutedTo iid userID db =
     (if list_ex (\<lambda>t. t_InstanceID t = iid \<and> t_AssigneeID t = userID) (db_tasks db) then True
      else list_ex (\<lambda>r. cc_InstanceID r = iid \<and> u_ID (cc_User r) = userID) (db_ccs db))"

definition AllowsInstanceAccess :: "CallerContext \<Rightarrow> string \<Rightarrow> string \<Rightarrow> string \<Rightarrow> db \<Rightarrow> bool" where
  "AllowsInstanceAccess caller iid instanceTenantID userID db =
     (if Allows caller instanceTenantID then True
      else if userID = [] then False
      else AllowsParticipant caller instanceTenantID (isRoutedTo iid userID db))"

section \<open>The guards are fail-closed\<close>

definition privileged :: "CallerContext \<Rightarrow> bool" where
  "privileged c \<longleftrightarrow> caller_IsSuperAdmin c \<or> caller_IsSystemInternal c"

lemma Allows_iff: "Allows c tid \<longleftrightarrow> privileged c \<or> (caller_TenantID c \<noteq> [] \<and> caller_TenantID c = tid)"
  by (auto simp: Allows_def Authorize_def memberTenant_def privileged_def)

lemma AllowsInstanceAccess_iff:
  "AllowsInstanceAccess c iid tid uid db \<longleftrightarrow>
     privileged c \<or> (caller_TenantID c \<noteq> [] \<and>
       (caller_TenantID c = tid \<or> (uid \<noteq> [] \<and> isRoutedTo iid uid db)))"
  by (auto simp: AllowsInstanceAccess_def AllowsParticipant_def Allows_iff memberTenant_def)



end
