(* ===== verification/Rune_Text.thy ===== *)
theory Rune_Text
  imports Prelude
begin

text \<open>
  Counting and truncating text by runes.  A Go string is a byte sequence; a rune is one UTF-8
  encoded code point, and a byte that starts no valid encoding counts as one rune and becomes
  the replacement character when the string is converted to runes and back.
\<close>

section \<open>Runes of a byte string\<close>

definition contByte :: "char \<Rightarrow> bool" where
  "contByte c \<longleftrightarrow> 0x80 \<le> (of_char c :: nat) \<and> (of_char c :: nat) \<le> 0xBF"

text \<open>The second byte of a longer encoding, which excludes overlong forms and surrogates.\<close>

definition secondByte :: "nat \<Rightarrow> char \<Rightarrow> bool" where
  "secondByte x c \<longleftrightarrow>
     (if x = 0xE0 then 0xA0 else if x = 0xF0 then 0x90 else 0x80) \<le> (of_char c :: nat)
     \<and> (of_char c :: nat) \<le> (if x = 0xED then 0x9F else if x = 0xF4 then 0x8F else 0xBF)"

text \<open>The width of the encoding at the front of the string, \<open>0\<close> when there is none.\<close>

fun runeLen :: "string \<Rightarrow> nat" where
  "runeLen [] = 0"
| "runeLen (a # s) =
     (let x = (of_char a :: nat)
      in if x < 0x80 then 1
      else if 0xC2 \<le> x \<and> x \<le> 0xDF then
        (case s of b # _ \<Rightarrow> if contByte b then 2 else 0 | _ \<Rightarrow> 0)
      else if 0xE0 \<le> x \<and> x \<le> 0xEF then
        (case s of b # c # _ \<Rightarrow> if secondByte x b \<and> contByte c then 3 else 0 | _ \<Rightarrow> 0)
      else if 0xF0 \<le> x \<and> x \<le> 0xF4 then
        (case s of b # c # d # _ \<Rightarrow> if secondByte x b \<and> contByte c \<and> contByte d then 4 else 0 | _ \<Rightarrow> 0)
      else 0)"

definition replacementChar :: string where
  "replacementChar = [CHR 0xEF, CHR 0xBF, CHR 0xBD]"

function runes :: "string \<Rightarrow> string list" where
  "runes [] = []"
| "runes (a # s) =
     (let n = runeLen (a # s)
      in if n = 0 then replacementChar # runes s else (a # take (n - 1) s) # runes (drop (n - 1) s))"
  by pat_completeness auto

termination runes
  by (relation "measure length") auto

declare runes.simps(2) [simp del]

definition RuneCountInString :: "string \<Rightarrow> nat" where
  "RuneCountInString s = length (runes s)"

definition truncateRunes :: "string \<Rightarrow> nat \<Rightarrow> string" where
  "truncateRunes s maxRunes =
     (if RuneCountInString s \<le> maxRunes then s else concat (take maxRunes (runes s)))"

section \<open>Runes are self-delimiting\<close>

lemma runeLen_take:
  assumes "runeLen (a # s) = n" and "n \<noteq> 0"
  shows "runeLen (a # take (n - 1) s @ t) = n \<and> length (take (n - 1) s) = n - 1"
proof -
  consider "n = 1" "(of_char a :: nat) < 0x80" | b s' where "s = b # s'" "n = 2" | b c s' where "s = b # c # s'" "n = 3"
    | b c d s' where "s = b # c # d # s'" "n = 4"
    using assms by (auto simp: Let_def split: if_splits list.splits)
  then show ?thesis using assms by cases (auto simp: Let_def split: if_splits list.splits)
qed

text \<open>A chunk is what the conversion yields for one rune.\<close>

definition chunk :: "string \<Rightarrow> bool" where
  "chunk c \<longleftrightarrow> (\<forall>t. runes (c @ t) = c # runes t)"

lemma chunk_valid:
  assumes "runeLen (a # s) = n" and "n \<noteq> 0"
  shows "chunk (a # take (n - 1) s)"
  unfolding chunk_def
proof
  fix t
  note r = runeLen_take[OF assms, of t]
  have "drop (n - 1) (take (n - 1) s @ t) = t" "take (n - 1) (take (n - 1) s @ t) = take (n - 1) s"
    using r by simp_all
  then show "runes ((a # take (n - 1) s) @ t) = (a # take (n - 1) s) # runes t"
    using r assms(2) by (simp add: runes.simps(2) Let_def)
qed

lemma chunk_replacement: "chunk replacementChar"
proof -
  have "runeLen replacementChar = 3"
    by (simp add: replacementChar_def Let_def secondByte_def contByte_def)
  then show ?thesis
    using chunk_valid[of "CHR 0xEF" "[CHR 0xBF, CHR 0xBD]" 3] by (simp add: replacementChar_def)
qed

lemma runes_chunks: "c \<in> set (runes s) \<Longrightarrow> chunk c"
proof (induction s arbitrary: c rule: runes.induct)
  case (2 a s)
  let ?n = "runeLen (a # s)"
  show ?case
  proof (cases "?n = 0")
    case True
    then show ?thesis using 2 chunk_replacement by (auto simp: runes.simps(2) Let_def)
  next
    case False
    then have "c = a # take (?n - 1) s \<or> c \<in> set (runes (drop (?n - 1) s))"
      using 2(3) by (auto simp: runes.simps(2) Let_def)
    then show ?thesis using chunk_valid[OF refl False] 2(2)[OF refl False] by auto
  qed
qed simp

lemma runes_concat: "\<forall>c \<in> set cs. chunk c \<Longrightarrow> runes (concat cs) = cs"
  by (induction cs) (simp_all add: chunk_def)

lemma runes_truncate: "runes (truncateRunes s k) = take k (runes s)"
proof (cases "RuneCountInString s \<le> k")
  case False
  have "\<forall>c \<in> set (take k (runes s)). chunk c" using runes_chunks by (auto dest: in_set_takeD)
  then show ?thesis using False runes_concat by (simp add: truncateRunes_def)
qed (simp add: truncateRunes_def RuneCountInString_def)

end
