(* ===== verification/Form_Validation.thy ===== *)
theory Form_Validation
  imports Approval_Store Rune_Text
begin

text \<open>
  Validation of submitted form values against the parsed fields of a flow version: the form
  parts of \<^verbatim>\<open>service/validation.go\<close> and \<^verbatim>\<open>service/code_set_validation.go\<close>.  Every value error has
  the code \<open>ErrFormValidation\<close>; the texts that name the field are left out, so the order in
  which Go iterates a map cannot be observed.  A value is a decoded JSON value: Go's
  \<^verbatim>\<open>[]string\<close> case of the switches has no JSON value of its own.

  A detail table validates its cells by the same function as a scalar field, so
  \<open>validateFormField\<close> recurses over the columns of a field.
\<close>

section \<open>Scalar rules\<close>

definition formEntries :: "FormData \<Rightarrow> (string \<times> json) list" where
  "formEntries d = (case d of None \<Rightarrow> [] | Some m \<Rightarrow> m)"

definition ofErr :: "error option \<Rightarrow> error + unit" where
  "ofErr e = (case e of None \<Rightarrow> Inr () | Some x \<Rightarrow> Inl x)"

fun isEmptyFormValue :: "json \<Rightarrow> bool" where
  "isEmptyFormValue JNull = True"
| "isEmptyFormValue (JStr s) = (trimSpace s = [])"
| "isEmptyFormValue (JList xs) = (xs = [])"
| "isEmptyFormValue _ = False"

abbreviation belowMin :: "'a::linorder option \<Rightarrow> 'a \<Rightarrow> bool" where
  "belowMin m x \<equiv> (case m of None \<Rightarrow> False | Some b \<Rightarrow> x < b)"

abbreviation aboveMax :: "'a::linorder option \<Rightarrow> 'a \<Rightarrow> bool" where
  "aboveMax m x \<equiv> (case m of None \<Rightarrow> False | Some b \<Rightarrow> b < x)"

definition validateStringRule :: "env \<Rightarrow> FormFieldDefinition \<Rightarrow> string \<Rightarrow> error + unit" where
  "validateStringRule env field value =
     (case ff_Validation field of
        None \<Rightarrow> Inr ()
      | Some rule \<Rightarrow>
          let len = int (RuneCountInString value)
          in bindE (ensure (\<not> belowMin (vr_MinLength rule) len) ErrFormValidation) (\<lambda>_.
             bindE (ensure (\<not> aboveMax (vr_MaxLength rule) len) ErrFormValidation) (\<lambda>_.
               if vr_Pattern rule = [] then Inr ()
               else case env_regexp_match env (vr_Pattern rule) of
                   None \<Rightarrow> Inl ErrFormValidation
                 | Some matches \<Rightarrow> ensure (matches value) ErrFormValidation)))"

definition validateNumberRule :: "FormFieldDefinition \<Rightarrow> rat \<Rightarrow> error + unit" where
  "validateNumberRule field value =
     bindE (ensure (\<not> (ff_ColumnType field = ColumnInteger \<and> value \<noteq> of_int \<lfloor>value\<rfloor>)) ErrFormValidation) (\<lambda>_.
       case ff_Validation field of
         None \<Rightarrow> Inr ()
       | Some rule \<Rightarrow>
           bindE (ensure (\<not> belowMin (vr_Min rule) value) ErrFormValidation) (\<lambda>_.
             ensure (\<not> aboveMax (vr_Max rule) value) ErrFormValidation))"

fun validateUploadField :: "json \<Rightarrow> error + unit" where
  "validateUploadField (JStr s) = ensure (trimSpace s \<noteq> []) ErrFormValidation"
| "validateUploadField (JList files) =
     bindE (ensure (files \<noteq> []) ErrFormValidation) (\<lambda>_.
       checkAll (\<lambda>item. case item of
           JStr text \<Rightarrow> ensure (trimSpace text \<noteq> []) ErrFormValidation
         | _ \<Rightarrow> Inl ErrFormValidation) files)"
| "validateUploadField _ = Inl ErrFormValidation"

fun selectItems :: "json \<Rightarrow> json list" where
  "selectItems (JList xs) = xs"
| "selectItems value = [value]"

definition validateSelectField :: "env \<Rightarrow> FormFieldDefinition \<Rightarrow> json \<Rightarrow> error + unit" where
  "validateSelectField env field value =
     (let allowed = map (\<lambda>(label, v). env_sprint env v) (ff_Options field)
      in checkAll (\<lambda>item. ensure (allowed = [] \<or> env_sprint env item \<in> set allowed) ErrFormValidation)
           (selectItems value))"

section \<open>Tables\<close>

definition validateTableRow ::
    "(FormFieldDefinition \<Rightarrow> json \<Rightarrow> error + unit) \<Rightarrow> FormFieldDefinition \<Rightarrow> (string \<times> json) list \<Rightarrow> error + unit" where
  "validateTableRow validate field row =
     bindE (checkAll (\<lambda>(key, v). ensure (key \<in> ff_Key ` set (ff_Columns field)) ErrFormValidation) row) (\<lambda>_.
       checkAll (\<lambda>column.
         case map_of row (ff_Key column) of
           None \<Rightarrow> ensure (\<not> ff_IsRequired column) ErrFormValidation
         | Some cell \<Rightarrow>
             if isEmptyFormValue cell then ensure (\<not> ff_IsRequired column) ErrFormValidation
             else validate column cell) (ff_Columns field))"

definition validateTableField ::
    "(FormFieldDefinition \<Rightarrow> json \<Rightarrow> error + unit) \<Rightarrow> FormFieldDefinition \<Rightarrow> json \<Rightarrow> error + unit" where
  "validateTableField validate field value =
     (case value of
        JList rows \<Rightarrow>
          bindE (case ff_Validation field of
                   None \<Rightarrow> Inr ()
                 | Some rule \<Rightarrow>
                     bindE (ensure (\<not> belowMin (vr_MinLength rule) (int (length rows))) ErrFormValidation) (\<lambda>_.
                       ensure (\<not> aboveMax (vr_MaxLength rule) (int (length rows))) ErrFormValidation)) (\<lambda>_.
            checkAll (\<lambda>raw. case raw of
                JObj row \<Rightarrow> validateTableRow validate field row
              | _ \<Rightarrow> Inl ErrFormValidation) rows)
      | _ \<Rightarrow> Inl ErrFormValidation)"

lemma validateTableRow_cong [fundef_cong]:
  assumes "field = field'" and "row = row'"
    and "\<And>c v. c \<in> set (ff_Columns field') \<Longrightarrow> validate c v = validate' c v"
  shows "validateTableRow validate field row = validateTableRow validate' field' row'"
  unfolding validateTableRow_def assms(1,2)
  by (intro bindE_cong checkAll_cong refl) (auto simp: assms(3) split: option.splits)

lemma validateTableField_cong [fundef_cong]:
  assumes "field = field'" and "value = value'"
    and "\<And>c v. c \<in> set (ff_Columns field') \<Longrightarrow> validate c v = validate' c v"
  shows "validateTableField validate field value = validateTableField validate' field' value'"
  unfolding validateTableField_def assms(1,2)
  using validateTableRow_cong[OF refl refl, of field' validate validate'] assms(3)
  by (auto split: json.splits intro!: bindE_cong checkAll_cong)

lemma size_column: "c \<in> set (ff_Columns field) \<Longrightarrow> size c < size field"
  by (cases field) (auto intro!: le_imp_less_Suc size_list_estimation')

function validateFormField :: "env \<Rightarrow> FormFieldDefinition \<Rightarrow> json \<Rightarrow> error + unit" where
  "validateFormField env field value =
     (let text = (case value of JStr s \<Rightarrow> validateStringRule env field s | _ \<Rightarrow> Inl ErrFormValidation)
      in case ff_Kind field of
        FieldInput \<Rightarrow> text
      | FieldTextarea \<Rightarrow> text
      | FieldDate \<Rightarrow> text
      | FieldUpload \<Rightarrow> validateUploadField value
      | FieldTable \<Rightarrow> validateTableField (validateFormField env) field value
      | FieldNumber \<Rightarrow> (case value of JNum n \<Rightarrow> validateNumberRule field n | _ \<Rightarrow> Inl ErrFormValidation)
      | FieldSelect \<Rightarrow> validateSelectField env field value
      | FieldKindOther _ \<Rightarrow> Inr ())"
  by pat_completeness auto
termination
  by (relation "measure (\<lambda>(env, field, value). size field)") (auto simp: size_column)

declare validateFormField.simps [simp del]

section \<open>Data dictionaries\<close>

definition codeSetCheck :: "(string \<Rightarrow> error + (string \<rightharpoonup> string)) \<Rightarrow> env \<Rightarrow> FormFieldDefinition \<Rightarrow> json \<Rightarrow> error + unit" where
  "codeSetCheck loader env field value =
     (case ff_OptionSource field of
        Some source \<Rightarrow>
          if ff_Kind field = FieldSelect \<and> os_Kind source = OptionSourceCodeSet then
            bindE (loader (os_CodeSet source)) (\<lambda>codes.
              ensure (list_all (\<lambda>item. codes (env_sprint env item) \<noteq> None) (selectItems value)) ErrFormValidation)
          else Inr ()
      | None \<Rightarrow> Inr ())"

definition codeSetCheckRows ::
    "(string \<Rightarrow> error + (string \<rightharpoonup> string)) \<Rightarrow> env \<Rightarrow> FormFieldDefinition \<Rightarrow> json \<Rightarrow> error + unit" where
  "codeSetCheckRows loader env field value =
     checkAll (\<lambda>raw.
       let row = (case raw of JObj r \<Rightarrow> r | _ \<Rightarrow> [])
       in checkAll (\<lambda>column.
            case map_of row (ff_Key column) of
              None \<Rightarrow> Inr ()
            | Some cell \<Rightarrow> if isEmptyFormValue cell then Inr () else codeSetCheck loader env column cell)
          (ff_Columns field))
       (case value of JList rows \<Rightarrow> rows | _ \<Rightarrow> [])"

definition validateCodeSetValues :: "env \<Rightarrow> FormFieldDefinition list \<Rightarrow> (string \<times> json) list \<Rightarrow> error + unit" where
  "validateCodeSetValues env flds formData =
     (case env_code_sets env of
        None \<Rightarrow> Inr ()
      | Some loader \<Rightarrow> checkAll (\<lambda>field.
          case map_of formData (ff_Key field) of
            None \<Rightarrow> Inr ()
          | Some value \<Rightarrow>
              if isEmptyFormValue value then Inr ()
              else if ff_Kind field = FieldTable then codeSetCheckRows loader env field value
              else codeSetCheck loader env field value) flds)"

section \<open>A whole form\<close>

definition encodedFormDataSize :: "env \<Rightarrow> FormData \<Rightarrow> int" where
  "encodedFormDataSize env formData = (case formData of None \<Rightarrow> 0 | Some d \<Rightarrow> env_form_size env d)"

definition validateFormDataSize :: "env \<Rightarrow> FormData \<Rightarrow> error + unit" where
  "validateFormDataSize env formData =
     ensure (encodedFormDataSize env formData \<le> env_form_max_bytes env) ErrFormDataTooLarge"

definition ValidateFormData :: "env \<Rightarrow> FormFieldDefinition list \<Rightarrow> FormData \<Rightarrow> error + unit" where
  "ValidateFormData env flds formData0 =
     bindE (validateFormDataSize env formData0) (\<lambda>_.
     if flds = [] then Inr ()
     else
       let formData = formEntries formData0
       in bindE (checkAll (\<lambda>(key, v). ensure (key \<in> ff_Key ` set flds) ErrFormValidation) formData) (\<lambda>_.
          bindE (checkAll (\<lambda>field.
            case map_of formData (ff_Key field) of
              None \<Rightarrow> ensure (\<not> ff_IsRequired field) ErrFormValidation
            | Some value \<Rightarrow>
                if isEmptyFormValue value then ensure (\<not> ff_IsRequired field) ErrFormValidation
                else validateFormField env field value) flds) (\<lambda>_.
            validateCodeSetValues env flds formData)))"

definition FilterEditableFormData ::
    "(string \<times> json) list \<Rightarrow> (string \<times> Permission) list \<Rightarrow> (string \<times> json) list" where
  "FilterEditableFormData formData permissions =
     (if permissions = [] then []
      else filter (\<lambda>(k, v). map_of permissions k = Some PermissionEditable
             \<or> map_of permissions k = Some PermissionRequired) formData)"

definition validateEditableFormData ::
    "env \<Rightarrow> FormFieldDefinition list \<Rightarrow> (string \<times> json) list \<Rightarrow> (string \<times> Permission) list \<Rightarrow> error + unit" where
  "validateEditableFormData env flds formData permissions =
     checkAll (\<lambda>(key, value).
       case find (\<lambda>f. ff_Key f = key) (rev flds) of
         None \<Rightarrow> Inl ErrFormValidation
       | Some field \<Rightarrow> if isEmptyFormValue value then Inr () else validateFormField env field value)
       (FilterEditableFormData formData permissions)"

definition ValidateRequiredPermissionFields ::
    "FormFieldDefinition list \<Rightarrow> (string \<times> Permission) list \<Rightarrow> FormData \<Rightarrow> error + unit" where
  "ValidateRequiredPermissionFields flds permissions formData =
     (if permissions = [] then Inr ()
      else checkAll (\<lambda>field.
        if map_of permissions (ff_Key field) \<noteq> Some PermissionRequired then Inr ()
        else case map_of (formEntries formData) (ff_Key field) of
            None \<Rightarrow> Inl ErrFormValidation
          | Some value \<Rightarrow> ensure (\<not> isEmptyFormValue value) ErrFormValidation) flds)"

end
