(* ===== verification/Form_Storage.thy ===== *)
theory Form_Storage
  imports Approval_Store
begin

text \<open>
  \<^verbatim>\<open>internal/approval/storage\<close>: provisioning of the physical tables of a table-mode version, the
  metadata recorded for them, and the projection of an instance's form into them.  A statement is
  its structured form; \<open>renderDelete\<close> and \<open>renderInsert\<close> give its text.  The database applies the
  constraints of the generated DDL: NOT NULL columns, and one row per instance in a main table.
\<close>

section \<open>Provisioning\<close>

definition liftStorage :: "storage_error + 'a \<Rightarrow> error + 'a" where
  "liftStorage r = (case r of Inl e \<Rightarrow> Inl (ErrStorage e) | Inr x \<Rightarrow> Inr x)"

definition createTable :: "tableSpec \<Rightarrow> db \<Rightarrow> db" where
  "createTable table db =
     (case db_physical db (ts_Name table) of
        Some _ \<Rightarrow> db
      | None \<Rightarrow> db\<lparr>db_physical := (db_physical db)(ts_Name table \<mapsto>
          \<lparr>pt_Columns = ts_Columns table, pt_Child = IsChild table, pt_Rows = []\<rparr>)\<rparr>)"

definition TableStorage_ProvisionTable :: "DBKind \<Rightarrow> Flow \<Rightarrow> FlowVersion \<Rightarrow> db \<Rightarrow> error + db" where
  "TableStorage_ProvisionTable kind flow version db =
     liftStorage (bindE (buildTableSpecs kind (fl_Code flow) (fv_ID version) (fv_FormFields version)) (\<lambda>specs.
       foldE (\<lambda>table db'. bindE (renderTableStatements kind table) (\<lambda>_. Inr (createTable table db'))) specs db))"

definition insertFormTable :: "env \<Rightarrow> FlowVersion \<Rightarrow> tableSpec \<Rightarrow> db \<Rightarrow> db" where
  "insertFormTable env version table db =
     (let (fid, db1) = allocId env db;
          formTable = \<lparr>ft_ID = fid, ft_FlowID = fv_FlowID version, ft_VersionID = fv_ID version,
            ft_PhysicalTableName = ts_Name table, ft_SourceFieldKey = ts_SourceFieldKey table\<rparr>;
          columns = map (\<lambda>spec. \<lparr>fc_FormTableID = fid, fc_ColumnName = cs_Name spec, fc_ColumnType = cs_Type spec,
            fc_IsNullable = cs_IsNullable spec, fc_SourceFieldKey = cs_SourceFieldKey spec,
            fc_SortOrder = cs_SortOrder spec\<rparr>) (ts_Columns table)
      in db1\<lparr>db_form_tables := db_form_tables db1 @ [formTable], db_form_columns := db_form_columns db1 @ columns\<rparr>)"

definition TableStorage_RecordMetadata :: "env \<Rightarrow> DBKind \<Rightarrow> Flow \<Rightarrow> FlowVersion \<Rightarrow> db \<Rightarrow> error + db" where
  "TableStorage_RecordMetadata env kind flow version db =
     (if list_ex (\<lambda>t. ft_VersionID t = fv_ID version) (db_form_tables db) then Inr db
      else bindE (liftStorage (buildTableSpecs kind (fl_Code flow) (fv_ID version) (fv_FormFields version))) (\<lambda>specs.
        Inr (fold (insertFormTable env version) specs db)))"

section \<open>Bound values\<close>

definition coerceValue :: "env \<Rightarrow> json \<Rightarrow> BindValue" where
  "coerceValue env raw =
     (case raw of JNull \<Rightarrow> VNull | JStr s \<Rightarrow> VStr s | JBool b \<Rightarrow> VBool b | JNum f \<Rightarrow> VNum f
      | _ \<Rightarrow> VStr (env_marshal env raw))"

text \<open>
  \<^verbatim>\<open>strings.ToUpper\<close> up to the runes outside ASCII whose upper case stays outside: the dotless i
  (U+0131) and the long s (U+017F) are the ones that become ASCII letters.
\<close>

definition upperAscii :: "char \<Rightarrow> char" where
  "upperAscii c = (if inRange 97 122 c then char_of (of_char c - 32 :: nat) else c)"

fun toUpper :: "string \<Rightarrow> string" where
  "toUpper [] = []"
| "toUpper (c # cs) =
     (if hasPrefix [CHR 0xC4, CHR 0xB1] (c # cs) then CHR ''I'' # toUpper (drop 1 cs)
      else if hasPrefix [CHR 0xC5, CHR 0xBF] (c # cs) then CHR ''S'' # toUpper (drop 1 cs)
      else upperAscii c # toUpper cs)"

definition isTextColumnType :: "string \<Rightarrow> bool" where
  "isTextColumnType columnType =
     (let upper = toUpper columnType
      in hasPrefix ''TEXT'' upper \<or> hasPrefix ''VARCHAR'' upper \<or> hasPrefix ''CHAR'' upper)"

definition isIntegerColumnType :: "string \<Rightarrow> bool" where
  "isIntegerColumnType columnType =
     (let upper = toUpper columnType in hasPrefix ''BIGINT'' upper \<or> hasPrefix ''INTEGER'' upper)"

definition nullEmptyForNonText :: "BindValue \<Rightarrow> string \<Rightarrow> BindValue" where
  "nullEmptyForNonText v columnType =
     (if v \<noteq> VStr [] then v
      else if columnType = [] \<or> isTextColumnType columnType then v else VNull)"

definition coerceTextColumnValue :: "env \<Rightarrow> BindValue \<Rightarrow> string \<Rightarrow> BindValue" where
  "coerceTextColumnValue env v columnType =
     (if v = VNull \<or> \<not> isTextColumnType columnType then v
      else case v of VNum f \<Rightarrow> VStr (env_sprint env (JNum f)) | VBool b \<Rightarrow> VStr (env_sprint env (JBool b)) | _ \<Rightarrow> v)"

text \<open>The conversion of a float to \<^verbatim>\<open>int64\<close> truncates; out of range the language leaves the result open.\<close>

definition toInt64 :: "env \<Rightarrow> rat \<Rightarrow> int" where
  "toInt64 env f =
     (let n = (if f \<ge> 0 then \<lfloor>f\<rfloor> else \<lceil>f\<rceil>)
      in if - (2 ^ 63) \<le> n \<and> n < 2 ^ 63 then n else env_int64_overflow env f)"

definition coerceIntegerColumnValue :: "env \<Rightarrow> BindValue \<Rightarrow> string \<Rightarrow> BindValue" where
  "coerceIntegerColumnValue env v columnType =
     (if \<not> isIntegerColumnType columnType then v
      else case v of VNum f \<Rightarrow> VInt (toInt64 env f) | _ \<Rightarrow> v)"

text \<open>One row in column order; the generated id is the argument.\<close>

definition columnValue ::
    "env \<Rightarrow> string \<Rightarrow> string \<Rightarrow> nat \<Rightarrow> (string \<times> json) list \<Rightarrow> FormTableColumn \<Rightarrow> BindValue" where
  "columnValue env newID iid rowIndex data column =
     (if fc_ColumnName column = ''id'' then VStr newID
      else if fc_ColumnName column = ''instance_id'' then VStr iid
      else case fc_SourceFieldKey column of
        None \<Rightarrow> if fc_ColumnName column = ''row_index'' then VInt (int rowIndex) else VNull
      | Some key \<Rightarrow>
          (case map_of data key of
             None \<Rightarrow> VNull
           | Some raw \<Rightarrow>
               let v = nullEmptyForNonText (coerceValue env raw) (fc_ColumnType column)
               in coerceIntegerColumnValue env (coerceTextColumnValue env v (fc_ColumnType column)) (fc_ColumnType column)))"

definition writtenColumns :: "FormTableColumn list \<Rightarrow> FormTableColumn list" where
  "writtenColumns columns = filter (\<lambda>c. fc_ColumnName c \<noteq> ''created_at'') columns"

definition rowValues ::
    "env \<Rightarrow> FormTableColumn list \<Rightarrow> string \<Rightarrow> nat \<Rightarrow> (string \<times> json) list \<Rightarrow> db \<Rightarrow> BindValue list \<times> db" where
  "rowValues env columns iid rowIndex data db =
     (if list_ex (\<lambda>c. fc_ColumnName c = ''id'') columns then
        let (newID, db1) = allocId env db
        in (map (columnValue env newID iid rowIndex data) (writtenColumns columns), db1)
      else (map (columnValue env [] iid rowIndex data) (writtenColumns columns), db))"

section \<open>Statements\<close>

definition renderDelete :: "string \<Rightarrow> string" where
  "renderDelete tableName = ''DELETE FROM '' @ tableName @ '' WHERE instance_id = ?''"

definition buildDelete :: "string \<Rightarrow> storage_error + string" where
  "buildDelete tableName =
     bindE (ensure (ValidateBusinessIdentifier tableName) ErrInvalidGeneratedIdentifier) (\<lambda>_. Inr (renderDelete tableName))"

record InsertStatement =
  is_Table :: string
  is_Names :: "string list"
  is_Rows :: "BindValue list list"

definition renderInsert :: "InsertStatement \<Rightarrow> string" where
  "renderInsert s =
     (let rowPlaceholders = ''('' @ joinWith '', '' (replicate (length (is_Names s)) ''?'') @ '')''
      in ''INSERT INTO '' @ is_Table s @ '' ('' @ joinWith '', '' (is_Names s) @ '') VALUES ''
         @ joinWith '', '' (map (\<lambda>_. rowPlaceholders) (is_Rows s)))"

definition insertArgs :: "InsertStatement \<Rightarrow> BindValue list" where
  "insertArgs s = concat (is_Rows s)"

fun insertRows ::
    "env \<Rightarrow> FormTableColumn list \<Rightarrow> string \<Rightarrow> nat \<Rightarrow> (string \<times> json) list list \<Rightarrow> db \<Rightarrow> BindValue list list \<times> db" where
  "insertRows env columns iid rowIndex [] db = ([], db)"
| "insertRows env columns iid rowIndex (row # rows) db =
     (let (args, db1) = rowValues env columns iid rowIndex row db;
          (rest, db2) = insertRows env columns iid (Suc rowIndex) rows db1
      in (args # rest, db2))"

definition buildInsert ::
    "env \<Rightarrow> string \<Rightarrow> string \<Rightarrow> FormTableColumn list \<Rightarrow> (string \<times> json) list list \<Rightarrow> db
     \<Rightarrow> storage_error + (InsertStatement \<times> db)" where
  "buildInsert env tableName iid columns rows db =
     bindE (ensure (ValidateBusinessIdentifier tableName) ErrInvalidGeneratedIdentifier) (\<lambda>_.
     bindE (checkAll (\<lambda>c. ensure (ValidateBusinessIdentifier (fc_ColumnName c)) ErrInvalidGeneratedIdentifier)
              (writtenColumns columns)) (\<lambda>_.
     let (values, db1) = insertRows env columns iid 0 rows db
     in Inr (\<lparr>is_Table = tableName, is_Names = map fc_ColumnName (writtenColumns columns), is_Rows = values\<rparr>, db1)))"

section \<open>What the database does\<close>

definition rowOf :: "string \<Rightarrow> (string \<times> BindValue) list \<Rightarrow> bool" where
  "rowOf iid row = (map_of row ''instance_id'' = Some (VStr iid))"

definition execDelete :: "string \<Rightarrow> string \<Rightarrow> db \<Rightarrow> error + db" where
  "execDelete tableName iid db =
     (case db_physical db tableName of
        None \<Rightarrow> Inl (ErrStorage ErrSql)
      | Some t \<Rightarrow> Inr (db\<lparr>db_physical := (db_physical db)(tableName \<mapsto>
          t\<lparr>pt_Rows := filter (\<lambda>r. \<not> rowOf iid r) (pt_Rows t)\<rparr>)\<rparr>))"

text \<open>Every column that may not be null has a value; \<open>created_at\<close> has its default.\<close>

definition notNullHolds :: "PhysicalTable \<Rightarrow> (string \<times> BindValue) list \<Rightarrow> bool" where
  "notNullHolds t row =
     list_all (\<lambda>c. cs_IsNullable c \<or> cs_Name c = ''created_at''
       \<or> (case map_of row (cs_Name c) of None \<Rightarrow> False | Some v \<Rightarrow> v \<noteq> VNull)) (pt_Columns t)"

definition uniqueHolds :: "PhysicalTable \<Rightarrow> (string \<times> BindValue) list list \<Rightarrow> bool" where
  "uniqueHolds t rows = (pt_Child t \<or> distinct (map (\<lambda>r. map_of r ''instance_id'') rows))"

definition execInsert :: "InsertStatement \<Rightarrow> db \<Rightarrow> error + db" where
  "execInsert s db =
     (case db_physical db (is_Table s) of
        None \<Rightarrow> Inl (ErrStorage ErrSql)
      | Some t \<Rightarrow>
          let new = map (zip (is_Names s)) (is_Rows s); rows = pt_Rows t @ new
          in if list_all (notNullHolds t) new \<and> uniqueHolds t rows
             then Inr (db\<lparr>db_physical := (db_physical db)(is_Table s \<mapsto> t\<lparr>pt_Rows := rows\<rparr>)\<rparr>)
             else Inl (ErrStorage ErrSql))"

section \<open>The projection of a form\<close>

text \<open>A nil form has no entries.\<close>

definition formOf :: "FormData \<Rightarrow> (string \<times> json) list" where
  "formOf d = (case d of None \<Rightarrow> [] | Some m \<Rightarrow> m)"

fun detailRows :: "json list \<Rightarrow> storage_error + (string \<times> json) list list" where
  "detailRows [] = Inr []"
| "detailRows (item # rest) =
     (case item of
        JObj row \<Rightarrow> bindE (detailRows rest) (\<lambda>rows. Inr (row # rows))
      | _ \<Rightarrow> Inl ErrInvalidDetailValue)"

definition projectionRows :: "FormTable \<Rightarrow> FormData \<Rightarrow> storage_error + (string \<times> json) list list" where
  "projectionRows formTable formData =
     (if ft_SourceFieldKey formTable = [] then Inr [formOf formData]
      else case map_of (formOf formData) (ft_SourceFieldKey formTable) of
        None \<Rightarrow> Inr []
      | Some raw \<Rightarrow>
          (case raw of JNull \<Rightarrow> Inr [] | JList items' \<Rightarrow> detailRows items' | _ \<Rightarrow> Inl ErrInvalidDetailValue))"

definition writeProjection :: "env \<Rightarrow> string \<Rightarrow> FormData \<Rightarrow> FormTable \<Rightarrow> db \<Rightarrow> error + db" where
  "writeProjection env iid formData formTable db =
     (let columns = sort_key fc_SortOrder (filter (\<lambda>c. fc_FormTableID c = ft_ID formTable) (db_form_columns db));
          tableName = ft_PhysicalTableName formTable
      in bindE (liftStorage (buildDelete tableName)) (\<lambda>_.
         bindE (execDelete tableName iid db) (\<lambda>db1.
         bindE (liftStorage (projectionRows formTable formData)) (\<lambda>rows.
           if rows = [] then Inr db1
           else bindE (liftStorage (buildInsert env tableName iid columns rows db1)) (\<lambda>(stmt, db2).
             execInsert stmt db2)))))"

definition TableStorage_Write :: "env \<Rightarrow> FlowVersion \<Rightarrow> string \<Rightarrow> FormData \<Rightarrow> db \<Rightarrow> error + db" where
  "TableStorage_Write env version iid formData db =
     (let formTables = sort_key ft_SourceFieldKey (filter (\<lambda>t. ft_VersionID t = fv_ID version) (db_form_tables db))
      in bindE (ensure (formTables \<noteq> []) (ErrStorage ErrFormTableMetadataMissing)) (\<lambda>_.
           foldE (writeProjection env iid formData) formTables db))"

section \<open>The dispatcher\<close>

text \<open>Only the table strategy has effects.\<close>

definition Dispatcher_ProvisionTable :: "DBKind \<Rightarrow> Flow \<Rightarrow> FlowVersion \<Rightarrow> db \<Rightarrow> error + db" where
  "Dispatcher_ProvisionTable kind flow version db =
     (if fv_StorageMode version = StorageTable then TableStorage_ProvisionTable kind flow version db else Inr db)"

definition Dispatcher_RecordMetadata :: "env \<Rightarrow> DBKind \<Rightarrow> Flow \<Rightarrow> FlowVersion \<Rightarrow> db \<Rightarrow> error + db" where
  "Dispatcher_RecordMetadata env kind flow version db =
     (if fv_StorageMode version = StorageTable then TableStorage_RecordMetadata env kind flow version db else Inr db)"

definition SyncInstanceProjection :: "env \<Rightarrow> Instance \<Rightarrow> db \<Rightarrow> error + db" where
  "SyncInstanceProjection env inst db =
     bindE (ofOption ErrRecordNotFound (findVersion (i_FlowVersionID inst) db)) (\<lambda>version.
       if fv_StorageMode version = StorageTable
       then TableStorage_Write env version (i_ID inst) (i_FormData inst) db else Inr db)"

text \<open>The handlers call it when a dispatcher is wired.\<close>

definition syncProjection :: "env \<Rightarrow> Instance \<Rightarrow> db \<Rightarrow> error + db" where
  "syncProjection env inst db =
     (case env_form_storage env of None \<Rightarrow> Inr db | Some _ \<Rightarrow> SyncInstanceProjection env inst db)"

section \<open>The frame of a projection\<close>

text \<open>A projection writes the physical tables and draws identifiers, nothing else.\<close>

definition reprojected :: "db \<Rightarrow> db \<Rightarrow> bool" where
  "reprojected db db' \<longleftrightarrow> (\<exists>p k. db_next_id db \<le> k \<and> db' = db\<lparr>db_physical := p, db_next_id := k\<rparr>)"

lemma reprojectedI: "db_next_id db \<le> k \<Longrightarrow> db' = db\<lparr>db_physical := p, db_next_id := k\<rparr> \<Longrightarrow> reprojected db db'"
  unfolding reprojected_def by blast

lemma reprojected_refl [simp, intro]: "reprojected db db"
  by (rule reprojectedI[of _ "db_next_id db" _ "db_physical db"]) simp_all

lemma reprojected_trans [trans]: "reprojected a b \<Longrightarrow> reprojected b c \<Longrightarrow> reprojected a c"
proof -
  assume "reprojected a b" and "reprojected b c"
  then obtain p k p' k' where "db_next_id a \<le> k" "b = a\<lparr>db_physical := p, db_next_id := k\<rparr>"
      "db_next_id b \<le> k'" "c = b\<lparr>db_physical := p', db_next_id := k'\<rparr>"
    unfolding reprojected_def by blast
  then show ?thesis by (intro reprojectedI[of a k' c p']) simp_all
qed

lemma reprojected_fields:
  assumes "reprojected db db'"
  shows "db_instances db' = db_instances db" "db_tasks db' = db_tasks db" "db_visits db' = db_visits db"
    "db_versions db' = db_versions db" "db_form_tables db' = db_form_tables db" "db_form_columns db' = db_form_columns db"
    "db_logs db' = db_logs db" "db_events db' = db_events db" "db_ccs db' = db_ccs db" "db_nodes db' = db_nodes db"
    "db_edges db' = db_edges db" "db_next_id db \<le> db_next_id db'"
  using assms by (auto simp: reprojected_def)

lemma rowValues_reprojected: "rowValues env cols iid i row db = (args, db') \<Longrightarrow> reprojected db db'"
  by (auto simp: rowValues_def allocId_def Let_def split: if_splits
      intro: reprojectedI[of _ "Suc (db_next_id db)" _ "db_physical db"])

lemma insertRows_reprojected: "insertRows env cols iid i rows db = (vals, db') \<Longrightarrow> reprojected db db'"
  by (induction rows arbitrary: i db vals)
    (auto split: prod.splits dest!: rowValues_reprojected intro: reprojected_trans)

lemma buildInsert_reprojected: "buildInsert env t iid cols rows db = Inr (stmt, db') \<Longrightarrow> reprojected db db'"
  by (auto simp: buildInsert_def Let_def split: prod.splits dest!: insertRows_reprojected)

lemma exec_reprojected:
  "execDelete t iid db = Inr db' \<Longrightarrow> reprojected db db'" "execInsert s db = Inr db' \<Longrightarrow> reprojected db db'"
  by (auto simp: execDelete_def execInsert_def Let_def split: option.splits if_splits
      intro!: reprojectedI[of db "db_next_id db"])

lemma liftStorage_Inr [simp]: "liftStorage r = Inr x \<longleftrightarrow> r = Inr x"
  by (simp add: liftStorage_def split: sum.splits)

lemma writeProjection_reprojected: "writeProjection env iid d ft db = Inr db' \<Longrightarrow> reprojected db db'"
  unfolding writeProjection_def Let_def
  by (auto split: if_splits prod.splits dest!: exec_reprojected buildInsert_reprojected)
    (meson reprojected_trans)

lemma writeProjections_reprojected: "foldE (writeProjection env iid d) fts db = Inr db' \<Longrightarrow> reprojected db db'"
  by (induction fts arbitrary: db) (auto dest!: writeProjection_reprojected intro: reprojected_trans)

lemma syncProjection_reprojected: "syncProjection env inst db = Inr db' \<Longrightarrow> reprojected db db'"
  unfolding syncProjection_def SyncInstanceProjection_def TableStorage_Write_def Let_def
  by (auto split: option.splits if_splits dest!: writeProjections_reprojected)

end
