(* ===== verification/Task_Service.thy ===== *)
theory Task_Service
  imports Engine_Invariants Tenancy Form_Validation Form_Storage "HOL-Library.AList"
begin

text \<open>
  \<^verbatim>\<open>internal/approval/service/task.go\<close> and the form helpers of \<^verbatim>\<open>service/validation.go\<close> it uses:
  finishing a task, advancing the queue of a node, cancelling tasks, authorisation, and
  loading the validated context of an operation.
\<close>

section \<open>Finishing a task\<close>

definition FinishTask :: "env \<Rightarrow> Task \<Rightarrow> TaskStatus \<Rightarrow> db \<Rightarrow> error + (Task \<times> db)" where
  "FinishTask env task status db =
     (let originalStatus = t_Status task
      in bindE (ensure (CanTransition TaskStateMachine originalStatus status) ErrInvalidTaskTransition) (\<lambda>_.
        let whereClause = (\<lambda>r. t_ID r = t_ID task \<and> t_Status r = originalStatus);
            finish = (\<lambda>r. r\<lparr>t_Status := status, t_FinishedAt := Some (env_now env)\<rparr>)
        in if affected whereClause (db_tasks db) = 0
           then Inl (if originalStatus = TaskPending then ErrTaskNotPending else ErrInvalidTaskTransition)
           else Inr (finish task, updateTasks whereClause finish db)))"

definition PersistInstanceFormData :: "Instance \<Rightarrow> db \<Rightarrow> db" where
  "PersistInstanceFormData inst db =
     updateInstances (\<lambda>r. i_ID r = i_ID inst) (copyInstanceCols [ColFormData] inst) db"

section \<open>The sequential queue\<close>

definition computeTaskDeadline :: "env \<Rightarrow> FlowNode \<Rightarrow> DateTime option" where
  "computeTaskDeadline env node = ComputeTaskDeadline env (n_TimeoutHours node)"

definition shouldAutoPassSameApplicant :: "Instance \<Rightarrow> FlowNode \<Rightarrow> Task \<Rightarrow> bool" where
  "shouldAutoPassSameApplicant inst node task =
     (n_Kind node = NodeApproval \<and> n_SameApplicantAction node = SameApplicantAutoPass
      \<and> t_AssigneeID task = i_ApplicantID inst \<and> t_AddAssigneeType task = None)"

definition appendSystemTaskActionLog :: "env \<Rightarrow> Task \<Rightarrow> string \<Rightarrow> db \<Rightarrow> db" where
  "appendSystemTaskActionLog env task reason db =
     addLog env ((NewActionLog SystemOperator (t_InstanceID task) ActionExecute)
       \<lparr>l_NodeID := Some (t_NodeID task), l_TaskID := Some (t_ID task), l_Opinion := Some reason\<rparr>) db"

definition onNode :: "Instance \<Rightarrow> FlowNode \<Rightarrow> TaskStatus \<Rightarrow> Task \<Rightarrow> bool" where
  "onNode inst node st t = (t_InstanceID t = i_ID inst \<and> t_NodeID t = n_ID node \<and> t_Status t = st)"

definition waitingQueue :: "Instance \<Rightarrow> FlowNode \<Rightarrow> db \<Rightarrow> Task list" where
  "waitingQueue inst node db = sort_key t_SortOrder (filter (onNode inst node TaskWaiting) (db_tasks db))"

lemma waitingQueue_shrinks:
  assumes "t \<in> set (filter Q rows)" and "P t" and "\<And>r. P r \<Longrightarrow> \<not> Q (f r)"
  shows "length (filter Q (updateWhere P f rows)) < length (filter Q rows)"
  using assms
proof (induction rows)
  case (Cons r rows)
  have le: "length (filter Q (updateWhere P f rows)) \<le> length (filter Q rows)"
    using Cons.prems(3) by (induction rows) auto
  show ?case
  proof (cases "r = t")
    case True
    then show ?thesis using Cons.prems le by (auto simp: le_imp_less_Suc)
  next
    case False
    then have "t \<in> set (filter Q rows)" using Cons.prems(1) by (auto split: if_splits)
    then have "length (filter Q (updateWhere P f rows)) < length (filter Q rows)"
      using Cons.IH Cons.prems(2,3) by blast
    then show ?thesis using Cons.prems(3) by auto
  qed
qed simp

lemma FinishTask_waiting:
  assumes "FinishTask env task TaskApproved db = Inr (task', db')"
  shows "length (filter (onNode inst node TaskWaiting) (db_tasks db'))
    \<le> length (filter (onNode inst node TaskWaiting) (db_tasks db))"
proof -
  have "length (filter Q (updateWhere P f rows)) \<le> length (filter Q rows)"
    if "\<And>r. P r \<Longrightarrow> \<not> Q (f r)" for P Q f and rows :: "Task list"
    using that by (induction rows) auto
  then show ?thesis using assms
    by (auto simp: FinishTask_def Let_def updateTasks_def onNode_def split: if_splits)
qed

function activateLoop ::
    "env \<Rightarrow> Instance \<Rightarrow> FlowNode \<Rightarrow> DomainEvent list \<Rightarrow> db \<Rightarrow> error + (DomainEvent list \<times> db)" where
  "activateLoop env inst node evs db =
     (case waitingQueue inst node db of
        [] \<Rightarrow> Inr (evs, db)
      | nextTask # _ \<Rightarrow>
          if \<not> CanTransition TaskStateMachine (t_Status nextTask) TaskPending then Inr (evs, db)
          else
            let deadline = computeTaskDeadline env node;
                whereClause = (\<lambda>r. t_ID r = t_ID nextTask \<and> t_Status r = TaskWaiting);
                db1 = updateTasks whereClause (\<lambda>r. r\<lparr>t_Status := TaskPending, t_Deadline := deadline\<rparr>) db
            in if affected whereClause (db_tasks db) = 0 then Inr (evs, db1)
            else
              let task1 = nextTask\<lparr>t_Deadline := deadline, t_Status := TaskPending\<rparr>
              in if shouldAutoPassSameApplicant inst node task1 then
                   bindE (FinishTask env task1 TaskApproved db1) (\<lambda>(task2, db2).
                     activateLoop env inst node
                       (evs @ [TaskApprovedEvent inst task2 node SystemOperator AutoPassReasonSameApplicant])
                       (appendSystemTaskActionLog env task2 AutoPassReasonSameApplicant db2))
                 else Inr (evs @ [TaskActivatedEvent inst task1 node TaskActivationQueueAdvanced], db1))"
  by pat_completeness auto

termination activateLoop
proof (relation "measure (\<lambda>(env, inst, node, evs, db). length (filter (onNode inst node TaskWaiting) (db_tasks db)))",
    goal_cases)
  case 1
  then show ?case by simp
next
  case (2 env inst node evs db nextTask rest deadline whereClause db1 task1 r task2 db2)
  have "nextTask \<in> set (waitingQueue inst node db)" using 2(1) by simp
  then have mem: "nextTask \<in> set (filter (onNode inst node TaskWaiting) (db_tasks db))"
    by (simp add: waitingQueue_def)
  have "length (filter (onNode inst node TaskWaiting) (db_tasks db1))
      < length (filter (onNode inst node TaskWaiting) (db_tasks db))"
    unfolding 2(5) updateTasks_def using waitingQueue_shrinks[OF mem] mem 2(4)
    by (simp add: onNode_def)
  moreover have "length (filter (onNode inst node TaskWaiting) (db_tasks db2))
      \<le> length (filter (onNode inst node TaskWaiting) (db_tasks db1))"
    using FinishTask_waiting[of env task1 db1 task2 db2 inst node] 2 by simp
  ultimately show ?case by (simp add: appendSystemTaskActionLog_def addLog_def)
qed

declare activateLoop.simps [simp del]

definition ActivateNextSequentialTask ::
    "env \<Rightarrow> Instance \<Rightarrow> FlowNode \<Rightarrow> db \<Rightarrow> error + (DomainEvent list \<times> db)" where
  "ActivateNextSequentialTask env inst node db =
     (if list_ex (onNode inst node TaskPending) (db_tasks db) then Inr ([], db)
      else activateLoop env inst node [] db)"

section \<open>Reconciling activations\<close>

fun isActivation :: "DomainEvent \<Rightarrow> bool" where
  "isActivation (TaskActivatedEvent inst task node reason) = True"
| "isActivation _ = False"

definition SplitQueueAdvanceDecisions :: "DomainEvent list \<Rightarrow> DomainEvent list \<times> DomainEvent list" where
  "SplitQueueAdvanceDecisions evs = (filter (\<lambda>e. \<not> isActivation e) evs, filter isActivation evs)"

fun canceledTaskID :: "DomainEvent \<Rightarrow> string option" where
  "canceledTaskID (TaskCanceledEvent inst task node reason) = Some (t_ID task)"
| "canceledTaskID _ = None"

definition SuppressSupersededActivations :: "DomainEvent list \<Rightarrow> DomainEvent list \<Rightarrow> DomainEvent list" where
  "SuppressSupersededActivations activations completions =
     (if activations = [] \<or> completions = [] then activations
      else
        let canceled = set (List.map_filter canceledTaskID completions)
        in filter (\<lambda>e. case activatedTaskID e of None \<Rightarrow> True | Some tid \<Rightarrow> tid \<notin> canceled) activations)"

section \<open>Dependents on a parallel node\<close>

definition reactivateBeforeParent ::
    "env \<Rightarrow> Instance \<Rightarrow> FlowNode \<Rightarrow> string \<Rightarrow> db \<Rightarrow> error + (DomainEvent list \<times> db)" where
  "reactivateBeforeParent env inst node parentTaskID db =
     (if list_ex (\<lambda>t. t_ParentTaskID t = Some parentTaskID \<and> t_AddAssigneeType t = Some AddAssigneeBefore
           \<and> cancelable (t_Status t)) (db_tasks db)
      then Inr ([], db)
      else
        let whereClause = (\<lambda>r. t_ID r = parentTaskID \<and> t_Status r = TaskWaiting);
            db1 = updateTasks whereClause
              (\<lambda>r. r\<lparr>t_Status := TaskPending, t_Deadline := computeTaskDeadline env node\<rparr>) db
        in if affected whereClause (db_tasks db) = 0 then Inr ([], db1)
        else bindE (ofOption ErrRecordNotFound (findTask parentTaskID db1)) (\<lambda>parent.
          Inr ([TaskActivatedEvent inst parent node TaskActivationQueueAdvanced], db1)))"

fun promoteChildren ::
    "env \<Rightarrow> Instance \<Rightarrow> FlowNode \<Rightarrow> Task list \<Rightarrow> db \<Rightarrow> DomainEvent list \<times> db" where
  "promoteChildren env inst node [] db = ([], db)"
| "promoteChildren env inst node (child # children) db =
     (let deadline = computeTaskDeadline env node;
          whereClause = (\<lambda>r. t_ID r = t_ID child \<and> t_Status r = TaskWaiting);
          promote = (\<lambda>r. r\<lparr>t_Status := TaskPending, t_Deadline := deadline\<rparr>);
          db1 = updateTasks whereClause promote db;
          (evs, db2) = promoteChildren env inst node children db1
      in if affected whereClause (db_tasks db) = 0 then (evs, db2)
         else (TaskActivatedEvent inst (promote child) node TaskActivationQueueAdvanced # evs, db2))"

definition activateAfterChildren ::
    "env \<Rightarrow> Instance \<Rightarrow> FlowNode \<Rightarrow> string \<Rightarrow> db \<Rightarrow> DomainEvent list \<times> db" where
  "activateAfterChildren env inst node parentTaskID db =
     promoteChildren env inst node
       (filter (\<lambda>t. t_ParentTaskID t = Some parentTaskID \<and> t_AddAssigneeType t = Some AddAssigneeAfter
           \<and> t_Status t = TaskWaiting) (db_tasks db)) db"

definition activateParallelDependents ::
    "env \<Rightarrow> Instance \<Rightarrow> FlowNode \<Rightarrow> Task \<Rightarrow> db \<Rightarrow> error + (DomainEvent list \<times> db)" where
  "activateParallelDependents env inst node finishedTask db =
     bindE (case t_ParentTaskID finishedTask of
              Some p \<Rightarrow>
                (if t_AddAssigneeType finishedTask = Some AddAssigneeBefore
                 then reactivateBeforeParent env inst node p db else Inr ([], db))
            | None \<Rightarrow> Inr ([], db)) (\<lambda>(evs, db1).
       let (childEvents, db2) = activateAfterChildren env inst node (t_ID finishedTask) db1
       in Inr (evs @ childEvents, db2))"

definition ActivateDependentTasks ::
    "env \<Rightarrow> Instance \<Rightarrow> FlowNode \<Rightarrow> Task \<Rightarrow> db \<Rightarrow> error + (DomainEvent list \<times> db)" where
  "ActivateDependentTasks env inst node finishedTask db =
     (if n_ApprovalMethod node = ApprovalSequential then ActivateNextSequentialTask env inst node db
      else activateParallelDependents env inst node finishedTask db)"

definition RepointAddAssigneeChildren :: "string \<Rightarrow> string \<Rightarrow> string \<Rightarrow> db \<Rightarrow> db" where
  "RepointAddAssigneeChildren fromParentID toParentID iid db =
     updateTasks (\<lambda>r. t_InstanceID r = iid \<and> t_ParentTaskID r = Some fromParentID \<and> cancelable (t_Status r))
       (\<lambda>r. r\<lparr>t_ParentTaskID := Some toParentID\<rparr>) db"

section \<open>Cancelling tasks\<close>

definition nodeOf :: "string \<Rightarrow> db \<Rightarrow> FlowNode option" where
  "nodeOf nid db = find (\<lambda>n. n_ID n = nid) (rev (db_nodes db))"

definition cancelActiveTasks ::
    "env \<Rightarrow> Instance \<Rightarrow> string \<Rightarrow> (Task \<Rightarrow> bool) \<Rightarrow> db \<Rightarrow> DomainEvent list \<times> db" where
  "cancelActiveTasks env inst reason flt db =
     (let tasks = filter flt (db_tasks db);
          taskIDs = map t_ID tasks
      in if tasks = [] then ([], db)
      else
        let db1 = updateTasks (\<lambda>r. t_ID r \<in> set taskIDs \<and> cancelable (t_Status r))
              (\<lambda>r. r\<lparr>t_Status := TaskCanceled, t_FinishedAt := Some (env_now env)\<rparr>) db
        in (map (\<lambda>t. TaskCanceledEvent inst t
                  (case nodeOf (t_NodeID t) db of
                     Some n \<Rightarrow> n | None \<Rightarrow> zeroFlowNode\<lparr>n_ID := t_NodeID t\<rparr>) reason) tasks, db1))"

definition CancelRemainingTasks :: "env \<Rightarrow> Instance \<Rightarrow> FlowNode \<Rightarrow> string \<Rightarrow> db \<Rightarrow> DomainEvent list \<times> db" where
  "CancelRemainingTasks env inst node reason db =
     cancelActiveTasks env inst reason
       (\<lambda>t. t_InstanceID t = i_ID inst \<and> t_NodeID t = n_ID node \<and> cancelable (t_Status t)) db"

definition CancelInstanceTasks :: "env \<Rightarrow> Instance \<Rightarrow> string \<Rightarrow> db \<Rightarrow> DomainEvent list \<times> db" where
  "CancelInstanceTasks env inst reason db =
     cancelActiveTasks env inst reason (\<lambda>t. t_InstanceID t = i_ID inst \<and> cancelable (t_Status t)) db"

section \<open>Authorisation\<close>

definition IsAuthorizedForNodeOperation :: "string \<Rightarrow> string \<Rightarrow> string \<Rightarrow> db \<Rightarrow> bool" where
  "IsAuthorizedForNodeOperation iid nid operatorID db =
     (if list_ex (\<lambda>t. t_InstanceID t = iid \<and> t_NodeID t = nid \<and> t_AssigneeID t = operatorID
           \<and> cancelable (t_Status t)) (db_tasks db) then True
      else case findInstance iid db of
          None \<Rightarrow> False
        | Some inst \<Rightarrow>
            (case findFlow (i_FlowID inst) db of
               None \<Rightarrow> False
             | Some flow \<Rightarrow> operatorID \<in> set (fl_AdminUserIDs flow)))"

definition isDecisionParticipant :: "string \<Rightarrow> string \<Rightarrow> db \<Rightarrow> error + bool" where
  "isDecisionParticipant iid userID db =
     bindE (ofOption ErrInstanceNotFound (findInstance iid db)) (\<lambda>inst.
       if i_ApplicantID inst = userID then Inr True
       else Inr (list_ex (\<lambda>t. t_InstanceID t = iid
              \<and> (t_AssigneeID t = userID \<or> map_option u_ID (t_Delegator t) = Some userID)) (db_tasks db)))"

definition IsUrgeAuthorized :: "string \<Rightarrow> string \<Rightarrow> db \<Rightarrow> error + bool" where
  "IsUrgeAuthorized iid userID db = isDecisionParticipant iid userID db"

definition IsInstanceParticipant :: "string \<Rightarrow> string \<Rightarrow> db \<Rightarrow> error + bool" where
  "IsInstanceParticipant iid userID db =
     bindE (isDecisionParticipant iid userID db) (\<lambda>ok.
       if ok then Inr True
       else Inr (list_ex (\<lambda>r. cc_InstanceID r = iid \<and> u_ID (cc_User r) = userID) (db_ccs db)))"

definition CanRemoveAssigneeTask :: "env \<Rightarrow> FlowNode \<Rightarrow> Task \<Rightarrow> db \<Rightarrow> error + bool" where
  "CanRemoveAssigneeTask env node task db =
     (let tasks0 = filter (\<lambda>t. t_VisitID t = t_VisitID task) (db_tasks db);
          tasks = map (\<lambda>t. if t_ID t = t_ID task then t\<lparr>t_Status := TaskRemoved\<rparr> else t) tasks0;
          hasOtherActionable = list_ex (\<lambda>t. t_ID t \<noteq> t_ID task
            \<and> (t_Status t = TaskPending \<or> t_Status t = TaskWaiting)) tasks0
      in if hasOtherActionable then Inr True
      else bindE (evaluatePassRule (env_inexactFloat64 env) node tasks) (\<lambda>r.
        Inr (r \<noteq> PassRulePending)))"

section \<open>Form data\<close>

definition mapsCopy :: "(string \<times> json) list \<Rightarrow> (string \<times> json) list \<Rightarrow> (string \<times> json) list" where
  "mapsCopy dst src = fold (\<lambda>(k, v). AList.update k v) src dst"

definition MergeFormData :: "Instance \<Rightarrow> (string \<times> json) list \<Rightarrow> (string \<times> Permission) list \<Rightarrow> Instance" where
  "MergeFormData inst formData permissions =
     (if formData = [] then inst
      else
        let editable = FilterEditableFormData formData permissions
        in if editable = [] then inst
           else inst\<lparr>i_FormData := Some (mapsCopy (formEntries (i_FormData inst)) editable)\<rparr>)"

definition ValidateOpinion :: "FlowNode \<Rightarrow> string \<Rightarrow> error + unit" where
  "ValidateOpinion node opinion =
     (if n_IsOpinionRequired node \<and> trimSpace opinion = [] then Inl ErrOpinionRequired else Inr ())"

section \<open>The context of an operation\<close>

record TaskContext =
  tc_Instance :: Instance
  tc_Task :: Task
  tc_Node :: FlowNode
  tc_FormFields :: "FormFieldDefinition list"

record TaskContextLoadOptions =
  lo_OperatorID :: string
  lo_RequireOperatorAssignee :: bool
  lo_RequireTaskPending :: bool
  lo_RequireCurrentNode :: bool
  lo_Caller :: CallerContext

definition loadContext :: "string \<Rightarrow> TaskContextLoadOptions \<Rightarrow> db \<Rightarrow> error + TaskContext" where
  "loadContext taskID opts db =
     bindE (ofOption ErrTaskNotFound (findTask taskID db)) (\<lambda>task.
     bindE (ofOption ErrInstanceNotFound (findInstance (t_InstanceID task) db)) (\<lambda>inst.
     bindE (ensure (AllowsInstanceAccess (lo_Caller opts) (i_ID inst) (i_TenantID inst) (lo_OperatorID opts) db)
              ErrTaskNotFound) (\<lambda>_.
     bindE (ensure (i_Status inst = InstanceRunning) ErrInstanceCompleted) (\<lambda>_.
     bindE (ensure (\<not> (lo_RequireOperatorAssignee opts \<and> t_AssigneeID task \<noteq> lo_OperatorID opts)) ErrNotAssignee) (\<lambda>_.
     bindE (ensure (\<not> (lo_RequireTaskPending opts \<and> t_Status task \<noteq> TaskPending)) ErrTaskNotPending) (\<lambda>_.
     bindE (ensure (\<not> (lo_RequireCurrentNode opts \<and> i_CurrentNodeID inst \<noteq> Some (t_NodeID task))) ErrTaskNotPending) (\<lambda>_.
     bindE (ofOption ErrRecordNotFound (findNode (t_NodeID task) db)) (\<lambda>node.
       Inr \<lparr>tc_Instance = inst, tc_Task = task, tc_Node = node, tc_FormFields = []\<rparr>))))))))"

definition LoadTaskContextForNodeOperation :: "string \<Rightarrow> TaskContextLoadOptions \<Rightarrow> db \<Rightarrow> error + TaskContext" where
  "LoadTaskContextForNodeOperation taskID opts db = loadContext taskID opts db"

definition PrepareOperation ::
    "env \<Rightarrow> string \<Rightarrow> UserInfo \<Rightarrow> CallerContext \<Rightarrow> (string \<times> json) list \<Rightarrow> db \<Rightarrow> error + TaskContext" where
  "PrepareOperation env taskID operator caller formData db =
     bindE (LoadTaskContextForNodeOperation taskID
              \<lparr>lo_OperatorID = u_ID operator, lo_RequireOperatorAssignee = True,
               lo_RequireTaskPending = True, lo_RequireCurrentNode = True, lo_Caller = caller\<rparr> db) (\<lambda>tc0.
     let perms = n_FieldPermissions (tc_Node tc0)
     in bindE (if perms = [] then Inr tc0
               else bindE (ofOption ErrRecordNotFound (findVersion (i_FlowVersionID (tc_Instance tc0)) db))
                      (\<lambda>version. Inr (tc0\<lparr>tc_FormFields := fv_FormFields version\<rparr>))) (\<lambda>tc.
     bindE (validateEditableFormData env (tc_FormFields tc) formData perms) (\<lambda>_.
     bindE (validateCodeSetValues env (tc_FormFields tc) (FilterEditableFormData formData perms)) (\<lambda>_.
     let beforeSize = encodedFormDataSize env (i_FormData (tc_Instance tc));
         inst = MergeFormData (tc_Instance tc) formData perms;
         afterSize = encodedFormDataSize env (i_FormData inst)
     in if afterSize > env_form_max_bytes env \<and> afterSize > beforeSize then Inl ErrFormDataTooLarge
        else Inr (tc\<lparr>tc_Instance := inst\<rparr>)))))"

definition BuildActionLog ::
    "string \<Rightarrow> Task \<Rightarrow> UserInfo \<Rightarrow> ActionType \<Rightarrow> string \<Rightarrow> UserInfo option \<Rightarrow> string \<Rightarrow> string list \<Rightarrow> ActionLog" where
  "BuildActionLog iid task operator action opinion transferTo rollbackToNodeID attachments =
     (NewActionLog operator iid action)
       \<lparr>l_NodeID := Some (t_NodeID task), l_TaskID := Some (t_ID task),
        l_Opinion := (if opinion \<noteq> [] then Some opinion else None), l_TransferTo := transferTo,
        l_RollbackToNodeID := (if rollbackToNodeID \<noteq> [] then Some rollbackToNodeID else None),
        l_Attachments := attachments\<rparr>"

section \<open>Rollback targets\<close>

definition requireConcludedVisit :: "string \<Rightarrow> string \<Rightarrow> db \<Rightarrow> error + unit" where
  "requireConcludedVisit iid nid db =
     ensure (list_ex (\<lambda>v. v_InstanceID v = iid \<and> v_NodeID v = nid
        \<and> (v_Status v = NodeVisitPassed \<or> v_Status v = NodeVisitRejected \<or> v_Status v = NodeVisitReturned))
        (db_visits db)) ErrInvalidRollbackTarget"

definition ValidateRollbackTarget :: "Instance \<Rightarrow> FlowNode \<Rightarrow> string \<Rightarrow> db \<Rightarrow> error + unit" where
  "ValidateRollbackTarget inst currentNode targetNodeID db =
     (let version = i_FlowVersionID inst;
          target = find (\<lambda>n. n_ID n = targetNodeID \<and> n_FlowVersionID n = version) (db_nodes db)
      in if targetNodeID = n_ID currentNode then Inl ErrInvalidRollbackTarget
      else case n_RollbackType currentNode of
          RollbackNone \<Rightarrow> Inl ErrRollbackNotAllowed
        | RollbackOther _ \<Rightarrow> Inl ErrRollbackNotAllowed
        | RollbackPrevious \<Rightarrow>
            ensure (list_ex (\<lambda>e. e_SourceNodeID e = targetNodeID \<and> e_TargetNodeID e = n_ID currentNode
               \<and> e_FlowVersionID e = version) (db_edges db)) ErrInvalidRollbackTarget
        | RollbackStart \<Rightarrow>
            bindE (ofOption ErrInvalidRollbackTarget
                (find (\<lambda>n. n_FlowVersionID n = version \<and> n_Kind n = NodeStart) (db_nodes db))) (\<lambda>startNode.
              ensure (n_ID startNode = targetNodeID) ErrInvalidRollbackTarget)
        | RollbackAny \<Rightarrow>
            bindE (ofOption ErrInvalidRollbackTarget target) (\<lambda>t.
            bindE (ensure (n_Kind t = NodeApproval \<or> n_Kind t = NodeHandle \<or> n_Kind t = NodeStart)
                     ErrInvalidRollbackTarget) (\<lambda>_.
              requireConcludedVisit (i_ID inst) targetNodeID db))
        | RollbackSpecified \<Rightarrow>
            bindE (ofOption ErrInvalidRollbackTarget target) (\<lambda>t.
            bindE (ensure (n_Key t \<in> set (n_RollbackTargetKeys currentNode)) ErrInvalidRollbackTarget) (\<lambda>_.
              requireConcludedVisit (i_ID inst) targetNodeID db)))"

end
