(* ===== verification/Node_Service.thy ===== *)
theory Node_Service
  imports Task_Service
begin

text \<open>
  \<^verbatim>\<open>service/node.go\<close> and \<^verbatim>\<open>service/instance.go\<close>: settling a node after a decision, carbon
  copies on completion, the read-confirm gate, and the write-side entry point of instance
  transitions.
\<close>

section \<open>Instances\<close>

definition LoadForUpdateAs :: "string \<Rightarrow> CallerContext \<Rightarrow> string \<Rightarrow> db \<Rightarrow> error + Instance" where
  "LoadForUpdateAs iid caller userID db =
     bindE (ofOption ErrInstanceNotFound (findInstance iid db)) (\<lambda>inst.
     bindE (ensure (AllowsInstanceAccess caller (i_ID inst) (i_TenantID inst) userID db) ErrInstanceNotFound) (\<lambda>_.
       Inr inst))"

definition LoadForUpdate :: "string \<Rightarrow> CallerContext \<Rightarrow> db \<Rightarrow> error + Instance" where
  "LoadForUpdate iid caller db = LoadForUpdateAs iid caller [] db"

definition ApplyRollbackFormData :: "Instance \<Rightarrow> string \<Rightarrow> RollbackDataStrategy \<Rightarrow> db \<Rightarrow> Instance" where
  "ApplyRollbackFormData inst targetNodeID strategy db =
     (case strategy of
        RollbackDataKeep \<Rightarrow>
          (case find (\<lambda>s. fs_InstanceID s = i_ID inst \<and> fs_NodeID s = targetNodeID) (rev (db_snapshots db)) of
             None \<Rightarrow> inst
           | Some s \<Rightarrow> if fs_FormData s = None then inst else inst\<lparr>i_FormData := fs_FormData s\<rparr>)
      | RollbackDataClear \<Rightarrow> inst\<lparr>i_FormData := None\<rparr>
      | RollbackDataOther _ \<Rightarrow> inst)"

definition Transition ::
    "env \<Rightarrow> Instance \<Rightarrow> InstanceStatus \<Rightarrow> InstanceCol list \<Rightarrow> db \<Rightarrow> error + (Instance \<times> db)" where
  "Transition env inst to extraCols db =
     (case ApplyInstanceTransitionWithHooks env inst to extraCols db of
        Inr r \<Rightarrow> Inr r
      | Inl e \<Rightarrow> Inl (if e = ErrInvalidTransition then ErrInvalidInstanceTransition else e))"

section \<open>Settling a node\<close>

definition ccSelected :: "PassRuleResult \<Rightarrow> FlowNodeCC \<Rightarrow> bool" where
  "ccSelected completion cfg =
     (case nc_Timing cfg of
        CCTimingAlways \<Rightarrow> True
      | CCTimingOnApprove \<Rightarrow> completion = PassRulePassed
      | CCTimingOnReject \<Rightarrow> completion = PassRuleRejected
      | CCTimingOther _ \<Rightarrow> False)"

definition TriggerNodeCC :: "env \<Rightarrow> Instance \<Rightarrow> FlowNode \<Rightarrow> PassRuleResult \<Rightarrow> db \<Rightarrow> error + db" where
  "TriggerNodeCC env inst node completion db =
     (let configs = filter (\<lambda>c. nc_NodeID c = n_ID node) (db_node_ccs db)
      in if configs = [] then Inr db
      else
        let resolved = CollectUserIDs env configs
              \<lparr>rc_Instance = inst, rc_Node = node, rc_FormData = NewFormData (i_FormData inst)\<rparr>
              (ccSelected completion)
        in if resolved = [] then Inr db
        else
          let infos = ResolveUserInfoMapSilent env resolved
          in bindE (FindActiveNodeVisit (i_ID inst) (n_ID node) db) (\<lambda>visit.
            let (inserted, db1) = InsertAutoCCRecords env (i_ID inst) (n_ID node) (v_ID visit) resolved infos db
            in if inserted = [] then Inr db1
               else Inr (EmitEvents [CCNotifiedEvent inst node (UserInfos inserted infos) False] db1)))"

definition reasonNodePassed :: string where
  "reasonNodePassed =
     [CHR 0xE8, CHR 0x8A, CHR 0x82, CHR 0xE7, CHR 0x82, CHR 0xB9, CHR 0xE5, CHR 0xB7, CHR 0xB2,
      CHR 0xE9, CHR 0x80, CHR 0x9A, CHR 0xE8, CHR 0xBF, CHR 0x87, CHR 0xEF, CHR 0xBC, CHR 0x8C,
      CHR 0xE5, CHR 0x89, CHR 0xA9, CHR 0xE4, CHR 0xBD, CHR 0x99, CHR 0xE4, CHR 0xBB, CHR 0xBB,
      CHR 0xE5, CHR 0x8A, CHR 0xA1, CHR 0xE6, CHR 0x97, CHR 0xA0, CHR 0xE9, CHR 0x9C, CHR 0x80,
      CHR 0xE5, CHR 0xA4, CHR 0x84, CHR 0xE7, CHR 0x90, CHR 0x86]"

definition reasonNodeRejected :: string where
  "reasonNodeRejected =
     [CHR 0xE8, CHR 0x8A, CHR 0x82, CHR 0xE7, CHR 0x82, CHR 0xB9, CHR 0xE5, CHR 0xB7, CHR 0xB2,
      CHR 0xE6, CHR 0x8B, CHR 0x92, CHR 0xE7, CHR 0xBB, CHR 0x9D, CHR 0xEF, CHR 0xBC, CHR 0x8C,
      CHR 0xE5, CHR 0x89, CHR 0xA9, CHR 0xE4, CHR 0xBD, CHR 0x99, CHR 0xE4, CHR 0xBB, CHR 0xBB,
      CHR 0xE5, CHR 0x8A, CHR 0xA1, CHR 0xE6, CHR 0x97, CHR 0xA0, CHR 0xE9, CHR 0x9C, CHR 0x80,
      CHR 0xE5, CHR 0xA4, CHR 0x84, CHR 0xE7, CHR 0x90, CHR 0x86]"

definition HandleNodeCompletion ::
    "env \<Rightarrow> Instance \<Rightarrow> FlowNode \<Rightarrow> db \<Rightarrow> error + (DomainEvent list \<times> Instance \<times> db)" where
  "HandleNodeCompletion env inst node db =
     bindE (EvaluateNodeCompletion env inst node db) (\<lambda>completion.
       case completion of
         PassRulePassed \<Rightarrow>
           bindE (TriggerNodeCC env inst node PassRulePassed db) (\<lambda>db1.
             let (canceledEvents, db2) = CancelRemainingTasks env inst node reasonNodePassed db1;
                 db3 = EmitEvents canceledEvents db2
             in bindE (ConcludeActiveNodeVisit env (i_ID inst) (n_ID node) NodeVisitPassed db3) (\<lambda>db4.
                bindE (AdvanceToNextNode env inst node None db4) (\<lambda>(inst', db5).
                  Inr (canceledEvents, inst', db5))))
       | PassRuleRejected \<Rightarrow>
           bindE (TriggerNodeCC env inst node PassRuleRejected db) (\<lambda>db1.
             let (canceledEvents, db2) = CancelRemainingTasks env inst node reasonNodeRejected db1;
                 db3 = EmitEvents canceledEvents db2
             in bindE (ConcludeActiveNodeVisit env (i_ID inst) (n_ID node) NodeVisitRejected db3) (\<lambda>db4.
                bindE (ApplyInstanceTransitionWithHooks env (inst\<lparr>i_FinishedAt := Some (env_now env)\<rparr>)
                         InstanceRejected [ColFinishedAt] db4) (\<lambda>(inst', db5).
                  let completed = InstanceCompletedEvent inst' InstanceRejected None
                  in Inr (canceledEvents @ [completed], inst', EmitEvents [completed] db5))))
       | PassRulePending \<Rightarrow> Inr ([], inst, db))"

definition AdvanceCCNodeIfAllRead :: "env \<Rightarrow> string \<Rightarrow> CCRecord list \<Rightarrow> db \<Rightarrow> error + db" where
  "AdvanceCCNodeIfAllRead env iid records db =
     (let nodeIDs = snd (ou_AddAll (List.map_filter cc_NodeID records) NewOrderedUnique)
      in if ou_Len nodeIDs = 0 then Inr db
      else bindE (ofOption ErrRecordNotFound (findInstance iid db)) (\<lambda>inst.
        if i_Status inst \<noteq> InstanceRunning then Inr db
        else case i_CurrentNodeID inst of
            None \<Rightarrow> Inr db
          | Some currentNodeID \<Rightarrow>
              if \<not> ou_Contains currentNodeID nodeIDs then Inr db
              else bindE (ofOption ErrRecordNotFound (findNode currentNodeID db)) (\<lambda>node.
                if n_Kind node \<noteq> NodeCC \<or> \<not> n_IsReadConfirmRequired node then Inr db
                else bindE (FindActiveNodeVisit iid currentNodeID db) (\<lambda>visit.
                  if HasUnreadCCRecords iid currentNodeID (v_ID visit) db then Inr db
                  else bindE (ConcludeActiveNodeVisit env iid currentNodeID NodeVisitPassed db) (\<lambda>db1.
                    bindE (AdvanceToNextNode env inst node None db1) (\<lambda>(inst', db2). Inr db2))))))"

end
