(* ===== verification/Approval_Commands.thy ===== *)
theory Approval_Commands
  imports Node_Service
begin

text \<open>
  The command handlers of \<^verbatim>\<open>internal/approval/command\<close>.  A handler runs in one transaction: its
  result is an error, and the store is left as it was, or the new store.
\<close>

definition optText :: "string \<Rightarrow> string option" where
  "optText s = (if s = [] then None else Some s)"

section \<open>Decisions\<close>

text \<open>The part approve, reject and remove share: unblock dependents, settle the node, reconcile.\<close>

definition settleAfter ::
    "env \<Rightarrow> Instance \<Rightarrow> FlowNode \<Rightarrow> DomainEvent list \<Rightarrow> db \<Rightarrow> error + (Instance \<times> db)" where
  "settleAfter env inst node activationEvents0 db =
     (let (decisions, activations) = SplitQueueAdvanceDecisions activationEvents0;
          db1 = EmitEvents decisions db
      in bindE (HandleNodeCompletion env inst node db1) (\<lambda>(completions, inst', db2).
        Inr (inst', EmitEvents (SuppressSupersededActivations activations completions) db2)))"

record TaskCmd =
  cmd_TaskID :: string
  cmd_Operator :: UserInfo
  cmd_Caller :: CallerContext
  cmd_Opinion :: string
  cmd_FormData :: "(string \<times> json) list"
  cmd_Attachments :: "string list"

definition ApproveTask_Handle :: "env \<Rightarrow> TaskCmd \<Rightarrow> db \<Rightarrow> error + db" where
  "ApproveTask_Handle env cmd db =
     bindE (PrepareOperation env (cmd_TaskID cmd) (cmd_Operator cmd) (cmd_Caller cmd) (cmd_FormData cmd) db) (\<lambda>tc.
     bindE (ValidateOpinion (tc_Node tc) (cmd_Opinion cmd)) (\<lambda>_.
     bindE (ValidateRequiredPermissionFields (tc_FormFields tc) (n_FieldPermissions (tc_Node tc))
              (i_FormData (tc_Instance tc))) (\<lambda>_.
     let inst = tc_Instance tc; node = tc_Node tc; isHandle = (n_Kind node = NodeHandle)
     in bindE (FinishTask env (tc_Task tc) (if isHandle then TaskHandled else TaskApproved) db) (\<lambda>(task, db1).
     let taskEvent = (if isHandle then TaskHandledEvent inst task node (cmd_Operator cmd) (cmd_Opinion cmd)
                      else TaskApprovedEvent inst task node (cmd_Operator cmd) (cmd_Opinion cmd))
     in bindE (ActivateDependentTasks env inst node task (EmitEvents [taskEvent] db1)) (\<lambda>(activations, db2).
     bindE (settleAfter env inst node activations db2) (\<lambda>(inst', db3).
     let db4 = addLog env (BuildActionLog (i_ID inst') task (cmd_Operator cmd)
                 (if isHandle then ActionHandle else ActionApprove) (cmd_Opinion cmd) None [] (cmd_Attachments cmd)) db3
     in syncProjection env inst' (PersistInstanceFormData inst' db4)))))))"

definition RejectTask_Handle :: "env \<Rightarrow> TaskCmd \<Rightarrow> db \<Rightarrow> error + db" where
  "RejectTask_Handle env cmd db =
     bindE (PrepareOperation env (cmd_TaskID cmd) (cmd_Operator cmd) (cmd_Caller cmd) (cmd_FormData cmd) db) (\<lambda>tc.
     bindE (ValidateOpinion (tc_Node tc) (cmd_Opinion cmd)) (\<lambda>_.
     let inst = tc_Instance tc; node = tc_Node tc
     in bindE (FinishTask env (tc_Task tc) TaskRejected db) (\<lambda>(task, db1).
     bindE (ActivateDependentTasks env inst node task
              (EmitEvents [TaskRejectedEvent inst task node (cmd_Operator cmd) (cmd_Opinion cmd)] db1)) (\<lambda>(activations, db2).
     bindE (settleAfter env inst node activations db2) (\<lambda>(inst', db3).
     let db4 = addLog env (BuildActionLog (i_ID inst') task (cmd_Operator cmd) ActionReject (cmd_Opinion cmd)
                 None [] (cmd_Attachments cmd)) db3
     in syncProjection env inst' (PersistInstanceFormData inst' db4))))))"

section \<open>Hand-over of a task\<close>

definition hasActiveTaskForAssignee :: "string \<Rightarrow> string \<Rightarrow> string \<Rightarrow> db \<Rightarrow> bool" where
  "hasActiveTaskForAssignee iid nid assigneeID db =
     list_ex (\<lambda>t. t_InstanceID t = iid \<and> t_NodeID t = nid \<and> t_AssigneeID t = assigneeID
       \<and> (t_Status t = TaskPending \<or> t_Status t = TaskWaiting)) (db_tasks db)"

definition TransferTask_Handle :: "env \<Rightarrow> TaskCmd \<Rightarrow> string \<Rightarrow> db \<Rightarrow> error + db" where
  "TransferTask_Handle env cmd rawTransferToID db =
     bindE (PrepareOperation env (cmd_TaskID cmd) (cmd_Operator cmd) (cmd_Caller cmd) (cmd_FormData cmd) db) (\<lambda>tc.
     bindE (ValidateOpinion (tc_Node tc) (cmd_Opinion cmd)) (\<lambda>_.
     let inst = tc_Instance tc; node = tc_Node tc; transferToID = trimSpace rawTransferToID
     in bindE (ensure (n_IsTransferAllowed node) ErrTransferNotAllowed) (\<lambda>_.
     bindE (ensure (transferToID \<noteq> [] \<and> transferToID \<noteq> t_AssigneeID (tc_Task tc)) ErrInvalidTransferTarget) (\<lambda>_.
     bindE (ensure (\<not> hasActiveTaskForAssignee (i_ID inst) (t_NodeID (tc_Task tc)) transferToID db)
              ErrInvalidTransferTarget) (\<lambda>_.
     bindE (FinishTask env (tc_Task tc) TaskTransferred db) (\<lambda>(task, db1).
     let transferTo = ResolveUserInfo env transferToID;
         (newTask, db2) = insertTask env
           \<lparr>t_ID = [], t_TenantID = i_TenantID inst, t_InstanceID = i_ID inst, t_NodeID = t_NodeID task,
            t_VisitID = t_VisitID task, t_Assignee = transferTo, t_Delegator = None,
            t_SortOrder = t_SortOrder task, t_Status = TaskPending, t_ReadAt = None,
            t_ParentTaskID = t_ParentTaskID task, t_AddAssigneeType = t_AddAssigneeType task,
            t_Deadline = t_Deadline task, t_IsTimeout = False, t_IsPreWarningSent = False,
            t_FinishedAt = None\<rparr> db1;
         db3 = RepointAddAssigneeChildren (t_ID task) (t_ID newTask) (i_ID inst) db2;
         evs = [TaskTransferredEvent inst task node (cmd_Operator cmd) transferTo (cmd_Opinion cmd),
                TaskCreatedEvent inst newTask node,
                TaskActivatedEvent inst newTask node TaskActivationTransferred];
         db4 = addLog env (BuildActionLog (i_ID inst) task (cmd_Operator cmd) ActionTransfer (cmd_Opinion cmd)
                 (Some transferTo) [] (cmd_Attachments cmd)) db3
     in bindE (syncProjection env inst (PersistInstanceFormData inst db4)) (\<lambda>db5.
        Inr (EmitEvents evs db5))))))))"

definition ReassignTask_Handle ::
    "env \<Rightarrow> string \<Rightarrow> string \<Rightarrow> UserInfo \<Rightarrow> string \<Rightarrow> CallerContext \<Rightarrow> db \<Rightarrow> error + db" where
  "ReassignTask_Handle env taskID rawNewAssigneeID operator reason caller db =
     bindE (LoadTaskContextForNodeOperation taskID
              \<lparr>lo_OperatorID = [], lo_RequireOperatorAssignee = False, lo_RequireTaskPending = True,
               lo_RequireCurrentNode = False, lo_Caller = caller\<rparr> db) (\<lambda>tc.
     let inst = tc_Instance tc; task = tc_Task tc; node = tc_Node tc;
         newAssigneeID = trimSpace rawNewAssigneeID
     in bindE (ensure (newAssigneeID \<noteq> [] \<and> newAssigneeID \<noteq> t_AssigneeID task) ErrInvalidTransferTarget) (\<lambda>_.
     bindE (ensure (\<not> hasActiveTaskForAssignee (t_InstanceID task) (t_NodeID task) newAssigneeID db)
              ErrInvalidTransferTarget) (\<lambda>_.
     let oldAssignee = t_Assignee task;
         newAssignee = ResolveUserInfo env newAssigneeID;
         db1 = updateTasks (\<lambda>r. t_ID r = t_ID task) (\<lambda>r. r\<lparr>t_Assignee := newAssignee\<rparr>) db;
         db2 = addLog env ((NewActionLog operator (t_InstanceID task) ActionReassign)
                 \<lparr>l_TaskID := Some (t_ID task), l_NodeID := Some (t_NodeID task),
                  l_TransferTo := Some newAssignee, l_Opinion := optText reason\<rparr>) db1;
         task' = task\<lparr>t_Assignee := newAssignee\<rparr>
     in Inr (EmitEvents
          [TaskReassignedEvent inst task' node oldAssignee newAssignee reason,
           TaskActivatedEvent inst task' node TaskActivationReassigned] db2))))"

section \<open>Adding and removing assignees\<close>

record AddAssigneeCmd =
  aa_TaskID :: string
  aa_UserIDs :: "string list"
  aa_AddType :: AddAssigneeType
  aa_Operator :: UserInfo
  aa_Caller :: CallerContext

text \<open>The users who already take part in the round, in the order the tasks are loaded.\<close>

fun collectExisting :: "string \<Rightarrow> Task list \<Rightarrow> string OrderedUnique \<Rightarrow> string OrderedUnique" where
  "collectExisting visitID [] u = u"
| "collectExisting visitID (t # ts) u =
     collectExisting visitID ts
       (if t_Status t = TaskPending \<or> t_Status t = TaskWaiting then snd (ou_Add (t_AssigneeID t) u)
        else if t_VisitID t = visitID \<and> (t_Status t = TaskApproved \<or> t_Status t = TaskRejected \<or> t_Status t = TaskHandled)
        then snd (ou_Add (t_AssigneeID t) u) else u)"

fun selectNew :: "string list \<Rightarrow> string OrderedUnique \<Rightarrow> string list" where
  "selectNew [] u = []"
| "selectNew (x # xs) u = (let (added, u1) = ou_Add x u in if added then x # selectNew xs u1 else selectNew xs u1)"

text \<open>The task of the \<open>i\<close>-th added user.\<close>

definition addedTask ::
    "Instance \<Rightarrow> Task \<Rightarrow> AddAssigneeType \<Rightarrow> bool \<Rightarrow> int \<Rightarrow> DateTime option \<Rightarrow> (string \<rightharpoonup> UserInfo) \<Rightarrow> nat \<Rightarrow> string \<Rightarrow> Task" where
  "addedTask inst task addType isSequential insertBase pendingDeadline infos i userID =
     (let queued = (addType = AddAssigneeAfter \<or> (isSequential \<and> i > 0))
      in \<lparr>t_ID = [], t_TenantID = i_TenantID inst, t_InstanceID = i_ID inst, t_NodeID = t_NodeID task,
          t_VisitID = t_VisitID task, t_Assignee = infoOf infos userID, t_Delegator = None,
          t_SortOrder = insertBase + int i,
          t_Status = (if queued then TaskWaiting else TaskPending), t_ReadAt = None,
          t_ParentTaskID = Some (t_ID task), t_AddAssigneeType = Some addType,
          t_Deadline = (if queued then None else pendingDeadline), t_IsTimeout = False,
          t_IsPreWarningSent = False, t_FinishedAt = None\<rparr>)"

fun insertAdded :: "env \<Rightarrow> Instance \<Rightarrow> FlowNode \<Rightarrow> Task list \<Rightarrow> db \<Rightarrow> db" where
  "insertAdded env inst node [] db = db"
| "insertAdded env inst node (t # ts) db =
     (let (row, db1) = insertTask env t db;
          evs = TaskCreatedEvent inst row node #
            (if t_Status row = TaskPending
             then [TaskActivatedEvent inst row node TaskActivationAssigned] else [])
      in insertAdded env inst node ts (EmitEvents evs db1))"

definition shiftQueue :: "string \<Rightarrow> int \<Rightarrow> nat \<Rightarrow> db \<Rightarrow> db" where
  "shiftQueue visitID shiftFrom n db =
     updateTasks (\<lambda>r. t_VisitID r = visitID \<and> t_SortOrder r \<ge> shiftFrom)
       (\<lambda>r. r\<lparr>t_SortOrder := t_SortOrder r + int n\<rparr>) db"

text \<open>The write part of the handler: shift the queue, park the operator, insert the rows.\<close>

definition insertAssignees ::
    "env \<Rightarrow> AddAssigneeCmd \<Rightarrow> Instance \<Rightarrow> Task \<Rightarrow> FlowNode \<Rightarrow> int \<Rightarrow> string list \<Rightarrow> db \<Rightarrow> db" where
  "insertAssignees env cmd inst task node baseSortOrder insertUsers db =
     (let addType = aa_AddType cmd;
          isSequential = (n_ApprovalMethod node = ApprovalSequential);
          pendingDeadline = ComputeTaskDeadline env (n_TimeoutHours node);
          infos = ResolveUserInfoMapSilent env insertUsers;
          shiftFrom = (if addType = AddAssigneeAfter then t_SortOrder task + 1 else t_SortOrder task);
          insertBase = (if isSequential then shiftFrom else baseSortOrder + 1);
          db1 = (if isSequential then shiftQueue (t_VisitID task) shiftFrom (length insertUsers) db else db);
          task1 = (if addType = AddAssigneeBefore then task\<lparr>t_Status := TaskWaiting, t_Deadline := None\<rparr> else task);
          db2 = (if addType = AddAssigneeBefore
                 then updateTasks (\<lambda>r. t_ID r = t_ID task1)
                        (\<lambda>r. r\<lparr>t_Status := t_Status task1, t_Deadline := t_Deadline task1\<rparr>) db1 else db1);
          db3 = insertAdded env inst node
                  (map (\<lambda>(i, u). addedTask inst task1 addType isSequential insertBase pendingDeadline infos i u)
                     (List.enumerate 0 insertUsers)) db2;
          db4 = addLog env ((NewActionLog (aa_Operator cmd) (i_ID inst) ActionAddAssignee)
                  \<lparr>l_NodeID := Some (t_NodeID task1), l_TaskID := Some (t_ID task1),
                   l_AddAssigneeType := Some addType, l_AddedAssignees := UserInfos insertUsers infos\<rparr>) db3
      in EmitEvents [AssigneesAddedEvent inst task1 node addType (UserInfos insertUsers infos)] db4)"

definition AddAssignee_Handle :: "env \<Rightarrow> AddAssigneeCmd \<Rightarrow> db \<Rightarrow> error + db" where
  "AddAssignee_Handle env cmd db =
     bindE (LoadTaskContextForNodeOperation (aa_TaskID cmd)
              \<lparr>lo_OperatorID = u_ID (aa_Operator cmd), lo_RequireOperatorAssignee = True,
               lo_RequireTaskPending = True, lo_RequireCurrentNode = True, lo_Caller = aa_Caller cmd\<rparr> db) (\<lambda>tc.
     let inst = tc_Instance tc; task = tc_Task tc; node = tc_Node tc; addType = aa_AddType cmd;
         isSequential = (n_ApprovalMethod node = ApprovalSequential)
     in bindE (ensure (n_IsAddAssigneeAllowed node) ErrAddAssigneeNotAllowed) (\<lambda>_.
     bindE (ensure (AddAssigneeType_IsValid addType) ErrInvalidAddAssigneeType) (\<lambda>_.
     bindE (ensure (n_AddAssigneeTypes node = [] \<or> addType \<in> set (n_AddAssigneeTypes node)) ErrInvalidAddAssigneeType) (\<lambda>_.
     bindE (ensure (\<not> (isSequential \<and> addType = AddAssigneeParallel)) ErrInvalidAddAssigneeType) (\<lambda>_.
     let userIDs = NormalizeUniqueIDs (aa_UserIDs cmd)
     in bindE (ensure (userIDs \<noteq> []) ErrNoUsersSpecified) (\<lambda>_.
     let nodeTasks = filter (\<lambda>t. t_InstanceID t = i_ID inst \<and> t_NodeID t = t_NodeID task) (db_tasks db);
         baseSortOrder = fold (\<lambda>t m. if t_SortOrder t > m then t_SortOrder t else m) nodeTasks (t_SortOrder task);
         insertUsers = selectNew userIDs (collectExisting (t_VisitID task) nodeTasks NewOrderedUnique)
     in if insertUsers = [] then Inr db
     else Inr (insertAssignees env cmd inst task node baseSortOrder insertUsers db)))))))"

definition RemoveAssignee_Handle :: "env \<Rightarrow> string \<Rightarrow> UserInfo \<Rightarrow> CallerContext \<Rightarrow> db \<Rightarrow> error + db" where
  "RemoveAssignee_Handle env taskID operator caller db =
     bindE (LoadTaskContextForNodeOperation taskID
              \<lparr>lo_OperatorID = u_ID operator, lo_RequireOperatorAssignee = False,
               lo_RequireTaskPending = False, lo_RequireCurrentNode = True, lo_Caller = caller\<rparr> db) (\<lambda>tc.
     let inst = tc_Instance tc; node = tc_Node tc
     in bindE (ensure (n_IsRemoveAssigneeAllowed node) ErrRemoveAssigneeNotAllowed) (\<lambda>_.
     bindE (ensure (IsAuthorizedForNodeOperation (t_InstanceID (tc_Task tc)) (t_NodeID (tc_Task tc)) (u_ID operator) db)
              ErrNotAssignee) (\<lambda>_.
     bindE (CanRemoveAssigneeTask env node (tc_Task tc) db) (\<lambda>canRemove.
     bindE (ensure canRemove ErrLastAssigneeRemoval) (\<lambda>_.
     bindE (FinishTask env (tc_Task tc) TaskRemoved db) (\<lambda>(task, db1).
     bindE (ActivateDependentTasks env inst node task db1) (\<lambda>(activations, db2).
     let db3 = addLog env ((NewActionLog operator (t_InstanceID task) ActionRemoveAssignee)
                 \<lparr>l_NodeID := Some (t_NodeID task), l_TaskID := Some (t_ID task),
                  l_RemovedAssignees := [t_Assignee task]\<rparr>) db2;
         db4 = EmitEvents [AssigneesRemovedEvent inst task node [t_Assignee task]] db3
     in bindE (settleAfter env inst node activations db4) (\<lambda>(inst', db5). Inr db5))))))))"

section \<open>Instance operations\<close>

definition reasonWithdrawn :: string where
  "reasonWithdrawn =
     [CHR 0xE7, CHR 0x94, CHR 0xB3, CHR 0xE8, CHR 0xAF, CHR 0xB7, CHR 0xE5, CHR 0xB7, CHR 0xB2,
      CHR 0xE6, CHR 0x92, CHR 0xA4, CHR 0xE5, CHR 0x9B, CHR 0x9E, CHR 0xEF, CHR 0xBC, CHR 0x8C,
      CHR 0xE4, CHR 0xBB, CHR 0xBB, CHR 0xE5, CHR 0x8A, CHR 0xA1, CHR 0xE5, CHR 0x8F, CHR 0x96,
      CHR 0xE6, CHR 0xB6, CHR 0x88]"

definition reasonTerminated :: string where
  "reasonTerminated =
     [CHR 0xE7, CHR 0x94, CHR 0xB3, CHR 0xE8, CHR 0xAF, CHR 0xB7, CHR 0xE5, CHR 0xB7, CHR 0xB2,
      CHR 0xE8, CHR 0xA2, CHR 0xAB, CHR 0xE7, CHR 0xBB, CHR 0x88, CHR 0xE6, CHR 0xAD, CHR 0xA2,
      CHR 0xEF, CHR 0xBC, CHR 0x8C, CHR 0xE4, CHR 0xBB, CHR 0xBB, CHR 0xE5, CHR 0x8A, CHR 0xA1,
      CHR 0xE5, CHR 0x8F, CHR 0x96, CHR 0xE6, CHR 0xB6, CHR 0x88]"

definition reasonRolledBack :: string where
  "reasonRolledBack =
     [CHR 0xE8, CHR 0x8A, CHR 0x82, CHR 0xE7, CHR 0x82, CHR 0xB9, CHR 0xE8, CHR 0xA2, CHR 0xAB,
      CHR 0xE5, CHR 0x9B, CHR 0x9E, CHR 0xE9, CHR 0x80, CHR 0x80, CHR 0xEF, CHR 0xBC, CHR 0x8C,
      CHR 0xE5, CHR 0x89, CHR 0xA9, CHR 0xE4, CHR 0xBD, CHR 0x99, CHR 0xE4, CHR 0xBB, CHR 0xBB,
      CHR 0xE5, CHR 0x8A, CHR 0xA1, CHR 0xE5, CHR 0x8F, CHR 0x96, CHR 0xE6, CHR 0xB6, CHR 0x88]"

definition closeInstance ::
    "env \<Rightarrow> Instance \<Rightarrow> InstanceStatus \<Rightarrow> error \<Rightarrow> string \<Rightarrow> db \<Rightarrow> error + (DomainEvent list \<times> Instance \<times> db)" where
  "closeInstance env inst0 to notAllowed cancelReason db =
     bindE (ensure (CanTransition InstanceStateMachine (i_Status inst0) to) notAllowed) (\<lambda>_.
     bindE (case Transition env (inst0\<lparr>i_FinishedAt := Some (env_now env)\<rparr>) to [ColFinishedAt] db of
              Inr r \<Rightarrow> Inr r
            | Inl e \<Rightarrow> Inl (if e = ErrInvalidInstanceTransition then notAllowed else e)) (\<lambda>(inst, db1).
     let (canceledEvents, db2) = CancelInstanceTasks env inst cancelReason db1
     in Inr (canceledEvents, inst, CancelActiveNodeVisits env (i_ID inst0) db2)))"

definition WithdrawInstance_Handle :: "env \<Rightarrow> string \<Rightarrow> UserInfo \<Rightarrow> CallerContext \<Rightarrow> string \<Rightarrow> db \<Rightarrow> error + db" where
  "WithdrawInstance_Handle env iid operator caller reason db =
     bindE (LoadForUpdate iid caller db) (\<lambda>inst0.
     bindE (ensure (i_ApplicantID inst0 = u_ID operator) ErrNotApplicant) (\<lambda>_.
     bindE (closeInstance env inst0 InstanceWithdrawn ErrWithdrawNotAllowed reasonWithdrawn db) (\<lambda>(canceled, inst, db1).
     let db2 = addLog env ((NewActionLog operator iid ActionWithdraw)\<lparr>l_Opinion := optText reason\<rparr>) db1
     in Inr (EmitEvents (canceled @ [InstanceWithdrawnEvent inst operator (optText reason)]) db2))))"

definition TerminateInstance_Handle :: "env \<Rightarrow> string \<Rightarrow> UserInfo \<Rightarrow> CallerContext \<Rightarrow> string \<Rightarrow> db \<Rightarrow> error + db" where
  "TerminateInstance_Handle env iid operator caller reason db =
     bindE (LoadForUpdate iid caller db) (\<lambda>inst0.
     bindE (closeInstance env inst0 InstanceTerminated ErrTerminateNotAllowed reasonTerminated db) (\<lambda>(canceled, inst, db1).
     let db2 = addLog env ((NewActionLog operator iid ActionTerminate)\<lparr>l_Opinion := optText reason\<rparr>) db1
     in Inr (EmitEvents (canceled @ [InstanceCompletedEvent inst InstanceTerminated (optText reason)]) db2)))"

definition ResubmitInstance_Handle ::
    "env \<Rightarrow> string \<Rightarrow> UserInfo \<Rightarrow> CallerContext \<Rightarrow> (string \<times> json) list \<Rightarrow> db \<Rightarrow> error + db" where
  "ResubmitInstance_Handle env iid operator caller formData db =
     bindE (LoadForUpdate iid caller db) (\<lambda>inst0.
     bindE (ensure (i_ApplicantID inst0 = u_ID operator) ErrNotApplicant) (\<lambda>_.
     bindE (ensure (CanTransition InstanceStateMachine (i_Status inst0) InstanceRunning) ErrResubmitNotAllowed) (\<lambda>_.
     bindE (ofOption ErrRecordNotFound (findVersion (i_FlowVersionID inst0) db)) (\<lambda>version.
     let merged = Some (mapsCopy (formEntries (i_FormData inst0)) formData);
         inst1 = inst0\<lparr>i_FormData := merged, i_FinishedAt := None\<rparr>
     in bindE (ValidateFormData env (fv_FormFields version) merged) (\<lambda>_.
     bindE (case Transition env inst1 InstanceRunning [ColFormData, ColFinishedAt] db of
              Inr r \<Rightarrow> Inr r
            | Inl e \<Rightarrow> Inl (if e = ErrInvalidInstanceTransition then ErrResubmitNotAllowed else e)) (\<lambda>(inst2, db1).
     bindE (syncProjection env inst2 db1) (\<lambda>db2.
     bindE (StartProcess env inst2 db2) (\<lambda>(inst3, db3).
     let db4 = addLog env (NewActionLog operator iid ActionResubmit) db3
     in Inr (EmitEvents [InstanceResubmittedEvent inst3 operator] db4)))))))))"

definition RollbackTask_Handle :: "env \<Rightarrow> TaskCmd \<Rightarrow> string \<Rightarrow> db \<Rightarrow> error + db" where
  "RollbackTask_Handle env cmd rawTargetNodeID db =
     bindE (PrepareOperation env (cmd_TaskID cmd) (cmd_Operator cmd) (cmd_Caller cmd) (cmd_FormData cmd) db) (\<lambda>tc.
     bindE (ValidateOpinion (tc_Node tc) (cmd_Opinion cmd)) (\<lambda>_.
     let inst0 = tc_Instance tc; node = tc_Node tc; targetNodeID = trimSpace rawTargetNodeID
     in bindE (ensure (n_IsRollbackAllowed node) ErrRollbackNotAllowed) (\<lambda>_.
     bindE (ensure (targetNodeID \<noteq> []) ErrInvalidRollbackTarget) (\<lambda>_.
     bindE (ValidateRollbackTarget inst0 node targetNodeID db) (\<lambda>_.
     bindE (FinishTask env (tc_Task tc) TaskRolledBack db) (\<lambda>(task, db1).
     let (canceledEvents, db2) = CancelRemainingTasks env inst0 node reasonRolledBack db1
     in bindE (ConcludeActiveNodeVisit env (i_ID inst0) (n_ID node) NodeVisitReturned db2) (\<lambda>db3.
     let inst1 = (ApplyRollbackFormData inst0 targetNodeID (n_RollbackDataStrategy node) db3)
                   \<lparr>i_CurrentNodeID := Some targetNodeID\<rparr>;
         opinion = optText (cmd_Opinion cmd)
     in bindE (ofOption ErrRecordNotFound (findNode targetNodeID db3)) (\<lambda>targetNode.
     bindE (if n_Kind targetNode = NodeStart then
              bindE (Transition env (inst1\<lparr>i_FinishedAt := Some (env_now env)\<rparr>) InstanceReturned
                       [ColFormData, ColCurrentNodeID, ColFinishedAt] db3) (\<lambda>(inst2, db4).
                Inr (inst2, db4, canceledEvents @ [InstanceReturnedEvent inst2 node targetNode (cmd_Operator cmd) opinion]))
            else
              bindE (ProcessNode maxNodeDepth env
                       (updateInstances (\<lambda>r. i_ID r = i_ID inst1) (copyInstanceCols [ColFormData, ColCurrentNodeID] inst1) db3)
                       inst1 targetNode) (\<lambda>(inst2, db4).
                Inr (inst2, db4, canceledEvents @ [InstanceRolledBackEvent inst2 node targetNode (cmd_Operator cmd) opinion])))
       (\<lambda>(inst2, db4, evs).
     bindE (syncProjection env inst2 db4) (\<lambda>db5.
     let db6 = addLog env (BuildActionLog (i_ID inst2) task (cmd_Operator cmd) ActionRollback (cmd_Opinion cmd)
                 None targetNodeID (cmd_Attachments cmd)) db5
     in Inr (EmitEvents evs db6)))))))))))"

section \<open>Carbon copies and urging\<close>

definition MarkCCRead_Handle :: "env \<Rightarrow> string \<Rightarrow> string \<Rightarrow> CallerContext \<Rightarrow> db \<Rightarrow> error + db" where
  "MarkCCRead_Handle env iid userID caller db =
     (case findInstance iid db of
        None \<Rightarrow> Inr db
      | Some inst \<Rightarrow>
          if \<not> AllowsInstanceAccess caller iid (i_TenantID inst) userID db then Inr db
          else
            let records = filter (\<lambda>r. cc_InstanceID r = iid \<and> u_ID (cc_User r) = userID \<and> cc_ReadAt r = None) (db_ccs db)
            in if records = [] then Inr db
            else
              let db1 = db\<lparr>db_ccs := updateWhere (\<lambda>r. cc_ID r \<in> set (map cc_ID records))
                      (\<lambda>r. r\<lparr>cc_ReadAt := Some (env_now env)\<rparr>) (db_ccs db)\<rparr>
              in AdvanceCCNodeIfAllRead env iid records db1)"

definition AddCC_Handle :: "env \<Rightarrow> string \<Rightarrow> string list \<Rightarrow> UserInfo \<Rightarrow> CallerContext \<Rightarrow> db \<Rightarrow> error + db" where
  "AddCC_Handle env iid ccUserIDs operator caller db =
     bindE (LoadForUpdateAs iid caller (u_ID operator) db) (\<lambda>inst.
       case (if i_Status inst \<noteq> InstanceRunning then None else i_CurrentNodeID inst) of
         None \<Rightarrow> Inl ErrInstanceCompleted
       | Some currentNodeID \<Rightarrow>
           bindE (ofOption ErrRecordNotFound (findNode currentNodeID db)) (\<lambda>node.
           bindE (ensure (n_IsManualCCAllowed node) ErrManualCcNotAllowed) (\<lambda>_.
           let operatorID = trimSpace (u_ID operator)
           in bindE (ensure (operatorID \<noteq> []) ErrNotAssignee) (\<lambda>_.
           bindE (ensure (IsAuthorizedForNodeOperation (i_ID inst) currentNodeID operatorID db) ErrNotAssignee) (\<lambda>_.
           let userIDs = NormalizeUniqueIDs ccUserIDs
           in if userIDs = [] then Inr db
           else
             let infos = ResolveUserInfoMapSilent env userIDs
             in bindE (FindActiveNodeVisit iid currentNodeID db) (\<lambda>visit.
               let (inserted, db1) = InsertManualCCRecords env iid currentNodeID (v_ID visit) userIDs infos db
               in if inserted = [] then Inr db1
               else
                 let db2 = addLog env ((NewActionLog operator iid ActionAddCC)
                       \<lparr>l_NodeID := Some currentNodeID, l_CCUsers := UserInfos inserted infos\<rparr>) db1
                 in Inr (EmitEvents [CCNotifiedEvent inst node (UserInfos inserted infos) True] db2)))))))"

definition DefaultUrgeCooldownMinutes :: int where
  "DefaultUrgeCooldownMinutes = 30"

definition UrgeTask_Handle :: "env \<Rightarrow> string \<Rightarrow> string \<Rightarrow> string \<Rightarrow> CallerContext \<Rightarrow> db \<Rightarrow> error + db" where
  "UrgeTask_Handle env taskID urgerID message caller db =
     bindE (ofOption ErrTaskNotFound (findTask taskID db)) (\<lambda>task.
     bindE (ensure (AllowsInstanceAccess caller (t_InstanceID task) (t_TenantID task) urgerID db) ErrTaskNotFound) (\<lambda>_.
     bindE (ensure (t_Status task = TaskPending) ErrTaskNotPending) (\<lambda>_.
     bindE (IsUrgeAuthorized (t_InstanceID task) urgerID db) (\<lambda>authorized.
     bindE (ensure authorized ErrAccessDenied) (\<lambda>_.
     bindE (ofOption ErrRecordNotFound (findNode (t_NodeID task) db)) (\<lambda>node.
     let cooldownMinutes = (if n_UrgeCooldownMinutes node \<le> 0 then DefaultUrgeCooldownMinutes else n_UrgeCooldownMinutes node);
         cooldownSince = env_now env - cooldownMinutes * 60
     in bindE (ensure (\<not> list_ex (\<lambda>u. ur_TaskID u = Some taskID \<and> u_ID (ur_Urger u) = urgerID
                \<and> ur_CreatedAt u > cooldownSince) (db_urges db)) ErrUrgeTooFrequent) (\<lambda>_.
     let urger = ResolveUserInfo env urgerID;
         db1 = db\<lparr>db_urges := db_urges db @
            [\<lparr>ur_InstanceID = t_InstanceID task, ur_NodeID = t_NodeID task, ur_TaskID = Some taskID,
              ur_Urger = urger, ur_Target = t_Assignee task, ur_Message = message, ur_CreatedAt = env_now env\<rparr>]\<rparr>
     in bindE (ofOption ErrRecordNotFound (findInstance (t_InstanceID task) db1)) (\<lambda>inst.
        Inr (EmitEvents [TaskUrgedEvent inst task node urger message] db1)))))))))"

end
