(* ===== verification/Service_Invariants.thy ===== *)
theory Service_Invariants
  imports Approval_Commands
begin

text \<open>
  The task and node services keep the contract of \<open>Store_Evolution\<close> and, between the moment a
  task is finished and the node is settled, the consistency of the running instance.
\<close>

section \<open>Operations on tasks only\<close>

definition tasks_only :: "env \<Rightarrow> string \<Rightarrow> db \<Rightarrow> db \<Rightarrow> bool" where
  "tasks_only env iid db db' \<longleftrightarrow> node_local env iid db db'
     \<and> (\<forall>nid vid. wf_store env db \<longrightarrow> open_at iid nid vid db \<longrightarrow> open_at iid nid vid db')"

lemma tasks_only_refl [simp]: "tasks_only env iid db db"
  by (simp add: tasks_only_def)

lemma tasks_only_trans [trans]:
  "tasks_only env iid a b \<Longrightarrow> tasks_only env iid b c \<Longrightarrow> tasks_only env iid a c"
  unfolding tasks_only_def by (blast intro: node_local_trans dest: node_local_fresh)

lemma tasks_only_wf: "tasks_only env iid db db' \<Longrightarrow> wf_store env db \<Longrightarrow> wf_store env db'"
  by (auto simp: tasks_only_def dest: node_local_fresh)

lemma tasks_only_sel:
  "tasks_only env iid db db' \<Longrightarrow> db_visits db' = db_visits db \<and> db_instances db' = db_instances db"
  by (simp add: tasks_only_def node_local_def)

lemma tasks_only_evolves: "tasks_only env iid db db' \<Longrightarrow> evolves env iid db db'"
  by (simp add: tasks_only_def node_local_def)

lemma tasks_only_emit [simp]: "tasks_only env iid db (EmitEvents evs db)"
  by (simp add: tasks_only_def node_local_def open_at_def)

lemma tasks_only_log [simp]: "tasks_only env iid db (addLog env' l db)"
  unfolding tasks_only_def node_local_def using evolves_addLog by (auto simp: addLog_def open_at_def)

lemma tasks_only_updateTasks:
  assumes "\<And>t. wf_store env db \<Longrightarrow> t \<in> set (db_tasks db) \<Longrightarrow> P t \<Longrightarrow> task_rel iid t (f t)"
    and "\<And>t. t_ID (f t) = t_ID t" and "\<And>t. t_ParentTaskID (f t) = t_ParentTaskID t"
  shows "tasks_only env iid db (updateTasks P f db)"
  using node_local_updateTasks[OF assms] open_at_updateTasks assms(1)
  by (auto simp: tasks_only_def)

lemma tasks_only_cong:
  assumes "evolves env iid db db'" and "db_visits db' = db_visits db" and "db_instances db' = db_instances db"
    and "db_tasks db' = db_tasks db" and "db_nodes db' = db_nodes db"
  shows "tasks_only env iid db db'"
  using assms by (simp add: tasks_only_def node_local_def open_at_def)

text \<open>The task with this id, if it exists, belongs to the instance.\<close>

definition owned :: "string \<Rightarrow> string \<Rightarrow> db \<Rightarrow> bool" where
  "owned iid tid db \<longleftrightarrow> (\<forall>r \<in> set (db_tasks db). t_ID r = tid \<longrightarrow> t_InstanceID r = iid)"

lemma owned_row: "wf_store env db \<Longrightarrow> t \<in> set (db_tasks db) \<Longrightarrow> t_InstanceID t = iid \<Longrightarrow> owned iid (t_ID t) db"
  unfolding owned_def using distinct_key_eq[OF wf_store_distinct(1)] by metis

lemma owned_step:
  assumes "owned iid tid db" and "evolves env iid db db'" and "wf_store env db"
  shows "owned iid tid db'"
  unfolding owned_def
proof (intro ballI impI)
  fix r assume r: "r \<in> set (db_tasks db')" "t_ID r = tid"
  have "rows_evolve (task_rel iid) (\<lambda>t. t_InstanceID t = iid) (db_tasks db) (db_tasks db')"
    using assms(2,3) by (simp add: evolves_def store_step_def)
  from rows_evolve_mem[OF this r(1)] show "t_InstanceID r = iid"
    using assms(1) r(2) by (auto simp: owned_def task_rel_def)
qed

lemma task_rel_status:
  assumes "t_InstanceID t = iid" and "CanTransition TaskStateMachine (t_Status t) s"
    and "t_Status t' = s" "t_ID t' = t_ID t" "t_TenantID t' = t_TenantID t" "t_InstanceID t' = t_InstanceID t"
      "t_NodeID t' = t_NodeID t" "t_VisitID t' = t_VisitID t"
  shows "task_rel iid t t'"
  using assms task_path1 by (simp add: task_rel_def)

lemma FinishTask_run:
  assumes "FinishTask env task st db = Inr (task', db')" and "wf_store env db \<Longrightarrow> owned iid (t_ID task) db"
  shows "tasks_only env iid db db'" "t_ID task' = t_ID task" "t_InstanceID task' = t_InstanceID task"
    "t_NodeID task' = t_NodeID task" "t_VisitID task' = t_VisitID task" "t_Status task' = st"
    "t_ParentTaskID task' = t_ParentTaskID task"
proof -
  let ?P = "\<lambda>r. t_ID r = t_ID task \<and> t_Status r = t_Status task"
  let ?f = "\<lambda>r. r\<lparr>t_Status := st, t_FinishedAt := Some (env_now env)\<rparr>"
  have can: "CanTransition TaskStateMachine (t_Status task) st" and out: "task' = ?f task"
    and db': "db' = updateTasks ?P ?f db"
    using assms(1) by (auto simp: FinishTask_def Let_def split: if_splits)
  show "tasks_only env iid db db'"
    unfolding db'
  proof (rule tasks_only_updateTasks)
    fix t assume "wf_store env db" "t \<in> set (db_tasks db)" "?P t"
    then show "task_rel iid t (?f t)"
      using assms(2) can by (intro task_rel_status[where s = st]) (auto simp: owned_def)
  qed simp_all
  show "t_ID task' = t_ID task" "t_InstanceID task' = t_InstanceID task" "t_NodeID task' = t_NodeID task"
    "t_VisitID task' = t_VisitID task" "t_Status task' = st" "t_ParentTaskID task' = t_ParentTaskID task"
    by (simp_all add: out)
qed

text \<open>Promotion of a waiting row by its primary key.\<close>

lemma promote_run:
  assumes "wf_store env db \<Longrightarrow> owned iid tid db"
  shows "tasks_only env iid db (updateTasks (\<lambda>r. t_ID r = tid \<and> t_Status r = TaskWaiting)
     (\<lambda>r. r\<lparr>t_Status := TaskPending, t_Deadline := d\<rparr>) db)"
proof (rule tasks_only_updateTasks)
  fix t assume "wf_store env db" "t \<in> set (db_tasks db)" "t_ID t = tid \<and> t_Status t = TaskWaiting"
  then show "task_rel iid t (t\<lparr>t_Status := TaskPending, t_Deadline := d\<rparr>)"
    using assms by (intro task_rel_status[where s = TaskPending]) (auto simp: owned_def task_transitions)
qed simp_all

lemma activateLoop_run:
  "activateLoop env inst node evs db = Inr (evs', db') \<Longrightarrow> wf_store env db \<Longrightarrow>
     tasks_only env (i_ID inst) db db'"
proof (induction env inst node evs db arbitrary: evs' db' rule: activateLoop.induct)
  case (1 env inst node evs db)
  show ?case
  proof (cases "waitingQueue inst node db")
    case Nil
    then show ?thesis using "1.prems" by (simp add: activateLoop.simps)
  next
    case (Cons nt rest)
    have "nt \<in> set (waitingQueue inst node db)" using Cons by simp
    then have nxt: "nt \<in> set (db_tasks db)" "t_InstanceID nt = i_ID inst" "t_Status nt = TaskWaiting"
      by (auto simp: waitingQueue_def onNode_def)
    have own: "owned (i_ID inst) (t_ID nt) db" using owned_row[OF "1.prems"(2)] nxt by simp
    let ?d = "computeTaskDeadline env node"
    let ?P = "\<lambda>r. t_ID r = t_ID nt \<and> t_Status r = TaskWaiting"
    let ?db1 = "updateTasks ?P (\<lambda>r. r\<lparr>t_Status := TaskPending, t_Deadline := ?d\<rparr>) db"
    let ?t1 = "nt\<lparr>t_Deadline := ?d, t_Status := TaskPending\<rparr>"
    have step: "tasks_only env (i_ID inst) db ?db1" using own by (intro promote_run)
    have aff: "affected ?P (db_tasks db) \<noteq> 0" using nxt by (auto simp: affected_zero)
    have can: "CanTransition TaskStateMachine (t_Status nt) TaskPending" using nxt by (simp add: task_transitions)
    show ?thesis
    proof (cases "shouldAutoPassSameApplicant inst node ?t1")
      case False
      then have "db' = ?db1"
        using "1.prems"(1) Cons can aff by (subst (asm) activateLoop.simps) (simp add: Let_def)
      then show ?thesis using step by simp
    next
      case True
      then obtain t2 db2 where fin: "FinishTask env ?t1 TaskApproved ?db1 = Inr (t2, db2)"
        and rec: "activateLoop env inst node
             (evs @ [TaskApprovedEvent inst t2 node SystemOperator AutoPassReasonSameApplicant])
             (appendSystemTaskActionLog env t2 AutoPassReasonSameApplicant db2) = Inr (evs', db')"
        using "1.prems"(1) Cons can aff
        by (subst (asm) activateLoop.simps) (auto simp: Let_def)
      have own1: "owned (i_ID inst) (t_ID ?t1) ?db1"
        using owned_step[OF own tasks_only_evolves[OF step] "1.prems"(2)] by simp
      have step2: "tasks_only env (i_ID inst) ?db1 db2" using FinishTask_run(1)[OF fin] own1 by simp
      let ?db3 = "appendSystemTaskActionLog env t2 AutoPassReasonSameApplicant db2"
      have step3: "tasks_only env (i_ID inst) db2 ?db3" by (simp add: appendSystemTaskActionLog_def)
      have all: "tasks_only env (i_ID inst) db ?db3"
        using tasks_only_trans[OF tasks_only_trans[OF step step2] step3] .
      have "tasks_only env (i_ID inst) ?db3 db'"
        by (rule "1.IH"[OF Cons _ refl refl refl _ refl True _ refl rec tasks_only_wf[OF all "1.prems"(2)]])
          (use can aff fin in auto)
      then show ?thesis using tasks_only_trans[OF all] by simp
    qed
  qed
qed

lemma ActivateNextSequentialTask_run:
  "ActivateNextSequentialTask env inst node db = Inr (evs, db') \<Longrightarrow> wf_store env db \<Longrightarrow>
     tasks_only env (i_ID inst) db db'"
  by (auto simp: ActivateNextSequentialTask_def split: if_splits intro: activateLoop_run)

lemma wf_parent_owned:
  assumes "wf_store env db" and "t \<in> set (db_tasks db)" and "t_InstanceID t = iid" and "t_ParentTaskID t = Some p"
  shows "owned iid p db"
proof -
  obtain r where "r \<in> set (db_tasks db)" "t_ID r = p" "t_InstanceID r = iid"
    using assms unfolding wf_store_def parents_ok_def by blast
  then show ?thesis using owned_row[OF assms(1)] by auto
qed

lemma wf_child_owned:
  assumes "wf_store env db" and "owned iid p db" and "t \<in> set (db_tasks db)" and "t_ParentTaskID t = Some p"
  shows "owned iid (t_ID t) db"
proof -
  obtain r where "r \<in> set (db_tasks db)" "t_ID r = p" "t_InstanceID r = t_InstanceID t"
    using assms unfolding wf_store_def parents_ok_def by blast
  with assms(2) have "t_InstanceID t = iid" by (auto simp: owned_def)
  then show ?thesis using owned_row[OF assms(1,3)] by simp
qed

lemma reactivateBeforeParent_run:
  assumes "reactivateBeforeParent env inst node p db = Inr (evs, db')" and "wf_store env db \<Longrightarrow> owned iid p db"
  shows "tasks_only env iid db db'"
  using assms promote_run[OF assms(2)]
  by (auto simp: reactivateBeforeParent_def Let_def split: if_splits)

lemma promoteChildren_run:
  assumes "promoteChildren env inst node cs db = (evs, db')" and "wf_store env db"
    and "\<forall>c \<in> set cs. owned iid (t_ID c) db"
  shows "tasks_only env iid db db'"
  using assms
proof (induction cs arbitrary: evs db)
  case Nil
  then show ?case by simp
next
  case (Cons c cs)
  let ?db1 = "updateTasks (\<lambda>r. t_ID r = t_ID c \<and> t_Status r = TaskWaiting)
      (\<lambda>r. r\<lparr>t_Status := TaskPending, t_Deadline := computeTaskDeadline env node\<rparr>) db"
  obtain evs1 where rec: "promoteChildren env inst node cs ?db1 = (evs1, db')"
    using Cons.prems(1) by (auto simp: Let_def split: prod.splits if_splits)
  have step: "tasks_only env iid db ?db1" using Cons.prems(3) by (intro promote_run) simp
  have "\<forall>c \<in> set cs. owned iid (t_ID c) ?db1"
    using owned_step[OF _ tasks_only_evolves[OF step] Cons.prems(2)] Cons.prems(3) by simp
  then have "tasks_only env iid ?db1 db'" using Cons.IH[OF rec tasks_only_wf[OF step Cons.prems(2)]] by blast
  with step show ?case by (rule tasks_only_trans)
qed

lemma activateParallelDependents_run:
  assumes run: "activateParallelDependents env inst node task db = Inr (evs, db')" and wf: "wf_store env db"
    and own: "owned iid (t_ID task) db" and par: "\<And>p. t_ParentTaskID task = Some p \<Longrightarrow> owned iid p db"
  shows "tasks_only env iid db db'"
proof -
  obtain evs1 db1 where first: "(case t_ParentTaskID task of
              Some p \<Rightarrow> (if t_AddAssigneeType task = Some AddAssigneeBefore
                 then reactivateBeforeParent env inst node p db else Inr ([], db))
            | None \<Rightarrow> Inr ([], db)) = Inr (evs1, db1)"
    and rest: "\<exists>evs2. activateAfterChildren env inst node (t_ID task) db1 = (evs2, db')"
    using run by (auto simp: activateParallelDependents_def Let_def split: prod.splits)
  have step: "tasks_only env iid db db1"
    using first par by (auto split: option.splits if_splits intro: reactivateBeforeParent_run)
  have wf1: "wf_store env db1" using tasks_only_wf[OF step wf] .
  have own1: "owned iid (t_ID task) db1" using owned_step[OF own tasks_only_evolves[OF step] wf] .
  have "tasks_only env iid db1 db'"
    using rest wf_child_owned[OF wf1 own1]
    by (auto simp: activateAfterChildren_def intro!: promoteChildren_run[OF _ wf1])
  with step show ?thesis by (rule tasks_only_trans)
qed

lemma ActivateDependentTasks_run:
  assumes "ActivateDependentTasks env inst node task db = Inr (evs, db')" and "wf_store env db"
    and "owned (i_ID inst) (t_ID task) db" and "\<And>p. t_ParentTaskID task = Some p \<Longrightarrow> owned (i_ID inst) p db"
  shows "tasks_only env (i_ID inst) db db'"
  using assms ActivateNextSequentialTask_run activateParallelDependents_run
  by (auto simp: ActivateDependentTasks_def split: if_splits)

section \<open>Cancellation\<close>

lemma cancelActiveTasks_run:
  assumes run: "cancelActiveTasks env inst reason flt db = (evs, db')" and wf: "wf_store env db"
    and flt: "\<And>t. flt t \<Longrightarrow> t_InstanceID t = iid"
  shows "tasks_only env iid db db'"
    and "(\<And>t. t \<in> set (db_tasks db) \<Longrightarrow> t_InstanceID t = iid \<Longrightarrow> cancelable (t_Status t) \<Longrightarrow> flt t) \<Longrightarrow> quiet iid db'"
proof -
  let ?ids = "map t_ID (filter flt (db_tasks db))"
  let ?P = "\<lambda>r. t_ID r \<in> set ?ids \<and> cancelable (t_Status r)"
  let ?f = "\<lambda>r. r\<lparr>t_Status := TaskCanceled, t_FinishedAt := Some (env_now env)\<rparr>"
  have own: "t_InstanceID r = iid" if r: "r \<in> set (db_tasks db)" and P: "?P r" for r
  proof -
    obtain t where "t \<in> set (db_tasks db)" "flt t" "t_ID r = t_ID t" using P by auto
    then show ?thesis using distinct_key_eq[OF wf_store_distinct(1)[OF wf] r] flt by auto
  qed
  have up: "db' = updateTasks ?P ?f db"
  proof (cases "filter flt (db_tasks db) = []")
    case True
    then have "updateWhere ?P ?f (db_tasks db) = db_tasks db" by (intro updateWhere_none) auto
    then have "updateTasks ?P ?f db = db" by (simp add: updateTasks_def)
    then show ?thesis using True run by (simp add: cancelActiveTasks_def)
  next
    case False
    then show ?thesis using run by (auto simp: cancelActiveTasks_def Let_def)
  qed
  show "tasks_only env iid db db'"
    unfolding up
  proof (rule tasks_only_updateTasks)
    fix t assume "t \<in> set (db_tasks db)" "?P t"
    then show "task_rel iid t (?f t)"
      using own by (intro task_rel_status[where s = TaskCanceled]) (auto simp: cancelable_def task_transitions)
  qed simp_all
  show "quiet iid db'" if all: "\<And>t. t \<in> set (db_tasks db) \<Longrightarrow> t_InstanceID t = iid \<Longrightarrow> cancelable (t_Status t) \<Longrightarrow> flt t"
    unfolding quiet_def up updateTasks_def
  proof (intro ballI impI)
    fix t' assume t': "t' \<in> set (db_tasks (db\<lparr>db_tasks := updateWhere ?P ?f (db_tasks db)\<rparr>))" and iid: "t_InstanceID t' = iid"
    from t' have "t' \<in> set (updateWhere ?P ?f (db_tasks db))" by simp
    then obtain t where t: "t \<in> set (db_tasks db)" "t' = (if ?P t then ?f t else t)" by (rule updateWhere_memE)
    show "\<not> cancelable (t_Status t')"
    proof (cases "?P t")
      case True
      then show ?thesis using t(2) by (simp add: cancelable_def)
    next
      case False
      then show ?thesis using t all[OF t(1)] iid by auto
    qed
  qed
qed

lemma CancelRemainingTasks_run:
  assumes "CancelRemainingTasks env inst node reason db = (evs, db')" and "wf_store env db"
    and "open_at (i_ID inst) (n_ID node) vid db"
  shows "tasks_only env (i_ID inst) db db'" "quiet (i_ID inst) db'"
  using cancelActiveTasks_run[OF assms(1)[unfolded CancelRemainingTasks_def] assms(2), of "i_ID inst"] assms(3)
  by (auto simp: open_at_def)

lemma CancelInstanceTasks_run:
  assumes "CancelInstanceTasks env inst reason db = (evs, db')" and "wf_store env db"
  shows "tasks_only env (i_ID inst) db db'" "quiet (i_ID inst) db'"
  using cancelActiveTasks_run[OF assms(1)[unfolded CancelInstanceTasks_def] assms(2), of "i_ID inst"]
  by auto

section \<open>Settling a node\<close>

text \<open>An instance that is being worked on at a node.\<close>

definition at_node :: "env \<Rightarrow> Instance \<Rightarrow> string \<Rightarrow> db \<Rightarrow> bool" where
  "at_node env inst nid db \<longleftrightarrow> wf_store env db \<and> mirrors inst db \<and> i_Status inst = InstanceRunning
     \<and> settled (i_ID inst) db \<and> running_at (i_ID inst) (Some nid) db"

lemma running_at_tasks_only:
  "tasks_only env iid db db' \<Longrightarrow> wf_store env db \<Longrightarrow> running_at iid c db \<Longrightarrow> running_at iid c db'"
  unfolding running_at_def tasks_only_def node_local_def by metis

lemma at_node_tasks_only:
  assumes "at_node env inst nid db" and "tasks_only env (i_ID inst) db db'"
  shows "at_node env inst nid db'"
proof -
  have wf: "wf_store env db" and m: "mirrors inst db" and st: "i_Status inst = InstanceRunning"
    and se: "settled (i_ID inst) db" and ra: "running_at (i_ID inst) (Some nid) db"
    using assms(1) by (auto simp: at_node_def)
  have eq: "db_instances db' = db_instances db" using tasks_only_sel[OF assms(2)] by simp
  have "settled (i_ID inst) db'"
    unfolding settled_def eq
    using se mirrors_row(1)[OF wf m] st running_at_tasks_only[OF assms(2) wf] by (auto simp: settled_def)
  then show ?thesis
    using tasks_only_wf[OF assms(2) wf] m st running_at_tasks_only[OF assms(2) wf ra] mirrors_cong[OF eq]
    by (simp add: at_node_def)
qed

lemma ConcludeActiveNodeVisit_run:
  assumes "ConcludeActiveNodeVisit env iid nid st db = Inr db'" and "st \<noteq> NodeVisitActive"
    and "running_at iid (Some nid) db"
  shows "evolves env iid db db'" "idle iid db'" "db_tasks db' = db_tasks db" "db_instances db' = db_instances db"
proof -
  let ?f = "\<lambda>v. v\<lparr>v_Status := st, v_FinishedAt := Some (env_now env)\<rparr>"
  have db': "db' = updateVisits (activeVisitOf iid nid) ?f db"
    using assms(1) by (auto simp: ConcludeActiveNodeVisit_def split: if_splits)
  show "evolves env iid db db'"
    unfolding db' by (intro evolves_updateVisits) (auto simp: activeVisitOf_def visit_rel_def)
  show "idle iid db'"
    unfolding idle_def db'
  proof
    fix w assume "w \<in> set (db_visits (updateVisits (activeVisitOf iid nid) ?f db))"
    then have "w \<in> set (updateWhere (activeVisitOf iid nid) ?f (db_visits db))" by simp
    then obtain v where v: "v \<in> set (db_visits db)" "w = (if activeVisitOf iid nid v then ?f v else v)"
      by (rule updateWhere_memE)
    show "\<not> active_of iid w"
      using v assms(2,3) by (cases "activeVisitOf iid nid v") (auto simp: active_of_def activeVisitOf_def running_at_def)
  qed
  show "db_tasks db' = db_tasks db" "db_instances db' = db_instances db" by (simp_all add: db')
qed

lemma TriggerNodeCC_run:
  assumes "TriggerNodeCC env inst node c db = Inr db'"
  shows "tasks_only env (i_ID inst) db db'"
proof -
  have cc: "tasks_only env iid db db1" if "InsertAutoCCRecords env iid n v us infos db = (ids, db1)" for iid n v us infos ids db1
    using node_local_ccs[OF that[unfolded InsertAutoCCRecords_def]] by (auto simp: tasks_only_def open_at_def)
  show ?thesis
    using assms cc tasks_only_trans[OF _ tasks_only_emit]
    by (auto simp: TriggerNodeCC_def Let_def split: if_splits prod.splits)
qed

lemma quiet_emit [simp]: "quiet iid (EmitEvents evs db) = quiet iid db"
  by (simp add: quiet_def)

text \<open>The common part of both outcomes: the node is closed and its tasks are cancelled.\<close>

lemma close_node_run:
  assumes at: "at_node env inst (n_ID node) db" and cc: "TriggerNodeCC env inst node c db = Inr db1"
    and can: "CancelRemainingTasks env inst node reason db1 = (evs, db2)"
    and con: "ConcludeActiveNodeVisit env (i_ID inst) (n_ID node) st (EmitEvents evs db2) = Inr db4"
    and st: "st \<noteq> NodeVisitActive"
  shows "evolves env (i_ID inst) db db4" "enterable env inst db4"
proof -
  let ?iid = "i_ID inst"
  have t1: "tasks_only env ?iid db db1" using TriggerNodeCC_run[OF cc] .
  have at1: "at_node env inst (n_ID node) db1" using at_node_tasks_only[OF at t1] .
  then obtain vid where "open_at ?iid (n_ID node) vid db1" by (auto simp: at_node_def running_at_def)
  note can' = CancelRemainingTasks_run[OF can _ this]
  have t2: "tasks_only env ?iid db1 db2" and q: "quiet ?iid db2" using can' at1 by (auto simp: at_node_def)
  have t3: "tasks_only env ?iid db (EmitEvents evs db2)"
    using tasks_only_trans[OF tasks_only_trans[OF t1 t2] tasks_only_emit] .
  have at3: "at_node env inst (n_ID node) (EmitEvents evs db2)" using at_node_tasks_only[OF at t3] .
  note con' = ConcludeActiveNodeVisit_run[OF con st]
  have ra: "running_at ?iid (Some (n_ID node)) (EmitEvents evs db2)" using at3 by (simp add: at_node_def)
  have e4: "evolves env ?iid (EmitEvents evs db2) db4" using con'(1)[OF ra] .
  show "evolves env ?iid db db4" using evolves_trans[OF tasks_only_evolves[OF t3] e4] .
  show "enterable env inst db4"
    using con'(2-4)[OF ra] evolves_fresh[OF e4] at3 q mirrors_cong[of db4 "EmitEvents evs db2"]
    by (auto simp: enterable_def at_node_def quiet_def)
qed

lemma HandleNodeCompletion_left:
  assumes at: "at_node env inst (n_ID node) db" and run: "HandleNodeCompletion env inst node db = Inr (evs, inst', db')"
  shows "left_by env inst db inst' db'"
proof -
  obtain c where c: "EvaluateNodeCompletion env inst node db = Inr c"
    using run by (auto simp: HandleNodeCompletion_def)
  show ?thesis
  proof (cases c)
    case PassRulePending
    then show ?thesis using run c at by (auto simp: HandleNodeCompletion_def left_by_def at_node_def)
  next
    case PassRulePassed
    then obtain db1 ce db2 db4 where s: "TriggerNodeCC env inst node PassRulePassed db = Inr db1"
      "CancelRemainingTasks env inst node reasonNodePassed db1 = (ce, db2)"
      "ConcludeActiveNodeVisit env (i_ID inst) (n_ID node) NodeVisitPassed (EmitEvents ce db2) = Inr db4"
      "AdvanceToNextNode env inst node None db4 = Inr (inst', db')"
      using run c by (auto simp: HandleNodeCompletion_def Let_def split: prod.splits)
    note cl = close_node_run[OF at s(1-3)]
    show ?thesis using left_by_prefix[OF cl(1) AdvanceToNextNode_left[OF s(4) cl(2)]] by simp
  next
    case PassRuleRejected
    then obtain db1 ce db2 db4 db5 where s: "TriggerNodeCC env inst node PassRuleRejected db = Inr db1"
      "CancelRemainingTasks env inst node reasonNodeRejected db1 = (ce, db2)"
      "ConcludeActiveNodeVisit env (i_ID inst) (n_ID node) NodeVisitRejected (EmitEvents ce db2) = Inr db4"
      "ApplyInstanceTransitionWithHooks env (inst\<lparr>i_FinishedAt := Some (env_now env)\<rparr>) InstanceRejected
          [ColFinishedAt] db4 = Inr (inst', db5)"
      "db' = EmitEvents [InstanceCompletedEvent inst' InstanceRejected None] db5"
      using run c by (auto simp: HandleNodeCompletion_def Let_def split: prod.splits)
    note cl = close_node_run[OF at s(1-3)]
    have "left_by env (inst\<lparr>i_FinishedAt := Some (env_now env)\<rparr>) db4 inst' db5"
      by (rule complete_left[OF _ _ _ _ _ s(4)]) (use cl(2) in \<open>auto simp: enterable_def mirrors_def\<close>)
    from left_by_prefix[OF cl(1) this] have "left_by env inst db inst' db5" by simp
    then show ?thesis unfolding s(5) by (rule left_by_emit)
  qed
qed

end
