(* ===== verification/Start_Instance.thy ===== *)
theory Start_Instance
  imports Node_Service
begin

text \<open>
  Starting an instance: \<^verbatim>\<open>command/start_instance.go\<close>, \<^verbatim>\<open>service/start_flow.go\<close>, the initiation check
  of \<^verbatim>\<open>service/validation.go\<close> and \<^verbatim>\<open>strategy/initiator.go\<close>.
\<close>

section \<open>Which flow a code names\<close>

fun startFlowLoop :: "string \<Rightarrow> Flow list \<Rightarrow> Flow option \<Rightarrow> Flow option" where
  "startFlowLoop tenantID [] sharedFlow = sharedFlow"
| "startFlowLoop tenantID (f # fs) sharedFlow =
     (if fl_TenantID f = tenantID then Some f else startFlowLoop tenantID fs (Some f))"

definition FindStartFlow :: "string \<Rightarrow> string \<Rightarrow> db \<Rightarrow> error + Flow" where
  "FindStartFlow tenantID code db =
     ofOption ErrFlowNotFound (startFlowLoop tenantID
       (filter (\<lambda>f. fl_Code f = code \<and> (fl_TenantID f = tenantID \<or> fl_IsShared f)) (db_flows db)) None)"

section \<open>Who may start it\<close>

fun PermitsAny :: "env \<Rightarrow> FlowInitiator list \<Rightarrow> InitiatorResolveContext \<Rightarrow> error + bool" where
  "PermitsAny env [] rc = Inr False"
| "PermitsAny env (i # is) rc =
     bindE (ofOption ErrInitiatorResolverNotFound (env_initiator_resolvers env (fi_Kind i))) (\<lambda>permits.
     bindE (permits i rc) (\<lambda>ok. if ok then Inr True else PermitsAny env is rc))"

fun InitiableFlowIDs :: "env \<Rightarrow> Flow list \<Rightarrow> string \<Rightarrow> UserInfo \<Rightarrow> db \<Rightarrow> error + string list" where
  "InitiableFlowIDs env [] tenantID applicant db = Inr []"
| "InitiableFlowIDs env (f # fs) tenantID applicant db =
     bindE (if fl_IsAllInitiationAllowed f then Inr True
            else
              let rules = filter (\<lambda>i. fi_FlowID i = fl_ID f) (db_initiators db)
              in if rules = [] then Inr False
                 else PermitsAny env rules
                   \<lparr>irc_FlowID = fl_ID f, irc_TenantID = tenantID, irc_Applicant = applicant\<rparr>) (\<lambda>admitted.
     bindE (InitiableFlowIDs env fs tenantID applicant db) (\<lambda>rest.
       Inr (if admitted then fl_ID f # rest else rest)))"

definition CheckInitiationPermission :: "env \<Rightarrow> Flow \<Rightarrow> string \<Rightarrow> UserInfo \<Rightarrow> db \<Rightarrow> error + bool" where
  "CheckInitiationPermission env flow tenantID applicant db =
     bindE (InitiableFlowIDs env [flow] tenantID applicant db) (\<lambda>ids. Inr (ids \<noteq> []))"

section \<open>The handler\<close>

definition instanceTitleMaxRunes :: nat where
  "instanceTitleMaxRunes = 256"

definition renderInstanceTitle :: "env \<Rightarrow> Flow \<Rightarrow> string \<Rightarrow> FormData \<Rightarrow> UserInfo \<Rightarrow> error + string" where
  "renderInstanceTitle env flow instanceNo formData applicant =
     (if fl_InstanceTitleTemplate flow = []
      then Inr (truncateRunes (fl_Name flow @ ''-'' @ instanceNo) instanceTitleMaxRunes)
      else bindE (env_execute_template env (fl_InstanceTitleTemplate flow) flow instanceNo formData applicant) (\<lambda>text.
        Inr (truncateRunes text instanceTitleMaxRunes)))"

record StartInstanceCmd =
  si_TenantID :: string
  si_FlowCode :: string
  si_Applicant :: UserInfo
  si_BusinessRef :: "string option"
  si_FormData :: FormData
  si_Globals :: FormData
  si_Caller :: CallerContext

text \<open>The claim of the business record, when the version is bound to one.\<close>

definition bindBusiness :: "env \<Rightarrow> Flow \<Rightarrow> FlowVersion \<Rightarrow> Instance \<Rightarrow> db \<Rightarrow> error + (Instance \<times> db)" where
  "bindBusiness env flow version inst db =
     (if fv_BusinessBinding version = None then Inr (inst, db)
      else bindE (env_business_ref env db flow version inst) (\<lambda>businessRef.
        let trimmed = trimSpace businessRef;
            allocated = trimmed \<noteq> [] \<and> (case i_BusinessRef inst of None \<Rightarrow> True | Some r \<Rightarrow> trimSpace r = []);
            inst1 = (if allocated then inst\<lparr>i_BusinessRef := Some trimmed\<rparr> else inst);
            db1 = (if allocated then updateInstances (\<lambda>r. i_ID r = i_ID inst)
                     (\<lambda>r. r\<lparr>i_BusinessRef := Some trimmed\<rparr>) db else db)
        in case env_bind_projection env of
             None \<Rightarrow> Inr (inst1, db1)
           | Some bind \<Rightarrow> bindE (bind db1 flow version inst1) (\<lambda>projectionID.
               Inr (inst1\<lparr>i_BusinessProjectionID := Some projectionID\<rparr>,
                    updateInstances (\<lambda>r. i_ID r = i_ID inst)
                      (\<lambda>r. r\<lparr>i_BusinessProjectionID := Some projectionID\<rparr>) db1))))"

definition StartInstance_Handle :: "env \<Rightarrow> StartInstanceCmd \<Rightarrow> db \<Rightarrow> error + (Instance \<times> db)" where
  "StartInstance_Handle env cmd db =
     bindE (case ResolveWriteTenant (si_Caller cmd) (si_TenantID cmd) of
              Inr t \<Rightarrow> Inr t | Inl _ \<Rightarrow> Inl ErrFlowNotFound) (\<lambda>tenantID.
     bindE (FindStartFlow tenantID (si_FlowCode cmd) db) (\<lambda>flow.
     bindE (ensure (fl_IsActive flow) ErrFlowNotActive) (\<lambda>_.
     bindE (CheckInitiationPermission env flow tenantID (si_Applicant cmd) db) (\<lambda>allowed.
     bindE (ensure allowed ErrNotAllowedInitiate) (\<lambda>_.
     bindE (ofOption ErrNoPublishedVersion
              (find (\<lambda>v. fv_FlowID v = fl_ID flow \<and> fv_Status v = VersionPublished) (db_versions db))) (\<lambda>version.
     bindE (ValidateFormData env (fv_FormFields version) (si_FormData cmd)) (\<lambda>_.
     bindE (env_instance_no env tenantID (fl_Code flow)) (\<lambda>instanceNo.
     bindE (renderInstanceTitle env flow instanceNo (si_FormData cmd) (si_Applicant cmd)) (\<lambda>title.
     let (inst0, db1) = insertInstance env
           \<lparr>i_ID = [], i_TenantID = tenantID, i_FlowID = fl_ID flow, i_FlowCode = fl_Code flow,
            i_FlowVersionID = fv_ID version, i_Title = title, i_InstanceNo = instanceNo,
            i_Applicant = si_Applicant cmd, i_Status = InstanceRunning, i_CurrentNodeID = None,
            i_FinishedAt = None, i_BusinessRef = si_BusinessRef cmd, i_FormData = si_FormData cmd,
            i_Globals = si_Globals cmd, i_BusinessProjectionID = None\<rparr> db
     in bindE (bindBusiness env flow version inst0 db1) (\<lambda>(inst, db2).
     bindE (syncProjection env inst db2) (\<lambda>db2'.
     let db3 = addLog env (NewActionLog (si_Applicant cmd) (i_ID inst) ActionSubmit) db2'
     in bindE (ofErr (env_on_created env db3 inst)) (\<lambda>_.
     let db4 = EmitEvents [InstanceCreatedEvent inst] db3
     in StartProcess env inst db4))))))))))))"

end
