(* ===== verification/Timeout_Scanner.thy ===== *)
theory Timeout_Scanner
  imports Approval_Commands
begin

text \<open>
  \<^verbatim>\<open>internal/approval/timeout/scanner.go\<close>: the background pass over overdue tasks and over tasks
  close to their deadline.  Every task is processed in a transaction of its own, so a failure
  leaves the store as it was and the pass goes on with the next task.
\<close>

section \<open>The configured action\<close>

definition opinionTimeoutReject :: string where
  "opinionTimeoutReject =
     [CHR 0xE4, CHR 0xBB, CHR 0xBB, CHR 0xE5, CHR 0x8A, CHR 0xA1, CHR 0xE5, CHR 0xA4, CHR 0x84,
      CHR 0xE7, CHR 0x90, CHR 0x86, CHR 0xE8, CHR 0xB6, CHR 0x85, CHR 0xE6, CHR 0x97, CHR 0xB6,
      CHR 0xEF, CHR 0xBC, CHR 0x8C, CHR 0xE7, CHR 0xB3, CHR 0xBB, CHR 0xE7, CHR 0xBB, CHR 0x9F,
      CHR 0xE8, CHR 0x87, CHR 0xAA, CHR 0xE5, CHR 0x8A, CHR 0xA8, CHR 0xE9, CHR 0xA9, CHR 0xB3,
      CHR 0xE5, CHR 0x9B, CHR 0x9E]"

definition opinionTimeoutHandle :: string where
  "opinionTimeoutHandle =
     [CHR 0xE4, CHR 0xBB, CHR 0xBB, CHR 0xE5, CHR 0x8A, CHR 0xA1, CHR 0xE5, CHR 0xA4, CHR 0x84,
      CHR 0xE7, CHR 0x90, CHR 0x86, CHR 0xE8, CHR 0xB6, CHR 0x85, CHR 0xE6, CHR 0x97, CHR 0xB6,
      CHR 0xEF, CHR 0xBC, CHR 0x8C, CHR 0xE7, CHR 0xB3, CHR 0xBB, CHR 0xE7, CHR 0xBB, CHR 0x9F,
      CHR 0xE8, CHR 0x87, CHR 0xAA, CHR 0xE5, CHR 0x8A, CHR 0xA8, CHR 0xE5, CHR 0x8A, CHR 0x9E,
      CHR 0xE7, CHR 0xBB, CHR 0x93]"

definition opinionTimeoutPass :: string where
  "opinionTimeoutPass =
     [CHR 0xE4, CHR 0xBB, CHR 0xBB, CHR 0xE5, CHR 0x8A, CHR 0xA1, CHR 0xE5, CHR 0xA4, CHR 0x84,
      CHR 0xE7, CHR 0x90, CHR 0x86, CHR 0xE8, CHR 0xB6, CHR 0x85, CHR 0xE6, CHR 0x97, CHR 0xB6,
      CHR 0xEF, CHR 0xBC, CHR 0x8C, CHR 0xE7, CHR 0xB3, CHR 0xBB, CHR 0xE7, CHR 0xBB, CHR 0x9F,
      CHR 0xE8, CHR 0x87, CHR 0xAA, CHR 0xE5, CHR 0x8A, CHR 0xA8, CHR 0xE9, CHR 0x80, CHR 0x9A,
      CHR 0xE8, CHR 0xBF, CHR 0x87]"

definition opinionTimeoutTransfer :: string where
  "opinionTimeoutTransfer =
     [CHR 0xE4, CHR 0xBB, CHR 0xBB, CHR 0xE5, CHR 0x8A, CHR 0xA1, CHR 0xE5, CHR 0xA4, CHR 0x84,
      CHR 0xE7, CHR 0x90, CHR 0x86, CHR 0xE8, CHR 0xB6, CHR 0x85, CHR 0xE6, CHR 0x97, CHR 0xB6,
      CHR 0xEF, CHR 0xBC, CHR 0x8C, CHR 0xE7, CHR 0xB3, CHR 0xBB, CHR 0xE7, CHR 0xBB, CHR 0x9F,
      CHR 0xE8, CHR 0x87, CHR 0xAA, CHR 0xE5, CHR 0x8A, CHR 0xA8, CHR 0xE8, CHR 0xBD, CHR 0xAC,
      CHR 0xE4, CHR 0xBA, CHR 0xA4, CHR 0xE7, CHR 0xAE, CHR 0xA1, CHR 0xE7, CHR 0x90, CHR 0x86,
      CHR 0xE5, CHR 0x91, CHR 0x98]"

record timeoutResolution =
  tr_status :: TaskStatus
  tr_action :: ActionType
  tr_opinion :: string
  tr_newEvent :: "Instance \<Rightarrow> Task \<Rightarrow> FlowNode \<Rightarrow> string \<Rightarrow> DomainEvent"

definition resolveTimeoutCompletion :: "FlowNode \<Rightarrow> bool \<Rightarrow> timeoutResolution" where
  "resolveTimeoutCompletion node autoApprove =
     (if \<not> autoApprove then
        \<lparr>tr_status = TaskRejected, tr_action = ActionReject, tr_opinion = opinionTimeoutReject,
         tr_newEvent = (\<lambda>inst task node opinion. TaskRejectedEvent inst task node SystemOperator opinion)\<rparr>
      else if n_Kind node = NodeHandle then
        \<lparr>tr_status = TaskHandled, tr_action = ActionHandle, tr_opinion = opinionTimeoutHandle,
         tr_newEvent = (\<lambda>inst task node opinion. TaskHandledEvent inst task node SystemOperator opinion)\<rparr>
      else
        \<lparr>tr_status = TaskApproved, tr_action = ActionApprove, tr_opinion = opinionTimeoutPass,
         tr_newEvent = (\<lambda>inst task node opinion. TaskApprovedEvent inst task node SystemOperator opinion)\<rparr>)"

definition recordTimeoutNotify :: "Task \<Rightarrow> Instance \<Rightarrow> FlowNode \<Rightarrow> error + DomainEvent list" where
  "recordTimeoutNotify task inst node =
     (if t_Deadline task = None then Inl ErrNilDeadline else Inr [TaskTimedOutEvent inst task node])"

definition autoFinishTask ::
    "env \<Rightarrow> Task \<Rightarrow> Instance \<Rightarrow> FlowNode \<Rightarrow> bool \<Rightarrow> db \<Rightarrow> error + (DomainEvent list \<times> db)" where
  "autoFinishTask env task0 inst node autoApprove db =
     (let resolution = resolveTimeoutCompletion node autoApprove
      in bindE (FinishTask env task0 (tr_status resolution) db) (\<lambda>(task, db1).
        let db2 = EmitEvents [tr_newEvent resolution inst task node (tr_opinion resolution)] db1
        in bindE (ActivateDependentTasks env inst node task db2) (\<lambda>(activationEvents0, db3).
        let (decisionEvents, activationEvents) = SplitQueueAdvanceDecisions activationEvents0
        in bindE (HandleNodeCompletion env inst node (EmitEvents decisionEvents db3))
          (\<lambda>(completionEvents, inst', db4).
        Inr (SuppressSupersededActivations activationEvents completionEvents,
             addLog env ((NewActionLog SystemOperator (t_InstanceID task) (tr_action resolution))
               \<lparr>l_NodeID := Some (t_NodeID task), l_TaskID := Some (t_ID task),
                l_Opinion := Some (tr_opinion resolution)\<rparr>) db4)))))"

definition adminTask :: "env \<Rightarrow> Task \<Rightarrow> FlowNode \<Rightarrow> UserInfo \<Rightarrow> Task" where
  "adminTask env task node admin =
     \<lparr>t_ID = [], t_TenantID = t_TenantID task, t_InstanceID = t_InstanceID task, t_NodeID = t_NodeID task,
      t_VisitID = t_VisitID task, t_Assignee = admin, t_Delegator = None, t_SortOrder = t_SortOrder task,
      t_Status = TaskPending, t_ReadAt = None, t_ParentTaskID = t_ParentTaskID task,
      t_AddAssigneeType = t_AddAssigneeType task, t_Deadline = ComputeTaskDeadline env (n_TimeoutHours node),
      t_IsTimeout = False, t_IsPreWarningSent = False, t_FinishedAt = None\<rparr>"

text \<open>One replacement task per admin, with its events and its audit row; also the ids inserted.\<close>

fun createAdminTasks ::
    "env \<Rightarrow> Task \<Rightarrow> Instance \<Rightarrow> FlowNode \<Rightarrow> (string \<rightharpoonup> UserInfo) \<Rightarrow> string list \<Rightarrow> db \<Rightarrow> DomainEvent list \<times> string list \<times> db" where
  "createAdminTasks env task inst node infos [] db = ([], [], db)"
| "createAdminTasks env task inst node infos (adminID # adminIDs) db =
     (let admin = infoOf infos adminID;
          (newTask, db1) = insertTask env (adminTask env task node admin) db;
          db2 = addLog env ((NewActionLog SystemOperator (t_InstanceID task) ActionTransfer)
                  \<lparr>l_NodeID := Some (t_NodeID task), l_TaskID := Some (t_ID task),
                   l_TransferTo := Some admin, l_Opinion := Some opinionTimeoutTransfer\<rparr>) db1;
          (evs, ids, db3) = createAdminTasks env task inst node infos adminIDs db2
      in ([TaskTransferredEvent inst task node (t_Assignee task) admin opinionTimeoutTransfer,
           TaskCreatedEvent inst newTask node,
           TaskActivatedEvent inst newTask node TaskActivationTransferred] @ evs, t_ID newTask # ids, db3))"

definition eligibleAdmins :: "Task \<Rightarrow> FlowNode \<Rightarrow> db \<Rightarrow> string list" where
  "eligibleAdmins task node db =
     filter (\<lambda>uid. \<not> list_ex (\<lambda>t. t_InstanceID t = t_InstanceID task \<and> t_NodeID t = t_NodeID task
         \<and> (t_Status t = TaskPending \<or> t_Status t = TaskWaiting) \<and> t_AssigneeID t = uid) (db_tasks db))
       (NormalizeUniqueIDs (n_AdminUserIDs node))"

definition transferToAdmin ::
    "env \<Rightarrow> Task \<Rightarrow> Instance \<Rightarrow> FlowNode \<Rightarrow> db \<Rightarrow> error + (DomainEvent list \<times> db)" where
  "transferToAdmin env task0 inst node db =
     (let eligible = eligibleAdmins task0 node db
      in if eligible = [] then bindE (recordTimeoutNotify task0 inst node) (\<lambda>evs. Inr (evs, db))
      else bindE (FinishTask env task0 TaskTransferred db) (\<lambda>(task, db1).
        let infos = ResolveUserInfoMapSilent env eligible;
            (evs, ids, db2) = createAdminTasks env task inst node infos eligible db1
        in Inr (evs, RepointAddAssigneeChildren (t_ID task) (hd ids) (t_InstanceID task) db2)))"

definition executeTimeoutAction ::
    "env \<Rightarrow> Task \<Rightarrow> Instance \<Rightarrow> FlowNode \<Rightarrow> db \<Rightarrow> error + (DomainEvent list \<times> db)" where
  "executeTimeoutAction env task inst node db =
     (case n_TimeoutAction node of
        TimeoutActionNotify \<Rightarrow> bindE (recordTimeoutNotify task inst node) (\<lambda>evs. Inr (evs, db))
      | TimeoutActionAutoPass \<Rightarrow> autoFinishTask env task inst node True db
      | TimeoutActionAutoReject \<Rightarrow> autoFinishTask env task inst node False db
      | TimeoutActionTransferAdmin \<Rightarrow> transferToAdmin env task inst node db
      | _ \<Rightarrow> Inr ([], db))"

section \<open>The passes\<close>

definition processTimeout :: "env \<Rightarrow> Task \<Rightarrow> db \<Rightarrow> error + db" where
  "processTimeout env task db =
     bindE (ofOption ErrRecordNotFound (findInstance (t_InstanceID task) db)) (\<lambda>inst.
     bindE (ofOption ErrRecordNotFound (findTask (t_ID task) db)) (\<lambda>freshTask.
       if t_IsTimeout freshTask then Inr db
       else if t_Status freshTask \<noteq> TaskPending then Inr db
       else
         bindE (ofOption ErrRecordNotFound (findNode (t_NodeID freshTask) db)) (\<lambda>node.
           let db1 = updateTasks (\<lambda>r. t_ID r = t_ID freshTask) (\<lambda>r. r\<lparr>t_IsTimeout := True\<rparr>) db
           in bindE (executeTimeoutAction env (freshTask\<lparr>t_IsTimeout := True\<rparr>) inst node db1) (\<lambda>(evs, db2).
             Inr (EmitEvents evs db2)))))"

definition scanBatchSize :: nat where
  "scanBatchSize = 500"

definition timedOutTasks :: "env \<Rightarrow> db \<Rightarrow> Task list" where
  "timedOutTasks env db =
     take scanBatchSize (filter (\<lambda>t. t_Status t = TaskPending
       \<and> (case t_Deadline t of None \<Rightarrow> False | Some d \<Rightarrow> d < env_now env) \<and> \<not> t_IsTimeout t) (db_tasks db))"

text \<open>One batch: the number of tasks processed without an error and the store after it.\<close>

fun processBatch :: "(Task \<Rightarrow> db \<Rightarrow> error + db) \<Rightarrow> Task list \<Rightarrow> db \<Rightarrow> nat \<times> db" where
  "processBatch p [] db = (0, db)"
| "processBatch p (t # ts) db =
     (case p t db of
        Inl e \<Rightarrow> processBatch p ts db
      | Inr db1 \<Rightarrow> (let (n, db2) = processBatch p ts db1 in (Suc n, db2)))"

partial_function (option) ScanTimeouts :: "env \<Rightarrow> db \<Rightarrow> db option" where
  "ScanTimeouts env db =
     (let tasks = timedOutTasks env db
      in if tasks = [] then Some db
      else let (succeeded, db1) = processBatch (processTimeout env) tasks db
           in if succeeded = 0 \<or> length tasks < scanBatchSize then Some db1
           else ScanTimeouts env db1)"

definition preWarningTasks :: "env \<Rightarrow> db \<Rightarrow> Task list" where
  "preWarningTasks env db =
     take scanBatchSize (filter (\<lambda>t. t_Status t = TaskPending \<and> \<not> t_IsTimeout t \<and> \<not> t_IsPreWarningSent t
       \<and> (case (t_Deadline t, findNode (t_NodeID t) db) of
            (Some d, Some n) \<Rightarrow> n_TimeoutNotifyBeforeHours n > 0
              \<and> d \<le> env_now env + n_TimeoutNotifyBeforeHours n * 3600
          | _ \<Rightarrow> False)) (db_tasks db))"

definition hoursUntil :: "env \<Rightarrow> DateTime \<Rightarrow> int" where
  "hoursUntil env deadline = max ((deadline - env_now env) div 3600) 0"

definition sendPreWarning :: "env \<Rightarrow> Task \<Rightarrow> int \<Rightarrow> db \<Rightarrow> error + db" where
  "sendPreWarning env task hoursLeft db =
     (let whereClause = (\<lambda>r. t_ID r = t_ID task \<and> \<not> t_IsPreWarningSent r)
      in if affected whereClause (db_tasks db) = 0 then Inr db
      else
        let db1 = updateTasks whereClause (\<lambda>r. r\<lparr>t_IsPreWarningSent := True\<rparr>) db
        in bindE (ofOption ErrRecordNotFound (findInstance (t_InstanceID task) db1)) (\<lambda>inst.
           bindE (ofOption ErrRecordNotFound (findNode (t_NodeID task) db1)) (\<lambda>node.
             Inr (EmitEvents [TaskDeadlineWarningEvent inst (task\<lparr>t_IsPreWarningSent := True\<rparr>)
                (zeroFlowNode\<lparr>n_ID := t_NodeID task, n_Name := n_Name node\<rparr>) hoursLeft] db1))))"

text \<open>The body of the loop for one task; a task without a deadline is skipped and not counted.\<close>

definition preWarnOne :: "env \<Rightarrow> Task \<Rightarrow> db \<Rightarrow> error + db" where
  "preWarnOne env task db =
     (case t_Deadline task of
        None \<Rightarrow> Inl ErrNilDeadline
      | Some deadline \<Rightarrow> sendPreWarning env task (hoursUntil env deadline) db)"

partial_function (option) ScanPreWarnings :: "env \<Rightarrow> db \<Rightarrow> db option" where
  "ScanPreWarnings env db =
     (let tasks = preWarningTasks env db
      in if tasks = [] then Some db
      else let (succeeded, db1) = processBatch (preWarnOne env) tasks db
           in if succeeded = 0 \<or> length tasks < scanBatchSize then Some db1
           else ScanPreWarnings env db1)"

end
