(* ===== verification/Command_Invariants.thy ===== *)
theory Command_Invariants
  imports Service_Invariants Start_Instance Timeout_Scanner
begin

text \<open>
  Every command handler keeps the contract of the store and the consistency of its instance.
  \<open>commits env iid db db'\<close> is the statement proved of each handler: started on a well-formed
  store in which the instance \<open>iid\<close> is consistent, it ends in such a store, every row of another
  instance is untouched, and the rows of \<open>iid\<close> moved along their state machines.
\<close>

section \<open>Committed steps\<close>

definition commits :: "env \<Rightarrow> string \<Rightarrow> db \<Rightarrow> db \<Rightarrow> bool" where
  "commits env iid db db' \<longleftrightarrow> (wf_store env db \<longrightarrow> settled iid db \<longrightarrow>
     wf_store env db' \<and> store_step iid db db' \<and> settled iid db')"

lemma commits_refl [simp]: "commits env iid db db"
  by (simp add: commits_def)

lemma commits_trans [trans]: "commits env iid a b \<Longrightarrow> commits env iid b c \<Longrightarrow> commits env iid a c"
  unfolding commits_def using store_step_trans by blast

lemma commitsI: "evolves env iid db db' \<Longrightarrow> (wf_store env db \<Longrightarrow> settled iid db \<Longrightarrow> settled iid db') \<Longrightarrow> commits env iid db db'"
  by (auto simp: commits_def evolves_def)

lemma commits_left: "left_by env inst db inst' db' \<Longrightarrow> commits env (i_ID inst) db db'"
  by (auto simp: left_by_def intro: commitsI)

lemma commits_ctx:
  "(wf_store env db \<Longrightarrow> settled iid db \<Longrightarrow> commits env iid db db') \<Longrightarrow> commits env iid db db'"
  by (auto simp: commits_def)

lemma quiet_iff_open_at: "quiet iid db \<longleftrightarrow> (\<forall>nid vid. open_at iid nid vid db)"
proof
  assume all: "\<forall>nid vid. open_at iid nid vid db"
  have "open_at iid ''a'' [] db" "open_at iid [] [] db" using all by blast+
  then show "quiet iid db" by (fastforce simp: quiet_def open_at_def)
qed (simp add: quiet_open_at)

lemma settled_tasks_only:
  assumes "tasks_only env iid db db'" and "wf_store env db" and "settled iid db"
  shows "settled iid db'"
proof -
  have q: "quiet iid db \<Longrightarrow> quiet iid db'"
    using assms(1,2) unfolding quiet_iff_open_at tasks_only_def by blast
  have "idle iid db' = idle iid db" using tasks_only_sel[OF assms(1)] by (simp add: idle_def)
  with q show ?thesis
    using assms(3) tasks_only_sel[OF assms(1)] running_at_tasks_only[OF assms(1,2)] by (auto simp: settled_def)
qed

lemma commits_tasks_only: "tasks_only env iid db db' \<Longrightarrow> commits env iid db db'"
  by (auto intro: commitsI settled_tasks_only tasks_only_evolves)

lemma commits_emit [simp]: "commits env iid db (EmitEvents evs db)"
  by (rule commits_tasks_only) simp

lemma commits_log [simp]: "commits env iid db (addLog env' l db)"
  by (rule commits_tasks_only) simp

text \<open>Appending to the audit log and the event stream after a committed step.\<close>

lemma commits_emit' [intro]: "commits env iid db db' \<Longrightarrow> commits env iid db (EmitEvents evs db')"
  using commits_trans commits_emit by blast

lemma commits_log' [intro]: "commits env iid db db' \<Longrightarrow> commits env iid db (addLog env' l db')"
  using commits_trans commits_log by blast

lemma settled_rows:
  assumes "settled iid db" and "db_tasks db' = db_tasks db" and "db_visits db' = db_visits db"
    and "\<And>r'. r' \<in> set (db_instances db') \<Longrightarrow> i_ID r' = iid \<Longrightarrow>
        \<exists>r \<in> set (db_instances db). i_ID r = iid \<and> i_Status r = i_Status r' \<and> i_CurrentNodeID r = i_CurrentNodeID r'"
  shows "settled iid db'"
  unfolding settled_def
proof (intro ballI impI)
  fix r' assume "r' \<in> set (db_instances db')" "i_ID r' = iid"
  from assms(4)[OF this] obtain r where "r \<in> set (db_instances db)" "i_ID r = iid" "i_Status r = i_Status r'"
    "i_CurrentNodeID r = i_CurrentNodeID r'" by blast
  with assms(1) have "if i_Status r' = InstanceRunning then running_at iid (i_CurrentNodeID r') db
      else idle iid db \<and> quiet iid db" unfolding settled_def by metis
  moreover have "running_at iid c db' = running_at iid c db" "idle iid db' = idle iid db" "quiet iid db' = quiet iid db" for c
    by (simp_all add: running_at_def open_at_def idle_def quiet_def assms(2,3))
  ultimately show "if i_Status r' = InstanceRunning then running_at iid (i_CurrentNodeID r') db'
      else idle iid db' \<and> quiet iid db'" by simp
qed

lemma commits_form: "commits env iid db (PersistInstanceFormData inst db)" if "i_ID inst = iid"
proof (rule commitsI)
  show "evolves env iid db (PersistInstanceFormData inst db)"
    unfolding PersistInstanceFormData_def using that
    by (intro evolves_updateInstances) (auto simp: instance_rel_def copyInstanceCols_status)
next
  assume "settled iid db"
  then show "settled iid (PersistInstanceFormData inst db)"
  proof (rule settled_rows)
    fix r' assume "r' \<in> set (db_instances (PersistInstanceFormData inst db))" and id': "i_ID r' = iid"
    then have "r' \<in> set (updateWhere (\<lambda>r. i_ID r = i_ID inst) (copyInstanceCols [ColFormData] inst) (db_instances db))"
      by (simp add: PersistInstanceFormData_def)
    then obtain r where "r \<in> set (db_instances db)"
      "r' = (if i_ID r = i_ID inst then copyInstanceCols [ColFormData] inst r else r)" by (rule updateWhere_memE)
    then show "\<exists>r \<in> set (db_instances db). i_ID r = iid \<and> i_Status r = i_Status r' \<and> i_CurrentNodeID r = i_CurrentNodeID r'"
      using id' by (intro bexI[of _ r]) (auto simp: copyInstanceCols_status copyInstanceCols_current)
  qed (simp_all add: PersistInstanceFormData_def)
qed

lemma evolves_reprojected: "reprojected db db' \<Longrightarrow> evolves env iid db db'"
proof -
  assume "reprojected db db'"
  then obtain p k where k: "db_next_id db \<le> k" and db': "db' = db\<lparr>db_physical := p, db_next_id := k\<rparr>"
    unfolding reprojected_def by blast
  have "used_ids db' = used_ids db" by (simp add: db' used_ids_def)
  then have "wf_store env db \<Longrightarrow> wf_store env db'" using k by (simp add: wf_store_def db')
  then show ?thesis by (simp add: evolves_def store_step_def same_config_def db')
qed

lemma tasks_only_reprojected: "reprojected db db' \<Longrightarrow> tasks_only env iid db db'"
  using evolves_reprojected[of db db'] reprojected_fields[of db db']
  by (simp add: tasks_only_def node_local_def open_at_def)

lemmas commits_reprojected = commits_tasks_only[OF tasks_only_reprojected]

section \<open>The context of an operation\<close>

lemma find_row: "find P xs = Some x \<Longrightarrow> x \<in> set xs \<and> P x"
  by (auto simp: find_Some_iff)

text \<open>The instance of a context is the stored row up to its form data.\<close>

definition ctx_ok :: "TaskContext \<Rightarrow> db \<Rightarrow> bool" where
  "ctx_ok tc db \<longleftrightarrow> tc_Task tc \<in> set (db_tasks db) \<and> t_InstanceID (tc_Task tc) = i_ID (tc_Instance tc)
     \<and> n_ID (tc_Node tc) = t_NodeID (tc_Task tc) \<and> tc_Node tc \<in> set (db_nodes db)
     \<and> i_Status (tc_Instance tc) = InstanceRunning
     \<and> (\<exists>r \<in> set (db_instances db). \<exists>d. tc_Instance tc = r\<lparr>i_FormData := d\<rparr>)"

lemma loadContext_run:
  assumes "loadContext tid opts db = Inr tc"
  shows "ctx_ok tc db" "t_ID (tc_Task tc) = tid"
    "lo_RequireTaskPending opts \<Longrightarrow> t_Status (tc_Task tc) = TaskPending"
    "lo_RequireOperatorAssignee opts \<Longrightarrow> t_AssigneeID (tc_Task tc) = lo_OperatorID opts"
    "lo_RequireCurrentNode opts \<Longrightarrow> i_CurrentNodeID (tc_Instance tc) = Some (t_NodeID (tc_Task tc))"
    "AllowsInstanceAccess (lo_Caller opts) (i_ID (tc_Instance tc)) (i_TenantID (tc_Instance tc)) (lo_OperatorID opts) db"
    "tc_Instance tc \<in> set (db_instances db)"
proof -
  obtain task inst node where s: "findTask tid db = Some task" "findInstance (t_InstanceID task) db = Some inst"
    "findNode (t_NodeID task) db = Some node" "i_Status inst = InstanceRunning"
    "tc = \<lparr>tc_Instance = inst, tc_Task = task, tc_Node = node, tc_FormFields = []\<rparr>"
    "\<not> (lo_RequireOperatorAssignee opts \<and> t_AssigneeID task \<noteq> lo_OperatorID opts)"
    "\<not> (lo_RequireTaskPending opts \<and> t_Status task \<noteq> TaskPending)"
    "\<not> (lo_RequireCurrentNode opts \<and> i_CurrentNodeID inst \<noteq> Some (t_NodeID task))"
    "AllowsInstanceAccess (lo_Caller opts) (i_ID inst) (i_TenantID inst) (lo_OperatorID opts) db"
    using assms unfolding loadContext_def by auto
  have t: "task \<in> set (db_tasks db)" "t_ID task = tid" using s(1) by (auto simp: findTask_def dest: find_row)
  have i: "inst \<in> set (db_instances db)" "i_ID inst = t_InstanceID task"
    using s(2) by (auto simp: findInstance_def dest: find_row)
  have n: "node \<in> set (db_nodes db)" "n_ID node = t_NodeID task" using s(3) by (auto simp: findNode_def dest: find_row)
  have "\<exists>d. inst = inst\<lparr>i_FormData := d\<rparr>" by (rule exI[of _ "i_FormData inst"]) simp
  then show "ctx_ok tc db" using t i n s(4,5) by (auto simp: ctx_ok_def)
  show "t_ID (tc_Task tc) = tid" "lo_RequireTaskPending opts \<Longrightarrow> t_Status (tc_Task tc) = TaskPending"
    "lo_RequireOperatorAssignee opts \<Longrightarrow> t_AssigneeID (tc_Task tc) = lo_OperatorID opts"
    "lo_RequireCurrentNode opts \<Longrightarrow> i_CurrentNodeID (tc_Instance tc) = Some (t_NodeID (tc_Task tc))"
    "AllowsInstanceAccess (lo_Caller opts) (i_ID (tc_Instance tc)) (i_TenantID (tc_Instance tc)) (lo_OperatorID opts) db"
    "tc_Instance tc \<in> set (db_instances db)"
    using s t i by auto
qed

lemma MergeFormData_form: "\<exists>d. MergeFormData inst fd perms = inst\<lparr>i_FormData := d\<rparr>"
proof -
  have "\<exists>d. inst = inst\<lparr>i_FormData := d\<rparr>" by (rule exI[of _ "i_FormData inst"]) simp
  then show ?thesis by (auto simp: MergeFormData_def Let_def)
qed

lemma PrepareOperation_run:
  assumes "PrepareOperation env tid operator caller fd db = Inr tc"
  shows "ctx_ok tc db" "t_ID (tc_Task tc) = tid" "t_Status (tc_Task tc) = TaskPending"
    "t_AssigneeID (tc_Task tc) = u_ID operator"
    "i_CurrentNodeID (tc_Instance tc) = Some (t_NodeID (tc_Task tc))"
    "AllowsInstanceAccess caller (i_ID (tc_Instance tc)) (i_TenantID (tc_Instance tc)) (u_ID operator) db"
proof -
  obtain tc0 where ld: "loadContext tid \<lparr>lo_OperatorID = u_ID operator, lo_RequireOperatorAssignee = True,
               lo_RequireTaskPending = True, lo_RequireCurrentNode = True, lo_Caller = caller\<rparr> db = Inr tc0"
    and tc: "tc_Task tc = tc_Task tc0" "tc_Node tc = tc_Node tc0"
      "tc_Instance tc = MergeFormData (tc_Instance tc0) fd (n_FieldPermissions (tc_Node tc0))"
    using assms unfolding PrepareOperation_def LoadTaskContextForNodeOperation_def Let_def
    by (auto split: if_splits)
  note l = loadContext_run[OF ld, simplified]
  obtain d where d: "tc_Instance tc = (tc_Instance tc0)\<lparr>i_FormData := d\<rparr>" using tc(3) MergeFormData_form by metis
  show "ctx_ok tc db" using l(1) d tc(1,2) l(7) by (auto simp: ctx_ok_def)
  show "t_ID (tc_Task tc) = tid" "t_Status (tc_Task tc) = TaskPending"
    "t_AssigneeID (tc_Task tc) = u_ID operator"
    "i_CurrentNodeID (tc_Instance tc) = Some (t_NodeID (tc_Task tc))"
    "AllowsInstanceAccess caller (i_ID (tc_Instance tc)) (i_TenantID (tc_Instance tc)) (u_ID operator) db"
    using l d tc(1) by auto
qed

lemma ctx_at_node:
  assumes "ctx_ok tc db" and "i_CurrentNodeID (tc_Instance tc) = Some (t_NodeID (tc_Task tc))"
    and "wf_store env db" and "settled (i_ID (tc_Instance tc)) db"
  shows "at_node env (tc_Instance tc) (n_ID (tc_Node tc)) db"
proof -
  obtain r d where r: "r \<in> set (db_instances db)" "tc_Instance tc = r\<lparr>i_FormData := d\<rparr>"
    using assms(1) by (auto simp: ctx_ok_def)
  have st: "i_Status r = InstanceRunning" using assms(1) r(2) by (simp add: ctx_ok_def)
  have "running_at (i_ID r) (i_CurrentNodeID r) db" using assms(4) r st by (auto simp: settled_def)
  moreover have "mirrors (tc_Instance tc) db" using r by (auto simp: mirrors_def)
  ultimately show ?thesis
    using assms r st by (simp add: at_node_def ctx_ok_def)
qed

lemma finish_run:
  assumes "FinishTask env task st db = Inr (task', db1)" and "wf_store env db"
    and "task \<in> set (db_tasks db)" and "t_InstanceID task = iid"
  shows "tasks_only env iid db db1"
  using FinishTask_run(1)[OF assms(1)] owned_row[OF assms(2,3,4)] by simp

lemma finish_activate_run:
  assumes fin: "FinishTask env task st db = Inr (task', db1)" and wf: "wf_store env db"
    and mem: "task \<in> set (db_tasks db)" and iid: "t_InstanceID task = i_ID inst"
    and act: "ActivateDependentTasks env inst node task' db2 = Inr (evs, db3)"
    and mid: "tasks_only env (i_ID inst) db1 db2"
  shows "tasks_only env (i_ID inst) db db3" "tasks_only env (i_ID inst) db1 db3"
proof -
  have t2: "tasks_only env (i_ID inst) db db2" using tasks_only_trans[OF finish_run[OF fin wf mem iid] mid] .
  note own = owned_step[OF _ tasks_only_evolves[OF t2] wf]
  have "owned (i_ID inst) (t_ID task') db2"
    using own owned_row[OF wf mem iid] FinishTask_run(2)[OF fin] owned_row[OF wf mem iid] by simp
  moreover have "owned (i_ID inst) p db2" if "t_ParentTaskID task' = Some p" for p
    using that own wf_parent_owned[OF wf mem iid] FinishTask_run(7)[OF fin] owned_row[OF wf mem iid] by simp
  ultimately have t3: "tasks_only env (i_ID inst) db2 db3"
    using ActivateDependentTasks_run[OF act tasks_only_wf[OF t2 wf]] by blast
  show "tasks_only env (i_ID inst) db db3" using tasks_only_trans[OF t2 t3] .
  show "tasks_only env (i_ID inst) db1 db3" using tasks_only_trans[OF mid t3] .
qed

lemma settleAfter_left:
  assumes "settleAfter env inst node acts db = Inr (inst', db')" and "at_node env inst (n_ID node) db"
  shows "left_by env inst db inst' db'"
proof -
  obtain ds as completions db2 where s: "SplitQueueAdvanceDecisions acts = (ds, as)"
    "HandleNodeCompletion env inst node (EmitEvents ds db) = Inr (completions, inst', db2)"
    "db' = EmitEvents (SuppressSupersededActivations as completions) db2"
    using assms(1) by (auto simp: settleAfter_def Let_def split: prod.splits)
  have "at_node env inst (n_ID node) (EmitEvents ds db)" using at_node_tasks_only[OF assms(2)] by simp
  from HandleNodeCompletion_left[OF this s(2)] have "left_by env inst db inst' db2"
    by (rule left_by_prefix[rotated]) simp_all
  then show ?thesis unfolding s(3) by (rule left_by_emit)
qed

text \<open>What approve, reject and remove have in common; the second part starts after the decision.\<close>

lemma decide_left:
  assumes "FinishTask env (tc_Task tc) st db = Inr (task', db1)" and "wf_store env db"
    and "settled (i_ID (tc_Instance tc)) db" and "ctx_ok tc db"
    and "i_CurrentNodeID (tc_Instance tc) = Some (t_NodeID (tc_Task tc))"
    and "tasks_only env (i_ID (tc_Instance tc)) db1 db2"
    and "ActivateDependentTasks env (tc_Instance tc) (tc_Node tc) task' db2 = Inr (acts, db3)"
    and "tasks_only env (i_ID (tc_Instance tc)) db3 db4"
    and "settleAfter env (tc_Instance tc) (tc_Node tc) acts db4 = Inr (inst', db5)"
  shows "left_by env (tc_Instance tc) db inst' db5" "left_by env (tc_Instance tc) db1 inst' db5" "wf_store env db1"
proof -
  let ?iid = "i_ID (tc_Instance tc)"
  have mem: "tc_Task tc \<in> set (db_tasks db)" "t_InstanceID (tc_Task tc) = ?iid" using assms(4) by (auto simp: ctx_ok_def)
  have t1: "tasks_only env ?iid db db1" using finish_run[OF assms(1,2) mem] .
  show wf1: "wf_store env db1" using tasks_only_wf[OF t1 assms(2)] .
  have t3: "tasks_only env ?iid db1 db3" using finish_activate_run(2)[OF assms(1,2) mem assms(7,6)] .
  have t4: "tasks_only env ?iid db1 db4" using tasks_only_trans[OF t3 assms(8)] .
  have "at_node env (tc_Instance tc) (n_ID (tc_Node tc)) db4"
    using at_node_tasks_only[OF at_node_tasks_only[OF ctx_at_node[OF assms(4,5,2,3)] t1] t4] .
  note l = settleAfter_left[OF assms(9) this]
  show l1: "left_by env (tc_Instance tc) db1 inst' db5" using left_by_prefix[OF tasks_only_evolves[OF t4] l] by simp
  show "left_by env (tc_Instance tc) db inst' db5" using left_by_prefix[OF tasks_only_evolves[OF t1] l1] by simp
qed

lemma decide_commits:
  assumes ctx: "ctx_ok tc db" and cur: "i_CurrentNodeID (tc_Instance tc) = Some (t_NodeID (tc_Task tc))"
    and fin: "FinishTask env (tc_Task tc) st db = Inr (task, db1)"
    and mid: "tasks_only env (i_ID (tc_Instance tc)) db1 db2"
    and act: "ActivateDependentTasks env (tc_Instance tc) (tc_Node tc) task db2 = Inr (acts, db3)"
    and se: "settleAfter env (tc_Instance tc) (tc_Node tc) acts db3 = Inr (inst', db4)"
    and out: "reprojected (PersistInstanceFormData inst' (addLog env l db4)) db'"
  shows "commits env (i_ID (tc_Instance tc)) db db'"
proof (rule commits_ctx)
  let ?iid = "i_ID (tc_Instance tc)"
  assume wf: "wf_store env db" and s: "settled ?iid db"
  have l: "left_by env (tc_Instance tc) db inst' db4"
    by (rule decide_left(1)[OF fin wf s ctx cur mid act tasks_only_refl se])
  then have "i_ID inst' = ?iid" by (simp add: left_by_def)
  then have "commits env ?iid db (PersistInstanceFormData inst' (addLog env l db4))" for l
    using commits_trans[OF commits_log'[OF commits_left[OF l]] commits_form] by blast
  from commits_trans[OF this commits_reprojected[OF out]] show "commits env ?iid db db'" .
qed

section \<open>Decisions\<close>

lemma ApproveTask_commits:
  assumes "ApproveTask_Handle env cmd db = Inr db'"
  obtains task where "task \<in> set (db_tasks db)" "t_ID task = cmd_TaskID cmd" "commits env (t_InstanceID task) db db'"
proof -
  obtain tc task db1 acts db2 inst' db3 ev l where
    pre: "PrepareOperation env (cmd_TaskID cmd) (cmd_Operator cmd) (cmd_Caller cmd) (cmd_FormData cmd) db = Inr tc"
    and fin: "FinishTask env (tc_Task tc) (if n_Kind (tc_Node tc) = NodeHandle then TaskHandled else TaskApproved) db = Inr (task, db1)"
    and act: "ActivateDependentTasks env (tc_Instance tc) (tc_Node tc) task (EmitEvents [ev] db1) = Inr (acts, db2)"
    and st: "settleAfter env (tc_Instance tc) (tc_Node tc) acts db2 = Inr (inst', db3)"
    and out: "reprojected (PersistInstanceFormData inst' (addLog env l db3)) db'"
    using assms unfolding ApproveTask_Handle_def Let_def by (auto dest!: syncProjection_reprojected)
  note p = PrepareOperation_run[OF pre]
  show ?thesis
    using that[of "tc_Task tc"] decide_commits[OF p(1,5) fin _ act st out] p(1,2) by (simp add: ctx_ok_def)
qed

text \<open>The approved task is final in the resulting store.\<close>

lemma FinishTask_final:
  assumes "FinishTask env task st db = Inr (task', db1)" and "TaskStatus_IsFinal st"
  shows "\<exists>t \<in> set (db_tasks db1). t_ID t = t_ID task \<and> t_Status t = st"
proof -
  let ?P = "\<lambda>r. t_ID r = t_ID task \<and> t_Status r = t_Status task"
  let ?f = "\<lambda>r. r\<lparr>t_Status := st, t_FinishedAt := Some (env_now env)\<rparr>"
  have "affected ?P (db_tasks db) \<noteq> 0" and db1: "db1 = updateTasks ?P ?f db"
    using assms(1) by (auto simp: FinishTask_def Let_def split: if_splits)
  then obtain r where r: "r \<in> set (db_tasks db)" "?P r" by (auto simp: affected_zero)
  have "?f r \<in> set (updateWhere ?P ?f (db_tasks db))" using r by (rule updateWhere_hit)
  then show ?thesis unfolding db1 updateTasks_def using r by (intro bexI[of _ "?f r"]) simp_all
qed

lemma final_kept:
  assumes "store_step iid db db'" and "t \<in> set (db_tasks db)" and "TaskStatus_IsFinal (t_Status t)"
  shows "\<exists>t' \<in> set (db_tasks db'). t_ID t' = t_ID t \<and> t_Status t' = t_Status t"
proof -
  have "rows_evolve (task_rel iid) (\<lambda>t. t_InstanceID t = iid) (db_tasks db) (db_tasks db')"
    using assms(1) by (simp add: store_step_def)
  from rows_evolve_kept[OF this assms(2)] show ?thesis using assms(3) task.final_absorbing by (auto simp: task_rel_def)
qed

lemma approve_finishes:
  assumes "ApproveTask_Handle env cmd db = Inr db'" and wf: "wf_store env db" and se: "\<And>iid. settled iid db"
  shows "\<exists>t \<in> set (db_tasks db'). t_ID t = cmd_TaskID cmd \<and> TaskStatus_IsFinal (t_Status t)"
proof -
  obtain tc task db1 acts db2 inst' db3 ev l where
    pre: "PrepareOperation env (cmd_TaskID cmd) (cmd_Operator cmd) (cmd_Caller cmd) (cmd_FormData cmd) db = Inr tc"
    and fin: "FinishTask env (tc_Task tc) (if n_Kind (tc_Node tc) = NodeHandle then TaskHandled else TaskApproved) db = Inr (task, db1)"
    and act: "ActivateDependentTasks env (tc_Instance tc) (tc_Node tc) task (EmitEvents [ev] db1) = Inr (acts, db2)"
    and st: "settleAfter env (tc_Instance tc) (tc_Node tc) acts db2 = Inr (inst', db3)"
    and out: "reprojected (PersistInstanceFormData inst' (addLog env l db3)) db'"
    using assms(1) unfolding ApproveTask_Handle_def Let_def by (auto dest!: syncProjection_reprojected)
  note p = PrepareOperation_run[OF pre]
  note d = decide_left(2,3)[OF fin wf se p(1) p(5) _ act _ st, OF tasks_only_emit tasks_only_refl]
  have fs: "TaskStatus_IsFinal (if n_Kind (tc_Node tc) = NodeHandle then TaskHandled else TaskApproved)"
    by (simp add: TaskStatus_IsFinal_def)
  obtain t where t: "t \<in> set (db_tasks db1)" "t_ID t = cmd_TaskID cmd" "TaskStatus_IsFinal (t_Status t)"
    using FinishTask_final[OF fin fs] p(2) fs by auto
  have "store_step (i_ID (tc_Instance tc)) db1 db3" using d by (simp add: left_by_def evolves_def)
  from final_kept[OF this t(1,3)] show ?thesis
    using t(2,3) reprojected_fields(2)[OF out] by (auto simp: PersistInstanceFormData_def addLog_def)
qed

lemma RejectTask_commits:
  assumes "RejectTask_Handle env cmd db = Inr db'"
  obtains task where "task \<in> set (db_tasks db)" "t_ID task = cmd_TaskID cmd" "commits env (t_InstanceID task) db db'"
proof -
  obtain tc task db1 acts db2 inst' db3 ev l where
    pre: "PrepareOperation env (cmd_TaskID cmd) (cmd_Operator cmd) (cmd_Caller cmd) (cmd_FormData cmd) db = Inr tc"
    and fin: "FinishTask env (tc_Task tc) TaskRejected db = Inr (task, db1)"
    and act: "ActivateDependentTasks env (tc_Instance tc) (tc_Node tc) task (EmitEvents [ev] db1) = Inr (acts, db2)"
    and st: "settleAfter env (tc_Instance tc) (tc_Node tc) acts db2 = Inr (inst', db3)"
    and out: "reprojected (PersistInstanceFormData inst' (addLog env l db3)) db'"
    using assms unfolding RejectTask_Handle_def Let_def by (auto dest!: syncProjection_reprojected)
  note p = PrepareOperation_run[OF pre]
  show ?thesis
    using that[of "tc_Task tc"] decide_commits[OF p(1,5) fin _ act st out] p(1,2) by (simp add: ctx_ok_def)
qed

lemma RemoveAssignee_commits:
  assumes "RemoveAssignee_Handle env tid operator caller db = Inr db'"
  obtains task where "task \<in> set (db_tasks db)" "t_ID task = tid" "commits env (t_InstanceID task) db db'"
proof -
  obtain tc task db1 acts db2 inst' ev l opts where
    pre: "loadContext tid opts db = Inr tc" and opts: "lo_RequireCurrentNode opts"
    and fin: "FinishTask env (tc_Task tc) TaskRemoved db = Inr (task, db1)"
    and act: "ActivateDependentTasks env (tc_Instance tc) (tc_Node tc) task db1 = Inr (acts, db2)"
    and st: "settleAfter env (tc_Instance tc) (tc_Node tc) acts (EmitEvents [ev] (addLog env l db2)) = Inr (inst', db')"
    using assms unfolding RemoveAssignee_Handle_def Let_def LoadTaskContextForNodeOperation_def by auto
  note p = loadContext_run[OF pre]
  let ?iid = "i_ID (tc_Instance tc)"
  have "commits env ?iid db db'"
  proof (rule commits_ctx)
    assume wf: "wf_store env db" and se: "settled ?iid db"
    show "commits env ?iid db db'"
      by (rule commits_left, rule decide_left(1)[OF fin wf se p(1) p(5)[OF opts] tasks_only_refl act _ st])
        (rule tasks_only_trans[OF tasks_only_log tasks_only_emit])
  qed
  then show ?thesis using that[of "tc_Task tc"] p(1,2) by (simp add: ctx_ok_def)
qed

section \<open>Instance operations\<close>

lemma LoadForUpdateAs_run:
  assumes "LoadForUpdateAs iid caller userID db = Inr inst"
  shows "inst \<in> set (db_instances db)" "i_ID inst = iid"
    "AllowsInstanceAccess caller (i_ID inst) (i_TenantID inst) userID db"
  using assms by (auto simp: LoadForUpdateAs_def findInstance_def dest: find_row)

lemmas LoadForUpdate_run = LoadForUpdateAs_run[OF LoadForUpdate_def[THEN sym, THEN trans]]

lemma Transition_run:
  "Transition env inst to cols db = Inr r \<Longrightarrow> ApplyInstanceTransitionWithHooks env inst to cols db = Inr r"
  by (auto simp: Transition_def split: sum.splits)

lemma transition_status:
  assumes tr: "ApplyInstanceTransitionWithHooks env inst to cols db = Inr (inst', db')"
    and wf: "wf_store env db" and m: "mirrors inst db" and r: "r \<in> set (db_instances db')" "i_ID r = i_ID inst"
  shows "i_Status r = to"
proof -
  note run = ApplyInstanceTransition_run[OF tr]
  from r(1)[unfolded run(6)]
  obtain r0 where "r0 \<in> set (db_instances db)" "r = (if i_ID r0 = i_ID inst \<and> i_Status r0 = i_Status inst
      then copyInstanceCols (transitionCols cols) inst' r0 else r0)"
    by (rule updateWhere_memE)
  then show ?thesis
    using r(2) mirrors_row(1)[OF wf m, of r0] run(4) by (auto simp: copyInstanceCols_status split: if_splits)
qed

lemma transition_mirrors:
  assumes tr: "ApplyInstanceTransitionWithHooks env inst to cols db = Inr (inst', db')" and m: "mirrors inst db"
  shows "mirrors inst' db'"
proof -
  note run = ApplyInstanceTransition_run[OF tr]
  obtain r where "r \<in> set (db_instances db)" "i_ID r = i_ID inst" "i_Status r = i_Status inst"
    "i_FlowVersionID r = i_FlowVersionID inst" using m by (auto simp: mirrors_def)
  then show ?thesis unfolding mirrors_def run(6)
    by (intro bexI[of _ "copyInstanceCols (transitionCols cols) inst' r"])
      (simp_all add: copyInstanceCols_status run(4) updateWhere_hit)
qed

lemma CancelActiveNodeVisits_run:
  shows "evolves env iid db (CancelActiveNodeVisits env iid db)" "idle iid (CancelActiveNodeVisits env iid db)"
    "db_tasks (CancelActiveNodeVisits env iid db) = db_tasks db"
    "db_instances (CancelActiveNodeVisits env iid db) = db_instances db"
proof -
  show "evolves env iid db (CancelActiveNodeVisits env iid db)"
    unfolding CancelActiveNodeVisits_def by (intro evolves_updateVisits) (auto simp: visit_rel_def)
  show "idle iid (CancelActiveNodeVisits env iid db)"
    unfolding idle_def CancelActiveNodeVisits_def updateVisits_sel
    by (auto elim!: updateWhere_memE simp: active_of_def split: if_splits)
qed (simp_all add: CancelActiveNodeVisits_def)

text \<open>Closing an instance cancels its tasks and its visit.\<close>

lemma closeInstance_commits:
  assumes run: "closeInstance env inst0 to na reason db = Inr (evs, inst, db')"
    and mem: "inst0 \<in> set (db_instances db)" and to: "to \<noteq> InstanceRunning"
  shows "commits env (i_ID inst0) db db'"
proof (rule commits_ctx)
  let ?iid = "i_ID inst0" and ?inst0 = "inst0\<lparr>i_FinishedAt := Some (env_now env)\<rparr>"
  assume wf: "wf_store env db"
  obtain db1 db2 where tr: "ApplyInstanceTransitionWithHooks env ?inst0 to [ColFinishedAt] db = Inr (inst, db1)"
    and can: "CancelInstanceTasks env inst reason db1 = (evs, db2)"
    and db': "db' = CancelActiveNodeVisits env ?iid db2"
    using run unfolding closeInstance_def Let_def
    by (auto split: sum.splits prod.splits dest!: Transition_run)
  have m: "mirrors ?inst0 db" using mem by (auto simp: mirrors_def)
  note t = ApplyInstanceTransition_run[OF tr]
  have id1: "i_ID inst = ?iid" using t(4) by simp
  have wf1: "wf_store env db1" using evolves_fresh[OF t(1)] wf by simp
  note c = CancelInstanceTasks_run[OF can wf1, unfolded id1]
  note v = CancelActiveNodeVisits_run[where env = env and iid = ?iid and db = db2]
  have ev: "evolves env ?iid db db'"
    using evolves_trans[OF evolves_trans[OF t(1)[simplified] tasks_only_evolves[OF c(1)]] v(1)] by (simp add: db')
  have "settled ?iid db'"
  proof (rule settled_final)
    show "\<forall>i \<in> set (db_instances db'). i_ID i = ?iid \<longrightarrow> i_Status i \<noteq> InstanceRunning"
      using transition_status[OF tr wf m] to tasks_only_sel[OF c(1)] by (simp add: db' v(4))
  qed (use v c in \<open>simp_all add: db' quiet_def\<close>)
  with ev show "commits env ?iid db db'" by (auto intro: commitsI)
qed

lemma WithdrawInstance_commits:
  assumes "WithdrawInstance_Handle env iid operator caller reason db = Inr db'"
  shows "commits env iid db db'"
proof -
  obtain inst0 evs inst db1 evs' l where l: "LoadForUpdate iid caller db = Inr inst0"
    and c: "closeInstance env inst0 InstanceWithdrawn ErrWithdrawNotAllowed reasonWithdrawn db = Inr (evs, inst, db1)"
    and out: "db' = EmitEvents evs' (addLog env l db1)"
    using assms unfolding WithdrawInstance_Handle_def Let_def by auto
  show ?thesis
    using closeInstance_commits[OF c] LoadForUpdate_run[OF l] unfolding out by auto
qed

lemma TerminateInstance_commits:
  assumes "TerminateInstance_Handle env iid operator caller reason db = Inr db'"
  shows "commits env iid db db'"
proof -
  obtain inst0 evs inst db1 evs' l where l: "LoadForUpdate iid caller db = Inr inst0"
    and c: "closeInstance env inst0 InstanceTerminated ErrTerminateNotAllowed reasonTerminated db = Inr (evs, inst, db1)"
    and out: "db' = EmitEvents evs' (addLog env l db1)"
    using assms unfolding TerminateInstance_Handle_def Let_def by auto
  show ?thesis
    using closeInstance_commits[OF c] LoadForUpdate_run[OF l] unfolding out by auto
qed

lemma ResubmitInstance_commits:
  assumes "ResubmitInstance_Handle env iid operator caller fd db = Inr db'"
  shows "commits env iid db db'"
proof (rule commits_ctx)
  assume wf: "wf_store env db" and se: "settled iid db"
  obtain inst0 inst2 db0 db1 inst3 db3 d evs l where ld: "LoadForUpdate iid caller db = Inr inst0"
    and can: "CanTransition InstanceStateMachine (i_Status inst0) InstanceRunning"
    and tr: "ApplyInstanceTransitionWithHooks env (inst0\<lparr>i_FormData := d, i_FinishedAt := None\<rparr>)
        InstanceRunning [ColFormData, ColFinishedAt] db = Inr (inst2, db0)"
    and rp: "reprojected db0 db1"
    and start: "StartProcess env inst2 db1 = Inr (inst3, db3)"
    and out: "db' = EmitEvents evs (addLog env l db3)"
    using assms unfolding ResubmitInstance_Handle_def Let_def
    by (auto split: sum.splits dest!: Transition_run syncProjection_reprojected)
  note i = LoadForUpdate_run[OF ld]
  note t = ApplyInstanceTransition_run[OF tr]
  have "i_Status inst0 \<noteq> InstanceRunning" using can by (auto simp: instance_transitions)
  then have q: "idle iid db" "quiet iid db" using se i(1,2) by (auto simp: settled_def)
  have m: "mirrors (inst0\<lparr>i_FormData := d, i_FinishedAt := None\<rparr>) db" using i(1) by (auto simp: mirrors_def)
  have id2: "i_ID inst2 = iid" using t(4) i(2) by simp
  have ev: "evolves env iid db db1" using evolves_trans[OF t(1) evolves_reprojected[OF rp]] i(2) by simp
  have "enterable env inst2 db1"
    unfolding enterable_def
    using evolves_fresh[OF ev wf] q t(2,3,4) transition_mirrors[OF tr m] id2 reprojected_fields[OF rp]
    by (simp add: quiet_def idle_def mirrors_def)
  from StartProcess_left[OF start this] have "left_by env inst2 db inst3 db3"
    by (rule left_by_prefix[rotated]) (use ev id2 in simp_all)
  from commits_left[OF this] show "commits env iid db db'" unfolding out id2 by blast
qed

section \<open>Rollback\<close>

lemma ApplyRollbackFormData_id [simp]: "i_ID (ApplyRollbackFormData inst tgt st db) = i_ID inst"
  by (auto simp: ApplyRollbackFormData_def split: RollbackDataStrategy.splits option.splits)

lemma ApplyRollbackFormData_form: "\<exists>d. ApplyRollbackFormData inst tgt st db = inst\<lparr>i_FormData := d\<rparr>"
proof -
  have "\<exists>d. inst = inst\<lparr>i_FormData := d\<rparr>" by (rule exI[of _ "i_FormData inst"]) simp
  then show ?thesis by (auto simp: ApplyRollbackFormData_def split: RollbackDataStrategy.splits option.splits)
qed

text \<open>Moving the pointer of a running instance between two visits.\<close>

lemma enterable_pointer:
  assumes "enterable env inst db" and "i_ID inst1 = i_ID inst" "i_Status inst1 = i_Status inst"
    "i_FlowVersionID inst1 = i_FlowVersionID inst"
    and "db1 = updateInstances (\<lambda>r. i_ID r = i_ID inst1) (copyInstanceCols [ColFormData, ColCurrentNodeID] inst1) db"
  shows "evolves env (i_ID inst) db db1" "enterable env inst1 db1"
proof -
  let ?f = "copyInstanceCols [ColFormData, ColCurrentNodeID] inst1"
  show ev: "evolves env (i_ID inst) db db1"
    unfolding assms(5) using assms(2)
    by (intro evolves_updateInstances) (auto simp: instance_rel_def copyInstanceCols_status)
  obtain r where "r \<in> set (db_instances db)" "i_ID r = i_ID inst" "i_Status r = i_Status inst"
    "i_FlowVersionID r = i_FlowVersionID inst" using assms(1) by (auto simp: enterable_def mirrors_def)
  then have "mirrors inst1 db1" unfolding mirrors_def assms(5) using assms(2-4)
    by (intro bexI[of _ "?f r"]) (simp_all add: copyInstanceCols_status updateWhere_hit)
  then show "enterable env inst1 db1"
    using assms evolves_fresh[OF ev] by (auto simp: enterable_def quiet_def idle_def)
qed

lemma leave_node_run:
  assumes at: "at_node env inst (n_ID node) db"
    and can: "CancelRemainingTasks env inst node reason db = (evs, db1)"
    and con: "ConcludeActiveNodeVisit env (i_ID inst) (n_ID node) st db1 = Inr db2" and st: "st \<noteq> NodeVisitActive"
  shows "evolves env (i_ID inst) db db2" "enterable env inst db2"
proof -
  let ?iid = "i_ID inst"
  obtain vid where "open_at ?iid (n_ID node) vid db" using at by (auto simp: at_node_def running_at_def)
  note can' = CancelRemainingTasks_run[OF can _ this]
  have t1: "tasks_only env ?iid db db1" and q: "quiet ?iid db1" using can' at by (auto simp: at_node_def)
  have at1: "at_node env inst (n_ID node) db1" using at_node_tasks_only[OF at t1] .
  then have ra: "running_at ?iid (Some (n_ID node)) db1" by (simp add: at_node_def)
  note c = ConcludeActiveNodeVisit_run[OF con st ra]
  show "evolves env ?iid db db2" using evolves_trans[OF tasks_only_evolves[OF t1] c(1)] .
  show "enterable env inst db2"
    using c(2-4) evolves_fresh[OF c(1)] at1 q mirrors_cong[of db2 db1]
    by (auto simp: enterable_def at_node_def quiet_def)
qed

lemma RollbackTask_commits:
  assumes "RollbackTask_Handle env cmd target db = Inr db'"
  obtains task where "task \<in> set (db_tasks db)" "t_ID task = cmd_TaskID cmd" "commits env (t_InstanceID task) db db'"
proof -
  let ?i1 = "\<lambda>tc db. (ApplyRollbackFormData (tc_Instance tc) (trimSpace target)
         (n_RollbackDataStrategy (tc_Node tc)) db)\<lparr>i_CurrentNodeID := Some (trimSpace target)\<rparr>"
  obtain tc task db1 ce db2 db3 tn inst2 db4 db5 evs l where
    pre: "PrepareOperation env (cmd_TaskID cmd) (cmd_Operator cmd) (cmd_Caller cmd) (cmd_FormData cmd) db = Inr tc"
    and fin: "FinishTask env (tc_Task tc) TaskRolledBack db = Inr (task, db1)"
    and can: "CancelRemainingTasks env (tc_Instance tc) (tc_Node tc) reasonRolledBack db1 = (ce, db2)"
    and con: "ConcludeActiveNodeVisit env (i_ID (tc_Instance tc)) (n_ID (tc_Node tc)) NodeVisitReturned db2 = Inr db3"
    and go0: "(\<exists>cols. ApplyInstanceTransitionWithHooks env ((?i1 tc db3)\<lparr>i_FinishedAt := Some (env_now env)\<rparr>) InstanceReturned
                cols db3 = Inr (inst2, db4))
           \<or> ProcessNode maxNodeDepth env (updateInstances (\<lambda>r. i_ID r = i_ID (tc_Instance tc))
                (copyInstanceCols [ColFormData, ColCurrentNodeID] (?i1 tc db3)) db3) (?i1 tc db3) tn = Inr (inst2, db4)"
    and tn: "findNode (trimSpace target) db3 = Some tn"
    and rp: "reprojected db4 db5"
    and out: "db' = EmitEvents evs (addLog env l db5)"
    using assms unfolding RollbackTask_Handle_def Let_def
    by (auto split: prod.splits if_splits dest!: Transition_run syncProjection_reprojected) blast+
  define inst1 where "inst1 = ?i1 tc db3"
  note inst1 = inst1_def and go = go0[folded inst1_def]
  note p = PrepareOperation_run[OF pre]
  let ?inst = "tc_Instance tc"
  let ?iid = "i_ID ?inst"
  obtain d where d: "inst1 = ?inst\<lparr>i_FormData := d, i_CurrentNodeID := Some (trimSpace target)\<rparr>"
    using inst1 ApplyRollbackFormData_form[of ?inst "trimSpace target" "n_RollbackDataStrategy (tc_Node tc)" db3] by auto
  have "commits env ?iid db db'"
  proof (rule commits_ctx)
    assume wf: "wf_store env db" and se: "settled ?iid db"
    have t1: "tasks_only env ?iid db db1" using finish_run[OF fin wf] p(1) by (simp add: ctx_ok_def)
    have at: "at_node env ?inst (n_ID (tc_Node tc)) db1"
      using at_node_tasks_only[OF ctx_at_node[OF p(1,5) wf se] t1] .
    note lv = leave_node_run[OF at can con, simplified]
    have ev: "evolves env ?iid db db3" using evolves_trans[OF tasks_only_evolves[OF t1] lv(1)] .
    from go have "left_by env inst1 db3 inst2 db4"
    proof
      assume "\<exists>cols. ApplyInstanceTransitionWithHooks env (inst1\<lparr>i_FinishedAt := Some (env_now env)\<rparr>) InstanceReturned cols db3 = Inr (inst2, db4)"
      then obtain cols where tr: "ApplyInstanceTransitionWithHooks env (inst1\<lparr>i_FinishedAt := Some (env_now env)\<rparr>)
          InstanceReturned cols db3 = Inr (inst2, db4)" by blast
      have "left_by env (inst1\<lparr>i_FinishedAt := Some (env_now env)\<rparr>) db3 inst2 db4"
        by (rule complete_left[OF _ _ _ _ _ tr]) (use lv(2) d in \<open>auto simp: enterable_def mirrors_def\<close>)
      then show ?thesis by (simp add: left_by_def)
    next
      assume pn: "ProcessNode maxNodeDepth env (updateInstances (\<lambda>r. i_ID r = ?iid)
                (copyInstanceCols [ColFormData, ColCurrentNodeID] inst1) db3) inst1 tn = Inr (inst2, db4)"
      note e = enterable_pointer[OF lv(2), of inst1, unfolded d, simplified, OF refl, folded d[simplified]]
      show ?thesis
        by (rule left_by_prefix[OF _ ProcessNode_left[OF pn e(2)]])
          (use d e(1) tn in \<open>auto simp: findNode_def updateInstances_def dest: find_row\<close>)
    qed
    then have "left_by env ?inst db inst2 db4" by (rule left_by_prefix[OF ev]) (simp add: d)
    from commits_trans[OF commits_left[OF this] commits_reprojected[OF rp]]
    show "commits env ?iid db db'" unfolding out by blast
  qed
  then show ?thesis using that[of "tc_Task tc"] p(1,2) by (simp add: ctx_ok_def)
qed

section \<open>Hand-over and added assignees\<close>

lemma insertTask_sel:
  assumes "insertTask env t db = (row, db')"
  shows "db_visits db' = db_visits db" "db_instances db' = db_instances db" "db_tasks db' = db_tasks db @ [row]"
    "db_nodes db' = db_nodes db" "row = t\<lparr>t_ID := env_new_id env (db_next_id db)\<rparr>"
  using assms by (auto simp: insertTask_def allocId_def Let_def)

text \<open>The round a command works in: the active visit of the task's node.\<close>

definition live_round :: "string \<Rightarrow> string \<Rightarrow> string \<Rightarrow> db \<Rightarrow> bool" where
  "live_round iid nid vid db \<longleftrightarrow> (\<exists>v \<in> set (db_visits db). active_of iid v \<and> v_ID v = vid \<and> v_NodeID v = nid)"

lemma live_round_cong: "db_visits db' = db_visits db \<Longrightarrow> live_round iid nid vid db' = live_round iid nid vid db"
  by (simp add: live_round_def)

lemma settled_more_tasks:
  assumes se: "settled iid db" and rows: "db_tasks db' = db_tasks db @ rows" and vs: "db_visits db' = db_visits db"
    and iss: "db_instances db' = db_instances db" and new: "\<forall>r \<in> set rows. live_round iid (t_NodeID r) (t_VisitID r) db"
  shows "settled iid db'"
  unfolding settled_def iss
proof (intro ballI impI)
  fix i assume i: "i \<in> set (db_instances db)" "i_ID i = iid"
  show "if i_Status i = InstanceRunning then running_at iid (i_CurrentNodeID i) db' else idle iid db' \<and> quiet iid db'"
  proof (cases "i_Status i = InstanceRunning")
    case True
    then have "running_at iid (i_CurrentNodeID i) db" using se i by (auto simp: settled_def)
    then obtain v where v: "v \<in> set (db_visits db)" "active_of iid v" "i_CurrentNodeID i = Some (v_NodeID v)"
      "\<forall>w \<in> set (db_visits db). active_of iid w \<longrightarrow> w = v" "open_at iid (v_NodeID v) (v_ID v) db"
      unfolding running_at_def by blast
    have "t_NodeID r = v_NodeID v \<and> t_VisitID r = v_ID v" if "r \<in> set rows" for r
      using new that v(4) by (auto simp: live_round_def)
    then have "open_at iid (v_NodeID v) (v_ID v) db'" using open_at_append[OF v(5) rows] by blast
    then have "running_at iid (i_CurrentNodeID i) db'"
      unfolding running_at_def vs by (intro bexI[OF _ v(1)] conjI v(2-4))
    then show ?thesis using True by simp
  next
    case False
    then have id: "idle iid db" "quiet iid db" using se i by (auto simp: settled_def)
    then have "rows = []" using new by (cases rows) (auto simp: live_round_def idle_def)
    then show ?thesis using False id rows vs by (simp add: idle_def quiet_def)
  qed
qed

lemma commits_insertTask:
  assumes "insertTask env t db = (row, db')" and "t_InstanceID t = iid" and "live_round iid (t_NodeID t) (t_VisitID t) db"
    and "\<And>p. t_ParentTaskID t = Some p \<Longrightarrow> \<exists>r \<in> set (db_tasks db). t_ID r = p \<and> t_InstanceID r = iid"
    and "\<forall>n \<in> set (db_nodes db). n_ID n = t_NodeID t \<longrightarrow> works n"
  shows "commits env iid db db'"
proof (rule commitsI)
  show "evolves env iid db db'"
    using evolves_insertTask[of t iid db env] assms by (auto simp: live_round_def active_of_def)
  assume "settled iid db"
  then show "settled iid db'"
    using settled_more_tasks[where rows = "[row]"] insertTask_sel[OF assms(1)] assms(3) by simp
qed

lemma settled_updateTasks:
  assumes "settled iid db" and "\<And>t. t \<in> set (db_tasks db) \<Longrightarrow> P t \<Longrightarrow> task_rel iid t (f t)"
  shows "settled iid (updateTasks P f db)"
proof -
  have oa: "open_at iid nid vid (updateTasks P f db)" if "open_at iid nid vid db" for nid vid
    using open_at_updateTasks[OF that] assms(2) by blast
  then have "quiet iid db \<Longrightarrow> quiet iid (updateTasks P f db)" by (simp add: quiet_iff_open_at)
  moreover have "running_at iid c (updateTasks P f db)" if "running_at iid c db" for c
    using that oa by (auto simp: running_at_def updateTasks_def)
  moreover have "db_instances (updateTasks P f db) = db_instances db" by (simp add: updateTasks_def)
  moreover have "idle iid (updateTasks P f db) = idle iid db" by (simp add: idle_def updateTasks_def)
  ultimately show ?thesis using assms(1) by (auto simp: settled_def)
qed

lemma commits_updateTasks:
  assumes rel: "\<And>t. wf_store env db \<Longrightarrow> t \<in> set (db_tasks db) \<Longrightarrow> P t \<Longrightarrow> task_rel iid t (f t)"
    and id: "\<And>t. t_ID (f t) = t_ID t"
    and par: "\<And>t p. wf_store env db \<Longrightarrow> t \<in> set (db_tasks db) \<Longrightarrow> P t \<Longrightarrow> t_ParentTaskID (f t) = Some p \<Longrightarrow>
        (\<exists>r \<in> set (db_tasks db). t_ID r = p \<and> t_InstanceID r = t_InstanceID t)"
  shows "commits env iid db (updateTasks P f db)"
  by (rule commitsI[OF evolves_updateTasks_parent[OF rel id par]]) (auto intro: settled_updateTasks rel)

lemma wf_hosts: "wf_store env db \<Longrightarrow> t \<in> set (db_tasks db) \<Longrightarrow> \<forall>n \<in> set (db_nodes db). n_ID n = t_NodeID t \<longrightarrow> works n"
  by (simp add: wf_store_def hosts_ok_def)

lemma wf_parent_row:
  "wf_store env db \<Longrightarrow> t \<in> set (db_tasks db) \<Longrightarrow> t_ParentTaskID t = Some p \<Longrightarrow>
     \<exists>r \<in> set (db_tasks db). t_ID r = p \<and> t_InstanceID r = t_InstanceID t"
  unfolding wf_store_def parents_ok_def by blast

text \<open>Rows persist: a task of the instance is still there, with its identity, after a step.\<close>

lemma row_kept:
  assumes "store_step iid db db'" and "r \<in> set (db_tasks db)"
  shows "\<exists>r' \<in> set (db_tasks db'). t_ID r' = t_ID r \<and> t_InstanceID r' = t_InstanceID r"
proof -
  have "rows_evolve (task_rel iid) (\<lambda>t. t_InstanceID t = iid) (db_tasks db) (db_tasks db')"
    using assms(1) by (simp add: store_step_def)
  from rows_evolve_kept[OF this assms(2)] show ?thesis by (auto simp: task_rel_def)
qed

lemma ctx_live_round:
  assumes "ctx_ok tc db" and "i_CurrentNodeID (tc_Instance tc) = Some (t_NodeID (tc_Task tc))"
    and "t_Status (tc_Task tc) = TaskPending" and "wf_store env db" and "settled (i_ID (tc_Instance tc)) db"
  shows "live_round (i_ID (tc_Instance tc)) (t_NodeID (tc_Task tc)) (t_VisitID (tc_Task tc)) db"
proof -
  have "running_at (i_ID (tc_Instance tc)) (Some (n_ID (tc_Node tc))) db"
    using ctx_at_node[OF assms(1,2,4,5)] by (simp add: at_node_def)
  then obtain v where v: "v \<in> set (db_visits db)" "active_of (i_ID (tc_Instance tc)) v"
    "open_at (i_ID (tc_Instance tc)) (v_NodeID v) (v_ID v) db" by (auto simp: running_at_def)
  have "t_NodeID (tc_Task tc) = v_NodeID v \<and> t_VisitID (tc_Task tc) = v_ID v"
    using v(3) assms(1,3) by (auto simp: open_at_def ctx_ok_def cancelable_def)
  with v show ?thesis by (auto simp: live_round_def)
qed

lemma RepointAddAssigneeChildren_commits:
  assumes "r \<in> set (db_tasks db)" "t_ID r = to" "t_InstanceID r = iid"
  shows "commits env iid db (RepointAddAssigneeChildren from to iid db)"
  unfolding RepointAddAssigneeChildren_def
  by (rule commits_updateTasks) (use assms in \<open>auto simp: task_rel_def\<close>)

lemma TransferTask_commits:
  assumes "TransferTask_Handle env cmd target db = Inr db'"
  obtains task where "task \<in> set (db_tasks db)" "t_ID task = cmd_TaskID cmd" "commits env (t_InstanceID task) db db'"
proof -
  obtain tc task db1 nt row db2 db5 l evs where
    pre: "PrepareOperation env (cmd_TaskID cmd) (cmd_Operator cmd) (cmd_Caller cmd) (cmd_FormData cmd) db = Inr tc"
    and fin: "FinishTask env (tc_Task tc) TaskTransferred db = Inr (task, db1)"
    and ins: "insertTask env nt db1 = (row, db2)"
    and nt: "t_InstanceID nt = i_ID (tc_Instance tc)" "t_NodeID nt = t_NodeID task" "t_VisitID nt = t_VisitID task"
      "t_ParentTaskID nt = t_ParentTaskID task"
    and rp: "reprojected (PersistInstanceFormData (tc_Instance tc) (addLog env l
        (RepointAddAssigneeChildren (t_ID task) (t_ID row) (i_ID (tc_Instance tc)) db2))) db5"
    and out: "db' = EmitEvents evs db5"
    using assms unfolding TransferTask_Handle_def Let_def
    by (auto split: prod.splits dest!: syncProjection_reprojected)
  note p = PrepareOperation_run[OF pre] and f = FinishTask_run[OF fin] and i = insertTask_sel[OF ins]
  let ?iid = "i_ID (tc_Instance tc)"
  have mem: "tc_Task tc \<in> set (db_tasks db)" "t_InstanceID (tc_Task tc) = ?iid" using p(1) by (auto simp: ctx_ok_def)
  have "commits env ?iid db db'"
  proof (rule commits_ctx)
    assume wf: "wf_store env db" and se: "settled ?iid db"
    have t1: "tasks_only env ?iid db db1" using finish_run[OF fin wf mem] .
    note own = f(7,4,5)[OF owned_row[OF wf mem]]
    have step: "store_step ?iid db db1" using tasks_only_evolves[OF t1] wf by (simp add: evolves_def)
    have c2: "commits env ?iid db1 db2"
    proof (rule commits_insertTask[OF ins nt(1)])
      show "live_round ?iid (t_NodeID nt) (t_VisitID nt) db1"
        unfolding nt own(2,3) live_round_cong[OF conjunct1[OF tasks_only_sel[OF t1]]]
        by (rule ctx_live_round[OF p(1,5,3) wf se])
    next
      fix q assume "t_ParentTaskID nt = Some q"
      then have "t_ParentTaskID (tc_Task tc) = Some q" by (simp add: nt own)
      from wf_parent_row[OF wf mem(1) this] obtain r where "r \<in> set (db_tasks db)" "t_ID r = q" "t_InstanceID r = ?iid"
        using mem(2) by auto
      with row_kept[OF step] show "\<exists>r \<in> set (db_tasks db1). t_ID r = q \<and> t_InstanceID r = ?iid" by metis
    next
      show "\<forall>n \<in> set (db_nodes db1). n_ID n = t_NodeID nt \<longrightarrow> works n"
        unfolding nt own(2) using wf_hosts[OF wf mem(1)] step by (simp add: store_step_def same_config_def)
    qed
    have c3: "commits env ?iid db2 (RepointAddAssigneeChildren (t_ID task) (t_ID row) ?iid db2)"
      by (rule RepointAddAssigneeChildren_commits[of row]) (use i nt in simp_all)
    have "commits env ?iid db (RepointAddAssigneeChildren (t_ID task) (t_ID row) ?iid db2)"
      using commits_trans[OF commits_trans[OF commits_tasks_only[OF t1] c2] c3] .
    then have "commits env ?iid db (PersistInstanceFormData (tc_Instance tc) (addLog env l
        (RepointAddAssigneeChildren (t_ID task) (t_ID row) ?iid db2)))"
      using commits_trans[OF commits_log' commits_form] by blast
    from commits_trans[OF this commits_reprojected[OF rp]] show "commits env ?iid db db'"
      unfolding out by blast
  qed
  then show ?thesis using that[of "tc_Task tc"] p(2) mem by simp
qed

lemma ReassignTask_commits:
  assumes "ReassignTask_Handle env tid target operator reason caller db = Inr db'"
  obtains task where "task \<in> set (db_tasks db)" "t_ID task = tid" "commits env (t_InstanceID task) db db'"
proof -
  obtain tc opts u evs l where pre: "loadContext tid opts db = Inr tc"
    and out: "db' = EmitEvents evs (addLog env l
        (updateTasks (\<lambda>r. t_ID r = t_ID (tc_Task tc)) (\<lambda>r. r\<lparr>t_Assignee := u\<rparr>) db))"
    using assms unfolding ReassignTask_Handle_def Let_def LoadTaskContextForNodeOperation_def by auto
  note p = loadContext_run[OF pre]
  have mem: "tc_Task tc \<in> set (db_tasks db)" using p(1) by (simp add: ctx_ok_def)
  let ?iid = "t_InstanceID (tc_Task tc)"
  have "commits env ?iid db (updateTasks (\<lambda>r. t_ID r = t_ID (tc_Task tc)) (\<lambda>r. r\<lparr>t_Assignee := u\<rparr>) db)"
  proof (rule commits_updateTasks)
    fix t assume "wf_store env db" "t \<in> set (db_tasks db)" "t_ID t = t_ID (tc_Task tc)"
    then show "task_rel ?iid t (t\<lparr>t_Assignee := u\<rparr>)"
      using distinct_key_eq[OF wf_store_distinct(1) _ mem, of env t] by (simp add: task_rel_def)
  qed (auto dest: wf_parent_row)
  then have "commits env ?iid db db'" unfolding out by blast
  then show ?thesis using that[of "tc_Task tc"] p(2) mem by simp
qed

lemma shiftQueue_commits:
  assumes "live_round iid nid vid db"
  shows "commits env iid db (shiftQueue vid k n db)"
  unfolding shiftQueue_def
proof (rule commits_updateTasks)
  fix t assume wf: "wf_store env db" and t: "t \<in> set (db_tasks db)" "t_VisitID t = vid \<and> k \<le> t_SortOrder t"
  obtain v where v: "v \<in> set (db_visits db)" "v_ID v = vid" "v_InstanceID v = t_InstanceID t"
    using wf t unfolding wf_store_def visits_ok_def by blast
  obtain w where w: "w \<in> set (db_visits db)" "v_ID w = vid" "v_InstanceID w = iid"
    using assms by (auto simp: live_round_def active_of_def)
  have "v = w" by (rule distinct_key_eq[OF wf_store_distinct(2)[OF wf] v(1) w(1)]) (simp add: v(2) w(2))
  then show "task_rel iid t (t\<lparr>t_SortOrder := t_SortOrder t + int n\<rparr>)" using v(3) w(3) by (simp add: task_rel_def)
qed (auto dest: wf_parent_row)

lemma insertAdded_commits:
  assumes "\<forall>t \<in> set ts. t_InstanceID t = iid \<and> live_round iid (t_NodeID t) (t_VisitID t) db
     \<and> (\<forall>n \<in> set (db_nodes db). n_ID n = t_NodeID t \<longrightarrow> works n) \<and> (\<exists>p. t_ParentTaskID t = Some p \<and> (\<exists>r \<in> set (db_tasks db). t_ID r = p \<and> t_InstanceID r = iid))"
  shows "commits env iid db (insertAdded env inst node ts db)"
  using assms
proof (induction ts arbitrary: db)
  case (Cons t ts)
  obtain row db1 where ins: "insertTask env t db = (row, db1)" by fastforce
  note i = insertTask_sel[OF ins]
  obtain evs where rest: "insertAdded env inst node (t # ts) db = insertAdded env inst node ts (EmitEvents evs db1)"
    using ins by (simp add: Let_def)
  have "commits env iid db db1" by (rule commits_insertTask[OF ins]) (use Cons.prems in auto)
  moreover have "commits env iid (EmitEvents evs db1) (insertAdded env inst node ts (EmitEvents evs db1))"
  proof (rule Cons.IH, intro ballI)
    fix u assume "u \<in> set ts"
    with Cons.prems obtain q r where "t_InstanceID u = iid" "live_round iid (t_NodeID u) (t_VisitID u) db"
      "\<forall>n \<in> set (db_nodes db). n_ID n = t_NodeID u \<longrightarrow> works n"
      "t_ParentTaskID u = Some q" "r \<in> set (db_tasks db)" "t_ID r = q" "t_InstanceID r = iid" by auto
    then show "t_InstanceID u = iid \<and> live_round iid (t_NodeID u) (t_VisitID u) (EmitEvents evs db1)
     \<and> (\<forall>n \<in> set (db_nodes (EmitEvents evs db1)). n_ID n = t_NodeID u \<longrightarrow> works n)
     \<and> (\<exists>p. t_ParentTaskID u = Some p \<and> (\<exists>r \<in> set (db_tasks (EmitEvents evs db1)). t_ID r = p \<and> t_InstanceID r = iid))"
      using i by (auto simp: live_round_def)
  qed
  ultimately show ?case unfolding rest using commits_trans[OF commits_emit'] by blast
qed simp

lemma addedTask_sel [simp]:
  "t_InstanceID (addedTask inst task ty sq b d infos i u) = i_ID inst"
  "t_NodeID (addedTask inst task ty sq b d infos i u) = t_NodeID task"
  "t_VisitID (addedTask inst task ty sq b d infos i u) = t_VisitID task"
  "t_ParentTaskID (addedTask inst task ty sq b d infos i u) = Some (t_ID task)"
  by (simp_all add: addedTask_def Let_def)

lemma park_commits:
  assumes own: "wf_store env db \<Longrightarrow> owned iid tid db"
    and pend: "\<And>r. wf_store env db \<Longrightarrow> r \<in> set (db_tasks db) \<Longrightarrow> t_ID r = tid \<Longrightarrow> t_Status r = TaskPending"
  shows "commits env iid db (updateTasks (\<lambda>r. t_ID r = tid) (\<lambda>r. r\<lparr>t_Status := TaskWaiting, t_Deadline := None\<rparr>) db)"
proof (rule commits_updateTasks)
  fix t assume "wf_store env db" "t \<in> set (db_tasks db)" "t_ID t = tid"
  then show "task_rel iid t (t\<lparr>t_Status := TaskWaiting, t_Deadline := None\<rparr>)"
    using own pend by (intro task_rel_status[where s = TaskWaiting]) (auto simp: owned_def task_transitions)
qed (auto dest: wf_parent_row)

text \<open>Shifting the queue keeps the identity and the status of every row.\<close>

lemma shiftQueue_row:
  assumes "r' \<in> set (db_tasks (shiftQueue vid k n db))"
  shows "\<exists>r \<in> set (db_tasks db). t_ID r' = t_ID r \<and> t_Status r' = t_Status r \<and> t_InstanceID r' = t_InstanceID r"
proof -
  from assms have "r' \<in> set (updateWhere (\<lambda>r. t_VisitID r = vid \<and> t_SortOrder r \<ge> k)
      (\<lambda>r. r\<lparr>t_SortOrder := t_SortOrder r + int n\<rparr>) (db_tasks db))"
    by (simp add: shiftQueue_def updateTasks_def)
  then obtain r where "r \<in> set (db_tasks db)"
    "r' = (if t_VisitID r = vid \<and> t_SortOrder r \<ge> k then r\<lparr>t_SortOrder := t_SortOrder r + int n\<rparr> else r)"
    by (rule updateWhere_memE)
  then show ?thesis by (intro bexI[of _ r]) auto
qed

lemma insertAssignees_commits:
  assumes wf: "wf_store env db" and se: "settled (i_ID inst) db" and mem: "task \<in> set (db_tasks db)"
    and iid: "t_InstanceID task = i_ID inst" and pend: "t_Status task = TaskPending"
    and live: "live_round (i_ID inst) (t_NodeID task) (t_VisitID task) db"
  shows "commits env (i_ID inst) db (insertAssignees env cmd inst task node base us db)"
proof -
  let ?iid = "i_ID inst" and ?seq = "n_ApprovalMethod node = ApprovalSequential"
    and ?before = "aa_AddType cmd = AddAssigneeBefore"
  define db1 where "db1 = (if ?seq then shiftQueue (t_VisitID task)
      (if aa_AddType cmd = AddAssigneeAfter then t_SortOrder task + 1 else t_SortOrder task) (length us) db else db)"
  define db2 where "db2 = (if ?before then updateTasks (\<lambda>r. t_ID r = t_ID task)
      (\<lambda>r. r\<lparr>t_Status := TaskWaiting, t_Deadline := None\<rparr>) db1 else db1)"
  define task1 where "task1 = (if ?before then task\<lparr>t_Status := TaskWaiting, t_Deadline := None\<rparr> else task)"
  define ts where "ts = map (\<lambda>(i, u). addedTask inst task1 (aa_AddType cmd) ?seq
      (if ?seq then (if aa_AddType cmd = AddAssigneeAfter then t_SortOrder task + 1 else t_SortOrder task) else base + 1)
      (ComputeTaskDeadline env (n_TimeoutHours node)) (ResolveUserInfoMapSilent env us) i u) (List.enumerate 0 us)"
  have "\<exists>evs l. insertAssignees env cmd inst task node base us db
      = EmitEvents evs (addLog env l (insertAdded env inst node ts db2))"
    unfolding insertAssignees_def Let_def ts_def task1_def db2_def db1_def
    by (cases ?before; simp; blast)
  then obtain evs l where out: "insertAssignees env cmd inst task node base us db
      = EmitEvents evs (addLog env l (insertAdded env inst node ts db2))" by blast
  have ts: "\<forall>t \<in> set ts. t_InstanceID t = ?iid \<and> t_NodeID t = t_NodeID task \<and> t_VisitID t = t_VisitID task
        \<and> t_ParentTaskID t = Some (t_ID task)"
    by (auto simp: ts_def task1_def)
  have c1: "commits env ?iid db db1" using shiftQueue_commits[OF live] by (simp add: db1_def)
  have step1: "wf_store env db1 \<and> store_step ?iid db db1" using c1 wf se by (simp add: commits_def)
  have row1: "\<exists>r0 \<in> set (db_tasks db). t_ID r = t_ID r0 \<and> t_Status r = t_Status r0 \<and> t_InstanceID r = t_InstanceID r0"
    if "r \<in> set (db_tasks db1)" for r
  proof (cases ?seq)
    case True
    then show ?thesis using that unfolding db1_def if_P[OF True] by (rule_tac shiftQueue_row)
  next
    case False
    then show ?thesis using that unfolding db1_def if_not_P[OF False] by blast
  qed
  have task1: "t_Status r = TaskPending \<and> t_InstanceID r = ?iid" if r: "r \<in> set (db_tasks db1)" "t_ID r = t_ID task" for r
  proof -
    obtain r0 where r0: "r0 \<in> set (db_tasks db)" "t_ID r = t_ID r0" "t_Status r = t_Status r0" "t_InstanceID r = t_InstanceID r0"
      using row1[OF r(1)] by blast
    have "r0 = task" by (rule distinct_key_eq[OF wf_store_distinct(1)[OF wf] r0(1) mem]) (use r r0 in simp)
    then show ?thesis using r0 pend iid by simp
  qed
  have c2: "commits env ?iid db1 db2" unfolding db2_def using task1 by (simp add: park_commits owned_def)
  have "commits env ?iid db2 (insertAdded env inst node ts db2)"
  proof (rule insertAdded_commits)
    have vis: "db_visits db2 = db_visits db" by (simp add: db2_def db1_def shiftQueue_def updateTasks_def)
    have "store_step ?iid db db2" using commits_trans[OF c1 c2] wf se by (simp add: commits_def)
    moreover from this have nodes: "db_nodes db2 = db_nodes db" by (simp add: store_step_def same_config_def)
    ultimately have "store_step ?iid db db2" by simp
    from row_kept[OF this mem] obtain r where "r \<in> set (db_tasks db2)" "t_ID r = t_ID task" "t_InstanceID r = ?iid"
      using iid by auto
    then show "\<forall>t \<in> set ts. t_InstanceID t = ?iid \<and> live_round ?iid (t_NodeID t) (t_VisitID t) db2
     \<and> (\<forall>n \<in> set (db_nodes db2). n_ID n = t_NodeID t \<longrightarrow> works n) \<and> (\<exists>p. t_ParentTaskID t = Some p \<and> (\<exists>r \<in> set (db_tasks db2). t_ID r = p \<and> t_InstanceID r = ?iid))"
      using ts live live_round_cong[OF vis] wf_hosts[OF wf mem] nodes by auto
  qed
  from commits_trans[OF commits_trans[OF c1 c2] this] show ?thesis unfolding out by blast
qed

lemma AddAssignee_commits:
  assumes "AddAssignee_Handle env cmd db = Inr db'"
  obtains task where "task \<in> set (db_tasks db)" "t_ID task = aa_TaskID cmd" "commits env (t_InstanceID task) db db'"
proof -
  define opts where "opts = \<lparr>lo_OperatorID = u_ID (aa_Operator cmd), lo_RequireOperatorAssignee = True,
      lo_RequireTaskPending = True, lo_RequireCurrentNode = True, lo_Caller = aa_Caller cmd\<rparr>"
  have opts: "lo_RequireCurrentNode opts" "lo_RequireTaskPending opts" by (simp_all add: opts_def)
  obtain tc where pre: "loadContext (aa_TaskID cmd) opts db = Inr tc"
    and out: "db' = db \<or> (\<exists>base us. db' = insertAssignees env cmd (tc_Instance tc) (tc_Task tc) (tc_Node tc) base us db)"
    using assms unfolding AddAssignee_Handle_def Let_def LoadTaskContextForNodeOperation_def opts_def[symmetric]
    by (auto split: if_splits) blast+
  note p = loadContext_run[OF pre]
  have c: "tc_Task tc \<in> set (db_tasks db)" "t_InstanceID (tc_Task tc) = i_ID (tc_Instance tc)"
    using p(1) by (auto simp: ctx_ok_def)
  have "commits env (i_ID (tc_Instance tc)) db db'"
  proof (rule commits_ctx)
    assume wf: "wf_store env db" and se: "settled (i_ID (tc_Instance tc)) db"
    note live = ctx_live_round[OF p(1) p(5)[OF opts(1)] p(3)[OF opts(2)] wf se]
    show "commits env (i_ID (tc_Instance tc)) db db'"
      using out insertAssignees_commits[OF wf se c p(3)[OF opts(2)] live] by auto
  qed
  then show ?thesis using that[of "tc_Task tc"] p(2) c by simp
qed

section \<open>Carbon copies and urging\<close>

lemma settled_same:
  assumes "db_tasks db' = db_tasks db" "db_visits db' = db_visits db" "db_instances db' = db_instances db"
  shows "settled iid db' = settled iid db"
  by (simp add: settled_def running_at_def open_at_def idle_def quiet_def assms)

lemma markRead_commits:
  assumes "\<And>r. r \<in> set rs \<Longrightarrow> r \<in> set (db_ccs db) \<and> cc_InstanceID r = iid \<and> cc_ReadAt r = None"
  shows "commits env iid db (db\<lparr>db_ccs := updateWhere (\<lambda>r. cc_ID r \<in> set (map cc_ID rs))
      (\<lambda>r. r\<lparr>cc_ReadAt := Some (env_now env)\<rparr>) (db_ccs db)\<rparr>)" (is "commits env iid db ?db'")
proof (rule commitsI)
  have "store_step iid db ?db'" if wf: "wf_store env db"
  proof -
    have "cc_rel iid r (r\<lparr>cc_ReadAt := Some (env_now env)\<rparr>)" if r: "r \<in> set (db_ccs db)" "cc_ID r \<in> set (map cc_ID rs)" for r
    proof -
      obtain x where x: "x \<in> set rs" "cc_ID x = cc_ID r" using r(2) by auto
      then have "x = r" using distinct_key_eq[OF wf_store_distinct(4)[OF wf] _ r(1)] assms[OF x(1)] by blast
      then show ?thesis using assms[OF x(1)] by (auto simp: cc_rel_def)
    qed
    then show ?thesis unfolding store_step_def same_config_def by (simp add: rows_evolve_update)
  qed
  moreover have "wf_store env ?db'" if "wf_store env db"
    by (rule wf_store_unchanged[OF that]) (simp_all add: map_updateWhere_key)
  ultimately show "evolves env iid db ?db'" by (simp add: evolves_def)
  show "settled iid db \<Longrightarrow> settled iid ?db'" by (subst settled_same) simp_all
qed

lemma running_instance_at_node:
  assumes "wf_store env db" and "settled (i_ID inst) db" and "inst \<in> set (db_instances db)"
    and "i_Status inst = InstanceRunning" and "i_CurrentNodeID inst = Some nid"
  shows "at_node env inst nid db"
proof -
  have "running_at (i_ID inst) (Some nid) db" using assms by (auto simp: settled_def)
  then show ?thesis using assms by (auto simp: at_node_def mirrors_def)
qed

lemma AdvanceCCNodeIfAllRead_commits:
  assumes "AdvanceCCNodeIfAllRead env iid records db = Inr db'"
  shows "commits env iid db db'"
proof (cases "db' = db")
  case False
  then obtain inst cur node db1 inst' where s: "findInstance iid db = Some inst" "i_Status inst = InstanceRunning"
    "i_CurrentNodeID inst = Some cur" "ConcludeActiveNodeVisit env iid cur NodeVisitPassed db = Inr db1"
    "AdvanceToNextNode env inst node None db1 = Inr (inst', db')"
    "findNode cur db = Some node" "n_Kind node = NodeCC"
    using assms unfolding AdvanceCCNodeIfAllRead_def Let_def by (auto split: if_splits option.splits)
  have i: "inst \<in> set (db_instances db)" "i_ID inst = iid" using s(1) by (auto simp: findInstance_def dest: find_row)
  show ?thesis
  proof (rule commits_ctx)
    assume wf: "wf_store env db" and se: "settled iid db"
    have at: "at_node env inst cur db" using running_instance_at_node[OF wf _ i(1) s(2,3)] se i(2) by simp
    then have ra: "running_at iid (Some cur) db" using i(2) by (simp add: at_node_def)
    note c = ConcludeActiveNodeVisit_run[OF s(4) _ ra, simplified]
    have "quiet iid db"
      unfolding quiet_def
    proof (intro ballI impI)
      fix t assume t: "t \<in> set (db_tasks db)" "t_InstanceID t = iid"
      have n: "node \<in> set (db_nodes db)" "n_ID node = cur" using s(6) by (auto simp: findNode_def dest: find_row)
      show "\<not> cancelable (t_Status t)"
      proof
        assume "cancelable (t_Status t)"
        then have "t_NodeID t = cur" using ra t by (auto simp: running_at_def open_at_def)
        then have "works node" using wf_hosts[OF wf t(1)] n by simp
        then show False using s(7) by (simp add: works_def)
      qed
    qed
    then have "enterable env inst db1"
      using c evolves_fresh[OF c(1) wf] at i(2) mirrors_cong[OF c(4)] by (simp add: enterable_def at_node_def quiet_def)
    from left_by_prefix[OF _ AdvanceToNextNode_left[OF s(5) this]] c(1) i(2)
    have "left_by env inst db inst' db'" by simp
    from commits_left[OF this] show "commits env iid db db'" by (simp add: i(2))
  qed
qed simp

lemma MarkCCRead_commits:
  assumes "MarkCCRead_Handle env iid userID caller db = Inr db'"
  shows "commits env iid db db'"
proof (cases "db' = db")
  case False
  let ?rs = "filter (\<lambda>r. cc_InstanceID r = iid \<and> u_ID (cc_User r) = userID \<and> cc_ReadAt r = None) (db_ccs db)"
  from False have adv: "AdvanceCCNodeIfAllRead env iid ?rs (db\<lparr>db_ccs := updateWhere (\<lambda>r. cc_ID r \<in> set (map cc_ID ?rs))
      (\<lambda>r. r\<lparr>cc_ReadAt := Some (env_now env)\<rparr>) (db_ccs db)\<rparr>) = Inr db'"
    using assms unfolding MarkCCRead_Handle_def Let_def by (auto split: option.splits if_splits)
  show ?thesis by (rule commits_trans[OF markRead_commits AdvanceCCNodeIfAllRead_commits[OF adv]]) auto
qed simp

lemma AddCC_commits:
  assumes "AddCC_Handle env iid us operator caller db = Inr db'"
  shows "commits env iid db db'"
proof (cases "db' = db")
  case False
  obtain cur vid us' infos ids db1 where
    ins: "InsertCCRecords env iid cur vid us' infos True db = (ids, db1)" and out: "commits env iid db1 db'"
    using assms False unfolding AddCC_Handle_def Let_def InsertManualCCRecords_def
    by (auto split: if_splits option.splits prod.splits) (blast intro: commits_emit'[OF commits_log])+
  have "tasks_only env iid db db1" using node_local_ccs[OF ins] by (auto simp: tasks_only_def open_at_def)
  from commits_trans[OF commits_tasks_only[OF this] out] show ?thesis .
qed simp

lemma UrgeTask_commits:
  assumes "UrgeTask_Handle env tid urger msg caller db = Inr db'"
  obtains task where "task \<in> set (db_tasks db)" "t_ID task = tid" "commits env (t_InstanceID task) db db'"
proof -
  obtain task u evs where f: "findTask tid db = Some task"
    and out: "db' = EmitEvents evs (db\<lparr>db_urges := db_urges db @ [u]\<rparr>)" and u: "ur_InstanceID u = t_InstanceID task"
    using assms unfolding UrgeTask_Handle_def Let_def by auto
  let ?db1 = "db\<lparr>db_urges := db_urges db @ [u]\<rparr>"
  have "commits env (t_InstanceID task) db ?db1"
  proof (rule commitsI)
    have "wf_store env db \<Longrightarrow> wf_store env ?db1" by (rule wf_store_unchanged) simp_all
    moreover have "store_step (t_InstanceID task) db ?db1"
      unfolding store_step_def same_config_def using u by (simp add: rows_evolve_append1)
    ultimately show "evolves env (t_InstanceID task) db ?db1" by (simp add: evolves_def)
  qed (subst settled_same, simp_all)
  then have "commits env (t_InstanceID task) db db'" unfolding out by blast
  moreover have "task \<in> set (db_tasks db)" "t_ID task = tid" using f by (auto simp: findTask_def dest: find_row)
  ultimately show ?thesis using that by blast
qed

section \<open>Starting an instance\<close>

lemma insertInstance_run:
  assumes ins: "insertInstance env i db = (inst, db')" and wf: "wf_store env db"
  shows "wf_store env db'" "store_step (i_ID inst) db db'" "quiet (i_ID inst) db'" "idle (i_ID inst) db'"
    "inst \<in> set (db_instances db')" "inst = i\<lparr>i_ID := env_new_id env (db_next_id db)\<rparr>"
    "i_ID inst \<notin> i_ID ` set (db_instances db)"
proof -
  have inst: "inst = i\<lparr>i_ID := env_new_id env (db_next_id db)\<rparr>"
    and db': "db' = db\<lparr>db_next_id := Suc (db_next_id db), db_instances := db_instances db @ [inst]\<rparr>"
    using ins by (auto simp: insertInstance_def allocId_def Let_def)
  note d = wf_store_distinct[OF wf]
  show new: "i_ID inst \<notin> i_ID ` set (db_instances db)" using d(7) by (simp add: inst)
  have novisit: "v_InstanceID v \<noteq> i_ID inst" if "v \<in> set (db_visits db)" for v
    using wf that new unfolding wf_store_def owners_ok_def by metis
  have notask: "t_InstanceID t \<noteq> i_ID inst" if "t \<in> set (db_tasks db)" for t
    using wf that novisit unfolding wf_store_def visits_ok_def by metis
  show "wf_store env db'"
    by (rule wf_store_insert[OF wf]) (use d in \<open>auto simp: db' inst used_ids_def owners_ok_def\<close>)
  show "store_step (i_ID inst) db db'"
    unfolding store_step_def same_config_def by (simp add: db' rows_evolve_append1)
  show "quiet (i_ID inst) db'" "idle (i_ID inst) db'"
    using novisit notask by (auto simp: quiet_def idle_def active_of_def db')
  show "inst \<in> set (db_instances db')" "inst = i\<lparr>i_ID := env_new_id env (db_next_id db)\<rparr>"
    by (simp_all add: db' inst)
qed

text \<open>Writing a column of the instance's own row that neither its status nor its version depends on.\<close>

definition annotates :: "env \<Rightarrow> Instance \<Rightarrow> db \<Rightarrow> Instance \<Rightarrow> db \<Rightarrow> bool" where
  "annotates env inst db inst' db' \<longleftrightarrow> evolves env (i_ID inst) db db' \<and> db_tasks db' = db_tasks db
     \<and> db_visits db' = db_visits db \<and> i_ID inst' = i_ID inst \<and> i_Status inst' = i_Status inst
     \<and> (mirrors inst db \<longrightarrow> mirrors inst' db')"

lemma annotates_refl: "annotates env inst db inst db"
  by (simp add: annotates_def)

lemma annotates_trans:
  "annotates env i db i' db' \<Longrightarrow> annotates env i' db' i'' db'' \<Longrightarrow> annotates env i db i'' db''"
  unfolding annotates_def by (metis evolves_trans)

lemma annotates_update:
  assumes f: "\<And>r. i_ID (f r) = i_ID r \<and> i_TenantID (f r) = i_TenantID r \<and> i_FlowID (f r) = i_FlowID r
      \<and> i_FlowVersionID (f r) = i_FlowVersionID r \<and> i_Applicant (f r) = i_Applicant r \<and> i_Status (f r) = i_Status r"
    and id: "iid = i_ID inst"
  shows "annotates env inst db (f inst) (updateInstances (\<lambda>r. i_ID r = iid) f db)"
proof -
  have "evolves env (i_ID inst) db (updateInstances (\<lambda>r. i_ID r = iid) f db)"
    unfolding id by (intro evolves_updateInstances) (auto simp: instance_rel_def f)
  moreover have "mirrors (f inst) (updateInstances (\<lambda>r. i_ID r = iid) f db)" if m: "mirrors inst db"
  proof -
    obtain r where r: "r \<in> set (db_instances db)" "i_ID r = i_ID inst" "i_Status r = i_Status inst"
      "i_FlowVersionID r = i_FlowVersionID inst" using m by (auto simp: mirrors_def)
    have "f r \<in> set (updateWhere (\<lambda>r. i_ID r = i_ID inst) f (db_instances db))"
      by (rule updateWhere_hit) (use r in simp_all)
    then show ?thesis unfolding mirrors_def id using r f by (intro bexI[of _ "f r"]) simp_all
  qed
  ultimately show ?thesis by (simp add: annotates_def f)
qed

lemma bindBusiness_annotates:
  assumes "bindBusiness env flow version inst db = Inr (inst', db')"
  shows "annotates env inst db inst' db'"
proof (cases "fv_BusinessBinding version = None")
  case False
  let ?ref = "\<lambda>x r. r\<lparr>i_BusinessRef := Some x\<rparr>" and ?pid = "\<lambda>x r. r\<lparr>i_BusinessProjectionID := Some x\<rparr>"
  let ?upd = "updateInstances (\<lambda>r. i_ID r = i_ID inst)"
  obtain ref where ref: "env_business_ref env db flow version inst = Inr ref"
    using assms False by (auto simp: bindBusiness_def)
  define al where "al = (trimSpace ref \<noteq> [] \<and> (case i_BusinessRef inst of None \<Rightarrow> True | Some r \<Rightarrow> trimSpace r = []))"
  define i1 where "i1 = (if al then ?ref (trimSpace ref) inst else inst)"
  define db1 where "db1 = (if al then ?upd (?ref (trimSpace ref)) db else db)"
  have res: "(case env_bind_projection env of None \<Rightarrow> Inr (i1, db1)
      | Some bind \<Rightarrow> bindE (bind db1 flow version i1) (\<lambda>p. Inr (?pid p i1, ?upd (?pid p) db1))) = Inr (inst', db')"
    using assms False unfolding bindBusiness_def ref Let_def bindE_simps al_def[symmetric] i1_def[symmetric] db1_def[symmetric]
    by (simp only: if_False)
  have two: "inst' = i1 \<and> db' = db1 \<or> (\<exists>p. inst' = ?pid p i1 \<and> db' = ?upd (?pid p) db1)"
    using res by (auto split: option.splits)
  have one: "i1 = inst \<and> db1 = db \<or> (\<exists>x. i1 = ?ref x inst \<and> db1 = ?upd (?ref x) db)"
    by (auto simp: i1_def db1_def)
  have a1: "annotates env inst db i1 db1"
    using one annotates_refl annotates_update[of "?ref x" for x] by auto
  then have id: "i_ID inst = i_ID i1" by (simp add: annotates_def)
  have "annotates env i1 db1 inst' db'"
    using two annotates_refl annotates_update[of "?pid p" "i_ID inst" i1 for p] id by auto
  with a1 show ?thesis by (rule annotates_trans)
qed (use assms in \<open>simp add: bindBusiness_def annotates_refl\<close>)

lemma bindBusiness_run:
  assumes "bindBusiness env flow version inst db = Inr (inst', db')"
  shows "evolves env (i_ID inst) db db'" "db_tasks db' = db_tasks db" "db_visits db' = db_visits db"
    "i_ID inst' = i_ID inst" "i_Status inst' = i_Status inst" "mirrors inst db \<Longrightarrow> mirrors inst' db'"
  using bindBusiness_annotates[OF assms] by (simp_all add: annotates_def)

lemma StartInstance_commits:
  assumes "StartInstance_Handle env cmd db = Inr (inst, db')" and wf: "wf_store env db"
  shows "commits env (i_ID inst) db db'" "i_ID inst \<notin> i_ID ` set (db_instances db)"
proof -
  obtain i0 inst0 db1 flow version inst1 db0 db2 l where ins: "insertInstance env i0 db = (inst0, db1)"
    and st: "i_Status i0 = InstanceRunning"
    and bnd: "bindBusiness env flow version inst0 db1 = Inr (inst1, db0)"
    and rp: "reprojected db0 db2"
    and run: "StartProcess env inst1 (EmitEvents [InstanceCreatedEvent inst1] (addLog env l db2)) = Inr (inst, db')"
    using assms(1) unfolding StartInstance_Handle_def Let_def
    by (auto split: prod.splits dest!: syncProjection_reprojected)
  note i = insertInstance_run[OF ins wf] and b0 = bindBusiness_run[OF bnd]
  have b: "evolves env (i_ID inst0) db1 db2" "db_tasks db2 = db_tasks db1" "db_visits db2 = db_visits db1"
    "i_ID inst1 = i_ID inst0" "i_Status inst1 = i_Status inst0" "mirrors inst0 db1 \<Longrightarrow> mirrors inst1 db2"
    using evolves_trans[OF b0(1) evolves_reprojected[OF rp]] b0(2-6) reprojected_fields[OF rp] by (simp_all add: mirrors_def)
  let ?db3 = "EmitEvents [InstanceCreatedEvent inst1] (addLog env l db2)"
  let ?iid = "i_ID inst0"
  have t: "tasks_only env ?iid db2 ?db3" using tasks_only_trans[OF tasks_only_log tasks_only_emit] .
  have e3: "evolves env ?iid db1 ?db3" using evolves_trans[OF b(1) tasks_only_evolves[OF t]] .
  have m: "mirrors inst0 db1" using i(5) by (auto simp: mirrors_def)
  have "enterable env inst1 ?db3"
    unfolding enterable_def using evolves_fresh[OF e3 i(1)] i(3,4,6) b(2-6) m st
    by (auto simp: quiet_def idle_def mirrors_def addLog_def)
  from StartProcess_left[OF run this] have l: "left_by env inst1 ?db3 inst db'" .
  have id: "i_ID inst = ?iid" using l b(4) by (simp add: left_by_def)
  have wf3: "wf_store env ?db3" "store_step ?iid db1 ?db3" using e3 i(1) by (auto simp: evolves_def)
  have wf4: "wf_store env db'" "store_step ?iid ?db3 db'" "settled ?iid db'"
    using l wf3(1) b(4) by (auto simp: left_by_def evolves_def)
  show "commits env (i_ID inst) db db'"
    unfolding id commits_def using wf4 store_step_trans[OF store_step_trans[OF i(2) wf3(2)] wf4(2)] by blast
  show "i_ID inst \<notin> i_ID ` set (db_instances db)" using i(7) id by simp
qed

section \<open>The timeout scanner\<close>

text \<open>A pending task pins its instance: it is running, and at the task's node and visit.\<close>

lemma pending_at_node:
  assumes wf: "wf_store env db" and se: "settled (i_ID inst) db" and i: "inst \<in> set (db_instances db)"
    and t: "t \<in> set (db_tasks db)" "t_InstanceID t = i_ID inst" "t_Status t = TaskPending"
  shows "at_node env inst (t_NodeID t) db" "i_CurrentNodeID inst = Some (t_NodeID t)"
    "i_Status inst = InstanceRunning" "live_round (i_ID inst) (t_NodeID t) (t_VisitID t) db"
proof -
  have op: "cancelable (t_Status t)" using t(3) by (simp add: cancelable_def)
  then have "\<not> quiet (i_ID inst) db" using t by (auto simp: quiet_def)
  then show st: "i_Status inst = InstanceRunning" using se i unfolding settled_def by metis
  then have "running_at (i_ID inst) (i_CurrentNodeID inst) db" using se i unfolding settled_def by metis
  then obtain v where v: "v \<in> set (db_visits db)" "active_of (i_ID inst) v" "i_CurrentNodeID inst = Some (v_NodeID v)"
    "open_at (i_ID inst) (v_NodeID v) (v_ID v) db" unfolding running_at_def by blast
  have tv: "t_NodeID t = v_NodeID v" "t_VisitID t = v_ID v" using v(4) t op by (auto simp: open_at_def)
  show cur: "i_CurrentNodeID inst = Some (t_NodeID t)" using v(3) tv by simp
  show "at_node env inst (t_NodeID t) db" using running_instance_at_node[OF wf se i st cur] .
  show "live_round (i_ID inst) (t_NodeID t) (t_VisitID t) db" using v tv by (auto simp: live_round_def)
qed

lemma autoFinishTask_commits:
  assumes run: "autoFinishTask env task inst node pass db = Inr (evs, db')"
    and i: "inst \<in> set (db_instances db)" and t: "task \<in> set (db_tasks db)" "t_InstanceID task = i_ID inst"
      "t_Status task = TaskPending" and n: "n_ID node = t_NodeID task"
  shows "commits env (i_ID inst) db db'"
proof (rule commits_ctx)
  let ?iid = "i_ID inst"
  assume wf: "wf_store env db" and se: "settled ?iid db"
  obtain st ev task' db1 acts db3 ds as completions inst' db4 l where
    fin: "FinishTask env task st db = Inr (task', db1)"
    and act: "ActivateDependentTasks env inst node task' (EmitEvents [ev] db1) = Inr (acts, db3)"
    and hn: "HandleNodeCompletion env inst node (EmitEvents ds db3) = Inr (completions, inst', db4)"
    and out: "db' = addLog env l db4"
    using run unfolding autoFinishTask_def Let_def by (auto split: prod.splits)
  have t3: "tasks_only env ?iid db db3" by (rule finish_activate_run(1)[OF fin wf t(1,2) act]) simp
  have t4: "tasks_only env ?iid db (EmitEvents ds db3)" using tasks_only_trans[OF t3 tasks_only_emit] .
  have "at_node env inst (n_ID node) (EmitEvents ds db3)"
    using at_node_tasks_only[OF pending_at_node(1)[OF wf se i t] t4] n by simp
  from left_by_prefix[OF tasks_only_evolves[OF t4] HandleNodeCompletion_left[OF this hn]]
  have "left_by env inst db inst' db4" by simp
  from commits_left[OF this] show "commits env ?iid db db'" unfolding out by blast
qed

lemma adminTask_sel [simp]:
  "t_InstanceID (adminTask env task node a) = t_InstanceID task" "t_NodeID (adminTask env task node a) = t_NodeID task"
  "t_VisitID (adminTask env task node a) = t_VisitID task"
  "t_ParentTaskID (adminTask env task node a) = t_ParentTaskID task"
  by (simp_all add: adminTask_def)

lemma createAdminTasks_commits:
  assumes "createAdminTasks env task inst node infos us db = (evs, ids, db')" and "t_InstanceID task = iid"
    and "live_round iid (t_NodeID task) (t_VisitID task) db"
    and "\<And>p. t_ParentTaskID task = Some p \<Longrightarrow> \<exists>r \<in> set (db_tasks db). t_ID r = p \<and> t_InstanceID r = iid"
    and "\<forall>n \<in> set (db_nodes db). n_ID n = t_NodeID task \<longrightarrow> works n"
  shows "commits env iid db db' \<and> length ids = length us
    \<and> (\<forall>x \<in> set ids. \<exists>r \<in> set (db_tasks db'). t_ID r = x \<and> t_InstanceID r = iid)
    \<and> (\<forall>r \<in> set (db_tasks db). r \<in> set (db_tasks db'))"
  using assms
proof (induction us arbitrary: db evs ids)
  case (Cons u us)
  obtain row db1 l evs2 ids2 where ins: "insertTask env (adminTask env task node (infoOf infos u)) db = (row, db1)"
    and rest: "createAdminTasks env task inst node infos us (addLog env l db1) = (evs2, ids2, db')"
    and ids: "ids = t_ID row # ids2"
    using Cons.prems(1) by (auto simp: Let_def split: prod.splits)
  note i = insertTask_sel[OF ins]
  have c1: "commits env iid db (addLog env l db1)"
    by (rule commits_log', rule commits_insertTask[OF ins]) (use Cons.prems in auto)
  have ih: "commits env iid (addLog env l db1) db' \<and> length ids2 = length us
    \<and> (\<forall>x \<in> set ids2. \<exists>r \<in> set (db_tasks db'). t_ID r = x \<and> t_InstanceID r = iid)
    \<and> (\<forall>r \<in> set (db_tasks (addLog env l db1)). r \<in> set (db_tasks db'))"
    by (rule Cons.IH[OF rest Cons.prems(2)])
      (use Cons.prems(3-5) i in \<open>auto simp: addLog_def live_round_def\<close>)
  have row: "row \<in> set (db_tasks db')" "t_InstanceID row = iid" using ih i Cons.prems(2) by (auto simp: addLog_def)
  have old: "\<forall>r \<in> set (db_tasks db). r \<in> set (db_tasks db')" using ih i by (auto simp: addLog_def)
  show ?case using commits_trans[OF c1] ih ids row old by auto
qed simp

lemma transferToAdmin_commits:
  assumes run: "transferToAdmin env task inst node db = Inr (evs, db')"
    and i: "inst \<in> set (db_instances db)" and t: "task \<in> set (db_tasks db)" "t_InstanceID task = i_ID inst"
      "t_Status task = TaskPending"
  shows "commits env (i_ID inst) db db'"
proof (cases "eligibleAdmins task node db")
  case Nil
  then show ?thesis using run by (auto simp: transferToAdmin_def)
next
  case (Cons a rest)
  let ?iid = "i_ID inst" and ?us = "a # rest"
  obtain task' db1 infos ids db2 where fin: "FinishTask env task TaskTransferred db = Inr (task', db1)"
    and mk: "createAdminTasks env task' inst node infos ?us db1 = (evs, ids, db2)"
    and out: "db' = RepointAddAssigneeChildren (t_ID task') (hd ids) (t_InstanceID task') db2"
    using run Cons unfolding transferToAdmin_def Let_def by (auto split: prod.splits simp del: createAdminTasks.simps)
  show ?thesis
  proof (rule commits_ctx)
    assume wf: "wf_store env db" and se: "settled ?iid db"
    note own = owned_row[OF wf t(1,2)]
    note f = FinishTask_run[OF fin own]
    have step: "store_step ?iid db db1" using tasks_only_evolves[OF f(1)] wf by (simp add: evolves_def)
    have iid': "t_InstanceID task' = ?iid" using f(3) t(2) by simp
    have mk': "commits env ?iid db1 db2 \<and> length ids = length ?us
      \<and> (\<forall>x \<in> set ids. \<exists>r \<in> set (db_tasks db2). t_ID r = x \<and> t_InstanceID r = ?iid)
      \<and> (\<forall>r \<in> set (db_tasks db1). r \<in> set (db_tasks db2))"
    proof (rule createAdminTasks_commits[OF mk iid'])
      show "live_round ?iid (t_NodeID task') (t_VisitID task') db1"
        unfolding f(4,5) live_round_cong[OF conjunct1[OF tasks_only_sel[OF f(1)]]]
        by (rule pending_at_node(4)[OF wf se i t])
    next
      fix p assume "t_ParentTaskID task' = Some p"
      then have "t_ParentTaskID task = Some p" by (simp add: f(7))
      from wf_parent_row[OF wf t(1) this] obtain r where "r \<in> set (db_tasks db)" "t_ID r = p" "t_InstanceID r = ?iid"
        using t(2) by auto
      with row_kept[OF step] show "\<exists>r \<in> set (db_tasks db1). t_ID r = p \<and> t_InstanceID r = ?iid" by metis
    next
      show "\<forall>n \<in> set (db_nodes db1). n_ID n = t_NodeID task' \<longrightarrow> works n"
        unfolding f(4) using wf_hosts[OF wf t(1)] step by (simp add: store_step_def same_config_def)
    qed
    then have "hd ids \<in> set ids" by (cases ids) simp_all
    then obtain r where r: "r \<in> set (db_tasks db2)" "t_ID r = hd ids" "t_InstanceID r = ?iid" using mk' by blast
    have "commits env ?iid db2 db'"
      unfolding out iid' by (rule RepointAddAssigneeChildren_commits[OF r])
    then show "commits env ?iid db db'"
      using commits_trans[OF commits_trans[OF commits_tasks_only[OF f(1)]]] mk' by blast
  qed
qed

lemma executeTimeoutAction_commits:
  assumes "executeTimeoutAction env task inst node db = Inr (evs, db')"
    and "inst \<in> set (db_instances db)" and "task \<in> set (db_tasks db)" "t_InstanceID task = i_ID inst"
      "t_Status task = TaskPending" and "n_ID node = t_NodeID task"
  shows "commits env (i_ID inst) db db'"
  using assms autoFinishTask_commits[OF _ assms(2-6)] transferToAdmin_commits[OF _ assms(2-5)]
  by (auto simp: executeTimeoutAction_def split: TimeoutAction.splits)

lemma flag_commits:
  assumes "\<And>t. wf_store env db \<Longrightarrow> t \<in> set (db_tasks db) \<Longrightarrow> P t \<Longrightarrow> t_InstanceID t = iid"
    and "\<And>t. t_ID (f t) = t_ID t \<and> t_TenantID (f t) = t_TenantID t \<and> t_InstanceID (f t) = t_InstanceID t
        \<and> t_NodeID (f t) = t_NodeID t \<and> t_VisitID (f t) = t_VisitID t \<and> t_Status (f t) = t_Status t
        \<and> t_ParentTaskID (f t) = t_ParentTaskID t"
  shows "commits env iid db (updateTasks P f db)"
  by (rule commits_updateTasks) (use assms in \<open>auto simp: task_rel_def dest: wf_parent_row\<close>)

lemma processTimeout_commits:
  assumes run: "processTimeout env task db = Inr db'" and mem: "task \<in> set (db_tasks db)" and wf: "wf_store env db"
  shows "commits env (t_InstanceID task) db db'"
proof (cases "db' = db")
  case False
  let ?iid = "t_InstanceID task"
  obtain inst fresh node evs db2 where s: "findInstance ?iid db = Some inst" "findTask (t_ID task) db = Some fresh"
    "t_Status fresh = TaskPending" "findNode (t_NodeID fresh) db = Some node"
    "executeTimeoutAction env (fresh\<lparr>t_IsTimeout := True\<rparr>) inst node
       (updateTasks (\<lambda>r. t_ID r = t_ID fresh) (\<lambda>r. r\<lparr>t_IsTimeout := True\<rparr>) db) = Inr (evs, db2)"
    "db' = EmitEvents evs db2"
    using run False unfolding processTimeout_def Let_def by (auto split: if_splits)
  have f: "fresh \<in> set (db_tasks db)" "t_ID fresh = t_ID task" using s(2) by (auto simp: findTask_def dest: find_row)
  then have eq: "fresh = task" using distinct_key_eq[OF wf_store_distinct(1)[OF wf] _ mem] by blast
  have i: "inst \<in> set (db_instances db)" "i_ID inst = ?iid" using s(1) by (auto simp: findInstance_def dest: find_row)
  have n: "n_ID node = t_NodeID fresh" using s(4) by (auto simp: findNode_def dest: find_row)
  let ?db1 = "updateTasks (\<lambda>r. t_ID r = t_ID fresh) (\<lambda>r. r\<lparr>t_IsTimeout := True\<rparr>) db"
  have c1: "commits env ?iid db ?db1"
    by (rule flag_commits) (use owned_row[OF wf mem refl] eq in \<open>auto simp: owned_def\<close>)
  have hit: "fresh\<lparr>t_IsTimeout := True\<rparr> \<in> set (db_tasks ?db1)"
    unfolding updateTasks_def using updateWhere_hit[OF f(1)] by simp
  have "commits env (i_ID inst) ?db1 db2"
    by (rule executeTimeoutAction_commits[OF s(5)])
      (use hit i n s(3) eq in \<open>auto simp: updateTasks_def\<close>)
  with c1 show ?thesis unfolding s(6) i(2) using commits_trans commits_emit' by blast
qed simp

lemma sendPreWarning_commits:
  assumes run: "sendPreWarning env task h db = Inr db'" and mem: "task \<in> set (db_tasks db)"
  shows "commits env (t_InstanceID task) db db'"
proof (cases "db' = db")
  case False
  then obtain evs where out: "db' = EmitEvents evs (updateTasks (\<lambda>r. t_ID r = t_ID task \<and> \<not> t_IsPreWarningSent r)
      (\<lambda>r. r\<lparr>t_IsPreWarningSent := True\<rparr>) db)"
    using run unfolding sendPreWarning_def Let_def by (auto split: if_splits)
  have "commits env (t_InstanceID task) db (updateTasks (\<lambda>r. t_ID r = t_ID task \<and> \<not> t_IsPreWarningSent r)
      (\<lambda>r. r\<lparr>t_IsPreWarningSent := True\<rparr>) db)"
  proof (rule flag_commits)
    fix t assume "wf_store env db" "t \<in> set (db_tasks db)" "t_ID t = t_ID task \<and> \<not> t_IsPreWarningSent t"
    then show "t_InstanceID t = t_InstanceID task" using owned_row[OF _ mem refl] by (auto simp: owned_def)
  qed simp
  then show ?thesis unfolding out by blast
qed simp

end
