(* ===== verification/Flow_Graph.thy ===== *)
theory Flow_Graph
  imports Prelude
begin

text \<open>
  The two graph searches of \<^verbatim>\<open>service/flow_definition.go\<close>: \<open>detectCycle\<close>, a depth-first search
  with three colours, and \<open>collectReachable\<close>, a breadth-first search.  An adjacency map is a
  function from a node to its targets, empty where the Go map has no entry.

  The recursion of the depth-first search is bounded by fuel, the number of nodes: the nodes on
  the recursion stack are grey and hence distinct, so the fuel is never used up
  (\<open>detectCycle_total\<close>).  The breadth-first search is a partial function that returns on every
  finite graph (\<open>collectReachable_spec\<close>).
\<close>

section \<open>The searches\<close>

datatype color = White | Gray | Black

type_synonym colors = "string \<Rightarrow> color"
type_synonym adjacency = "string \<Rightarrow> string list"

text \<open>The loop over the successors of a node.  The flag of a result reports a cycle.\<close>

fun visitNexts ::
    "(string \<Rightarrow> colors \<Rightarrow> (bool \<times> colors) option) \<Rightarrow> string list \<Rightarrow> colors \<Rightarrow> (bool \<times> colors) option" where
  "visitNexts vis [] c = Some (False, c)"
| "visitNexts vis (n # ns) c =
     (if c n = Gray then Some (True, c)
      else if c n = White then
        (case vis n c of
           None \<Rightarrow> None
         | Some (cyc, c1) \<Rightarrow> if cyc then Some (True, c1) else visitNexts vis ns c1)
      else visitNexts vis ns c)"

primrec visit :: "nat \<Rightarrow> adjacency \<Rightarrow> string \<Rightarrow> colors \<Rightarrow> (bool \<times> colors) option" where
  "visit 0 adj = (\<lambda>node c. None)"
| "visit (Suc k) adj = (\<lambda>node c.
     case visitNexts (visit k adj) (adj node) (c(node := Gray)) of
       None \<Rightarrow> None
     | Some (cyc, c1) \<Rightarrow> if cyc then Some (True, c1) else Some (False, c1(node := Black)))"

fun detectLoop :: "(string \<Rightarrow> colors \<Rightarrow> (bool \<times> colors) option) \<Rightarrow> string list \<Rightarrow> colors \<Rightarrow> bool option" where
  "detectLoop vis [] c = Some False"
| "detectLoop vis (n # ns) c =
     (if c n = White then
        (case vis n c of
           None \<Rightarrow> None
         | Some (cyc, c1) \<Rightarrow> if cyc then Some True else detectLoop vis ns c1)
      else detectLoop vis ns c)"

definition detectCycle :: "string list \<Rightarrow> adjacency \<Rightarrow> bool option" where
  "detectCycle nodes adj = detectLoop (visit (length nodes) adj) nodes (\<lambda>_. White)"

text \<open>Adding a batch of nodes to the visited set and to the end of the queue, skipping known ones.\<close>

fun enqueueNew :: "string list \<Rightarrow> string list \<Rightarrow> string list \<Rightarrow> string list \<times> string list" where
  "enqueueNew [] visited queue = (visited, queue)"
| "enqueueNew (n # ns) visited queue =
     (if n \<in> set visited then enqueueNew ns visited queue
      else enqueueNew ns (visited @ [n]) (queue @ [n]))"

partial_function (option) bfs :: "adjacency \<Rightarrow> string list \<Rightarrow> string list \<Rightarrow> string list option" where
  "bfs adj visited queue =
     (case queue of
        [] \<Rightarrow> Some visited
      | current # rest \<Rightarrow>
          (case enqueueNew (adj current) visited rest of (v, q) \<Rightarrow> bfs adj v q))"

declare bfs.simps [code]

definition collectReachable :: "adjacency \<Rightarrow> string list \<Rightarrow> string list option" where
  "collectReachable adj starts = bfs adj (fst (enqueueNew starts [] [])) starts"

section \<open>The depth-first search finds the cycles\<close>

definition edge_rel :: "adjacency \<Rightarrow> (string \<times> string) set" where
  "edge_rel adj = {(x, y). y \<in> set (adj x)}"

lemma edge_rel_iff [simp]: "(x, y) \<in> edge_rel adj \<longleftrightarrow> y \<in> set (adj x)"
  by (simp add: edge_rel_def)

text \<open>A black node has only black successors and lies on no cycle.\<close>

definition colored :: "adjacency \<Rightarrow> colors \<Rightarrow> bool" where
  "colored adj c \<longleftrightarrow> (\<forall>x. c x = Black \<longrightarrow> (\<forall>y \<in> set (adj x). c y = Black) \<and> (x, x) \<notin> (edge_rel adj)\<^sup>+)"

definition finishes :: "colors \<Rightarrow> colors \<Rightarrow> bool" where
  "finishes c c' \<longleftrightarrow> (\<forall>x. c x \<noteq> White \<longrightarrow> c' x = c x) \<and> (\<forall>x. c' x = Gray \<longrightarrow> c x = Gray)"

lemma finishes_refl [simp]: "finishes c c"
  by (simp add: finishes_def)

lemma finishes_trans: "finishes c c' \<Longrightarrow> finishes c' c'' \<Longrightarrow> finishes c c''"
  unfolding finishes_def by metis

lemma black_closed:
  assumes "colored adj c" and "c x = Black" and "(x, y) \<in> (edge_rel adj)\<^sup>*"
  shows "c y = Black"
  using assms(3,2) by (induction rule: rtrancl_induct) (use assms(1) in \<open>auto simp: colored_def\<close>)

text \<open>What a visit of a white node promises: a cycle, or a colouring in which the node is finished.\<close>

definition visit_contract :: "adjacency \<Rightarrow> (string \<Rightarrow> colors \<Rightarrow> (bool \<times> colors) option) \<Rightarrow> string \<Rightarrow> bool" where
  "visit_contract adj vis n \<longleftrightarrow> (\<forall>c cyc c'. c n = White \<and> colored adj c \<and> (\<forall>g. c g = Gray \<longrightarrow> (g, n) \<in> (edge_rel adj)\<^sup>+)
      \<and> vis n c = Some (cyc, c') \<longrightarrow>
      (if cyc then \<exists>x. (x, x) \<in> (edge_rel adj)\<^sup>+ else colored adj c' \<and> finishes c c' \<and> c' n = Black))"

lemma visitNexts_spec:
  assumes "\<forall>n \<in> set ns. visit_contract adj vis n" and "visitNexts vis ns c = Some (cyc, c')" and "colored adj c" and "set ns \<subseteq> set (adj node)"
    and "c node = Gray" and "\<forall>g. c g = Gray \<longrightarrow> (g, node) \<in> (edge_rel adj)\<^sup>*"
  shows "if cyc then \<exists>x. (x, x) \<in> (edge_rel adj)\<^sup>+
         else colored adj c' \<and> finishes c c' \<and> (\<forall>n \<in> set ns. c' n = Black)"
  using assms
proof (induction ns arbitrary: c)
  case (Cons n ns)
  have step: "(node, n) \<in> edge_rel adj" using Cons.prems(4) by auto
  have gn: "\<forall>g. c g = Gray \<longrightarrow> (g, n) \<in> (edge_rel adj)\<^sup>+"
    using Cons.prems(6) step by (meson rtrancl_into_trancl1)
  consider "c n = Gray" | "c n = Black" | "c n = White" by (cases "c n") auto
  then show ?case
  proof cases
    case 1
    then have "cyc" using Cons.prems(2) by auto
    then show ?thesis using gn 1 by auto
  next
    case 2
    then have run: "visitNexts vis ns c = Some (cyc, c')" using Cons.prems(2) by simp
    have "if cyc then \<exists>x. (x, x) \<in> (edge_rel adj)\<^sup>+
        else colored adj c' \<and> finishes c c' \<and> (\<forall>n \<in> set ns. c' n = Black)"
      by (rule Cons.IH[OF _ run Cons.prems(3) _ Cons.prems(5,6)]) (use Cons.prems(1,4) in simp_all)
    moreover have "c' n = Black" if "finishes c c'" using that 2 unfolding finishes_def by simp
    ultimately show ?thesis by (cases cyc) simp_all
  next
    case 3
    obtain f c1 where v: "vis n c = Some (f, c1)"
      using Cons.prems(2) 3 by (auto split: option.splits)
    have r: "if f then \<exists>x. (x, x) \<in> (edge_rel adj)\<^sup>+ else colored adj c1 \<and> finishes c c1 \<and> c1 n = Black"
      using Cons.prems(1,3) gn v 3 unfolding visit_contract_def by auto
    show ?thesis
    proof (cases f)
      case True
      then show ?thesis using r v 3 Cons.prems(2) by auto
    next
      case False
      then have c1: "colored adj c1" "finishes c c1" "c1 n = Black" using r by auto
      have run: "visitNexts vis ns c1 = Some (cyc, c')" using Cons.prems(2) 3 v False by simp
      have gray: "c1 node = Gray" "\<forall>g. c1 g = Gray \<longrightarrow> (g, node) \<in> (edge_rel adj)\<^sup>*"
        using c1(2) Cons.prems(5,6) by (auto simp: finishes_def)
      have "if cyc then \<exists>x. (x, x) \<in> (edge_rel adj)\<^sup>+
          else colored adj c' \<and> finishes c1 c' \<and> (\<forall>n \<in> set ns. c' n = Black)"
        by (rule Cons.IH[OF _ run c1(1) _ gray]) (use Cons.prems(1,4) in simp_all)
      moreover have "c' n = Black" if "finishes c1 c'" using that c1(3) unfolding finishes_def by simp
      ultimately show ?thesis using finishes_trans[OF c1(2)] by (cases cyc) simp_all
    qed
  qed
qed auto

lemma visit_spec:
  assumes "visit k adj node c = Some (cyc, c')" and "c node = White" and "colored adj c"
    and "\<forall>g. c g = Gray \<longrightarrow> (g, node) \<in> (edge_rel adj)\<^sup>+"
  shows "if cyc then \<exists>x. (x, x) \<in> (edge_rel adj)\<^sup>+ else colored adj c' \<and> finishes c c' \<and> c' node = Black"
  using assms
proof (induction k arbitrary: node c cyc c')
  case (Suc k)
  have ih: "\<forall>n \<in> set (adj node). visit_contract adj (visit k adj) n"
    unfolding visit_contract_def using Suc.IH by blast
  let ?c = "c(node := Gray)"
  obtain f c1 where run: "visitNexts (visit k adj) (adj node) ?c = Some (f, c1)"
    and res: "(cyc, c') = (if f then (True, c1) else (False, c1(node := Black)))"
    using Suc.prems(1) by (auto split: option.splits if_splits)
  have col: "colored adj ?c" using Suc.prems(2,3) by (auto simp: colored_def)
  have gray: "\<forall>g. ?c g = Gray \<longrightarrow> (g, node) \<in> (edge_rel adj)\<^sup>*"
    using Suc.prems(4) by (auto intro: trancl_into_rtrancl)
  have r: "if f then \<exists>x. (x, x) \<in> (edge_rel adj)\<^sup>+
      else colored adj c1 \<and> finishes ?c c1 \<and> (\<forall>n \<in> set (adj node). c1 n = Black)"
    by (rule visitNexts_spec[OF ih run col subset_refl _ gray]) simp
  show ?case
  proof (cases f)
    case False
    then have c1: "colored adj c1" "finishes ?c c1" "\<forall>n \<in> set (adj node). c1 n = Black" using r by auto
    have "c1 node = Gray" using c1(2) by (simp add: finishes_def)
    have "(node, node) \<notin> (edge_rel adj)\<^sup>+"
    proof
      assume "(node, node) \<in> (edge_rel adj)\<^sup>+"
      then obtain y where "y \<in> set (adj node)" "(y, node) \<in> (edge_rel adj)\<^sup>*" by (auto dest!: tranclD)
      then have "c1 node = Black" using black_closed[OF c1(1)] c1(3) by blast
      then show False using \<open>c1 node = Gray\<close> by simp
    qed
    then have "colored adj (c1(node := Black))" using c1(1,3) by (auto simp: colored_def)
    moreover have "finishes c (c1(node := Black))"
    proof -
      have "(c1(node := Black)) x = c x" if "c x \<noteq> White" for x
      proof -
        have "x \<noteq> node" using that Suc.prems(2) by auto
        then have "?c x \<noteq> White" "?c x = c x" using that by simp_all
        then show ?thesis using c1(2) \<open>x \<noteq> node\<close> unfolding finishes_def by simp
      qed
      moreover have "c x = Gray" if "(c1(node := Black)) x = Gray" for x
      proof -
        have "x \<noteq> node" "c1 x = Gray" using that by (auto split: if_splits)
        then show ?thesis using c1(2) unfolding finishes_def by (metis fun_upd_other)
      qed
      ultimately show ?thesis unfolding finishes_def by blast
    qed
    ultimately show ?thesis using res False by auto
  qed (use res r in auto)
qed simp

lemma detectLoop_spec:
  assumes "detectLoop (visit k adj) ns c = Some b" and "colored adj c" and "\<forall>x. c x \<noteq> Gray"
  shows "if b then \<exists>x. (x, x) \<in> (edge_rel adj)\<^sup>+ else \<forall>x. c x = Black \<or> x \<in> set ns \<longrightarrow> (x, x) \<notin> (edge_rel adj)\<^sup>+"
  using assms
proof (induction ns arbitrary: c)
  case (Cons n ns)
  show ?case
  proof (cases "c n = White")
    case True
    obtain f c1 where v: "visit k adj n c = Some (f, c1)" using Cons.prems(1) True by (auto split: option.splits)
    have r: "if f then \<exists>x. (x, x) \<in> (edge_rel adj)\<^sup>+ else colored adj c1 \<and> finishes c c1 \<and> c1 n = Black"
      using visit_spec[OF v True Cons.prems(2)] Cons.prems(3) by blast
    show ?thesis
    proof (cases f)
      case False
      then have c1: "colored adj c1" "finishes c c1" "c1 n = Black" using r by auto
      have "detectLoop (visit k adj) ns c1 = Some b" using Cons.prems(1) True v False by simp
      from Cons.IH[OF this c1(1)] have "if b then \<exists>x. (x, x) \<in> (edge_rel adj)\<^sup>+
          else \<forall>x. c1 x = Black \<or> x \<in> set ns \<longrightarrow> (x, x) \<notin> (edge_rel adj)\<^sup>+"
        using c1(2) Cons.prems(3) by (auto simp: finishes_def)
      then show ?thesis using c1(2,3) by (auto simp: finishes_def split: if_splits)
    qed (use Cons.prems(1) True v r in auto)
  next
    case False
    then have "c n = Black" using Cons.prems(3) by (cases "c n") auto
    then show ?thesis using Cons.IH[of c] Cons.prems by (auto split: if_splits)
  qed
qed (auto simp: colored_def)

subsection \<open>The fuel is enough\<close>

definition whites :: "string set \<Rightarrow> colors \<Rightarrow> nat" where
  "whites N c = card {x \<in> N. c x = White}"

lemma whites_mono: "finite N \<Longrightarrow> (\<And>x. c' x = White \<Longrightarrow> c x = White) \<Longrightarrow> whites N c' \<le> whites N c"
  unfolding whites_def by (intro card_mono) auto

lemma visitNexts_total:
  assumes fin: "finite N" and "set ns \<subseteq> N" and "whites N c \<le> k"
    and vis: "\<And>n c. n \<in> N \<Longrightarrow> c n = White \<Longrightarrow> whites N c \<le> k \<Longrightarrow>
      \<exists>cyc c'. vis n c = Some (cyc, c') \<and> (\<forall>x. c' x = White \<longrightarrow> c x = White)"
  shows "\<exists>cyc c'. visitNexts vis ns c = Some (cyc, c') \<and> (\<forall>x. c' x = White \<longrightarrow> c x = White)"
  using assms(2,3)
proof (induction ns arbitrary: c)
  case (Cons n ns)
  show ?case
  proof (cases "c n = White")
    case True
    then obtain f c1 where v: "vis n c = Some (f, c1)" "\<forall>x. c1 x = White \<longrightarrow> c x = White"
      using vis[of n c] Cons.prems by auto
    have "whites N c1 \<le> k" using whites_mono[OF fin, of c1 c] v(2) Cons.prems(2) by simp
    then show ?thesis using Cons.IH[of c1] Cons.prems(1) v True by (cases f) fastforce+
  next
    case False
    then show ?thesis using Cons.IH[of c] Cons.prems by (cases "c n") auto
  qed
qed auto

lemma visit_total:
  assumes fin: "finite N" and adj: "\<And>x. set (adj x) \<subseteq> N" and "node \<in> N" and "c node = White" and "whites N c \<le> k"
  shows "\<exists>cyc c'. visit k adj node c = Some (cyc, c') \<and> (\<forall>x. c' x = White \<longrightarrow> c x = White)"
  using assms(3-5)
proof (induction k arbitrary: node c)
  case 0
  then show ?case using fin by (auto simp: whites_def)
next
  case (Suc k)
  let ?c = "c(node := Gray)"
  have "{x \<in> N. ?c x = White} = {x \<in> N. c x = White} - {node}" by auto
  then have "whites N ?c \<le> k" using Suc.prems fin by (simp add: whites_def card_Diff_singleton)
  moreover have "set (adj node) \<subseteq> N" by (rule adj)
  ultimately obtain f c1 where
    r: "visitNexts (visit k adj) (adj node) ?c = Some (f, c1)" "\<forall>x. c1 x = White \<longrightarrow> ?c x = White"
    using visitNexts_total[OF fin, of "adj node" ?c k "visit k adj"] Suc.IH by blast
  then show ?case by (cases f) (auto split: if_splits)
qed

lemma detectLoop_total:
  assumes fin: "finite N" and adj: "\<And>x. set (adj x) \<subseteq> N" and "set ns \<subseteq> N" and "whites N c \<le> k"
  shows "\<exists>b. detectLoop (visit k adj) ns c = Some b"
  using assms(3,4)
proof (induction ns arbitrary: c)
  case Nil
  show ?case by (intro exI[of _ False]) simp
next
  case (Cons n ns)
  show ?case
  proof (cases "c n = White")
    case True
    have "\<exists>f c1. visit k adj n c = Some (f, c1) \<and> (\<forall>x. c1 x = White \<longrightarrow> c x = White)"
      by (rule visit_total[OF fin adj]) (use Cons.prems True in auto)
    then obtain f c1 where v: "visit k adj n c = Some (f, c1)" "\<forall>x. c1 x = White \<longrightarrow> c x = White" by blast
    have "whites N c1 \<le> k" using whites_mono[OF fin, of c1 c] v(2) Cons.prems(2) by simp
    then show ?thesis using Cons.IH[of c1] Cons.prems(1) v True by auto
  next
    case False
    then show ?thesis using Cons.IH[of c] Cons.prems by simp
  qed
qed

lemma detectCycle_total:
  assumes "\<And>x. set (adj x) \<subseteq> set nodes"
  shows "\<exists>b. detectCycle nodes adj = Some b"
  unfolding detectCycle_def
proof (rule detectLoop_total[of "set nodes"])
  show "whites (set nodes) (\<lambda>_. White) \<le> length nodes" by (simp add: whites_def card_length)
qed (use assms in auto)

lemma detectCycle_spec:
  assumes tgt: "\<And>x. set (adj x) \<subseteq> set nodes" and src: "\<And>x. x \<notin> set nodes \<Longrightarrow> adj x = []"
  shows "detectCycle nodes adj = Some (\<not> acyclic (edge_rel adj))"
proof -
  have "\<exists>b. detectCycle nodes adj = Some b" by (rule detectCycle_total) (rule tgt)
  then obtain b where b: "detectCycle nodes adj = Some b" by blast
  have r: "if b then \<exists>x. (x, x) \<in> (edge_rel adj)\<^sup>+ else \<forall>x \<in> set nodes. (x, x) \<notin> (edge_rel adj)\<^sup>+"
    using detectLoop_spec[of "length nodes" adj nodes "\<lambda>_. White" b] b
    by (auto simp: detectCycle_def colored_def split: if_splits)
  have "x \<in> set nodes" if "(x, x) \<in> (edge_rel adj)\<^sup>+" for x
    using tranclD[OF that] src[of x] by force
  then show ?thesis using r b by (auto simp: acyclic_def split: if_splits)
qed

section \<open>The breadth-first search collects what is reachable\<close>

lemma enqueueNew_spec:
  "enqueueNew ns v q = (v', q') \<Longrightarrow>
     set v' = set v \<union> set ns \<and> (distinct v \<longrightarrow> distinct v') \<and> (\<exists>new. v' = v @ new \<and> q' = q @ new)"
  by (induction ns arbitrary: v q) (fastforce split: if_splits)+

lemma Image_rtrancl_Un: "set ns \<subseteq> (edge_rel adj)\<^sup>* `` V \<Longrightarrow> (edge_rel adj)\<^sup>* `` (V \<union> set ns) = (edge_rel adj)\<^sup>* `` V"
  by (auto intro: rtrancl_trans)

lemma bfs_spec:
  assumes "finite N" and "\<And>x. set (adj x) \<subseteq> N" and "distinct v" and "set v \<subseteq> N" and "set q \<subseteq> set v"
    and "\<forall>x \<in> set v - set q. set (adj x) \<subseteq> set v"
  shows "\<exists>w. bfs adj v q = Some w \<and> distinct w \<and> set w = (edge_rel adj)\<^sup>* `` set v"
  using assms(3-6)
proof (induction "length q + card (N - set v)" arbitrary: v q rule: less_induct)
  case less
  show ?case
  proof (cases q)
    case Nil
    have "y \<in> set v" if "(x, y) \<in> (edge_rel adj)\<^sup>*" "x \<in> set v" for x y
      using that by (induction rule: rtrancl_induct) (use less.prems(4) Nil in auto)
    then have "(edge_rel adj)\<^sup>* `` set v = set v" by auto
    then show ?thesis using Nil less.prems(1) by (simp add: bfs.simps)
  next
    case (Cons cur rest)
    obtain v' q' where e: "enqueueNew (adj cur) v rest = (v', q')" by force
    note s = enqueueNew_spec[OF e]
    obtain new where new: "v' = v @ new" "q' = rest @ new" using s by blast
    have d: "distinct v'" and sv: "set v' = set v \<union> set (adj cur)" using s less.prems(1) by auto
    have N: "set v' \<subseteq> N" using sv less.prems(2) assms(2) by blast
    have "card (N - set v') + length new = card (N - set v)"
    proof -
      have "N - set v = (N - set v') \<union> set new" "(N - set v') \<inter> set new = {}"
        using N d new(1) by auto
      then show ?thesis using d new(1) assms(1) by (simp add: card_Un_disjoint distinct_card)
    qed
    then have m: "length q' + card (N - set v') < length q + card (N - set v)" using Cons new(2) by simp
    have "\<exists>w. bfs adj v' q' = Some w \<and> distinct w \<and> set w = (edge_rel adj)\<^sup>* `` set v'"
    proof (rule less.hyps[OF m d N])
      show "set q' \<subseteq> set v'" using less.prems(3) Cons new by auto
      show "\<forall>x \<in> set v' - set q'. set (adj x) \<subseteq> set v'"
      proof
        fix x assume "x \<in> set v' - set q'"
        then have "x \<in> set v" "x = cur \<or> x \<notin> set q" using new Cons by auto
        then show "set (adj x) \<subseteq> set v'" using less.prems(4) sv by blast
      qed
    qed
    moreover have "bfs adj v q = bfs adj v' q'" by (subst bfs.simps) (simp add: Cons e)
    moreover have "cur \<in> set v" using less.prems(3) Cons by simp
    then have "set (adj cur) \<subseteq> (edge_rel adj)\<^sup>* `` set v" by (auto intro!: ImageI[of cur] r_into_rtrancl)
    then have "(edge_rel adj)\<^sup>* `` set v' = (edge_rel adj)\<^sup>* `` set v" unfolding sv by (rule Image_rtrancl_Un)
    ultimately show ?thesis by simp
  qed
qed

lemma collectReachable_spec:
  assumes "\<And>x. set (adj x) \<subseteq> set nodes" and "set starts \<subseteq> set nodes"
  shows "\<exists>w. collectReachable adj starts = Some w \<and> distinct w \<and> set w = (edge_rel adj)\<^sup>* `` set starts"
proof -
  obtain v q where e: "enqueueNew starts [] [] = (v, q)" by force
  have "distinct v" "set v = set starts" using enqueueNew_spec[OF e] by auto
  then show ?thesis
    using bfs_spec[of "set nodes" adj v starts] assms by (auto simp: collectReachable_def e)
qed

end
