(* ===== verification/Flow_Definition.thy ===== *)
theory Flow_Definition
  imports Flow_Graph Approval_Store
begin

text \<open>
  Deploy-time validation of a flow definition: \<^verbatim>\<open>approval/flow_definition.go\<close> and the node data of
  \<^verbatim>\<open>approval/node_data.go\<close>, \<^verbatim>\<open>service/flow_definition.go\<close> and \<^verbatim>\<open>service/node_config_validation.go\<close>.

  The typed payload of a node is decoded from raw JSON by \<^verbatim>\<open>json.Unmarshal\<close>; the decoder is a
  parameter with one function per node kind, so that a decoded payload has the type of its kind
  as in Go.  An omitted enumeration value is the empty string, the \<open>Other\<close> constructor of the
  empty list.  Hash sets and maps are lists in insertion order.  The check of rollback
  references iterates a Go map, whose order is random: which of several faults is reported is
  unspecified there, and insertion order here.
\<close>

section \<open>Node data\<close>

record BaseNodeData =
  bd_Name :: string
  bd_Description :: "string option"

record AssigneeDefinition =
  ad_Kind :: string
  ad_IDs :: "string list"
  ad_FormField :: "string option"
  ad_SortOrder :: int

record CCDefinition =
  cd_Kind :: string
  cd_IDs :: "string list"
  cd_FormField :: "string option"
  cd_Timing :: CCTiming

record TaskNodeData =
  td_Assignees :: "AssigneeDefinition list"
  td_ExecutionType :: ExecutionType
  td_EmptyAssigneeAction :: EmptyAssigneeAction
  td_FallbackUserIDs :: "string list"
  td_AdminUserIDs :: "string list"
  td_IsTransferAllowed :: "bool option"
  td_IsOpinionRequired :: bool
  td_TimeoutHours :: int
  td_TimeoutAction :: TimeoutAction
  td_TimeoutNotifyBeforeHours :: int
  td_UrgeCooldownMinutes :: int
  td_CCs :: "CCDefinition list"
  td_FieldPermissions :: "(string \<times> Permission) list"

record ApprovalNodeData =
  an_Base :: BaseNodeData
  an_Task :: TaskNodeData
  an_ApprovalMethod :: ApprovalMethod
  an_PassRule :: PassRule
  an_PassRatio :: rat
  an_PassCount :: int
  an_SameApplicantAction :: SameApplicantAction
  an_ConsecutiveApproverAction :: ConsecutiveApproverAction
  an_RollbackType :: RollbackType
  an_RollbackDataStrategy :: RollbackDataStrategy
  an_RollbackTargetKeys :: "string list"
  an_IsRollbackAllowed :: "bool option"
  an_IsAddAssigneeAllowed :: "bool option"
  an_AddAssigneeTypes :: "AddAssigneeType list"
  an_IsRemoveAssigneeAllowed :: "bool option"
  an_IsManualCCAllowed :: "bool option"

record HandleNodeData =
  hn_Base :: BaseNodeData
  hn_Task :: TaskNodeData

record CCNodeData =
  cn_Base :: BaseNodeData
  cn_CCs :: "CCDefinition list"
  cn_IsReadConfirmRequired :: bool
  cn_FieldPermissions :: "(string \<times> Permission) list"

record ConditionNodeData =
  kn_Base :: BaseNodeData
  kn_Branches :: "ConditionBranch list"

datatype NodeData =
    StartData BaseNodeData | EndData BaseNodeData | ApprovalData ApprovalNodeData
  | HandleData HandleNodeData | CCData CCNodeData | ConditionData ConditionNodeData

record NodeDefinition =
  nd_ID :: string
  nd_Kind :: NodeKind
  nd_Data :: "json option"

record EdgeDefinition =
  ed_ID :: string
  ed_Source :: string
  ed_Target :: string
  ed_SourceHandle :: "string option"

record FlowDefinition =
  fd_Nodes :: "NodeDefinition list"
  fd_Edges :: "EdgeDefinition list"

text \<open>\<^verbatim>\<open>json.Unmarshal\<close> into the payload of each kind; \<^term>\<open>None\<close> is a decoding error.\<close>

record decoder =
  dec_base :: "json \<Rightarrow> BaseNodeData option"
  dec_approval :: "json \<Rightarrow> ApprovalNodeData option"
  dec_handle :: "json \<Rightarrow> HandleNodeData option"
  dec_cc :: "json \<Rightarrow> CCNodeData option"
  dec_condition :: "json \<Rightarrow> ConditionNodeData option"

section \<open>Errors\<close>

datatype graph_error =
    errEmptyNodeID | errDuplicateNodeID | errInvalidNodeKind | errStartNodeCount | errEndNodeCount
  | errEmptyEdgeID | errDuplicateEdgeID | errUnknownSourceNode | errUnknownTargetNode
  | errStartIncoming | errStartOutgoing | errEndOutgoing | errEndIncoming | errNodeOutgoingCount
  | errNodeSourceHandle | errGraphCycle | errNodeUnreachable | errNodeCannotReachEnd | errNoNodes
  | errCondMinBranches | errCondEmptyBranchID | errCondDupBranchID | errCondDefaultCount
  | errCondMissingHandle | errCondUnknownHandle | errCondDupHandle | errCondBranchNoEdge
  | errUnexpectedCondData | errSearchExhausted

datatype node_error =
    errInvalidExecutionType | errInvalidApprovalMethod | errInvalidPassRule | errPassRatioOutOfRange
  | errPassCountOutOfRange | errInvalidEmptyAssigneeAction | errInvalidSameApplicantAction
  | errInvalidConsecutiveAction | errInvalidRollbackType | errInvalidRollbackStrategy
  | errRollbackTargetsRequired | errInvalidTimeoutAction | errInvalidAssigneeKind
  | errAssigneeIDsRequired | errAssigneeFormFieldRequired | errInvalidCCKind | errInvalidCCTiming
  | errCCIDsRequired | errCCFormFieldRequired | errFallbackUsersRequired | errAdminUsersRequired
  | errTimeoutAdminUsersRequired | errHandleExecutionAutoReject | errHandleTimeoutAutoReject
  | errRollbackTargetUnknown | errRollbackTargetSelf | errInvalidAddAssigneeType
  | errSequentialParallelAdd

datatype condition_error =
    errInvalidConditionKind | errInvalidConditionOperator | errConditionSubjectRequired
  | errConditionExprRequired | errDuplicateBranchPriority | errBranchConditionsRequired
  | errConditionGroupEmpty | errUnregisteredAggregate | errAggregateOnExpression
  | errAggregateOperator | errAggregateColumnRequired | errAggregateColumnForbidden
  | errAggregateSubjectNotTable | errAggregateColumnUnknown | errAggregateColumnNotNumeric

datatype flow_error =
    Graph graph_error | Node node_error | Cond condition_error
  | ErrUnknownNodeKind | ErrNodeDataUnmarshal

section \<open>Configuration of a node\<close>

text \<open>The registered vocabularies deploy validation accepts.\<close>

record FlowDefinitionService =
  fds_aggregateKinds :: "string list"
  fds_assigneeKinds :: "string \<rightharpoonup> SelectionMode"
  fds_ccKinds :: "string \<rightharpoonup> SelectionMode"

definition validateAssigneeDefinitions :: "FlowDefinitionService \<Rightarrow> AssigneeDefinition list \<Rightarrow> flow_error + unit" where
  "validateAssigneeDefinitions s assignees =
     checkAll (\<lambda>a. case CheckKindRule (ad_Kind a) (ad_IDs a) (ad_FormField a) (fds_assigneeKinds s) of
         KindRuleUnknownKind \<Rightarrow> Inl (Node errInvalidAssigneeKind)
       | KindRuleIDsRequired \<Rightarrow> Inl (Node errAssigneeIDsRequired)
       | KindRuleFormFieldRequired \<Rightarrow> Inl (Node errAssigneeFormFieldRequired)
       | KindRuleOK \<Rightarrow> Inr ()) assignees"

definition validateCCDefinitions :: "FlowDefinitionService \<Rightarrow> CCDefinition list \<Rightarrow> flow_error + unit" where
  "validateCCDefinitions s ccs =
     checkAll (\<lambda>c. bindE (case CheckKindRule (cd_Kind c) (cd_IDs c) (cd_FormField c) (fds_ccKinds s) of
         KindRuleUnknownKind \<Rightarrow> Inl (Node errInvalidCCKind)
       | KindRuleIDsRequired \<Rightarrow> Inl (Node errCCIDsRequired)
       | KindRuleFormFieldRequired \<Rightarrow> Inl (Node errCCFormFieldRequired)
       | KindRuleOK \<Rightarrow> Inr ()) (\<lambda>_.
         ensure (cd_Timing c = CCTimingOther [] \<or> CCTiming_IsValid (cd_Timing c)) (Node errInvalidCCTiming))) ccs"

definition validateTaskNodeData :: "FlowDefinitionService \<Rightarrow> TaskNodeData \<Rightarrow> flow_error + unit" where
  "validateTaskNodeData s d =
     bindE (ensure (td_ExecutionType d = ExecutionOther [] \<or> ExecutionType_IsValid (td_ExecutionType d))
              (Node errInvalidExecutionType)) (\<lambda>_.
     bindE (ensure (td_EmptyAssigneeAction d = EmptyAssigneeOther [] \<or> EmptyAssigneeAction_IsValid (td_EmptyAssigneeAction d))
              (Node errInvalidEmptyAssigneeAction)) (\<lambda>_.
     bindE (ensure (\<not> (td_EmptyAssigneeAction d = EmptyAssigneeTransferSpecified \<and> td_FallbackUserIDs d = []))
              (Node errFallbackUsersRequired)) (\<lambda>_.
     bindE (ensure (\<not> (td_EmptyAssigneeAction d = EmptyAssigneeTransferAdmin \<and> td_AdminUserIDs d = []))
              (Node errAdminUsersRequired)) (\<lambda>_.
     bindE (ensure (td_TimeoutAction d = TimeoutActionOther [] \<or> TimeoutAction_IsValid (td_TimeoutAction d))
              (Node errInvalidTimeoutAction)) (\<lambda>_.
     bindE (ensure (\<not> (td_TimeoutHours d > 0 \<and> td_TimeoutAction d = TimeoutActionTransferAdmin \<and> td_AdminUserIDs d = []))
              (Node errTimeoutAdminUsersRequired)) (\<lambda>_.
     bindE (validateAssigneeDefinitions s (td_Assignees d)) (\<lambda>_.
       validateCCDefinitions s (td_CCs d))))))))"

definition validateHandleNodeData :: "FlowDefinitionService \<Rightarrow> HandleNodeData \<Rightarrow> flow_error + unit" where
  "validateHandleNodeData s d =
     bindE (validateTaskNodeData s (hn_Task d)) (\<lambda>_.
     bindE (ensure (td_ExecutionType (hn_Task d) \<noteq> ExecutionAutoReject) (Node errHandleExecutionAutoReject)) (\<lambda>_.
       ensure (td_TimeoutAction (hn_Task d) \<noteq> TimeoutActionAutoReject) (Node errHandleTimeoutAutoReject)))"

text \<open>The ratio is compared after conversion of the decimal to the nearest float.\<close>

definition validatePassThreshold :: "(rat \<Rightarrow> rat) \<Rightarrow> ApprovalNodeData \<Rightarrow> flow_error + unit" where
  "validatePassThreshold inexactFloat64 d =
     (case an_PassRule d of
        PassRatio \<Rightarrow>
          let ratio = inexactFloat64 (an_PassRatio d)
          in ensure (\<not> (ratio \<le> 0 \<or> ratio > 100)) (Node errPassRatioOutOfRange)
      | PassFixedCount \<Rightarrow> ensure (an_PassCount d > 0) (Node errPassCountOutOfRange)
      | _ \<Rightarrow> Inr ())"

text \<open>\<^verbatim>\<open>cmp.Or\<close> of a value and its default.\<close>

definition cmpOr :: "'a \<Rightarrow> 'a \<Rightarrow> 'a \<Rightarrow> 'a" where
  "cmpOr zero x dflt = (if x = zero then dflt else x)"

definition validateApprovalNodeData ::
    "FlowDefinitionService \<Rightarrow> (rat \<Rightarrow> rat) \<Rightarrow> ApprovalNodeData \<Rightarrow> flow_error + unit" where
  "validateApprovalNodeData s inexactFloat64 d =
     bindE (validateTaskNodeData s (an_Task d)) (\<lambda>_.
     bindE (ensure (an_ApprovalMethod d = ApprovalMethodOther [] \<or> ApprovalMethod_IsValid (an_ApprovalMethod d))
              (Node errInvalidApprovalMethod)) (\<lambda>_.
     bindE (ensure (an_PassRule d = PassRuleOther [] \<or> PassRule_IsValid (an_PassRule d)) (Node errInvalidPassRule)) (\<lambda>_.
     bindE (validatePassThreshold inexactFloat64 d) (\<lambda>_.
     bindE (ensure (an_SameApplicantAction d = SameApplicantOther [] \<or> SameApplicantAction_IsValid (an_SameApplicantAction d))
              (Node errInvalidSameApplicantAction)) (\<lambda>_.
     bindE (ensure (an_ConsecutiveApproverAction d = ConsecutiveApproverOther []
              \<or> ConsecutiveApproverAction_IsValid (an_ConsecutiveApproverAction d)) (Node errInvalidConsecutiveAction)) (\<lambda>_.
     bindE (ensure (an_RollbackType d = RollbackOther [] \<or> RollbackType_IsValid (an_RollbackType d))
              (Node errInvalidRollbackType)) (\<lambda>_.
     bindE (ensure (\<not> (an_RollbackType d = RollbackSpecified \<and> an_RollbackTargetKeys d = []))
              (Node errRollbackTargetsRequired)) (\<lambda>_.
     bindE (ensure (an_RollbackDataStrategy d = RollbackDataOther [] \<or> RollbackDataStrategy_IsValid (an_RollbackDataStrategy d))
              (Node errInvalidRollbackStrategy)) (\<lambda>_.
     bindE (checkAll (\<lambda>t. ensure (AddAssigneeType_IsValid t) (Node errInvalidAddAssigneeType)) (an_AddAssigneeTypes d)) (\<lambda>_.
       ensure (\<not> (cmpOr (ApprovalMethodOther []) (an_ApprovalMethod d) ApprovalParallel = ApprovalSequential
          \<and> AddAssigneeParallel \<in> set (an_AddAssigneeTypes d))) (Node errSequentialParallelAdd)))))))))))"

section \<open>Conditions\<close>

definition operators :: "string list" where
  "operators = [''eq'', ''ne'', ''gt'', ''gte'', ''lt'', ''lte'', ''in'', ''not_in'', ''contains'', ''not_contains'',
     ''starts_with'', ''ends_with'', ''is_empty'', ''is_not_empty'']"

definition ConditionOperator_IsValid :: "string \<Rightarrow> bool" where
  "ConditionOperator_IsValid op = (op \<in> set operators)"

definition FoldsColumn :: "string \<Rightarrow> bool" where
  "FoldsColumn a = (a \<noteq> ''count'')"

definition validateConditionAggregateShape :: "Condition \<Rightarrow> flow_error + unit" where
  "validateConditionAggregateShape cond =
     (if c_Aggregate cond = [] then Inr ()
      else bindE (ensure (c_Operator cond \<in> set [''eq'', ''ne'', ''gt'', ''gte'', ''lt'', ''lte''])
                    (Cond errAggregateOperator)) (\<lambda>_.
        if \<not> FoldsColumn (c_Aggregate cond) then ensure (c_Column cond = []) (Cond errAggregateColumnForbidden)
        else ensure (c_Column cond \<noteq> []) (Cond errAggregateColumnRequired)))"

definition validateCondition :: "Condition \<Rightarrow> flow_error + unit" where
  "validateCondition cond =
     (if c_Kind cond = ''field'' then
        bindE (ensure (c_Subject cond \<noteq> []) (Cond errConditionSubjectRequired)) (\<lambda>_.
        bindE (ensure (ConditionOperator_IsValid (c_Operator cond)) (Cond errInvalidConditionOperator)) (\<lambda>_.
          validateConditionAggregateShape cond))
      else if c_Kind cond = ''expression'' then
        bindE (ensure (c_Aggregate cond = []) (Cond errAggregateOnExpression)) (\<lambda>_.
          ensure (trimSpace (c_Expression cond) \<noteq> []) (Cond errConditionExprRequired))
      else Inl (Cond errInvalidConditionKind))"

text \<open>The loop over the branches, with the priorities of the non-default ones seen so far.\<close>

fun conditionBranches :: "ConditionBranch list \<Rightarrow> int list \<Rightarrow> flow_error + unit" where
  "conditionBranches [] prios = Inr ()"
| "conditionBranches (b # bs) prios =
     bindE (if b_IsDefault b then Inr prios
            else bindE (ensure (b_Priority b \<notin> set prios) (Cond errDuplicateBranchPriority)) (\<lambda>_.
                 bindE (ensure (b_ConditionGroups b \<noteq> []) (Cond errBranchConditionsRequired)) (\<lambda>_.
                   Inr (prios @ [b_Priority b])))) (\<lambda>prios'.
     bindE (checkAll (\<lambda>g.
              bindE (ensure (g_Conditions g \<noteq> []) (Cond errConditionGroupEmpty)) (\<lambda>_.
                checkAll validateCondition (g_Conditions g))) (b_ConditionGroups b)) (\<lambda>_.
       conditionBranches bs prios'))"

definition validateConditionBranches :: "ConditionBranch list \<Rightarrow> flow_error + unit" where
  "validateConditionBranches branches = conditionBranches branches []"

fun validateNodeConfig :: "FlowDefinitionService \<Rightarrow> (rat \<Rightarrow> rat) \<Rightarrow> NodeData \<Rightarrow> flow_error + unit" where
  "validateNodeConfig s h (ApprovalData d) = validateApprovalNodeData s h d"
| "validateNodeConfig s h (HandleData d) = validateHandleNodeData s d"
| "validateNodeConfig s h (CCData d) = validateCCDefinitions s (cn_CCs d)"
| "validateNodeConfig s h (ConditionData d) = validateConditionBranches (kn_Branches d)"
| "validateNodeConfig s h _ = Inr ()"

section \<open>Nodes\<close>

text \<open>An absent payload leaves the zero value.\<close>

definition zeroBaseNodeData :: BaseNodeData where
  "zeroBaseNodeData = \<lparr>bd_Name = [], bd_Description = None\<rparr>"

definition zeroTaskNodeData :: TaskNodeData where
  "zeroTaskNodeData = \<lparr>td_Assignees = [], td_ExecutionType = ExecutionOther [],
     td_EmptyAssigneeAction = EmptyAssigneeOther [], td_FallbackUserIDs = [], td_AdminUserIDs = [],
     td_IsTransferAllowed = None, td_IsOpinionRequired = False, td_TimeoutHours = 0,
     td_TimeoutAction = TimeoutActionOther [], td_TimeoutNotifyBeforeHours = 0, td_UrgeCooldownMinutes = 0,
     td_CCs = [], td_FieldPermissions = []\<rparr>"

definition zeroApprovalNodeData :: ApprovalNodeData where
  "zeroApprovalNodeData = \<lparr>an_Base = zeroBaseNodeData, an_Task = zeroTaskNodeData,
     an_ApprovalMethod = ApprovalMethodOther [], an_PassRule = PassRuleOther [], an_PassRatio = 0, an_PassCount = 0,
     an_SameApplicantAction = SameApplicantOther [], an_ConsecutiveApproverAction = ConsecutiveApproverOther [],
     an_RollbackType = RollbackOther [], an_RollbackDataStrategy = RollbackDataOther [], an_RollbackTargetKeys = [],
     an_IsRollbackAllowed = None, an_IsAddAssigneeAllowed = None, an_AddAssigneeTypes = [],
     an_IsRemoveAssigneeAllowed = None, an_IsManualCCAllowed = None\<rparr>"

definition decodeOr :: "'a \<Rightarrow> (json \<Rightarrow> 'a option) \<Rightarrow> json option \<Rightarrow> flow_error + 'a" where
  "decodeOr zero unmarshal raw =
     (case raw of None \<Rightarrow> Inr zero | Some j \<Rightarrow> ofOption ErrNodeDataUnmarshal (unmarshal j))"

fun ParseData :: "decoder \<Rightarrow> NodeKind \<Rightarrow> json option \<Rightarrow> flow_error + NodeData" where
  "ParseData dec NodeStart raw = bindE (decodeOr zeroBaseNodeData (dec_base dec) raw) (\<lambda>d. Inr (StartData d))"
| "ParseData dec NodeEnd raw = bindE (decodeOr zeroBaseNodeData (dec_base dec) raw) (\<lambda>d. Inr (EndData d))"
| "ParseData dec NodeApproval raw =
     bindE (decodeOr zeroApprovalNodeData (dec_approval dec) raw) (\<lambda>d. Inr (ApprovalData d))"
| "ParseData dec NodeHandle raw =
     bindE (decodeOr \<lparr>hn_Base = zeroBaseNodeData, hn_Task = zeroTaskNodeData\<rparr> (dec_handle dec) raw)
       (\<lambda>d. Inr (HandleData d))"
| "ParseData dec NodeCC raw =
     bindE (decodeOr \<lparr>cn_Base = zeroBaseNodeData, cn_CCs = [], cn_IsReadConfirmRequired = False,
        cn_FieldPermissions = []\<rparr> (dec_cc dec) raw) (\<lambda>d. Inr (CCData d))"
| "ParseData dec NodeCondition raw =
     bindE (decodeOr \<lparr>kn_Base = zeroBaseNodeData, kn_Branches = []\<rparr> (dec_condition dec) raw)
       (\<lambda>d. Inr (ConditionData d))"
| "ParseData dec (NodeKindOther k) raw = Inl ErrUnknownNodeKind"

definition validNodeKind :: "NodeKind \<Rightarrow> bool" where
  "validNodeKind k = (case k of NodeKindOther _ \<Rightarrow> False | _ \<Rightarrow> True)"

record nodeScan =
  ns_nodeIDs :: "string list"
  ns_taskNodeIDs :: "string list"
  ns_parsed :: "(string \<times> NodeData) list"
  ns_condBranches :: "(string \<times> ConditionBranch list) list"
  ns_startID :: string
  ns_endIDs :: "string list"
  ns_rollbackRefs :: "(string \<times> string list) list"
  ns_startCount :: nat
  ns_endCount :: nat

text \<open>What one parsed node adds to the scan: the switch on its kind.\<close>

definition scanKind :: "NodeDefinition \<Rightarrow> NodeData \<Rightarrow> nodeScan \<Rightarrow> flow_error + nodeScan" where
  "scanKind node data sc =
     (case nd_Kind node of
        NodeStart \<Rightarrow> Inr (sc\<lparr>ns_startCount := Suc (ns_startCount sc), ns_startID := nd_ID node\<rparr>)
      | NodeEnd \<Rightarrow> Inr (sc\<lparr>ns_endCount := Suc (ns_endCount sc), ns_endIDs := ns_endIDs sc @ [nd_ID node]\<rparr>)
      | NodeCondition \<Rightarrow>
          (case data of
             ConditionData d \<Rightarrow> Inr (sc\<lparr>ns_condBranches := ns_condBranches sc @ [(nd_ID node, kn_Branches d)]\<rparr>)
           | _ \<Rightarrow> Inl (Graph errUnexpectedCondData))
      | NodeApproval \<Rightarrow>
          (case data of
             ApprovalData d \<Rightarrow> Inr (sc\<lparr>ns_taskNodeIDs := ns_taskNodeIDs sc @ [nd_ID node],
               ns_rollbackRefs := (if an_RollbackTargetKeys d = [] then ns_rollbackRefs sc
                 else ns_rollbackRefs sc @ [(nd_ID node, an_RollbackTargetKeys d)])\<rparr>)
           | _ \<Rightarrow> Inr (sc\<lparr>ns_taskNodeIDs := ns_taskNodeIDs sc @ [nd_ID node]\<rparr>))
      | NodeHandle \<Rightarrow> Inr (sc\<lparr>ns_taskNodeIDs := ns_taskNodeIDs sc @ [nd_ID node]\<rparr>)
      | _ \<Rightarrow> Inr sc)"

definition scanNode ::
    "FlowDefinitionService \<Rightarrow> (rat \<Rightarrow> rat) \<Rightarrow> decoder \<Rightarrow> NodeDefinition \<Rightarrow> nodeScan \<Rightarrow> flow_error + nodeScan" where
  "scanNode s h dec node sc =
     bindE (ensure (nd_ID node \<noteq> []) (Graph errEmptyNodeID)) (\<lambda>_.
     bindE (ensure (nd_ID node \<notin> set (ns_nodeIDs sc)) (Graph errDuplicateNodeID)) (\<lambda>_.
     bindE (ensure (validNodeKind (nd_Kind node)) (Graph errInvalidNodeKind)) (\<lambda>_.
     bindE (ParseData dec (nd_Kind node) (nd_Data node)) (\<lambda>data.
     bindE (validateNodeConfig s h data) (\<lambda>_.
       scanKind node data (sc\<lparr>ns_nodeIDs := ns_nodeIDs sc @ [nd_ID node],
         ns_parsed := ns_parsed sc @ [(nd_ID node, data)]\<rparr>))))))"

definition validateRollbackRefs :: "(string \<times> string list) list \<Rightarrow> string list \<Rightarrow> flow_error + unit" where
  "validateRollbackRefs refs taskNodeIDs =
     checkAll (\<lambda>(nodeID, targetKeys).
       checkAll (\<lambda>key.
         bindE (ensure (key \<noteq> nodeID) (Node errRollbackTargetSelf)) (\<lambda>_.
           ensure (key \<in> set taskNodeIDs) (Node errRollbackTargetUnknown))) targetKeys) refs"

definition emptyNodeScan :: nodeScan where
  "emptyNodeScan = \<lparr>ns_nodeIDs = [], ns_taskNodeIDs = [], ns_parsed = [], ns_condBranches = [], ns_startID = [],
     ns_endIDs = [], ns_rollbackRefs = [], ns_startCount = 0, ns_endCount = 0\<rparr>"

definition validateNodes ::
    "FlowDefinitionService \<Rightarrow> (rat \<Rightarrow> rat) \<Rightarrow> decoder \<Rightarrow> FlowDefinition \<Rightarrow> flow_error + nodeScan" where
  "validateNodes s h dec def =
     bindE (foldE (scanNode s h dec) (fd_Nodes def) emptyNodeScan) (\<lambda>sc.
     bindE (ensure (ns_startCount sc = 1) (Graph errStartNodeCount)) (\<lambda>_.
     bindE (ensure (ns_endCount sc \<ge> 1) (Graph errEndNodeCount)) (\<lambda>_.
     bindE (validateRollbackRefs (ns_rollbackRefs sc) (ns_taskNodeIDs sc)) (\<lambda>_. Inr sc))))"

section \<open>Edges\<close>

text \<open>The four maps of the scan are built by appending to the entry of an endpoint.\<close>

record edgeScan =
  es_edgeIDs :: "string list"
  es_outEdges :: "string \<Rightarrow> EdgeDefinition list"
  es_inDegree :: "string \<Rightarrow> nat"
  es_adjacency :: adjacency
  es_reversedAdj :: adjacency

definition scanEdge :: "string list \<Rightarrow> EdgeDefinition \<Rightarrow> edgeScan \<Rightarrow> flow_error + edgeScan" where
  "scanEdge nodeIDs e sc =
     bindE (ensure (ed_ID e \<noteq> []) (Graph errEmptyEdgeID)) (\<lambda>_.
     bindE (ensure (ed_ID e \<notin> set (es_edgeIDs sc)) (Graph errDuplicateEdgeID)) (\<lambda>_.
     bindE (ensure (ed_Source e \<in> set nodeIDs) (Graph errUnknownSourceNode)) (\<lambda>_.
     bindE (ensure (ed_Target e \<in> set nodeIDs) (Graph errUnknownTargetNode)) (\<lambda>_.
       Inr \<lparr>es_edgeIDs = es_edgeIDs sc @ [ed_ID e],
            es_outEdges = (es_outEdges sc)(ed_Source e := es_outEdges sc (ed_Source e) @ [e]),
            es_inDegree = (es_inDegree sc)(ed_Target e := Suc (es_inDegree sc (ed_Target e))),
            es_adjacency = (es_adjacency sc)(ed_Source e := es_adjacency sc (ed_Source e) @ [ed_Target e]),
            es_reversedAdj = (es_reversedAdj sc)(ed_Target e := es_reversedAdj sc (ed_Target e) @ [ed_Source e])\<rparr>))))"

definition emptyEdgeScan :: edgeScan where
  "emptyEdgeScan = \<lparr>es_edgeIDs = [], es_outEdges = (\<lambda>_. []), es_inDegree = (\<lambda>_. 0),
     es_adjacency = (\<lambda>_. []), es_reversedAdj = (\<lambda>_. [])\<rparr>"

definition validateEdges :: "FlowDefinition \<Rightarrow> string list \<Rightarrow> flow_error + edgeScan" where
  "validateEdges def nodeIDs = foldE (scanEdge nodeIDs) (fd_Edges def) emptyEdgeScan"

section \<open>Degrees\<close>

fun branchLoop :: "ConditionBranch list \<Rightarrow> string list \<Rightarrow> nat \<Rightarrow> flow_error + (string list \<times> nat)" where
  "branchLoop [] branchIDs defaultCount = Inr (branchIDs, defaultCount)"
| "branchLoop (b # bs) branchIDs defaultCount =
     bindE (ensure (b_ID b \<noteq> []) (Graph errCondEmptyBranchID)) (\<lambda>_.
     bindE (ensure (b_ID b \<notin> set branchIDs) (Graph errCondDupBranchID)) (\<lambda>_.
       branchLoop bs (branchIDs @ [b_ID b]) (if b_IsDefault b then Suc defaultCount else defaultCount)))"

fun handleLoop :: "string list \<Rightarrow> EdgeDefinition list \<Rightarrow> string list \<Rightarrow> flow_error + string list" where
  "handleLoop branchIDs [] edgeHandles = Inr edgeHandles"
| "handleLoop branchIDs (e # es) edgeHandles =
     bindE (ofOption (Graph errCondMissingHandle) (ed_SourceHandle e)) (\<lambda>handle.
     bindE (ensure (handle \<in> set branchIDs) (Graph errCondUnknownHandle)) (\<lambda>_.
     bindE (ensure (handle \<notin> set edgeHandles) (Graph errCondDupHandle)) (\<lambda>_.
       handleLoop branchIDs es (edgeHandles @ [handle]))))"

definition validateConditionEdges :: "ConditionBranch list \<Rightarrow> EdgeDefinition list \<Rightarrow> flow_error + unit" where
  "validateConditionEdges branches outs =
     bindE (ensure (length branches \<ge> 2) (Graph errCondMinBranches)) (\<lambda>_.
     bindE (branchLoop branches [] 0) (\<lambda>(branchIDs, defaultCount).
     bindE (ensure (defaultCount = 1) (Graph errCondDefaultCount)) (\<lambda>_.
     bindE (handleLoop branchIDs outs []) (\<lambda>edgeHandles.
       if length edgeHandles \<noteq> length branchIDs
       then checkAll (\<lambda>b. ensure (b_ID b \<in> set edgeHandles) (Graph errCondBranchNoEdge)) branches
       else Inr ()))))"

definition branchesOf :: "nodeScan \<Rightarrow> string \<Rightarrow> ConditionBranch list" where
  "branchesOf nodes nid = (case map_of (ns_condBranches nodes) nid of None \<Rightarrow> [] | Some bs \<Rightarrow> bs)"

definition validateDegreeConstraints :: "FlowDefinition \<Rightarrow> nodeScan \<Rightarrow> edgeScan \<Rightarrow> flow_error + unit" where
  "validateDegreeConstraints def nodes edges =
     bindE (ensure (es_inDegree edges (ns_startID nodes) = 0) (Graph errStartIncoming)) (\<lambda>_.
     bindE (ensure (length (es_outEdges edges (ns_startID nodes)) = 1) (Graph errStartOutgoing)) (\<lambda>_.
     bindE (checkAll (\<lambda>endID.
              bindE (ensure (es_outEdges edges endID = []) (Graph errEndOutgoing)) (\<lambda>_.
                ensure (es_inDegree edges endID \<noteq> 0) (Graph errEndIncoming))) (ns_endIDs nodes)) (\<lambda>_.
       checkAll (\<lambda>node.
         if nd_Kind node = NodeStart \<or> nd_Kind node = NodeEnd then Inr ()
         else
           let outs = es_outEdges edges (nd_ID node)
           in if nd_Kind node = NodeCondition then validateConditionEdges (branchesOf nodes (nd_ID node)) outs
              else case outs of
                  [e] \<Rightarrow> ensure (ed_SourceHandle e = None) (Graph errNodeSourceHandle)
                | _ \<Rightarrow> Inl (Graph errNodeOutgoingCount)) (fd_Nodes def))))"

section \<open>Topology\<close>

definition validateTopology :: "FlowDefinition \<Rightarrow> nodeScan \<Rightarrow> edgeScan \<Rightarrow> flow_error + unit" where
  "validateTopology def nodes edges =
     (let nodeIDSlice = map nd_ID (fd_Nodes def)
      in bindE (ofOption (Graph errSearchExhausted) (detectCycle nodeIDSlice (es_adjacency edges))) (\<lambda>cyclic.
         bindE (ensure (\<not> cyclic) (Graph errGraphCycle)) (\<lambda>_.
         bindE (ofOption (Graph errSearchExhausted)
                  (collectReachable (es_adjacency edges) [ns_startID nodes])) (\<lambda>reached.
         bindE (if length reached \<noteq> length (ns_nodeIDs nodes)
                then checkAll (\<lambda>node. ensure (nd_ID node \<in> set reached) (Graph errNodeUnreachable)) (fd_Nodes def)
                else Inr ()) (\<lambda>_.
         bindE (ofOption (Graph errSearchExhausted)
                  (collectReachable (es_reversedAdj edges) (ns_endIDs nodes))) (\<lambda>canReachEnd.
           if length canReachEnd \<noteq> length (ns_nodeIDs nodes)
           then checkAll (\<lambda>node. ensure (nd_ID node \<in> set canReachEnd) (Graph errNodeCannotReachEnd)) (fd_Nodes def)
           else Inr ()))))))"

definition ValidateFlowDefinition ::
    "FlowDefinitionService \<Rightarrow> (rat \<Rightarrow> rat) \<Rightarrow> decoder \<Rightarrow> FlowDefinition \<Rightarrow> flow_error + (string \<times> NodeData) list" where
  "ValidateFlowDefinition s h dec def =
     bindE (ensure (fd_Nodes def \<noteq> []) (Graph errNoNodes)) (\<lambda>_.
     bindE (validateNodes s h dec def) (\<lambda>nodes.
     bindE (validateEdges def (ns_nodeIDs nodes)) (\<lambda>edges.
     bindE (validateDegreeConstraints def nodes edges) (\<lambda>_.
     bindE (validateTopology def nodes edges) (\<lambda>_. Inr (ns_parsed nodes))))))"

end
