(* ===== verification/Flow_Config.thy ===== *)
theory Flow_Config
  imports Flow_Definition Form_Tables Rune_Text
begin

text \<open>
  The configuration a flow version stores.  \<open>ApplyTo\<close> (\<^verbatim>\<open>approval/node_data.go\<close>) resolves the
  payload of a node to its row, with the designer's defaults for what is omitted; the checks below
  are the deploy-time checks of the form fields and of where they meet the graph
  (\<^verbatim>\<open>service/form_fields_validation.go\<close>, \<^verbatim>\<open>condition_aggregates.go\<close>, \<^verbatim>\<open>field_permissions.go\<close>), and the
  save-time checks of labels (\<^verbatim>\<open>orm/labels.go\<close>) and of the business binding
  (\<^verbatim>\<open>binding/config_validator.go\<close>).
\<close>

section \<open>Node rows\<close>

definition orTrue :: "bool option \<Rightarrow> bool" where
  "orTrue v = (case v of None \<Rightarrow> True | Some b \<Rightarrow> b)"

definition applyBaseNodeData :: "BaseNodeData \<Rightarrow> FlowNode \<Rightarrow> FlowNode" where
  "applyBaseNodeData d node = node\<lparr>n_Name := bd_Name d, n_Description := bd_Description d\<rparr>"

definition applyTaskNodeData :: "TaskNodeData \<Rightarrow> FlowNode \<Rightarrow> FlowNode" where
  "applyTaskNodeData d node = node\<lparr>
     n_ExecutionType := cmpOr (ExecutionOther []) (td_ExecutionType d) ExecutionManual,
     n_EmptyAssigneeAction := cmpOr (EmptyAssigneeOther []) (td_EmptyAssigneeAction d) EmptyAssigneeAutoPass,
     n_FallbackUserIDs := td_FallbackUserIDs d, n_AdminUserIDs := td_AdminUserIDs d,
     n_IsTransferAllowed := orTrue (td_IsTransferAllowed d), n_IsOpinionRequired := td_IsOpinionRequired d,
     n_TimeoutHours := td_TimeoutHours d,
     n_TimeoutAction := cmpOr (TimeoutActionOther []) (td_TimeoutAction d) TimeoutActionNone,
     n_TimeoutNotifyBeforeHours := td_TimeoutNotifyBeforeHours d, n_UrgeCooldownMinutes := td_UrgeCooldownMinutes d,
     n_FieldPermissions := td_FieldPermissions d\<rparr>"

fun ApplyTo :: "NodeData \<Rightarrow> FlowNode \<Rightarrow> FlowNode" where
  "ApplyTo (StartData d) node = applyBaseNodeData d node"
| "ApplyTo (EndData d) node = applyBaseNodeData d node"
| "ApplyTo (ApprovalData d) node =
     (applyTaskNodeData (an_Task d) (applyBaseNodeData (an_Base d) node))\<lparr>
       n_ApprovalMethod := cmpOr (ApprovalMethodOther []) (an_ApprovalMethod d) ApprovalParallel,
       n_PassRule := cmpOr (PassRuleOther []) (an_PassRule d) PassAll,
       n_PassRatio := an_PassRatio d, n_PassCount := an_PassCount d,
       n_SameApplicantAction := cmpOr (SameApplicantOther []) (an_SameApplicantAction d) SameApplicantSelfApprove,
       n_ConsecutiveApproverAction := cmpOr (ConsecutiveApproverOther []) (an_ConsecutiveApproverAction d) ConsecutiveApproverNone,
       n_RollbackType := cmpOr (RollbackOther []) (an_RollbackType d) RollbackPrevious,
       n_RollbackDataStrategy := cmpOr (RollbackDataOther []) (an_RollbackDataStrategy d) RollbackDataKeep,
       n_RollbackTargetKeys := an_RollbackTargetKeys d, n_IsRollbackAllowed := orTrue (an_IsRollbackAllowed d),
       n_IsAddAssigneeAllowed := orTrue (an_IsAddAssigneeAllowed d), n_AddAssigneeTypes := an_AddAssigneeTypes d,
       n_IsRemoveAssigneeAllowed := orTrue (an_IsRemoveAssigneeAllowed d),
       n_IsManualCCAllowed := orTrue (an_IsManualCCAllowed d)\<rparr>"
| "ApplyTo (HandleData d) node =
     (applyTaskNodeData (hn_Task d) (applyBaseNodeData (hn_Base d) node))\<lparr>
       n_ApprovalMethod := ApprovalSequential, n_PassRule := PassAny\<rparr>"
| "ApplyTo (CCData d) node =
     (applyBaseNodeData (cn_Base d) node)\<lparr>n_IsReadConfirmRequired := cn_IsReadConfirmRequired d,
       n_FieldPermissions := cn_FieldPermissions d\<rparr>"
| "ApplyTo (ConditionData d) node = (applyBaseNodeData (kn_Base d) node)\<lparr>n_Branches := kn_Branches d\<rparr>"

fun GetAssignees :: "NodeData \<Rightarrow> AssigneeDefinition list" where
  "GetAssignees (ApprovalData d) = td_Assignees (an_Task d)"
| "GetAssignees (HandleData d) = td_Assignees (hn_Task d)"
| "GetAssignees _ = []"

fun GetCCs :: "NodeData \<Rightarrow> CCDefinition list" where
  "GetCCs (ApprovalData d) = td_CCs (an_Task d)"
| "GetCCs (HandleData d) = td_CCs (hn_Task d)"
| "GetCCs (CCData d) = cn_CCs d"
| "GetCCs _ = []"

section \<open>Form fields\<close>

datatype form_error =
    errFormFieldKeyEmpty | errDuplicateFormFieldKey | errInvalidFormFieldKind | errInvalidFormPattern
  | errInvalidFormLengthRange | errInvalidFormValueRange | errTableColumnsRequired | errNestedTableColumn
  | errColumnsOnScalarField | errInvalidOptionSourceKind | errRemoteOptionRequestIncomplete
  | errCodeSetOptionSourceIncomplete

text \<open>\<^verbatim>\<open>regexp.Compile\<close> accepts the patterns the environment has a matcher for.\<close>

definition exceeds :: "('a :: linorder) option \<Rightarrow> 'a option \<Rightarrow> bool" where
  "exceeds lo hi = (case (lo, hi) of (Some a, Some b) \<Rightarrow> a > b | _ \<Rightarrow> False)"

definition validateFieldValidationRule :: "env \<Rightarrow> FormFieldDefinition \<Rightarrow> form_error + unit" where
  "validateFieldValidationRule env field =
     (case ff_Validation field of
        None \<Rightarrow> Inr ()
      | Some rule \<Rightarrow>
          bindE (ensure (vr_Pattern rule = [] \<or> env_regexp_match env (vr_Pattern rule) \<noteq> None) errInvalidFormPattern) (\<lambda>_.
          bindE (ensure (\<not> exceeds (vr_MinLength rule) (vr_MaxLength rule)) errInvalidFormLengthRange) (\<lambda>_.
            ensure (\<not> exceeds (vr_Min rule) (vr_Max rule)) errInvalidFormValueRange)))"

definition validateOptionSource :: "FormFieldDefinition \<Rightarrow> form_error + unit" where
  "validateOptionSource field =
     (case ff_OptionSource field of
        None \<Rightarrow> Inr ()
      | Some source \<Rightarrow>
          (case os_Kind source of
             OptionSourceRemote \<Rightarrow>
               ensure (case os_Request source of None \<Rightarrow> False
                 | Some r \<Rightarrow> trimSpace (ro_Resource r) \<noteq> [] \<and> trimSpace (ro_Action r) \<noteq> []) errRemoteOptionRequestIncomplete
           | OptionSourceCodeSet \<Rightarrow> ensure (trimSpace (os_CodeSet source) \<noteq> []) errCodeSetOptionSourceIncomplete
           | OptionSourceOther _ \<Rightarrow> Inl errInvalidOptionSourceKind))"

text \<open>The columns of a table, with the keys seen so far.\<close>

definition validateTableColumn :: "env \<Rightarrow> FormFieldDefinition \<Rightarrow> string list \<Rightarrow> form_error + string list" where
  "validateTableColumn env column keys =
     bindE (ensure (trimSpace (ff_Key column) \<noteq> []) errFormFieldKeyEmpty) (\<lambda>_.
     bindE (ensure (ff_Key column \<notin> set keys) errDuplicateFormFieldKey) (\<lambda>_.
     bindE (ensure (ff_Kind column \<noteq> FieldTable) errNestedTableColumn) (\<lambda>_.
     bindE (ensure (FieldKind_IsValid (ff_Kind column)) errInvalidFormFieldKind) (\<lambda>_.
     bindE (validateFieldValidationRule env column) (\<lambda>_.
     bindE (validateOptionSource column) (\<lambda>_. Inr (ff_Key column # keys)))))))"

definition validateTableColumns :: "env \<Rightarrow> FormFieldDefinition \<Rightarrow> form_error + unit" where
  "validateTableColumns env field =
     (if ff_Kind field \<noteq> FieldTable then ensure (ff_Columns field = []) errColumnsOnScalarField
      else bindE (ensure (ff_Columns field \<noteq> []) errTableColumnsRequired) (\<lambda>_.
           bindE (foldE (validateTableColumn env) (ff_Columns field) []) (\<lambda>_. Inr ())))"

definition validateTopField :: "env \<Rightarrow> FormFieldDefinition \<Rightarrow> string list \<Rightarrow> form_error + string list" where
  "validateTopField env field keys =
     bindE (ensure (trimSpace (ff_Key field) \<noteq> []) errFormFieldKeyEmpty) (\<lambda>_.
     bindE (ensure (ff_Key field \<notin> set keys) errDuplicateFormFieldKey) (\<lambda>_.
     bindE (ensure (FieldKind_IsValid (ff_Kind field)) errInvalidFormFieldKind) (\<lambda>_.
     bindE (validateFieldValidationRule env field) (\<lambda>_.
     bindE (validateOptionSource field) (\<lambda>_.
     bindE (validateTableColumns env field) (\<lambda>_. Inr (ff_Key field # keys)))))))"

definition ValidateFormFields :: "env \<Rightarrow> FormFieldDefinition list \<Rightarrow> form_error + unit" where
  "ValidateFormFields env fs = bindE (foldE (validateTopField env) fs []) (\<lambda>_. Inr ())"

section \<open>Aggregates and permissions\<close>

text \<open>The columns of the table field with a key; later fields overwrite earlier ones.\<close>

definition tableFieldIndex :: "FormFieldDefinition list \<Rightarrow> (string \<rightharpoonup> (string \<rightharpoonup> FormFieldDefinition))" where
  "tableFieldIndex fs =
     map_of (rev (map (\<lambda>f. (ff_Key f, map_of (rev (map (\<lambda>c. (ff_Key c, c)) (ff_Columns f)))))
       (filter (\<lambda>f. ff_Kind f = FieldTable) fs)))"

definition validateAggregateReference ::
    "FlowDefinitionService \<Rightarrow> (string \<rightharpoonup> (string \<rightharpoonup> FormFieldDefinition)) \<Rightarrow> Condition \<Rightarrow> condition_error + unit" where
  "validateAggregateReference s tableIndex cond =
     bindE (ensure (c_Aggregate cond \<in> set (fds_aggregateKinds s)) errUnregisteredAggregate) (\<lambda>_.
     bindE (ofOption errAggregateSubjectNotTable (tableIndex (c_Subject cond))) (\<lambda>columns.
       if \<not> FoldsColumn (c_Aggregate cond) then Inr ()
       else bindE (ofOption errAggregateColumnUnknown (columns (c_Column cond))) (\<lambda>column.
              ensure (ff_Kind column = FieldNumber) errAggregateColumnNotNumeric)))"

definition ValidateConditionAggregates ::
    "FlowDefinitionService \<Rightarrow> (string \<times> NodeData) list \<Rightarrow> FormFieldDefinition list \<Rightarrow> condition_error + unit" where
  "ValidateConditionAggregates s nodeData fs =
     (let tableIndex = tableFieldIndex fs
      in checkAll (\<lambda>(nodeID, data). case data of
           ConditionData d \<Rightarrow>
             checkAll (\<lambda>branch. checkAll (\<lambda>group. checkAll (\<lambda>cond.
               if c_Kind cond \<noteq> ''field'' \<or> c_Aggregate cond = [] then Inr ()
               else validateAggregateReference s tableIndex cond)
               (g_Conditions group)) (b_ConditionGroups branch)) (kn_Branches d)
         | _ \<Rightarrow> Inr ()) nodeData)"

datatype permission_error =
    errInvalidFieldPermission | errFieldPermissionKeyUnknown | errCCFieldPermissionNotAllowed
  | errRequiredPermissionAutoPass

definition validateFieldPermissionEntry ::
    "string \<Rightarrow> Permission \<Rightarrow> bool \<Rightarrow> string list \<Rightarrow> permission_error + unit" where
  "validateFieldPermissionEntry key perm isCC fieldKeys =
     bindE (ensure (Permission_IsValid perm) errInvalidFieldPermission) (\<lambda>_.
     bindE (ensure (key \<in> set fieldKeys) errFieldPermissionKeyUnknown) (\<lambda>_.
       ensure (\<not> (isCC \<and> perm \<noteq> PermissionVisible \<and> perm \<noteq> PermissionHidden)) errCCFieldPermissionNotAllowed))"

fun fieldPermissionsOf :: "NodeData \<Rightarrow> (string \<times> Permission) list \<times> bool" where
  "fieldPermissionsOf (ApprovalData d) = (td_FieldPermissions (an_Task d), False)"
| "fieldPermissionsOf (HandleData d) = (td_FieldPermissions (hn_Task d), False)"
| "fieldPermissionsOf (CCData d) = (cn_FieldPermissions d, True)"
| "fieldPermissionsOf _ = ([], False)"

fun resolvedTimeoutAction :: "NodeData \<Rightarrow> TimeoutAction" where
  "resolvedTimeoutAction (ApprovalData d) = cmpOr (TimeoutActionOther []) (td_TimeoutAction (an_Task d)) TimeoutActionNone"
| "resolvedTimeoutAction (HandleData d) = cmpOr (TimeoutActionOther []) (td_TimeoutAction (hn_Task d)) TimeoutActionNone"
| "resolvedTimeoutAction _ = TimeoutActionOther []"

definition formFieldKeySet :: "FormFieldDefinition list \<Rightarrow> string list" where
  "formFieldKeySet fs = map ff_Key fs"

definition ValidateFieldPermissions ::
    "(string \<times> NodeData) list \<Rightarrow> FormFieldDefinition list \<Rightarrow> permission_error + unit" where
  "ValidateFieldPermissions nodeData fs =
     checkAll (\<lambda>(nodeID, data).
       let (permissions, isCC) = fieldPermissionsOf data
       in bindE (checkAll (\<lambda>(key, perm). validateFieldPermissionEntry key perm isCC (formFieldKeySet fs)) permissions) (\<lambda>_.
            ensure (\<not> (list_ex (\<lambda>(key, perm). perm = PermissionRequired) permissions
               \<and> resolvedTimeoutAction data = TimeoutActionAutoPass)) errRequiredPermissionAutoPass)) nodeData"

section \<open>Labels\<close>

definition labelEdge :: "char \<Rightarrow> bool" where
  "labelEdge c = (inRange 65 90 c \<or> inRange 97 122 c \<or> inRange 48 57 c)"

definition labelKeyPattern :: "string \<Rightarrow> bool" where
  "labelKeyPattern k = (k \<noteq> [] \<and> labelEdge (hd k) \<and> labelEdge (last k)
     \<and> list_all (\<lambda>c. labelEdge c \<or> c = CHR ''_'' \<or> c = CHR ''-'') k)"

definition maxLabelKeyLength :: nat where "maxLabelKeyLength = 63"
definition maxLabelValueLength :: nat where "maxLabelValueLength = 256"

text \<open>\<^term>\<open>True\<close> is the nil error.\<close>

definition ValidateLabels :: "(string \<times> string) list \<Rightarrow> bool" where
  "ValidateLabels labels =
     list_all (\<lambda>(key, value). \<not> (length key > maxLabelKeyLength \<or> \<not> labelKeyPattern key)
       \<and> \<not> RuneCountInString value > maxLabelValueLength) labels"

section \<open>Business binding\<close>

text \<open>The parts of a table's description the check reads (\<^verbatim>\<open>schema.TableSchema\<close>).\<close>

record UniqueKey =
  uk_Columns :: "string list"
  uk_Predicate :: string
  uk_HasExpressions :: bool

record TableSchema =
  sc_Columns :: "(string \<times> bool) list"
  sc_PrimaryKey :: "string list option"
  sc_UniqueKeys :: "UniqueKey list"

definition normalizeOptionalColumn :: "string option \<Rightarrow> string option" where
  "normalizeOptionalColumn column =
     (case column of None \<Rightarrow> None | Some c \<Rightarrow> let trimmed = trimSpace c in if trimmed = [] then None else Some trimmed)"

definition bindingWriteColumns :: "BusinessBindingConfig \<Rightarrow> string list" where
  "bindingWriteColumns config =
     bb_StatusColumn config # List.map_filter id
       [bb_InstanceIDColumn config, bb_StartedAtColumn config, bb_FinishedAtColumn config]"

definition isProjectableStatus :: "string + InstanceStatus \<Rightarrow> bool" where
  "isProjectableStatus status = (case status of Inl _ \<Rightarrow> False | Inr _ \<Rightarrow> True)"

definition NormalizeConfig ::
    "BindingMode \<Rightarrow> BusinessBindingConfig option \<Rightarrow> design_error + BusinessBindingConfig option" where
  "NormalizeConfig mode config =
     (if mode \<noteq> BindingBusiness then bindE (ensure (config = None) ErrBindingUnexpected) (\<lambda>_. Inr None)
      else bindE (ofOption ErrBindingIncomplete config) (\<lambda>c.
        let normalized = \<lparr>bb_TableName = trimSpace (bb_TableName c), bb_KeyColumns = sort (map trimSpace (bb_KeyColumns c)),
              bb_StatusColumn = trimSpace (bb_StatusColumn c),
              bb_InstanceIDColumn = normalizeOptionalColumn (bb_InstanceIDColumn c),
              bb_StartedAtColumn = normalizeOptionalColumn (bb_StartedAtColumn c),
              bb_FinishedAtColumn = normalizeOptionalColumn (bb_FinishedAtColumn c),
              bb_StatusMapping = map (\<lambda>(s, v). (s, trimSpace v)) (bb_StatusMapping c)\<rparr>;
            identifiers = bb_TableName normalized # bb_KeyColumns normalized @ bindingWriteColumns normalized
        in bindE (ensure (\<not> (bb_TableName normalized = [] \<or> bb_KeyColumns normalized = []
                    \<or> bb_StatusColumn normalized = [] \<or> bb_InstanceIDColumn normalized = None)) ErrBindingIncomplete) (\<lambda>_.
           bindE (checkAll (\<lambda>(status, v). ensure (isProjectableStatus status \<and> v \<noteq> []) ErrBindingStatusMappingInvalid)
                    (bb_StatusMapping normalized)) (\<lambda>_.
           bindE (checkAll (\<lambda>i. bindE (ensure (i \<noteq> []) ErrBindingIncomplete) (\<lambda>_.
                    ensure (ValidateBusinessIdentifier i) ErrInvalidBusinessIdentifier)) identifiers) (\<lambda>_.
           bindE (ensure (distinct (tl identifiers)) ErrBindingColumnsConflict) (\<lambda>_. Inr (Some normalized)))))))"

definition sameColumns :: "string list \<Rightarrow> string list \<Rightarrow> bool" where
  "sameColumns left right = (length left = length right \<and> sort left = sort right)"

text \<open>
  \<open>GetTableSchema\<close> of the schema service is the argument; \<^term>\<open>None\<close> is \<^verbatim>\<open>schema.ErrTableMissing\<close>.
  The map of the columns keeps the last of a name.
\<close>

definition ValidateSchema :: "(string \<Rightarrow> TableSchema option) \<Rightarrow> BusinessBindingConfig \<Rightarrow> design_error + unit" where
  "ValidateSchema schemas config =
     bindE (ofOption (ErrBindingTableMissing (bb_TableName config)) (schemas (bb_TableName config))) (\<lambda>table.
     let columns = map_of (rev (sc_Columns table))
     in bindE (checkAll (\<lambda>c. ensure (columns c \<noteq> None) (ErrBindingColumnMissing c))
                 (bb_KeyColumns config @ bindingWriteColumns config)) (\<lambda>_.
        bindE (checkAll (\<lambda>k. ensure (columns k \<noteq> Some True) ErrBindingKeyNotUnique) (bb_KeyColumns config)) (\<lambda>_.
          ensure ((case sc_PrimaryKey table of None \<Rightarrow> False | Some pk \<Rightarrow> sameColumns (bb_KeyColumns config) pk)
            \<or> list_ex (\<lambda>u. uk_Predicate u = [] \<and> \<not> uk_HasExpressions u
                \<and> sameColumns (bb_KeyColumns config) (uk_Columns u)) (sc_UniqueKeys table)) ErrBindingKeyNotUnique)))"

end
