(* ===== verification/Flow_Design.thy ===== *)
theory Flow_Design
  imports Flow_Definition
begin

text \<open>
  What deploy-time validation accepts.  \<open>wellFormed\<close> states in graph terms which definitions the
  engine can run; each phase of \<open>ValidateFlowDefinition\<close> is shown to compute its part of it, and
  the validator to accept exactly the well-formed definitions.
\<close>

section \<open>Well-formed definitions\<close>

definition links :: "FlowDefinition \<Rightarrow> (string \<times> string) set" where
  "links def = (\<lambda>e. (ed_Source e, ed_Target e)) ` set (fd_Edges def)"

definition outsOf :: "EdgeDefinition list \<Rightarrow> string \<Rightarrow> EdgeDefinition list" where
  "outsOf es n = filter (\<lambda>e. ed_Source e = n) es"

definition idsOf :: "(NodeKind \<Rightarrow> bool) \<Rightarrow> NodeDefinition list \<Rightarrow> string list" where
  "idsOf P ns = map nd_ID (filter (\<lambda>n. P (nd_Kind n)) ns)"

definition isTaskKind :: "NodeKind \<Rightarrow> bool" where
  "isTaskKind k \<longleftrightarrow> k = NodeApproval \<or> k = NodeHandle"

text \<open>The payload of a node that parses.\<close>

definition dataOf :: "decoder \<Rightarrow> NodeDefinition \<Rightarrow> NodeData" where
  "dataOf dec n = (case ParseData dec (nd_Kind n) (nd_Data n) of Inr d \<Rightarrow> d | Inl e \<Rightarrow> StartData zeroBaseNodeData)"

definition branchesIn :: "NodeData \<Rightarrow> ConditionBranch list" where
  "branchesIn d = (case d of ConditionData c \<Rightarrow> kn_Branches c | _ \<Rightarrow> [])"

definition rollbackKeys :: "NodeData \<Rightarrow> string list" where
  "rollbackKeys d = (case d of ApprovalData a \<Rightarrow> an_RollbackTargetKeys a | _ \<Rightarrow> [])"

definition nodeOk :: "FlowDefinitionService \<Rightarrow> (rat \<Rightarrow> rat) \<Rightarrow> decoder \<Rightarrow> NodeDefinition \<Rightarrow> bool" where
  "nodeOk s h dec n \<longleftrightarrow> nd_ID n \<noteq> [] \<and> validNodeKind (nd_Kind n)
     \<and> ParseData dec (nd_Kind n) (nd_Data n) = Inr (dataOf dec n) \<and> validateNodeConfig s h (dataOf dec n) = Inr ()"

text \<open>The branches of a condition node: one default, and one outgoing edge per branch.\<close>

definition branchesOk :: "ConditionBranch list \<Rightarrow> EdgeDefinition list \<Rightarrow> bool" where
  "branchesOk bs outs \<longleftrightarrow> 2 \<le> length bs \<and> [] \<notin> b_ID ` set bs \<and> distinct (map b_ID bs)
     \<and> length (filter b_IsDefault bs) = 1
     \<and> distinct (map ed_SourceHandle outs) \<and> ed_SourceHandle ` set outs = Some ` b_ID ` set bs"

definition degreeOk :: "decoder \<Rightarrow> FlowDefinition \<Rightarrow> NodeDefinition \<Rightarrow> bool" where
  "degreeOk dec def n \<longleftrightarrow>
     (let outs = outsOf (fd_Edges def) (nd_ID n); entered = nd_ID n \<in> ed_Target ` set (fd_Edges def)
      in case nd_Kind n of
           NodeStart \<Rightarrow> \<not> entered \<and> length outs = 1
         | NodeEnd \<Rightarrow> entered \<and> outs = []
         | NodeCondition \<Rightarrow> branchesOk (branchesIn (dataOf dec n)) outs
         | _ \<Rightarrow> \<exists>e. outs = [e] \<and> ed_SourceHandle e = None)"

definition edgesOk :: "FlowDefinition \<Rightarrow> bool" where
  "edgesOk def \<longleftrightarrow> distinct (map ed_ID (fd_Edges def)) \<and> [] \<notin> ed_ID ` set (fd_Edges def)
     \<and> links def \<subseteq> nd_ID ` set (fd_Nodes def) \<times> nd_ID ` set (fd_Nodes def)"

definition wellFormed :: "FlowDefinitionService \<Rightarrow> (rat \<Rightarrow> rat) \<Rightarrow> decoder \<Rightarrow> FlowDefinition \<Rightarrow> bool" where
  "wellFormed s h dec def \<longleftrightarrow>
     (let ns = fd_Nodes def
      in distinct (map nd_ID ns) \<and> (\<forall>n \<in> set ns. nodeOk s h dec n)
       \<and> length (idsOf ((=) NodeStart) ns) = 1 \<and> idsOf ((=) NodeEnd) ns \<noteq> []
       \<and> (\<forall>n \<in> set ns. set (rollbackKeys (dataOf dec n)) \<subseteq> set (idsOf isTaskKind ns) - {nd_ID n})
       \<and> edgesOk def \<and> (\<forall>n \<in> set ns. degreeOk dec def n)
       \<and> acyclic (links def)
       \<and> (\<forall>n \<in> set ns. \<exists>a \<in> set (idsOf ((=) NodeStart) ns). (a, nd_ID n) \<in> (links def)\<^sup>*)
       \<and> (\<forall>n \<in> set ns. \<exists>b \<in> set (idsOf ((=) NodeEnd) ns). (nd_ID n, b) \<in> (links def)\<^sup>*))"

section \<open>The node scan\<close>

definition scanOf :: "decoder \<Rightarrow> NodeDefinition list \<Rightarrow> nodeScan" where
  "scanOf dec ns =
     \<lparr>ns_nodeIDs = map nd_ID ns, ns_taskNodeIDs = idsOf isTaskKind ns,
      ns_parsed = map (\<lambda>n. (nd_ID n, dataOf dec n)) ns,
      ns_condBranches = map (\<lambda>n. (nd_ID n, branchesIn (dataOf dec n))) (filter (\<lambda>n. nd_Kind n = NodeCondition) ns),
      ns_startID = (case rev (idsOf ((=) NodeStart) ns) of [] \<Rightarrow> [] | i # _ \<Rightarrow> i),
      ns_endIDs = idsOf ((=) NodeEnd) ns,
      ns_rollbackRefs = filter (\<lambda>(i, ks). ks \<noteq> []) (map (\<lambda>n. (nd_ID n, rollbackKeys (dataOf dec n))) ns),
      ns_startCount = length (idsOf ((=) NodeStart) ns), ns_endCount = length (idsOf ((=) NodeEnd) ns)\<rparr>"

lemma ParseData_kind:
  assumes "ParseData dec (nd_Kind n) (nd_Data n) = Inr d"
  shows "dataOf dec n = d"
    and "nd_Kind n \<noteq> NodeApproval \<Longrightarrow> rollbackKeys d = []"
    and "nd_Kind n = NodeCondition \<Longrightarrow> \<exists>c. d = ConditionData c"
    and "nd_Kind n = NodeApproval \<Longrightarrow> \<exists>a. d = ApprovalData a"
  using assms by (cases "nd_Kind n"; force simp: dataOf_def rollbackKeys_def branchesIn_def)+

lemma scanNode_scanOf:
  "scanNode s h dec n (scanOf dec ns) = Inr sc \<longleftrightarrow>
     nodeOk s h dec n \<and> nd_ID n \<notin> nd_ID ` set ns \<and> sc = scanOf dec (ns @ [n])"
proof (cases "ParseData dec (nd_Kind n) (nd_Data n)")
  case (Inl e)
  then show ?thesis by (auto simp: scanNode_def nodeOk_def bindE_Inr_iff)
next
  case (Inr d)
  note p = ParseData_kind[OF Inr]
  have *: "scanKind n d ((scanOf dec ns)\<lparr>ns_nodeIDs := map nd_ID ns @ [nd_ID n],
      ns_parsed := ns_parsed (scanOf dec ns) @ [(nd_ID n, d)]\<rparr>) = Inr (scanOf dec (ns @ [n]))"
    if "validNodeKind (nd_Kind n)"
    using that p Inr
    by (cases "nd_Kind n")
      (auto simp: scanKind_def scanOf_def idsOf_def isTaskKind_def validNodeKind_def rollbackKeys_def branchesIn_def)
  have "sc = scanOf dec (ns @ [n])" if "scanKind n d ((scanOf dec ns)\<lparr>ns_nodeIDs := map nd_ID ns @ [nd_ID n],
      ns_parsed := ns_parsed (scanOf dec ns) @ [(nd_ID n, d)]\<rparr>) = Inr sc" "validNodeKind (nd_Kind n)"
    using * that by simp
  then show ?thesis
    using Inr * p(1) by (auto simp: scanNode_def nodeOk_def bindE_Inr_iff) (simp_all add: scanOf_def)
qed

lemma scanNodes_iff:
  "foldE (scanNode s h dec) ns emptyNodeScan = Inr sc \<longleftrightarrow>
     distinct (map nd_ID ns) \<and> (\<forall>n \<in> set ns. nodeOk s h dec n) \<and> sc = scanOf dec ns"
proof (induction ns arbitrary: sc rule: rev_induct)
  case Nil
  show ?case by (auto simp: emptyNodeScan_def scanOf_def idsOf_def)
next
  case (snoc n ns)
  show ?case
    by (auto simp: foldE_append bindE_Inr_iff snoc.IH scanNode_scanOf)
qed

lemma validateRollbackRefs_iff:
  "validateRollbackRefs (ns_rollbackRefs (scanOf dec ns)) (idsOf isTaskKind ns) = Inr u \<longleftrightarrow>
     (\<forall>n \<in> set ns. set (rollbackKeys (dataOf dec n)) \<subseteq> set (idsOf isTaskKind ns) - {nd_ID n})"
proof -
  have "validateRollbackRefs (ns_rollbackRefs (scanOf dec ns)) (idsOf isTaskKind ns) = Inr u \<longleftrightarrow>
      (\<forall>n \<in> set ns. rollbackKeys (dataOf dec n) \<noteq> [] \<longrightarrow>
        (\<forall>k \<in> set (rollbackKeys (dataOf dec n)). k \<noteq> nd_ID n \<and> k \<in> set (idsOf isTaskKind ns)))"
    by (auto simp: validateRollbackRefs_def scanOf_def bindE_Inr_iff)
  then show ?thesis by (auto simp: subset_iff)
qed

lemma validateNodes_iff:
  "validateNodes s h dec def = Inr sc \<longleftrightarrow> (let ns = fd_Nodes def
     in distinct (map nd_ID ns) \<and> (\<forall>n \<in> set ns. nodeOk s h dec n) \<and> sc = scanOf dec ns
      \<and> length (idsOf ((=) NodeStart) ns) = 1 \<and> idsOf ((=) NodeEnd) ns \<noteq> []
      \<and> (\<forall>n \<in> set ns. set (rollbackKeys (dataOf dec n)) \<subseteq> set (idsOf isTaskKind ns) - {nd_ID n}))"
proof -
  have c: "ns_startCount (scanOf dec ns) = length (idsOf ((=) NodeStart) ns)"
    "ns_endCount (scanOf dec ns) = length (idsOf ((=) NodeEnd) ns)"
    "ns_taskNodeIDs (scanOf dec ns) = idsOf isTaskKind ns" for ns
    by (simp_all add: scanOf_def)
  show ?thesis
    unfolding validateNodes_def Let_def bindE_Inr_iff scanNodes_iff ensure_Inr
    using validateRollbackRefs_iff[of dec "fd_Nodes def"]
    by (auto simp: c Suc_le_eq)
qed

section \<open>The edge scan\<close>

definition edgeScanOf :: "EdgeDefinition list \<Rightarrow> edgeScan" where
  "edgeScanOf es =
     \<lparr>es_edgeIDs = map ed_ID es, es_outEdges = outsOf es,
      es_inDegree = (\<lambda>n. length (filter (\<lambda>e. ed_Target e = n) es)),
      es_adjacency = (\<lambda>n. map ed_Target (outsOf es n)),
      es_reversedAdj = (\<lambda>n. map ed_Source (filter (\<lambda>e. ed_Target e = n) es))\<rparr>"

lemma scanEdges_iff:
  "foldE (scanEdge ids) es emptyEdgeScan = Inr sc \<longleftrightarrow>
     distinct (map ed_ID es) \<and> [] \<notin> ed_ID ` set es \<and> (\<forall>e \<in> set es. ed_Source e \<in> set ids \<and> ed_Target e \<in> set ids)
     \<and> sc = edgeScanOf es"
proof (induction es arbitrary: sc rule: rev_induct)
  case Nil
  show ?case by (auto simp: emptyEdgeScan_def edgeScanOf_def outsOf_def)
next
  case (snoc e es)
  have "scanEdge ids e (edgeScanOf es) = Inr sc \<longleftrightarrow> ed_ID e \<noteq> [] \<and> ed_ID e \<notin> ed_ID ` set es
      \<and> ed_Source e \<in> set ids \<and> ed_Target e \<in> set ids \<and> sc = edgeScanOf (es @ [e])"
    by (auto simp: scanEdge_def edgeScanOf_def bindE_Inr_iff outsOf_def fun_eq_iff)
  then show ?case unfolding foldE_append by (auto simp: bindE_Inr_iff snoc.IH)
qed

lemma validateEdges_iff:
  "validateEdges def (map nd_ID (fd_Nodes def)) = Inr sc \<longleftrightarrow> edgesOk def \<and> sc = edgeScanOf (fd_Edges def)"
  unfolding validateEdges_def scanEdges_iff edgesOk_def links_def by auto

section \<open>Degrees\<close>

lemma branchLoop_iff:
  "branchLoop bs ids d = Inr (ids', d') \<longleftrightarrow> [] \<notin> b_ID ` set bs \<and> distinct (map b_ID bs)
     \<and> set ids \<inter> b_ID ` set bs = {} \<and> ids' = ids @ map b_ID bs \<and> d' = d + length (filter b_IsDefault bs)"
  by (induction bs arbitrary: ids d) (auto simp: bindE_Inr_iff)

lemma handleLoop_iff:
  "handleLoop ids es hs = Inr hs' \<longleftrightarrow> (\<forall>e \<in> set es. \<exists>h \<in> set ids. ed_SourceHandle e = Some h)
     \<and> distinct (map ed_SourceHandle es) \<and> Some ` set hs \<inter> ed_SourceHandle ` set es = {}
     \<and> hs' = hs @ map (\<lambda>e. the (ed_SourceHandle e)) es"
proof (induction es arbitrary: hs)
  case (Cons e es)
  show ?case
    by (cases "ed_SourceHandle e") (auto simp: bindE_Inr_iff Cons.IH)
qed auto

lemma validateConditionEdges_iff: "validateConditionEdges bs outs = Inr u \<longleftrightarrow> branchesOk bs outs"
proof -
  let ?ids = "map b_ID bs" and ?hs = "map (\<lambda>e. the (ed_SourceHandle e)) outs"
  have count: "(if length ?hs \<noteq> length ?ids then checkAll (\<lambda>b. ensure (b_ID b \<in> set ?hs) e) bs else Inr ()) = Inr u
      \<longleftrightarrow> ed_SourceHandle ` set outs = Some ` b_ID ` set bs"
    if d: "distinct ?ids" and h: "\<forall>e \<in> set outs. \<exists>h \<in> set ?ids. ed_SourceHandle e = Some h"
      and dh: "distinct (map ed_SourceHandle outs)" for e :: flow_error
  proof -
    have eq: "ed_SourceHandle x = Some (the (ed_SourceHandle x))" if "x \<in> set outs" for x using h that by auto
    have dhs: "distinct ?hs" using dh eq unfolding distinct_map inj_on_def by (metis (no_types, lifting))
    have sub: "set ?hs \<subseteq> set ?ids" using h by auto
    have img: "ed_SourceHandle ` set outs = Some ` set ?hs" using eq by (auto simp: image_iff)
    have "length ?hs = length ?ids \<longleftrightarrow> set ?hs = set ?ids"
      using d dhs sub by (metis card_subset_eq distinct_card finite_set)
    then have "(if length ?hs \<noteq> length ?ids then checkAll (\<lambda>b. ensure (b_ID b \<in> set ?hs) e) bs else Inr ()) = Inr u
        \<longleftrightarrow> set ?hs = set ?ids"
      using sub by auto
    then show ?thesis unfolding img by (auto simp: inj_image_eq_iff)
  qed
  have "branchesOk bs outs \<Longrightarrow> \<forall>e \<in> set outs. \<exists>h \<in> set ?ids. ed_SourceHandle e = Some h"
    unfolding branchesOk_def by (metis (no_types, lifting) image_iff image_set)
  then show ?thesis
    unfolding validateConditionEdges_def branchesOk_def bindE_Inr_iff ensure_Inr branchLoop_iff handleLoop_iff
    using count by (auto simp: bindE_Inr_iff branchLoop_iff handleLoop_iff)
qed

lemma startID_scanOf: "idsOf ((=) NodeStart) ns = [a] \<Longrightarrow> ns_startID (scanOf dec ns) = a"
  by (simp add: scanOf_def)

lemma branchesOf_scanOf:
  assumes "distinct (map nd_ID ns)" and "n \<in> set ns" and "nd_Kind n = NodeCondition"
  shows "branchesOf (scanOf dec ns) (nd_ID n) = branchesIn (dataOf dec n)"
proof -
  let ?cs = "filter (\<lambda>n. nd_Kind n = NodeCondition) ns"
  have "map_of (map (\<lambda>n. (nd_ID n, branchesIn (dataOf dec n))) ?cs) (nd_ID n) = Some (branchesIn (dataOf dec n))"
    using assms distinct_map_filter[OF assms(1), of "\<lambda>n. nd_Kind n = NodeCondition"]
    by (intro map_of_is_SomeI) (auto simp: comp_def image_iff)
  then show ?thesis by (simp add: branchesOf_def scanOf_def)
qed

lemma idsOf_iff: "i \<in> set (idsOf P ns) \<longleftrightarrow> (\<exists>n \<in> set ns. nd_ID n = i \<and> P (nd_Kind n))"
  by (auto simp: idsOf_def)

lemma inDegree_zero: "length (filter (\<lambda>e. ed_Target e = n) es) = 0 \<longleftrightarrow> n \<notin> ed_Target ` set es"
  by (auto simp: filter_empty_conv)

text \<open>The checks of phase three, node by node.\<close>

lemma validateDegreeConstraints_iff:
  assumes d: "distinct (map nd_ID (fd_Nodes def))" and v: "\<forall>n \<in> set (fd_Nodes def). validNodeKind (nd_Kind n)"
    and st: "length (idsOf ((=) NodeStart) (fd_Nodes def)) = 1"
  shows "validateDegreeConstraints def (scanOf dec (fd_Nodes def)) (edgeScanOf (fd_Edges def)) = Inr u
    \<longleftrightarrow> (\<forall>n \<in> set (fd_Nodes def). degreeOk dec def n)"
proof -
  let ?ns = "fd_Nodes def" and ?es = "fd_Edges def"
  obtain a where a: "idsOf ((=) NodeStart) ?ns = [a]" using st by (auto simp: length_Suc_conv)
  obtain sn where sn: "sn \<in> set ?ns" "nd_Kind sn = NodeStart" "nd_ID sn = a"
    using idsOf_iff[of a "(=) NodeStart" ?ns] a by auto
  have only: "nd_ID n = a \<and> n = sn" if "n \<in> set ?ns" "nd_Kind n = NodeStart" for n
    using idsOf_iff[of "nd_ID n" "(=) NodeStart" ?ns] that a sn distinct_key_eq[OF d, of n sn] by auto
  have "degreeOk dec def sn \<longleftrightarrow> a \<notin> ed_Target ` set ?es \<and> length (outsOf ?es a) = 1"
    using sn(2,3) by (simp add: degreeOk_def)
  then have start: "a \<notin> ed_Target ` set ?es \<and> length (outsOf ?es a) = 1 \<longleftrightarrow>
      (\<forall>n \<in> set ?ns. nd_Kind n = NodeStart \<longrightarrow> degreeOk dec def n)"
    using sn(1,2) only by blast
  have fin: "(\<forall>i \<in> set (idsOf ((=) NodeEnd) ?ns). outsOf ?es i = [] \<and> i \<in> ed_Target ` set ?es) \<longleftrightarrow>
      (\<forall>n \<in> set ?ns. nd_Kind n = NodeEnd \<longrightarrow> degreeOk dec def n)"
    by (auto simp: idsOf_def degreeOk_def Let_def)
  have rest: "(if nd_Kind n = NodeStart \<or> nd_Kind n = NodeEnd then Inr ()
      else if nd_Kind n = NodeCondition then validateConditionEdges (branchesOf (scanOf dec ?ns) (nd_ID n)) (outsOf ?es (nd_ID n))
      else case outsOf ?es (nd_ID n) of [e] \<Rightarrow> ensure (ed_SourceHandle e = None) (Graph errNodeSourceHandle)
        | _ \<Rightarrow> Inl (Graph errNodeOutgoingCount)) = Inr ()
      \<longleftrightarrow> (nd_Kind n \<noteq> NodeStart \<and> nd_Kind n \<noteq> NodeEnd \<longrightarrow> degreeOk dec def n)" if n: "n \<in> set ?ns" for n
  proof -
    have "validNodeKind (nd_Kind n)" using v n by blast
    then show ?thesis
      using branchesOf_scanOf[OF d n, of dec]
      by (cases "nd_Kind n")
        (auto simp: degreeOk_def Let_def validateConditionEdges_iff validNodeKind_def split: list.splits)
  qed
  have "validateDegreeConstraints def (scanOf dec ?ns) (edgeScanOf ?es) = Inr u \<longleftrightarrow>
      (a \<notin> ed_Target ` set ?es \<and> length (outsOf ?es a) = 1)
      \<and> (\<forall>i \<in> set (idsOf ((=) NodeEnd) ?ns). outsOf ?es i = [] \<and> i \<in> ed_Target ` set ?es)
      \<and> (\<forall>n \<in> set ?ns. nd_Kind n \<noteq> NodeStart \<and> nd_Kind n \<noteq> NodeEnd \<longrightarrow> degreeOk dec def n)"
  proof -
    have s: "ns_startID (scanOf dec ?ns) = a" "ns_endIDs (scanOf dec ?ns) = idsOf ((=) NodeEnd) ?ns"
      using startID_scanOf[OF a] by (simp_all add: scanOf_def)
    have e: "es_outEdges (edgeScanOf ?es) = outsOf ?es"
      "es_inDegree (edgeScanOf ?es) n = 0 \<longleftrightarrow> n \<notin> ed_Target ` set ?es" for n
      using inDegree_zero[of n ?es] by (simp_all add: edgeScanOf_def)
    show ?thesis
      unfolding validateDegreeConstraints_def s e Let_def
      using rest by (simp add: bindE_Inr_iff e)
  qed
  then show ?thesis unfolding start fin by blast
qed

section \<open>Topology\<close>

text \<open>A search over the nodes covers them all exactly when its count equals theirs.\<close>

lemma coverage_check:
  assumes "distinct w" and "set w \<subseteq> nd_ID ` set ns" and "distinct (map nd_ID ns)"
  shows "(if length w \<noteq> length (map nd_ID ns) then checkAll (\<lambda>n. ensure (nd_ID n \<in> set w) e) ns else Inr ()) = Inr u
    \<longleftrightarrow> (\<forall>n \<in> set ns. nd_ID n \<in> set w)"
proof -
  have "length w = length (map nd_ID ns) \<longleftrightarrow> set w = set (map nd_ID ns)"
    using assms by (metis card_subset_eq distinct_card finite_set image_set)
  then show ?thesis by auto
qed

lemma validateTopology_iff:
  assumes d: "distinct (map nd_ID (fd_Nodes def))" and e: "edgesOk def"
    and a: "idsOf ((=) NodeStart) (fd_Nodes def) = [a]"
  shows "validateTopology def (scanOf dec (fd_Nodes def)) (edgeScanOf (fd_Edges def)) = Inr u \<longleftrightarrow>
     acyclic (links def) \<and> (\<forall>n \<in> set (fd_Nodes def). (a, nd_ID n) \<in> (links def)\<^sup>*)
     \<and> (\<forall>n \<in> set (fd_Nodes def). \<exists>b \<in> set (idsOf ((=) NodeEnd) (fd_Nodes def)). (nd_ID n, b) \<in> (links def)\<^sup>*)"
proof -
  let ?ns = "fd_Nodes def" and ?sc = "edgeScanOf (fd_Edges def)" and ?ends = "idsOf ((=) NodeEnd) (fd_Nodes def)"
  let ?adj = "es_adjacency ?sc" and ?rev = "es_reversedAdj ?sc" and ?ids = "map nd_ID (fd_Nodes def)"
  have rel: "edge_rel ?adj = links def" "edge_rel ?rev = (links def)\<inverse>"
    by (auto simp: edge_rel_def links_def edgeScanOf_def outsOf_def image_iff)
  have tgt: "set (?adj x) \<subseteq> set ?ids" "set (?rev x) \<subseteq> set ?ids" for x
    using e by (auto simp: edgesOk_def links_def edgeScanOf_def outsOf_def)
  have src: "?adj x = []" if "x \<notin> set ?ids" for x
    using e that by (auto simp: edgesOk_def links_def edgeScanOf_def outsOf_def filter_empty_conv)
  have cyc: "detectCycle ?ids ?adj = Some (\<not> acyclic (links def))"
    using detectCycle_spec[of ?adj ?ids] tgt(1) src by (simp add: rel)
  have ain: "a \<in> nd_ID ` set ?ns" using idsOf_iff[of a "(=) NodeStart" ?ns] a by auto
  have endin: "set ?ends \<subseteq> nd_ID ` set ?ns" by (auto simp: idsOf_iff)
  have within: "R\<^sup>* `` A \<subseteq> nd_ID ` set ?ns" if "A \<subseteq> nd_ID ` set ?ns" "R \<subseteq> UNIV \<times> nd_ID ` set ?ns"
    for A and R :: "(string \<times> string) set"
  proof
    fix y assume "y \<in> R\<^sup>* `` A"
    then obtain x where x: "x \<in> A" "(x, y) \<in> R\<^sup>*" by blast
    from x(2) show "y \<in> nd_ID ` set ?ns" using that x(1) by (cases rule: rtranclE) blast+
  qed
  obtain w1 where w1: "collectReachable ?adj [a] = Some w1" "distinct w1" "set w1 = (links def)\<^sup>* `` {a}"
    using collectReachable_spec[of ?adj ?ids "[a]"] tgt(1) ain by (auto simp: rel)
  obtain w2 where w2: "collectReachable ?rev ?ends = Some w2" "distinct w2" "set w2 = ((links def)\<inverse>)\<^sup>* `` set ?ends"
    using collectReachable_spec[of ?rev ?ids ?ends] tgt(2) endin by (auto simp: rel)
  have l: "links def \<subseteq> UNIV \<times> nd_ID ` set ?ns" "(links def)\<inverse> \<subseteq> UNIV \<times> nd_ID ` set ?ns"
    using e by (auto simp: edgesOk_def)
  have s1: "set w1 \<subseteq> nd_ID ` set ?ns" using within[of "{a}" "links def"] ain l w1(3) by simp
  have s2: "set w2 \<subseteq> nd_ID ` set ?ns" using within[OF endin l(2)] w2(3) by simp
  have "ns_startID (scanOf dec ?ns) = a" "ns_endIDs (scanOf dec ?ns) = ?ends" "ns_nodeIDs (scanOf dec ?ns) = ?ids"
    using startID_scanOf[OF a] by (simp_all add: scanOf_def)
  then have "validateTopology def (scanOf dec ?ns) ?sc = Inr u \<longleftrightarrow> acyclic (links def)
      \<and> (\<forall>n \<in> set ?ns. nd_ID n \<in> set w1) \<and> (\<forall>n \<in> set ?ns. nd_ID n \<in> set w2)"
    unfolding validateTopology_def Let_def
    by (simp add: cyc w1(1) w2(1) bindE_Inr_iff coverage_check[OF w1(2) s1 d] coverage_check[OF w2(2) s2 d]
        del: checkAll_Inr length_map split del: if_split)
  then show ?thesis unfolding w1(3) w2(3) by (simp add: rtrancl_converse Image_iff)
qed

lemma ValidateFlowDefinition_iff:
  "ValidateFlowDefinition s h dec def = Inr p \<longleftrightarrow>
     wellFormed s h dec def \<and> p = map (\<lambda>n. (nd_ID n, dataOf dec n)) (fd_Nodes def)"
proof -
  let ?ns = "fd_Nodes def"
  have parsed: "ns_parsed (scanOf dec ?ns) = map (\<lambda>n. (nd_ID n, dataOf dec n)) ?ns" "ns_nodeIDs (scanOf dec ?ns) = map nd_ID ?ns"
    by (simp_all add: scanOf_def)
  have ne: "length (idsOf ((=) NodeStart) ?ns) = 1 \<Longrightarrow> ?ns \<noteq> []" by (auto simp: idsOf_def)
  show ?thesis
  proof (cases "\<exists>sc. validateNodes s h dec def = Inr sc \<and> edgesOk def")
    case True
    then have n: "distinct (map nd_ID ?ns)" "\<forall>n \<in> set ?ns. nodeOk s h dec n" "length (idsOf ((=) NodeStart) ?ns) = 1"
        "idsOf ((=) NodeEnd) ?ns \<noteq> []"
        "\<forall>n \<in> set ?ns. set (rollbackKeys (dataOf dec n)) \<subseteq> set (idsOf isTaskKind ?ns) - {nd_ID n}"
      and e: "edgesOk def"
      by (auto simp: validateNodes_iff Let_def)
    have vn: "validateNodes s h dec def = Inr (scanOf dec ?ns)" using n by (simp add: validateNodes_iff Let_def)
    have ve: "validateEdges def (ns_nodeIDs (scanOf dec ?ns)) = Inr (edgeScanOf (fd_Edges def))"
      using e unfolding parsed by (simp add: validateEdges_iff)
    have v: "\<forall>n \<in> set ?ns. validNodeKind (nd_Kind n)" using n(2) by (auto simp: nodeOk_def)
    obtain a where a: "idsOf ((=) NodeStart) ?ns = [a]" using n(3) by (auto simp: length_Suc_conv)
    have "ValidateFlowDefinition s h dec def = Inr p \<longleftrightarrow>
        validateDegreeConstraints def (scanOf dec ?ns) (edgeScanOf (fd_Edges def)) = Inr ()
        \<and> validateTopology def (scanOf dec ?ns) (edgeScanOf (fd_Edges def)) = Inr ()
        \<and> p = map (\<lambda>n. (nd_ID n, dataOf dec n)) ?ns"
      unfolding ValidateFlowDefinition_def vn bindE_simps ve using ne[OF n(3)] by (auto simp: bindE_Inr_iff parsed(1))
    then show ?thesis
      unfolding validateDegreeConstraints_iff[OF n(1) v n(3)] validateTopology_iff[OF n(1) e a] wellFormed_def Let_def
      using n e a by auto
  next
    case False
    then have "\<not> wellFormed s h dec def" by (auto simp: wellFormed_def validateNodes_iff Let_def)
    moreover have "ValidateFlowDefinition s h dec def \<noteq> Inr p"
    proof
      assume "ValidateFlowDefinition s h dec def = Inr p"
      then obtain sc es where "validateNodes s h dec def = Inr sc" "validateEdges def (ns_nodeIDs sc) = Inr es"
        unfolding ValidateFlowDefinition_def by (auto simp: bindE_Inr_iff)
      then show False using False validateEdges_iff[of def] by (auto simp: validateNodes_iff Let_def parsed)
    qed
    ultimately show ?thesis by simp
  qed
qed

end
