(* ===== verification/Form_Table_Safety.thy ===== *)
theory Form_Table_Safety
  imports Form_Tables
begin

text \<open>
  The identifiers of generated form tables: what the deploy-time check accepts, that every name
  the publish-time generator emits is a plain lower-case SQL identifier, that names do not
  collide, and that a schema accepted at deploy is generated and rendered at publish.
\<close>

section \<open>Sanitised names\<close>

lemma identChars [simp]: "lowerChar c \<Longrightarrow> identChar c" "identStart c \<Longrightarrow> identChar c" "lowerChar CHR ''_''"
  by (auto simp: lowerChar_def identChar_def identStart_def)

lemma replaceRuns_lower: "list_all lowerChar (replaceRuns b s)"
  by (induction b s rule: replaceRuns.induct) auto

lemma sanitize_lower: "list_all lowerChar (sanitizeForIdentifier s)"
  by (simp add: sanitizeForIdentifier_def replaceRuns_lower)

lemma trimRightUnderscores_prefix: "\<exists>r. s = trimRightUnderscores s @ r"
  unfolding trimRightUnderscores_def
  by (metis rev_append rev_rev_ident takeWhile_dropWhile_id)

lemma trimRightUnderscores_all: "list_all P s \<Longrightarrow> list_all P (trimRightUnderscores s)"
  using trimRightUnderscores_prefix[of s] by (metis list_all_append)

lemma trimRightUnderscores_length: "length (trimRightUnderscores s) \<le> length s"
  using trimRightUnderscores_prefix[of s] by (metis le_add1 length_append)

lemma space_not_ident:
  "list_all (\<lambda>w. w = [] \<or> \<not> identChar (hd w)) spaceEncodings"
  "list_all (\<lambda>w. w = [] \<or> \<not> identChar (hd w)) (map rev spaceEncodings)"
  by code_simp+

lemma trimLeftSeqs_ident:
  assumes "list_all (\<lambda>w. w = [] \<or> \<not> identChar (hd w)) ws" and "list_all identChar s"
  shows "trimLeftSeqs ws s = s"
proof -
  have "\<not> (w \<noteq> [] \<and> hasPrefix w s)" if "w \<in> set ws" for w
    using assms that by (cases w; cases s) (auto simp: list_all_iff)
  then have "find (\<lambda>w. w \<noteq> [] \<and> hasPrefix w s) ws = None" by (auto simp: find_None_all)
  then show ?thesis by (subst trimLeftSeqs.simps) simp
qed

lemma trimSpace_ident: "list_all identChar s \<Longrightarrow> trimSpace s = s"
  unfolding trimSpace_def
  using trimLeftSeqs_ident[OF space_not_ident(1), of s] trimLeftSeqs_ident[OF space_not_ident(2), of "rev s"]
  by (simp add: list_all_rev)

lemma lower_ident: "list_all lowerChar s \<Longrightarrow> list_all identChar s"
  by (auto simp: list_all_iff)

lemma validate_ident: "list_all identChar s \<Longrightarrow> ValidateBusinessIdentifier s \<longleftrightarrow> s = [] \<or> matchesIdentifier s"
  by (simp add: ValidateBusinessIdentifier_def trimSpace_ident)

lemmas validate_lower = validate_ident[OF lower_ident]

lemma matches_ident: "matchesIdentifier s \<Longrightarrow> list_all identChar s"
  by (cases s) auto

lemma matches_validates: "matchesIdentifier s \<Longrightarrow> ValidateBusinessIdentifier s"
  by (simp add: validate_ident matches_ident)

text \<open>A name built from a safe head and lower-case characters, within the length bound.\<close>

lemma matches_append:
  assumes "h \<noteq> []" and "matchesIdentifier h" and "list_all lowerChar t" and "length h + length t \<le> 63"
  shows "matchesIdentifier (h @ t)"
  using assms by (cases h) (auto simp: list_all_iff)

section \<open>What the deploy-time check accepts\<close>

abbreviation colName :: "FormFieldDefinition \<Rightarrow> string" where
  "colName f \<equiv> sanitizeForIdentifier (ff_Key f)"

definition columnOk :: "FormFieldDefinition \<Rightarrow> bool" where
  "columnOk f \<longleftrightarrow> (ff_ColumnType f = ColumnTypeOther [] \<or> ColumnDataType_IsValid (ff_ColumnType f))
     \<and> (colName f = [] \<or> matchesIdentifier (colName f)) \<and> colName f \<notin> set reservedColumns"

definition columnsOk :: "FormFieldDefinition list \<Rightarrow> bool" where
  "columnsOk cs \<longleftrightarrow> (\<forall>c \<in> set cs. columnOk c) \<and> distinct (map colName cs)"

lemma validateColumnField_iff:
  "validateColumnField f pool = Inr pool' \<longleftrightarrow> columnOk f \<and> colName f \<notin> set pool \<and> pool' = colName f # pool"
  by (auto simp: validateColumnField_def columnOk_def bindE_Inr_iff Let_def validate_lower sanitize_lower)

lemma validateColumns_iff:
  "foldE validateColumnField cs pool = Inr pool' \<longleftrightarrow>
     columnsOk cs \<and> colName ` set cs \<inter> set pool = {} \<and> pool' = rev (map colName cs) @ pool"
  by (induction cs arbitrary: pool) (auto simp: columnsOk_def bindE_Inr_iff validateColumnField_iff)

lemma columnsOk_reserved: "columnsOk cs \<Longrightarrow> colName ` set cs \<inter> set reservedColumns = {}"
  by (auto simp: columnsOk_def columnOk_def)

definition childOk :: "FormFieldDefinition \<Rightarrow> bool" where
  "childOk f \<longleftrightarrow> (childTableSuffix (ff_Key f) = [] \<or> matchesIdentifier (childTableSuffix (ff_Key f)))
     \<and> columnsOk (ff_Columns f)"

lemma childTableSuffix_lower: "list_all lowerChar (childTableSuffix k)"
proof -
  have "list_all lowerChar (take n (sanitizeForIdentifier k))" for n
    using sanitize_lower[of k] by (metis append_take_drop_id list_all_append)
  then show ?thesis
    by (auto simp: childTableSuffix_def Let_def sanitize_lower intro: trimRightUnderscores_all)
qed

lemma childTableSuffix_length: "length (childTableSuffix k) \<le> childSuffixBudget"
  using trimRightUnderscores_length[of "take childSuffixBudget (sanitizeForIdentifier k)"]
  by (auto simp: childTableSuffix_def Let_def)

lemma validateChildTableSchema_iff:
  "validateChildTableSchema f ns = Inr ns' \<longleftrightarrow>
     childOk f \<and> childTableSuffix (ff_Key f) \<notin> set ns \<and> ns' = childTableSuffix (ff_Key f) # ns"
  using columnsOk_reserved[of "ff_Columns f"]
  by (auto simp: validateChildTableSchema_def childOk_def bindE_Inr_iff Let_def validate_lower
      childTableSuffix_lower validateColumns_iff)

abbreviation scalars :: "FormFieldDefinition list \<Rightarrow> FormFieldDefinition list" where
  "scalars fs \<equiv> filter (\<lambda>f. ff_Kind f \<noteq> FieldTable) fs"

abbreviation tables :: "FormFieldDefinition list \<Rightarrow> FormFieldDefinition list" where
  "tables fs \<equiv> filter (\<lambda>f. ff_Kind f = FieldTable) fs"

definition schemaOk :: "FormFieldDefinition list \<Rightarrow> bool" where
  "schemaOk fs \<longleftrightarrow> columnsOk (scalars fs) \<and> (\<forall>f \<in> set (tables fs). childOk f)
     \<and> distinct (map (\<lambda>f. childTableSuffix (ff_Key f)) (tables fs))"

lemma validateTableEntry_iff:
  "validateTableEntry f (pool, ns) = Inr st \<longleftrightarrow>
     (if ff_Kind f = FieldTable
      then childOk f \<and> childTableSuffix (ff_Key f) \<notin> set ns \<and> st = (pool, childTableSuffix (ff_Key f) # ns)
      else columnOk f \<and> colName f \<notin> set pool \<and> st = (colName f # pool, ns))"
  by (auto simp: validateTableEntry_def bindE_Inr_iff validateChildTableSchema_iff validateColumnField_iff)

lemma validateEntries_iff:
  "foldE validateTableEntry fs (pool, ns) = Inr st \<longleftrightarrow>
     schemaOk fs \<and> colName ` set (scalars fs) \<inter> set pool = {}
     \<and> (\<lambda>f. childTableSuffix (ff_Key f)) ` set (tables fs) \<inter> set ns = {}
     \<and> st = (rev (map colName (scalars fs)) @ pool, rev (map (\<lambda>f. childTableSuffix (ff_Key f)) (tables fs)) @ ns)"
proof (induction fs arbitrary: pool ns)
  case Nil
  show ?case by (auto simp: schemaOk_def columnsOk_def)
next
  case (Cons f fs)
  show ?case
    by (cases "ff_Kind f = FieldTable")
      (auto simp: bindE_Inr_iff validateTableEntry_iff Cons.IH schemaOk_def columnsOk_def)
qed

lemma ValidateTableFormSchema_iff: "ValidateTableFormSchema fs = Inr u \<longleftrightarrow> schemaOk fs"
  using columnsOk_reserved[of "scalars fs"]
  by (auto simp: ValidateTableFormSchema_def bindE_Inr_iff validateEntries_iff schemaOk_def)

section \<open>The generated names\<close>

text \<open>The identifiers of versions are XIDs: twenty characters of the base32hex alphabet.\<close>

definition isXID :: "string \<Rightarrow> bool" where
  "isXID v \<longleftrightarrow> length v = 20 \<and> list_all (\<lambda>c. inRange 48 57 c \<or> inRange 97 118 c) v"

lemma isXID_lower: "isXID v \<Longrightarrow> list_all lowerChar v"
  by (auto simp: isXID_def list_all_iff lowerChar_def inRange_def)

lemma prefix_matches: "matchesIdentifier physicalTablePrefix" "length physicalTablePrefix = 9"
  "physicalTablePrefix \<noteq> []"
  by code_simp+

definition safeName :: "string \<Rightarrow> bool" where
  "safeName s \<longleftrightarrow> matchesIdentifier s \<and> list_all lowerChar s"

lemma safeName_validates: "safeName s \<Longrightarrow> ValidateBusinessIdentifier s"
  by (simp add: safeName_def matches_validates)

lemma prefixed_safe:
  assumes "list_all lowerChar t" and "length t \<le> 54"
  shows "safeName (physicalTablePrefix @ t)"
proof -
  have "list_all lowerChar physicalTablePrefix" by code_simp
  then show ?thesis
    using matches_append[OF prefix_matches(3,1) assms(1)] assms prefix_matches(2) by (simp add: safeName_def)
qed

lemma buildPhysicalTableName_safe:
  assumes "isXID v"
  shows "\<exists>name. buildPhysicalTableName code v = Inr name \<and> safeName name"
proof -
  define b where "b = int identifierMaxLen - int (length physicalTablePrefix) - int (length v) - 1"
  have b: "b = 33" using assms by (simp add: b_def isXID_def prefix_matches(2) identifierMaxLen_def)
  define cut where "cut = (if b > 0 \<and> int (length (sanitizeForIdentifier code)) > b
     then take (nat b) (sanitizeForIdentifier code) else sanitizeForIdentifier code)"
  have "list_all lowerChar (take (nat b) (sanitizeForIdentifier code))"
    using sanitize_lower[of code] by (metis append_take_drop_id list_all_append)
  then have l: "list_all lowerChar (trimRightUnderscores cut)"
    by (auto simp: cut_def sanitize_lower intro: trimRightUnderscores_all)
  have "length cut \<le> 33" unfolding cut_def b by auto
  then have n: "length (trimRightUnderscores cut) \<le> 33" using trimRightUnderscores_length[of cut] by linarith
  define name where "name = (if b > 0 \<and> trimRightUnderscores cut \<noteq> []
     then physicalTablePrefix @ trimRightUnderscores cut @ ''_'' @ v else physicalTablePrefix @ v)"
  have "safeName name"
    unfolding name_def using l n isXID_lower[OF assms] assms
    by (auto simp: isXID_def intro!: prefixed_safe)
  moreover have "buildPhysicalTableName code v = Inr name"
    unfolding buildPhysicalTableName_def Let_def b_def[symmetric] cut_def[symmetric] name_def[symmetric]
    using safeName_validates[OF calculation] by simp
  ultimately show ?thesis by blast
qed

definition childName :: "string \<Rightarrow> FormFieldDefinition \<Rightarrow> string" where
  "childName v f = physicalTablePrefix @ v @ ''__'' @ childTableSuffix (ff_Key f)"

lemma childName_safe: "isXID v \<Longrightarrow> safeName (childName v f)"
  using childTableSuffix_lower[of "ff_Key f"] childTableSuffix_length[of "ff_Key f"] isXID_lower[of v]
  by (auto simp: childName_def isXID_def childSuffixBudget_def identifierMaxLen_def prefix_matches(2)
      intro!: prefixed_safe)

definition childSpec :: "DBKind \<Rightarrow> sqlTypes \<Rightarrow> string \<Rightarrow> FormFieldDefinition \<Rightarrow> tableSpec" where
  "childSpec kind t v f = \<lparr>ts_Name = childName v f, ts_SourceFieldKey = ff_Key f,
     ts_Columns = [builtinColumn ''id'' (ty_pk t) 0, builtinColumn ''instance_id'' (ty_id t) 1,
       builtinColumn ''row_index'' (ty_integer t) 2] @ childColumns kind t (ff_Columns f) 3\<rparr>"

lemma buildChildTableSpec_eq: "isXID v \<Longrightarrow> buildChildTableSpec kind t v f = Inr (childSpec kind t v f)"
  using safeName_validates[OF childName_safe, of v f]
  by (simp add: buildChildTableSpec_def buildChildTableName_def childSpec_def childName_def)

lemma fieldColumn_Name [simp]: "cs_Name (fieldColumn kind t f n) = colName f"
  and builtinColumn_Name [simp]: "cs_Name (builtinColumn b ty n) = b"
  by (simp_all add: fieldColumn_def builtinColumn_def)

lemma childColumns_names: "map cs_Name (childColumns kind t cs n) = map colName cs @ [''created_at'']"
  by (induction cs arbitrary: n) simp_all

text \<open>The main table is the table of the scalar fields, and every detail table has its child.\<close>

lemma buildEntries_eq:
  "isXID v \<Longrightarrow> buildEntries kind t v fs n = Inr (childColumns kind t (scalars fs) n, map (childSpec kind t v) (tables fs))"
  by (induction fs arbitrary: n) (simp_all add: buildChildTableSpec_eq)

lemma buildTableSpecs_eq:
  assumes "isXID v"
  shows "buildTableSpecs kind code v fs = Inr specs \<longleftrightarrow>
     (\<exists>t name. typesFor kind = Some t \<and> schemaOk fs \<and> buildPhysicalTableName code v = Inr name
       \<and> specs = \<lparr>ts_Name = name, ts_SourceFieldKey = [],
           ts_Columns = [builtinColumn ''id'' (ty_pk t) 0, builtinColumn ''instance_id'' (ty_id t) 1]
             @ childColumns kind t (scalars fs) 2\<rparr> # map (childSpec kind t v) (tables fs))"
  by (auto simp: buildTableSpecs_def bindE_Inr_iff buildEntries_eq[OF assms] ValidateTableFormSchema_iff)

text \<open>Every column name of the tables, beside the built-in ones, is that of a field.\<close>

lemma reserved_safe: "list_all safeName reservedColumns"
  by code_simp

lemma tableSpec_columns:
  assumes "isXID v" and "buildTableSpecs kind code v fs = Inr specs" and "spec \<in> set specs"
  shows "\<exists>cs bs. columnsOk cs \<and> distinct bs \<and> set bs \<subseteq> set reservedColumns - {''created_at''}
     \<and> map cs_Name (ts_Columns spec) = bs @ map colName cs @ [''created_at'']
     \<and> (cs = scalars fs \<or> (\<exists>f \<in> set (tables fs). cs = ff_Columns f))"
proof -
  have s: "schemaOk fs" using assms(2) unfolding buildTableSpecs_eq[OF assms(1)] by blast
  have cases: "map cs_Name (ts_Columns spec) = [''id'', ''instance_id''] @ map colName (scalars fs) @ [''created_at'']
      \<or> (\<exists>f \<in> set (tables fs). map cs_Name (ts_Columns spec)
           = [''id'', ''instance_id'', ''row_index''] @ map colName (ff_Columns f) @ [''created_at''])"
    using assms(2,3) unfolding buildTableSpecs_eq[OF assms(1)]
    by (auto simp: childSpec_def childColumns_names) blast
  have b: "distinct [''id'', ''instance_id'', ''row_index'']"
    "set [''id'', ''instance_id'', ''row_index''] \<subseteq> set reservedColumns - {''created_at''}"
    by (simp_all add: reservedColumns_def)
  from cases show ?thesis
  proof
    assume "map cs_Name (ts_Columns spec) = [''id'', ''instance_id''] @ map colName (scalars fs) @ [''created_at'']"
    then show ?thesis using s b
      by (intro exI[of _ "scalars fs"] exI[of _ "[''id'', ''instance_id'']"]) (auto simp: schemaOk_def)
  next
    assume "\<exists>f \<in> set (tables fs). map cs_Name (ts_Columns spec)
        = [''id'', ''instance_id'', ''row_index''] @ map colName (ff_Columns f) @ [''created_at'']"
    then obtain f where f: "f \<in> set (tables fs)" "map cs_Name (ts_Columns spec)
        = [''id'', ''instance_id'', ''row_index''] @ map colName (ff_Columns f) @ [''created_at'']" by blast
    then have "columnsOk (ff_Columns f)" using s by (simp add: schemaOk_def childOk_def)
    then show ?thesis using f b
      by (intro exI[of _ "ff_Columns f"] exI[of _ "[''id'', ''instance_id'', ''row_index'']"]) auto
  qed
qed

lemma columnsOk_names: "columnsOk cs \<Longrightarrow> n \<in> colName ` set cs \<Longrightarrow> n = [] \<or> safeName n"
  by (auto simp: columnsOk_def columnOk_def safeName_def sanitize_lower)

lemma tableSpec_distinct:
  assumes "isXID v" and "buildTableSpecs kind code v fs = Inr specs" and "spec \<in> set specs"
  shows "distinct (map cs_Name (ts_Columns spec))"
proof -
  obtain cs bs where "columnsOk cs" "distinct bs" "set bs \<subseteq> set reservedColumns - {''created_at''}"
      "map cs_Name (ts_Columns spec) = bs @ map colName cs @ [''created_at'']"
    using tableSpec_columns[OF assms] by blast
  moreover have "''created_at'' \<in> set reservedColumns" by (simp add: reservedColumns_def)
  ultimately show ?thesis using columnsOk_reserved[of cs] by (auto simp: columnsOk_def)
qed

lemma child_names_distinct:
  assumes "isXID v" and "buildTableSpecs kind code v fs = Inr specs"
  shows "distinct (map ts_Name (tl specs))"
proof -
  have "map ts_Name (tl specs) = map (\<lambda>s. physicalTablePrefix @ v @ ''__'' @ s)
      (map (\<lambda>f. childTableSuffix (ff_Key f)) (tables fs))"
    and "schemaOk fs"
    using assms(2) unfolding buildTableSpecs_eq[OF assms(1)] by (auto simp: childSpec_def childName_def)
  moreover have "distinct (map (\<lambda>s. physicalTablePrefix @ v @ ''__'' @ s) xs)" if "distinct xs" for xs
    using that by (simp add: distinct_map inj_on_def)
  ultimately show ?thesis by (simp only: schemaOk_def)
qed

lemma tableSpec_name_safe:
  assumes "isXID v" and "buildTableSpecs kind code v fs = Inr specs" and "spec \<in> set specs"
  shows "safeName (ts_Name spec)"
  using assms(2,3) buildPhysicalTableName_safe[OF assms(1), of code] childName_safe[OF assms(1)]
  unfolding buildTableSpecs_eq[OF assms(1)] by (auto simp: childSpec_def)

lemma tableSpec_column_safe:
  assumes "isXID v" and "buildTableSpecs kind code v fs = Inr specs" and "spec \<in> set specs"
    and "n \<in> cs_Name ` set (ts_Columns spec)"
  shows "n = [] \<or> safeName n"
proof -
  obtain cs bs where c: "columnsOk cs" "set bs \<subseteq> set reservedColumns - {''created_at''}"
      "map cs_Name (ts_Columns spec) = bs @ map colName cs @ [''created_at'']"
    using tableSpec_columns[OF assms(1-3)] by blast
  have "n \<in> set (bs @ map colName cs @ [''created_at''])" using assms(4) c(3) by (metis image_set)
  moreover have "''created_at'' \<in> set reservedColumns" by (simp add: reservedColumns_def)
  ultimately show ?thesis
    using columnsOk_names[OF c(1), of n] c(2) reserved_safe by (auto simp: list_all_iff)
qed

end
