(* ===== verification/Form_Projection.thy ===== *)
theory Form_Projection
  imports Form_Storage Form_Table_Safety
begin

text \<open>
  What the physical tables of a table-mode version hold: writing a form replaces the rows of its
  instance by the projection of the form and touches nothing else; the metadata recorded at
  publish describes the tables provisioned there; and a column generated for a required field
  refuses a cleared form.
\<close>

section \<open>One row\<close>

definition columnsOf :: "FormTable \<Rightarrow> db \<Rightarrow> FormTableColumn list" where
  "columnsOf ft db = sort_key fc_SortOrder (filter (\<lambda>c. fc_FormTableID c = ft_ID ft) (db_form_columns db))"

definition projectedRow ::
    "env \<Rightarrow> FormTableColumn list \<Rightarrow> string \<Rightarrow> string \<Rightarrow> nat \<Rightarrow> (string \<times> json) list \<Rightarrow> (string \<times> BindValue) list" where
  "projectedRow env cols iid newID i data =
     map (\<lambda>c. (fc_ColumnName c, columnValue env newID iid i data c)) (writtenColumns cols)"

lemma rowValues_eq:
  "rowValues env cols iid i data db = (args, db') \<Longrightarrow>
     \<exists>newID. zip (map fc_ColumnName (writtenColumns cols)) args = projectedRow env cols iid newID i data"
  by (auto simp: rowValues_def projectedRow_def Let_def zip_map_map zip_same_conv_map split: if_splits prod.splits)

lemma insertRows_eq:
  "insertRows env cols iid k rows db = (vals, db') \<Longrightarrow>
     \<exists>ids. length ids = length rows \<and> map (zip (map fc_ColumnName (writtenColumns cols))) vals
       = map (\<lambda>(i, newID, data). projectedRow env cols iid newID i data) (zip [k..<k + length rows] (zip ids rows))"
proof (induction rows arbitrary: k db vals)
  case (Cons row rows)
  obtain args db1 rest where one: "rowValues env cols iid k row db = (args, db1)"
    and two: "insertRows env cols iid (Suc k) rows db1 = (rest, db')" and vals: "vals = args # rest"
    using Cons.prems by (auto simp: Let_def split: prod.splits)
  obtain newID where n: "zip (map fc_ColumnName (writtenColumns cols)) args = projectedRow env cols iid newID k row"
    using rowValues_eq[OF one] by blast
  obtain ids where ids: "length ids = length rows" "map (zip (map fc_ColumnName (writtenColumns cols))) rest
       = map (\<lambda>(i, newID, data). projectedRow env cols iid newID i data) (zip [Suc k..<Suc k + length rows] (zip ids rows))"
    using Cons.IH[OF two] by blast
  have "[k..<k + length (row # rows)] = k # [Suc k..<Suc k + length rows]" by (subst upt_rec) (simp del: upt_Suc)
  then show ?case unfolding vals using n ids by (intro exI[of _ "newID # ids"]) simp
qed simp

lemma insertRows_physical: "insertRows env cols iid k rows db = (vals, db') \<Longrightarrow> db_physical db' = db_physical db"
  by (induction rows arbitrary: k db vals)
    (force simp: rowValues_def allocId_def Let_def split: prod.splits if_splits)+

lemma projectedRow_owner:
  assumes "distinct (map fc_ColumnName cols)" and "c \<in> set cols" and "fc_ColumnName c = ''instance_id''"
  shows "rowOf iid (projectedRow env cols iid newID i data)"
proof -
  have "c \<in> set (writtenColumns cols)" using assms by (simp add: writtenColumns_def)
  moreover have "distinct (map fc_ColumnName (writtenColumns cols))"
    using distinct_map_filter[OF assms(1)] by (simp add: writtenColumns_def)
  ultimately have "map_of (projectedRow env cols iid newID i data) (fc_ColumnName c)
      = Some (columnValue env newID iid i data c)"
    unfolding projectedRow_def by (intro map_of_is_SomeI) (auto simp: comp_def)
  then show ?thesis using assms(3) by (simp add: rowOf_def columnValue_def)
qed

section \<open>One table\<close>

definition ownedRows :: "string \<Rightarrow> string \<Rightarrow> db \<Rightarrow> (string \<times> BindValue) list list" where
  "ownedRows name iid db = (case db_physical db name of None \<Rightarrow> [] | Some t \<Rightarrow> filter (rowOf iid) (pt_Rows t))"

definition otherRows :: "string \<Rightarrow> string \<Rightarrow> db \<Rightarrow> (string \<times> BindValue) list list" where
  "otherRows name iid db = (case db_physical db name of None \<Rightarrow> [] | Some t \<Rightarrow> filter (\<lambda>r. \<not> rowOf iid r) (pt_Rows t))"

text \<open>The rows of an instance in a table are the projection of a form.\<close>

definition holdsProjection :: "env \<Rightarrow> FormTable \<Rightarrow> string \<Rightarrow> FormData \<Rightarrow> db \<Rightarrow> bool" where
  "holdsProjection env ft iid d db \<longleftrightarrow>
     (\<exists>rows ids. projectionRows ft d = Inr rows \<and> length ids = length rows
       \<and> ownedRows (ft_PhysicalTableName ft) iid db
         = map (\<lambda>(i, newID, data). projectedRow env (columnsOf ft db) iid newID i data) (zip [0..<length rows] (zip ids rows)))"

definition describes :: "db \<Rightarrow> FormTable \<Rightarrow> bool" where
  "describes db ft \<longleftrightarrow> distinct (map fc_ColumnName (columnsOf ft db)) \<and> ''instance_id'' \<in> fc_ColumnName ` set (columnsOf ft db)"

lemma filter_all: "(\<And>x. x \<in> set xs \<Longrightarrow> P x) \<Longrightarrow> filter P xs = xs"
  by (induction xs) auto

lemma writeProjection_effect:
  assumes run: "writeProjection env iid d ft db = Inr db'" and desc: "describes db ft"
  shows "holdsProjection env ft iid d db'"
    and "otherRows (ft_PhysicalTableName ft) iid db' = otherRows (ft_PhysicalTableName ft) iid db"
    and "n \<noteq> ft_PhysicalTableName ft \<Longrightarrow> db_physical db' n = db_physical db n"
proof -
  let ?n = "ft_PhysicalTableName ft" and ?cols = "columnsOf ft db"
  have rp: "reprojected db db'" using writeProjection_reprojected[OF run] .
  then have cols: "columnsOf ft db' = ?cols" by (simp add: columnsOf_def reprojected_fields)
  obtain db1 rows where del: "execDelete ?n iid db = Inr db1" and rows: "projectionRows ft d = Inr rows"
    and rest: "rows = [] \<and> db' = db1
      \<or> (\<exists>stmt db2. rows \<noteq> [] \<and> buildInsert env ?n iid ?cols rows db1 = Inr (stmt, db2) \<and> execInsert stmt db2 = Inr db')"
    using run unfolding writeProjection_def Let_def columnsOf_def[symmetric] by (auto split: if_splits prod.splits)
  obtain t where t: "db_physical db ?n = Some t"
    and db1: "db1 = db\<lparr>db_physical := (db_physical db)(?n \<mapsto> t\<lparr>pt_Rows := filter (\<lambda>r. \<not> rowOf iid r) (pt_Rows t)\<rparr>)\<rparr>"
    using del by (auto simp: execDelete_def split: option.splits)
  have "\<exists>ids new. length ids = length rows
      \<and> new = map (\<lambda>(i, newID, data). projectedRow env ?cols iid newID i data) (zip [0..<length rows] (zip ids rows))
      \<and> db_physical db' = (db_physical db)(?n \<mapsto> t\<lparr>pt_Rows := filter (\<lambda>r. \<not> rowOf iid r) (pt_Rows t) @ new\<rparr>)"
    using rest
  proof (elim disjE exE conjE)
    assume "rows = []" "db' = db1"
    then show ?thesis by (simp add: db1)
  next
    fix stmt db2 assume b: "buildInsert env ?n iid ?cols rows db1 = Inr (stmt, db2)" and x: "execInsert stmt db2 = Inr db'"
    obtain vals where v: "insertRows env ?cols iid 0 rows db1 = (vals, db2)"
      and s: "stmt = \<lparr>is_Table = ?n, is_Names = map fc_ColumnName (writtenColumns ?cols), is_Rows = vals\<rparr>"
      using b by (auto simp: buildInsert_def Let_def split: prod.splits)
    obtain ids where ids: "length ids = length rows" "map (zip (map fc_ColumnName (writtenColumns ?cols))) vals
        = map (\<lambda>(i, newID, data). projectedRow env ?cols iid newID i data) (zip [0..<length rows] (zip ids rows))"
      using insertRows_eq[OF v] by auto
    show ?thesis
      using x ids insertRows_physical[OF v] unfolding s execInsert_def Let_def
      by (intro exI[of _ ids] exI[of _ "map (zip (map fc_ColumnName (writtenColumns ?cols))) vals"])
        (auto simp: db1 split: if_splits)
  qed
  then obtain ids new where ids: "length ids = length rows"
    and new: "new = map (\<lambda>(i, newID, data). projectedRow env ?cols iid newID i data) (zip [0..<length rows] (zip ids rows))"
    and p: "db_physical db' = (db_physical db)(?n \<mapsto> t\<lparr>pt_Rows := filter (\<lambda>r. \<not> rowOf iid r) (pt_Rows t) @ new\<rparr>)"
    by blast
  obtain c where c: "c \<in> set ?cols" "fc_ColumnName c = ''instance_id''" using desc by (auto simp: describes_def)
  have own: "rowOf iid r" if "r \<in> set new" for r
    using that projectedRow_owner[OF _ c] desc unfolding new describes_def by auto
  show "holdsProjection env ft iid d db'"
    unfolding holdsProjection_def ownedRows_def cols p using rows ids own filter_all[of new "rowOf iid"]
    by (intro exI[of _ rows] exI[of _ ids]) (simp add: new comp_def)
  show "otherRows ?n iid db' = otherRows ?n iid db"
    unfolding otherRows_def p t using own by (auto simp: filter_empty_conv)
  show "n \<noteq> ?n \<Longrightarrow> db_physical db' n = db_physical db n" by (simp add: p)
qed

section \<open>All tables of a version\<close>

lemma describes_reprojected: "reprojected db db' \<Longrightarrow> describes db' ft = describes db ft"
  by (simp add: describes_def columnsOf_def reprojected_fields)

lemma holdsProjection_frame:
  assumes "holdsProjection env ft iid d db" and "reprojected db db'"
    and "db_physical db' (ft_PhysicalTableName ft) = db_physical db (ft_PhysicalTableName ft)"
  shows "holdsProjection env ft iid d db'"
  using assms by (simp add: holdsProjection_def ownedRows_def columnsOf_def reprojected_fields)

lemma writeProjections_effect:
  assumes "foldE (writeProjection env iid d) fts db = Inr db'" and "distinct (map ft_PhysicalTableName fts)"
    and "\<forall>ft \<in> set fts. describes db ft"
  shows "(\<forall>ft \<in> set fts. holdsProjection env ft iid d db')
    \<and> (\<forall>ft \<in> set fts. otherRows (ft_PhysicalTableName ft) iid db' = otherRows (ft_PhysicalTableName ft) iid db)
    \<and> (\<forall>n. n \<notin> ft_PhysicalTableName ` set fts \<longrightarrow> db_physical db' n = db_physical db n)"
  using assms
proof (induction fts arbitrary: db)
  case (Cons ft fts)
  obtain db1 where one: "writeProjection env iid d ft db = Inr db1"
    and two: "foldE (writeProjection env iid d) fts db1 = Inr db'" using Cons.prems(1) by auto
  have rp: "reprojected db db1" "reprojected db1 db'"
    using writeProjection_reprojected[OF one] writeProjections_reprojected[OF two] by auto
  have ft: "describes db ft" "ft_PhysicalTableName ft \<notin> ft_PhysicalTableName ` set fts" using Cons.prems by auto
  note e = writeProjection_effect[OF one ft(1)]
  have IH: "(\<forall>ft \<in> set fts. holdsProjection env ft iid d db')"
    "\<forall>g \<in> set fts. otherRows (ft_PhysicalTableName g) iid db' = otherRows (ft_PhysicalTableName g) iid db1"
    "\<And>n. n \<notin> ft_PhysicalTableName ` set fts \<Longrightarrow> db_physical db' n = db_physical db1 n"
    using Cons.IH[OF two] Cons.prems(2,3) by (auto simp: describes_reprojected[OF rp(1)])
  have same: "db_physical db' (ft_PhysicalTableName ft) = db_physical db1 (ft_PhysicalTableName ft)"
    using IH(3) ft(2) by blast
  have "holdsProjection env ft iid d db'" using holdsProjection_frame[OF e(1) rp(2) same] .
  moreover have "otherRows (ft_PhysicalTableName ft) iid db' = otherRows (ft_PhysicalTableName ft) iid db"
    using e(2) same by (simp add: otherRows_def)
  moreover have "otherRows (ft_PhysicalTableName g) iid db1 = otherRows (ft_PhysicalTableName g) iid db" if "g \<in> set fts" for g
    using e(3)[of "ft_PhysicalTableName g"] ft(2) that by (metis imageI otherRows_def)
  moreover have "db_physical db' n = db_physical db n" if "n \<notin> ft_PhysicalTableName ` set (ft # fts)" for n
    using e(3)[of n] IH(3)[of n] that by auto
  ultimately show ?case using IH(1,2) by auto
qed simp

section \<open>Provisioned versions\<close>

definition tableColumn :: "string \<Rightarrow> columnSpec \<Rightarrow> FormTableColumn" where
  "tableColumn fid spec = \<lparr>fc_FormTableID = fid, fc_ColumnName = cs_Name spec, fc_ColumnType = cs_Type spec,
     fc_IsNullable = cs_IsNullable spec, fc_SourceFieldKey = cs_SourceFieldKey spec, fc_SortOrder = cs_SortOrder spec\<rparr>"

lemma tableColumn_sel [simp]:
  "fc_FormTableID (tableColumn fid c) = fid" "fc_ColumnName (tableColumn fid c) = cs_Name c"
  "fc_SortOrder (tableColumn fid c) = cs_SortOrder c" "fc_SourceFieldKey (tableColumn fid c) = cs_SourceFieldKey c"
  by (simp_all add: tableColumn_def)

text \<open>A metadata row and its columns describe a table specification.\<close>

definition records :: "db \<Rightarrow> FormTable \<Rightarrow> tableSpec \<Rightarrow> bool" where
  "records db ft spec \<longleftrightarrow> ft_PhysicalTableName ft = ts_Name spec \<and> ft_SourceFieldKey ft = ts_SourceFieldKey spec
     \<and> columnsOf ft db = map (tableColumn (ft_ID ft)) (ts_Columns spec)"

definition tablesOf :: "FlowVersion \<Rightarrow> db \<Rightarrow> FormTable list" where
  "tablesOf v db = filter (\<lambda>t. ft_VersionID t = fv_ID v) (db_form_tables db)"

definition provisioned :: "DBKind \<Rightarrow> string \<Rightarrow> FlowVersion \<Rightarrow> tableSpec list \<Rightarrow> db \<Rightarrow> bool" where
  "provisioned kind code v specs db \<longleftrightarrow> buildTableSpecs kind code (fv_ID v) (fv_FormFields v) = Inr specs
     \<and> list_all2 (records db) (tablesOf v db) specs
     \<and> (\<forall>spec \<in> set specs. \<exists>t. db_physical db (ts_Name spec) = Some t \<and> pt_Columns t = ts_Columns spec
          \<and> pt_Child t = IsChild spec)"

lemma childColumns_order: "map cs_SortOrder (childColumns kind t cs n) = [n..<n + Suc (length cs)]"
proof (induction cs arbitrary: n)
  case (Cons c cs)
  have "[n..<n + Suc (length (c # cs))] = n # [Suc n..<Suc n + Suc (length cs)]"
    by (subst upt_rec) (simp del: upt_Suc)
  then show ?case using Cons by (simp add: fieldColumn_def del: upt_Suc)
qed (simp add: builtinColumn_def)

lemma tableSpec_sorted:
  assumes "isXID v" and "buildTableSpecs kind code v fs = Inr specs" and "spec \<in> set specs"
  shows "sorted (map cs_SortOrder (ts_Columns spec))"
  using assms(2,3) unfolding buildTableSpecs_eq[OF assms(1)]
  by (auto simp: childSpec_def childColumns_order builtinColumn_def simp del: upt_Suc)

lemma columnsOf_append:
  assumes "ft_ID ft \<notin> fc_FormTableID ` set (db_form_columns db)" and "sorted (map cs_SortOrder cols)"
    and "db_form_columns db' = db_form_columns db @ map (tableColumn (ft_ID ft)) cols"
  shows "columnsOf ft db' = map (tableColumn (ft_ID ft)) cols"
proof -
  have "filter (\<lambda>c. fc_FormTableID c = ft_ID ft) (db_form_columns db) = []"
    using assms(1) by (force simp: filter_empty_conv)
  moreover have "sort_key fc_SortOrder (map (tableColumn (ft_ID ft)) cols) = map (tableColumn (ft_ID ft)) cols"
    using assms(2) by (intro sort_key_id_if_sorted) (simp add: comp_def tableColumn_def)
  ultimately show ?thesis by (simp add: columnsOf_def assms(3) comp_def tableColumn_def)
qed

definition fresh_columns :: "env \<Rightarrow> db \<Rightarrow> bool" where
  "fresh_columns env db \<longleftrightarrow> inj (env_new_id env)
     \<and> (\<forall>n \<ge> db_next_id db. env_new_id env n \<notin> fc_FormTableID ` set (db_form_columns db))"

lemma insertFormTable_eq:
  "insertFormTable env v spec db =
     (let fid = env_new_id env (db_next_id db)
      in db\<lparr>db_next_id := Suc (db_next_id db),
        db_form_tables := db_form_tables db @ [\<lparr>ft_ID = fid, ft_FlowID = fv_FlowID v, ft_VersionID = fv_ID v,
          ft_PhysicalTableName = ts_Name spec, ft_SourceFieldKey = ts_SourceFieldKey spec\<rparr>],
        db_form_columns := db_form_columns db @ map (tableColumn fid) (ts_Columns spec)\<rparr>)"
  by (simp add: insertFormTable_def allocId_def Let_def tableColumn_def)

lemma insertFormTable_run:
  assumes "fresh_columns env db" and "sorted (map cs_SortOrder (ts_Columns spec))"
    and db': "db' = insertFormTable env v spec db"
  shows "fresh_columns env db'" "db_physical db' = db_physical db"
    "\<exists>ft. db_form_tables db' = db_form_tables db @ [ft] \<and> ft_VersionID ft = fv_ID v \<and> records db' ft spec
       \<and> ft_ID ft = env_new_id env (db_next_id db)"
    "\<And>ft s. ft_ID ft \<noteq> env_new_id env (db_next_id db) \<Longrightarrow> records db ft s \<Longrightarrow> records db' ft s"
    "db_next_id db' = Suc (db_next_id db)"
proof -
  let ?fid = "env_new_id env (db_next_id db)"
  have cols: "db_form_columns db' = db_form_columns db @ map (tableColumn ?fid) (ts_Columns spec)"
    by (simp add: db' insertFormTable_eq Let_def)
  have ne: "env_new_id env n \<noteq> ?fid" if "n \<ge> Suc (db_next_id db)" for n
    using assms(1) that by (auto simp: fresh_columns_def dest: injD)
  then show "fresh_columns env db'"
    using assms(1) by (fastforce simp: fresh_columns_def db' insertFormTable_eq Let_def tableColumn_def image_iff)
  show "db_physical db' = db_physical db" "db_next_id db' = Suc (db_next_id db)"
    by (simp_all add: db' insertFormTable_eq Let_def)
  let ?ft = "\<lparr>ft_ID = ?fid, ft_FlowID = fv_FlowID v, ft_VersionID = fv_ID v,
     ft_PhysicalTableName = ts_Name spec, ft_SourceFieldKey = ts_SourceFieldKey spec\<rparr>"
  have "records db' ?ft spec"
    unfolding records_def using columnsOf_append[of ?ft db _ db'] assms(1,2) cols
    by (simp add: fresh_columns_def)
  then show "\<exists>ft. db_form_tables db' = db_form_tables db @ [ft] \<and> ft_VersionID ft = fv_ID v \<and> records db' ft spec
       \<and> ft_ID ft = ?fid"
    by (intro exI[of _ ?ft]) (simp add: db' insertFormTable_eq Let_def)
  fix ft s assume "ft_ID ft \<noteq> ?fid" and "records db ft s"
  moreover have "filter (\<lambda>c. fc_FormTableID c = ft_ID ft) (map (tableColumn ?fid) (ts_Columns spec)) = []"
    using \<open>ft_ID ft \<noteq> ?fid\<close> by (auto simp: filter_empty_conv tableColumn_def)
  ultimately show "records db' ft s" by (simp add: records_def columnsOf_def cols)
qed

lemma insertFormTables_run:
  assumes "fresh_columns env db" and "\<forall>spec \<in> set specs. sorted (map cs_SortOrder (ts_Columns spec))"
  shows "\<exists>fts. db_form_tables (fold (insertFormTable env v) specs db) = db_form_tables db @ fts
     \<and> (\<forall>ft \<in> set fts. ft_VersionID ft = fv_ID v)
     \<and> list_all2 (records (fold (insertFormTable env v) specs db)) fts specs
     \<and> db_physical (fold (insertFormTable env v) specs db) = db_physical db
     \<and> (\<forall>ft s. (\<forall>n \<ge> db_next_id db. ft_ID ft \<noteq> env_new_id env n) \<longrightarrow> records db ft s
          \<longrightarrow> records (fold (insertFormTable env v) specs db) ft s)"
  using assms
proof (induction specs arbitrary: db)
  case Nil
  then show ?case by simp
next
  case (Cons spec specs)
  define db1 where "db1 = insertFormTable env v spec db"
  have so: "sorted (map cs_SortOrder (ts_Columns spec))" using Cons.prems by simp
  note i = insertFormTable_run[OF Cons.prems(1) so db1_def]
  obtain ft where ft: "db_form_tables db1 = db_form_tables db @ [ft]" "ft_VersionID ft = fv_ID v" "records db1 ft spec"
    "ft_ID ft = env_new_id env (db_next_id db)" using i(3) by blast
  let ?db2 = "fold (insertFormTable env v) specs db1"
  obtain fts where IH: "db_form_tables ?db2 = db_form_tables db1 @ fts" "\<forall>ft \<in> set fts. ft_VersionID ft = fv_ID v"
    "list_all2 (records ?db2) fts specs" "db_physical ?db2 = db_physical db1"
    "\<And>g s. (\<forall>n \<ge> db_next_id db1. ft_ID g \<noteq> env_new_id env n) \<Longrightarrow> records db1 g s \<Longrightarrow> records ?db2 g s"
    using Cons.IH[OF i(1)] Cons.prems(2) by auto
  have inj: "inj (env_new_id env)" using Cons.prems(1) by (simp add: fresh_columns_def)
  have "records ?db2 ft spec"
    by (rule IH(5)[OF _ ft(3)]) (use inj in \<open>auto simp: ft(4) i(5) dest: injD\<close>)
  moreover have "records ?db2 g s" if "\<forall>n \<ge> db_next_id db. ft_ID g \<noteq> env_new_id env n" "records db g s" for g s
    by (rule IH(5)[OF _ i(4)[OF _ that(2)]]) (use that(1) in \<open>auto simp: i(5)\<close>)
  ultimately show ?case
    using IH(1-4) ft(1,2) i(2) by (intro exI[of _ "ft # fts"]) (simp add: db1_def[symmetric])
qed

text \<open>No child table has the name of the main table, unless the flow code starts with the version's id.\<close>

lemma xid_no_underscore: "isXID v \<Longrightarrow> CHR ''_'' \<notin> set v"
  by (auto simp: isXID_def list_all_iff inRange_def)

lemma physicalName_form:
  assumes "buildPhysicalTableName code v = Inr name"
  shows "\<exists>readable rest. (name = physicalTablePrefix @ readable @ ''_'' @ v \<or> name = physicalTablePrefix @ v)
     \<and> sanitizeForIdentifier code = readable @ rest"
proof -
  define b where "b = int identifierMaxLen - int (length physicalTablePrefix) - int (length v) - 1"
  define cut where "cut = (if b > 0 \<and> int (length (sanitizeForIdentifier code)) > b
     then take (nat b) (sanitizeForIdentifier code) else sanitizeForIdentifier code)"
  have "\<exists>r. sanitizeForIdentifier code = cut @ r" unfolding cut_def by (metis append_Nil2 append_take_drop_id)
  moreover have "\<exists>r. cut = trimRightUnderscores cut @ r" by (rule trimRightUnderscores_prefix)
  ultimately obtain r where "sanitizeForIdentifier code = trimRightUnderscores cut @ r" by (metis append.assoc)
  moreover have "name = physicalTablePrefix @ trimRightUnderscores cut @ ''_'' @ v \<or> name = physicalTablePrefix @ v"
    using assms unfolding buildPhysicalTableName_def Let_def b_def[symmetric] cut_def[symmetric] by (auto split: if_splits)
  ultimately show ?thesis by blast
qed

lemma main_child_distinct:
  assumes v: "isXID v" and c: "\<not> hasPrefix v (sanitizeForIdentifier code)"
    and m: "buildPhysicalTableName code v = Inr name"
  shows "name \<noteq> childName v f"
proof
  assume eq: "name = childName v f"
  obtain readable rest where name: "name = physicalTablePrefix @ readable @ ''_'' @ v \<or> name = physicalTablePrefix @ v"
    and pre: "sanitizeForIdentifier code = readable @ rest"
    using physicalName_form[OF m] by blast
  from name eq have "readable @ ''_'' @ v = v @ ''__'' @ childTableSuffix (ff_Key f)"
    by (auto simp: childName_def)
  then have "(\<exists>r. readable = v @ r) \<or> (\<exists>r. v = readable @ r \<and> r \<noteq> [] \<and> r @ ''__'' @ childTableSuffix (ff_Key f) = ''_'' @ v)"
    by (auto simp: append_eq_append_conv2)
  then show False
  proof
    assume "\<exists>r. readable = v @ r"
    then show False using c pre by (auto simp: hasPrefix_append)
  next
    assume "\<exists>r. v = readable @ r \<and> r \<noteq> [] \<and> r @ ''__'' @ childTableSuffix (ff_Key f) = ''_'' @ v"
    then obtain r where "v = readable @ r" "r \<noteq> []" "r @ ''__'' @ childTableSuffix (ff_Key f) = ''_'' @ v" by blast
    then have "CHR ''_'' \<in> set v" by (cases r) auto
    then show False using xid_no_underscore[OF v] by blast
  qed
qed

lemma tableSpec_shape:
  assumes "isXID v" and "buildTableSpecs kind code v fs = Inr specs"
  obtains main t where "specs = main # map (childSpec kind t v) (tables fs)" "typesFor kind = Some t"
    "buildPhysicalTableName code v = Inr (ts_Name main)" "ts_SourceFieldKey main = []"
    "ts_Columns main = [builtinColumn ''id'' (ty_pk t) 0, builtinColumn ''instance_id'' (ty_id t) 1]
       @ childColumns kind t (scalars fs) 2"
proof -
  obtain t name where t: "typesFor kind = Some t" "buildPhysicalTableName code v = Inr name"
    and sp: "specs = \<lparr>ts_Name = name, ts_SourceFieldKey = [],
           ts_Columns = [builtinColumn ''id'' (ty_pk t) 0, builtinColumn ''instance_id'' (ty_id t) 1]
             @ childColumns kind t (scalars fs) 2\<rparr> # map (childSpec kind t v) (tables fs)"
    using assms(2) unfolding buildTableSpecs_eq[OF assms(1)] by blast
  show thesis by (rule that[OF sp t(1)]) (use t(2) in simp_all)
qed

lemma tableSpec_names_distinct:
  assumes "isXID v" and "\<not> hasPrefix v (sanitizeForIdentifier code)" and "buildTableSpecs kind code v fs = Inr specs"
  shows "distinct (map ts_Name specs)"
proof -
  obtain main t where s: "specs = main # map (childSpec kind t v) (tables fs)"
    "buildPhysicalTableName code v = Inr (ts_Name main)" using tableSpec_shape[OF assms(1,3)] by metis
  have "ts_Name main \<notin> ts_Name ` set (map (childSpec kind t v) (tables fs))"
    using main_child_distinct[OF assms(1,2) s(2)] by (force simp: childSpec_def)
  then show ?thesis using child_names_distinct[OF assms(1,3)] s(1) by (simp add: image_image)
qed

lemma tableSpec_named:
  assumes "isXID v" and "buildTableSpecs kind code v fs = Inr specs" and "s \<in> set specs"
  shows "\<exists>a b. ts_Name s = physicalTablePrefix @ a @ v @ b"
proof -
  obtain main t where m: "specs = main # map (childSpec kind t v) (tables fs)"
    "buildPhysicalTableName code v = Inr (ts_Name main)" using tableSpec_shape[OF assms(1,2)] by metis
  have "s = main \<or> (\<exists>f. ts_Name s = physicalTablePrefix @ [] @ v @ ''__'' @ childTableSuffix (ff_Key f))"
    using assms(3) m(1) by (auto simp: childSpec_def childName_def)
  then show ?thesis
  proof
    assume "s = main"
    then obtain readable where "ts_Name s = physicalTablePrefix @ (readable @ ''_'') @ v @ []
        \<or> ts_Name s = physicalTablePrefix @ [] @ v @ []" using physicalName_form[OF m(2)] by auto
    then show ?thesis by blast
  qed blast
qed

section \<open>Provisioning\<close>

definition freshTable :: "tableSpec \<Rightarrow> PhysicalTable" where
  "freshTable spec = \<lparr>pt_Columns = ts_Columns spec, pt_Child = IsChild spec, pt_Rows = []\<rparr>"

lemma createTables_run:
  assumes "foldE (\<lambda>table db'. bindE (renderTableStatements kind table) (\<lambda>_. Inr (createTable table db'))) specs db = Inr db'"
    and "distinct (map ts_Name specs)" and "\<forall>s \<in> set specs. db_physical db (ts_Name s) = None"
  shows "db' = db\<lparr>db_physical := db_physical db'\<rparr> \<and> (\<forall>s \<in> set specs. db_physical db' (ts_Name s) = Some (freshTable s))
    \<and> (\<forall>n. n \<notin> ts_Name ` set specs \<longrightarrow> db_physical db' n = db_physical db n)"
  using assms
proof (induction specs arbitrary: db)
  case (Cons s specs)
  let ?db1 = "createTable s db"
  have c: "?db1 = db\<lparr>db_physical := (db_physical db)(ts_Name s \<mapsto> freshTable s)\<rparr>"
    using Cons.prems(3) by (simp add: createTable_def freshTable_def)
  have run: "foldE (\<lambda>table db'. bindE (renderTableStatements kind table) (\<lambda>_. Inr (createTable table db'))) specs ?db1 = Inr db'"
    using Cons.prems(1) by auto
  have n: "ts_Name s \<notin> ts_Name ` set specs" "distinct (map ts_Name specs)" using Cons.prems(2) by auto
  have "\<forall>r \<in> set specs. db_physical ?db1 (ts_Name r) = None" using Cons.prems(3) n(1) by (auto simp: c image_iff)
  from Cons.IH[OF run n(2) this] show ?case using n(1) by (auto simp: c)
qed simp

lemma columns_validate:
  assumes "isXID v" and "buildTableSpecs kind code v fs = Inr specs" and "spec \<in> set specs"
  shows "\<forall>c \<in> set (ts_Columns spec). ValidateBusinessIdentifier (cs_Name c)"
proof
  fix c assume "c \<in> set (ts_Columns spec)"
  then have "cs_Name c = [] \<or> safeName (cs_Name c)" by (intro tableSpec_column_safe[OF assms]) blast
  then show "ValidateBusinessIdentifier (cs_Name c)" by (auto simp: safeName_validates validate_ident)
qed

lemma render_ok:
  assumes "isXID v" and "buildTableSpecs kind code v fs = Inr specs" and "spec \<in> set specs"
  shows "\<exists>sts. renderTableStatements kind spec = Inr sts"
proof -
  have "\<forall>c \<in> set (ts_Columns spec). ValidateBusinessIdentifier (cs_Name c)" by (rule columns_validate[OF assms])
  moreover have "typesFor kind \<noteq> None" using assms(2) unfolding buildTableSpecs_eq[OF assms(1)] by auto
  moreover have "ValidateBusinessIdentifier (ts_Name spec)"
    using safeName_validates[OF tableSpec_name_safe[OF assms]] .
  ultimately show ?thesis
    by (auto simp: renderTableStatements_def renderCreateTable_def Let_def bindE_Inr_iff mapE_Inr_ex)
qed

lemma createTables_total:
  assumes "\<forall>s \<in> set specs. \<exists>sts. renderTableStatements kind s = Inr sts"
  shows "\<exists>db'. foldE (\<lambda>table db'. bindE (renderTableStatements kind table) (\<lambda>_. Inr (createTable table db'))) specs db = Inr db'"
  using assms by (induction specs arbitrary: db) auto

text \<open>A schema the deploy-time check accepts is provisioned at publish: both phases succeed.\<close>

lemma publish_provisions:
  assumes schema: "ValidateTableFormSchema (fv_FormFields v) = Inr ()" and dialect: "typesFor kind \<noteq> None"
    and v: "isXID (fv_ID v)" and code: "\<not> hasPrefix (fv_ID v) (sanitizeForIdentifier (fl_Code flow))"
    and new: "tablesOf v db = []" and fresh: "fresh_columns env db"
    and absent: "\<forall>n. db_physical db (physicalTablePrefix @ n) \<noteq> None \<longrightarrow> \<not> (\<exists>a b. n = a @ fv_ID v @ b)"
  shows "\<exists>specs db1 db2. TableStorage_ProvisionTable kind flow v db = Inr db1
     \<and> TableStorage_RecordMetadata env kind flow v db1 = Inr db2 \<and> provisioned kind (fl_Code flow) v specs db2"
proof -
  obtain t where "typesFor kind = Some t" using dialect by blast
  moreover obtain name where "buildPhysicalTableName (fl_Code flow) (fv_ID v) = Inr name"
    using buildPhysicalTableName_safe[OF v] by blast
  ultimately obtain specs where specs: "buildTableSpecs kind (fl_Code flow) (fv_ID v) (fv_FormFields v) = Inr specs"
    using schema unfolding buildTableSpecs_eq[OF v] ValidateTableFormSchema_iff by blast
  note named = tableSpec_named[OF v specs]
  obtain db1 where run: "foldE (\<lambda>table db'. bindE (renderTableStatements kind table) (\<lambda>_. Inr (createTable table db'))) specs db = Inr db1"
    using createTables_total render_ok[OF v specs] by blast
  note d = tableSpec_names_distinct[OF v code specs]
  have "\<forall>s \<in> set specs. db_physical db (ts_Name s) = None" using named absent by metis
  note c = createTables_run[OF run d this]
  define db2 where "db2 = fold (insertFormTable env v) specs db1"
  obtain p where p: "db1 = db\<lparr>db_physical := p\<rparr>" using conjunct1[OF c] by blast
  have f1: "fresh_columns env db1" "db_form_tables db1 = db_form_tables db"
    using fresh by (simp_all add: p fresh_columns_def)
  have so: "\<forall>spec \<in> set specs. sorted (map cs_SortOrder (ts_Columns spec))" using tableSpec_sorted[OF v specs] by blast
  obtain fts where i: "db_form_tables db2 = db_form_tables db1 @ fts" "\<forall>ft \<in> set fts. ft_VersionID ft = fv_ID v"
    "list_all2 (records db2) fts specs" "db_physical db2 = db_physical db1"
    using insertFormTables_run[OF f1(1) so, of v] unfolding db2_def[symmetric] by blast
  have "tablesOf v db2 = fts"
    using new i(2) by (simp add: tablesOf_def i(1) f1(2) filter_all)
  then have "provisioned kind (fl_Code flow) v specs db2"
    using specs i(3,4) c by (auto simp: provisioned_def freshTable_def)
  moreover have "TableStorage_ProvisionTable kind flow v db = Inr db1"
    using specs run by (simp add: TableStorage_ProvisionTable_def)
  moreover have "TableStorage_RecordMetadata env kind flow v db1 = Inr db2"
    using specs new by (auto simp: TableStorage_RecordMetadata_def f1(2) tablesOf_def filter_empty_conv list_ex_iff db2_def bindE_Inr_iff)
  ultimately show ?thesis by blast
qed

section \<open>Writing to a provisioned version\<close>

lemma provisioned_tables:
  assumes "provisioned kind code v specs db" and "isXID (fv_ID v)"
    and "\<not> hasPrefix (fv_ID v) (sanitizeForIdentifier code)"
  shows "distinct (map ft_PhysicalTableName (tablesOf v db))" "\<forall>ft \<in> set (tablesOf v db). describes db ft"
proof -
  have specs: "buildTableSpecs kind code (fv_ID v) (fv_FormFields v) = Inr specs"
    and rec: "list_all2 (records db) (tablesOf v db) specs" using assms(1) by (auto simp: provisioned_def)
  from rec have "map ft_PhysicalTableName (tablesOf v db) = map ts_Name specs"
    by (induction rule: list_all2_induct) (auto simp: records_def)
  then show "distinct (map ft_PhysicalTableName (tablesOf v db))"
    using tableSpec_names_distinct[OF assms(2,3) specs] by simp
  show "\<forall>ft \<in> set (tablesOf v db). describes db ft"
  proof
    fix ft assume "ft \<in> set (tablesOf v db)"
    then obtain spec where s: "spec \<in> set specs" "records db ft spec"
      using rec by (metis in_set_conv_nth list_all2_conv_all_nth)
    have "map fc_ColumnName (columnsOf ft db) = map cs_Name (ts_Columns spec)"
      using s(2) by (simp add: records_def tableColumn_def)
    moreover have "''instance_id'' \<in> set (map cs_Name (ts_Columns spec))"
      using specs s(1) unfolding buildTableSpecs_eq[OF assms(2)] by (auto simp: childSpec_def)
    ultimately show "describes db ft"
      using tableSpec_distinct[OF assms(2) specs s(1)] unfolding describes_def by (metis image_set)
  qed
qed

lemma write_effect:
  assumes "provisioned kind code v specs db" and "isXID (fv_ID v)"
    and "\<not> hasPrefix (fv_ID v) (sanitizeForIdentifier code)"
    and run: "TableStorage_Write env v iid d db = Inr db'"
  shows "\<forall>ft \<in> set (tablesOf v db). holdsProjection env ft iid d db'
       \<and> otherRows (ft_PhysicalTableName ft) iid db' = otherRows (ft_PhysicalTableName ft) iid db"
    and "\<And>n. n \<notin> ft_PhysicalTableName ` set (tablesOf v db) \<Longrightarrow> db_physical db' n = db_physical db n"
proof -
  note p = provisioned_tables[OF assms(1-3)]
  let ?fts = "sort_key ft_SourceFieldKey (tablesOf v db)"
  have r: "foldE (writeProjection env iid d) ?fts db = Inr db'"
    using run by (auto simp: TableStorage_Write_def Let_def tablesOf_def)
  have d: "distinct (map ft_PhysicalTableName ?fts)"
    using p(1) by (metis distinct_map mset_sort set_mset_mset mset_eq_setD distinct_sort)
  have desc: "\<forall>ft \<in> set ?fts. describes db ft" using p(2) by simp
  note e = writeProjections_effect[OF r d desc]
  show "\<forall>ft \<in> set (tablesOf v db). holdsProjection env ft iid d db'
       \<and> otherRows (ft_PhysicalTableName ft) iid db' = otherRows (ft_PhysicalTableName ft) iid db"
    using e by simp
  show "\<And>n. n \<notin> ft_PhysicalTableName ` set (tablesOf v db) \<Longrightarrow> db_physical db' n = db_physical db n"
    using e by simp
qed

text \<open>
  The main table comes first: its source key is empty.  A required field has a NOT NULL column,
  which a form without a value for it violates.
\<close>

lemma main_first:
  assumes "provisioned kind code v specs db" and "isXID (fv_ID v)"
  obtains main t ft rest where "sort_key ft_SourceFieldKey (tablesOf v db) = ft # rest" "records db ft main"
    "main \<in> set specs" "ts_SourceFieldKey main = []" "typesFor kind = Some t"
    "ts_Columns main = [builtinColumn ''id'' (ty_pk t) 0, builtinColumn ''instance_id'' (ty_id t) 1]
       @ childColumns kind t (scalars (fv_FormFields v)) 2"
proof -
  have specs: "buildTableSpecs kind code (fv_ID v) (fv_FormFields v) = Inr specs"
    and rec: "list_all2 (records db) (tablesOf v db) specs" using assms(1) by (auto simp: provisioned_def)
  obtain main t where m: "specs = main # map (childSpec kind t (fv_ID v)) (tables (fv_FormFields v))"
    "typesFor kind = Some t" "ts_SourceFieldKey main = []"
    "ts_Columns main = [builtinColumn ''id'' (ty_pk t) 0, builtinColumn ''instance_id'' (ty_id t) 1]
       @ childColumns kind t (scalars (fv_FormFields v)) 2" using tableSpec_shape[OF assms(2) specs] by metis
  obtain ft rest where ft: "tablesOf v db = ft # rest" "records db ft main"
    using rec m(1) by (auto simp: list_all2_Cons2)
  then have "ft_SourceFieldKey ft = []" using m(3) by (simp add: records_def)
  then have "sort_key ft_SourceFieldKey (tablesOf v db) = ft # sort_key ft_SourceFieldKey rest"
    by (simp add: ft(1) insort_is_Cons)
  from that[OF this ft(2)] m show thesis by simp
qed

lemma fieldColumn_mem:
  "f \<in> set fs \<Longrightarrow> \<exists>k. fieldColumn kind t f k \<in> set (childColumns kind t fs n)"
  by (induction fs arbitrary: n) auto

lemma required_field_refuses_null:
  assumes prov: "provisioned kind code v specs db" and v: "isXID (fv_ID v)"
    and f: "f \<in> set (fv_FormFields v)" "ff_Kind f \<noteq> FieldTable" "ff_IsRequired f"
    and d: "map_of (formOf d) (ff_Key f) = None"
  shows "TableStorage_Write env v iid d db = Inl (ErrStorage ErrSql)"
proof -
  obtain main t ft rest where sort: "sort_key ft_SourceFieldKey (tablesOf v db) = ft # rest"
    and rec: "records db ft main" and main: "main \<in> set specs" "ts_SourceFieldKey main = []"
    and cols: "ts_Columns main = [builtinColumn ''id'' (ty_pk t) 0, builtinColumn ''instance_id'' (ty_id t) 1]
       @ childColumns kind t (scalars (fv_FormFields v)) 2"
    using main_first[OF prov v] by metis
  have specs: "buildTableSpecs kind code (fv_ID v) (fv_FormFields v) = Inr specs" using prov by (simp add: provisioned_def)
  let ?n = "ft_PhysicalTableName ft"
  have name: "?n = ts_Name main" "ft_SourceFieldKey ft = []" using rec main(2) by (auto simp: records_def)
  obtain pt where pt: "db_physical db ?n = Some pt" "pt_Columns pt = ts_Columns main"
    using prov main(1) name by (auto simp: provisioned_def)
  have ok: "ValidateBusinessIdentifier ?n"
    using safeName_validates[OF tableSpec_name_safe[OF v specs main(1)]] name by simp
  have rows: "projectionRows ft d = Inr [formOf d]" by (simp add: projectionRows_def name)
  obtain k where c: "fieldColumn kind t f k \<in> set (ts_Columns main)"
    using fieldColumn_mem[of f "scalars (fv_FormFields v)" kind t 2] f by (auto simp: cols)
  let ?c = "fieldColumn kind t f k"
  have "columnOk f" using specs f unfolding buildTableSpecs_eq[OF v] by (auto simp: schemaOk_def columnsOk_def)
  then have res: "cs_Name ?c \<notin> {''id'', ''instance_id'', ''created_at''}"
    by (auto simp: columnOk_def reservedColumns_def)
  have colsft: "columnsOf ft db = map (tableColumn (ft_ID ft)) (ts_Columns main)" using rec by (simp add: records_def)
  have dist: "distinct (map cs_Name (ts_Columns main))" by (rule tableSpec_distinct[OF v specs main(1)])
  have bad: "\<not> notNullHolds pt' (projectedRow env (columnsOf ft db) iid newID 0 (formOf d))"
    if "pt_Columns pt' = ts_Columns main" for pt' newID
  proof -
    let ?w = "writtenColumns (columnsOf ft db)"
    have mem: "tableColumn (ft_ID ft) ?c \<in> set ?w" using c res by (simp add: writtenColumns_def colsft)
    have "map fc_ColumnName (columnsOf ft db) = map cs_Name (ts_Columns main)" by (simp add: colsft tableColumn_def)
    then have "distinct (map fc_ColumnName ?w)"
      unfolding writtenColumns_def using dist by (metis distinct_map_filter)
    then have "map_of (projectedRow env (columnsOf ft db) iid newID 0 (formOf d)) (cs_Name ?c)
        = Some (columnValue env newID iid 0 (formOf d) (tableColumn (ft_ID ft) ?c))"
      unfolding projectedRow_def using mem
      by (intro map_of_is_SomeI) (auto simp: comp_def image_iff tableColumn_def intro!: bexI[of _ "tableColumn (ft_ID ft) ?c"])
    moreover have "columnValue env newID iid 0 (formOf d) (tableColumn (ft_ID ft) ?c) = VNull"
      using res d by (simp add: columnValue_def tableColumn_def fieldColumn_def)
    ultimately show ?thesis
      using c res f(3) that by (auto simp: notNullHolds_def list_all_iff fieldColumn_def intro!: bexI[of _ ?c])
  qed
  let ?pt = "pt\<lparr>pt_Rows := filter (\<lambda>r. \<not> rowOf iid r) (pt_Rows pt)\<rparr>"
  let ?db1 = "db\<lparr>db_physical := (db_physical db)(?n \<mapsto> ?pt)\<rparr>"
  obtain vals db2 where ins: "insertRows env (columnsOf ft db) iid 0 [formOf d] ?db1 = (vals, db2)" by fastforce
  obtain newID where new: "map (zip (map fc_ColumnName (writtenColumns (columnsOf ft db)))) vals
      = [projectedRow env (columnsOf ft db) iid newID 0 (formOf d)]"
    using insertRows_eq[OF ins] by (auto simp: length_Suc_conv)
  have "\<forall>c \<in> set (ts_Columns main). ValidateBusinessIdentifier (cs_Name c)"
    using columns_validate[OF v specs main(1)] .
  then have "\<forall>c \<in> set (writtenColumns (columnsOf ft db)). ValidateBusinessIdentifier (fc_ColumnName c)"
    by (auto simp: writtenColumns_def colsft)
  then have b: "buildInsert env ?n iid (columnsOf ft db) [formOf d] ?db1
      = Inr (\<lparr>is_Table = ?n, is_Names = map fc_ColumnName (writtenColumns (columnsOf ft db)), is_Rows = vals\<rparr>, db2)"
    unfolding buildInsert_def ins using ok by (simp add: bindE_Inr_iff)
  have "execInsert \<lparr>is_Table = ?n, is_Names = map fc_ColumnName (writtenColumns (columnsOf ft db)), is_Rows = vals\<rparr> db2
      = Inl (ErrStorage ErrSql)"
    using new bad[of ?pt newID] pt(2) insertRows_physical[OF ins] by (simp add: execInsert_def)
  then have "writeProjection env iid d ft db = Inl (ErrStorage ErrSql)"
    using ok rows b pt(1)
    by (simp add: writeProjection_def Let_def columnsOf_def[symmetric] buildDelete_def execDelete_def liftStorage_def)
  then show ?thesis
    using sort by (simp add: TableStorage_Write_def Let_def tablesOf_def)
qed

end
