(* ===== verification/Flow_Commands.thy ===== *)
theory Flow_Commands
  imports Flow_Config Flow_Design Form_Projection
begin

text \<open>
  The commands that manage flow definitions (\<^verbatim>\<open>command/create_flow.go\<close>, \<^verbatim>\<open>update_flow.go\<close>,
  \<^verbatim>\<open>toggle_flow_active.go\<close>, \<^verbatim>\<open>deploy_flow.go\<close>, \<^verbatim>\<open>publish_version.go\<close>, \<^verbatim>\<open>flow_validation.go\<close>).
  What they call and do not define is the record \<open>design\<close>: the registered vocabularies, the JSON
  decoding of node payloads, the parser of the host's form schema, the schema inspection of the
  primary database and the parser of \<^verbatim>\<open>text/template\<close>.
\<close>

text \<open>
  A form parser fails with an API error of its own, or with a plain error (\<^term>\<open>Inl None\<close>).
\<close>

record design =
  dn_service :: FlowDefinitionService
  dn_decoder :: decoder
  dn_parse_form :: "json option \<Rightarrow> error option + FormFieldDefinition list"
  dn_schemas :: "string \<Rightarrow> TableSchema option"
  dn_template_ok :: "string \<Rightarrow> bool"
  dn_initiatorKinds :: "string \<rightharpoonup> SelectionMode"

section \<open>Saving a flow\<close>

record CreateFlowInitiatorCmd =
  ic_Kind :: string
  ic_IDs :: "string list"

record FlowSettings =
  st_Name :: string
  st_Icon :: "string option"
  st_Description :: "string option"
  st_Labels :: "(string \<times> string) list"
  st_BindingMode :: BindingMode
  st_BusinessBinding :: "BusinessBindingConfig option"
  st_AdminUserIDs :: "string list"
  st_IsAllInitiationAllowed :: bool
  st_InstanceTitleTemplate :: string
  st_Initiators :: "CreateFlowInitiatorCmd list"

record CreateFlowCmd =
  cf_TenantID :: string
  cf_IsShared :: bool
  cf_Code :: string
  cf_CategoryID :: string
  cf_Settings :: FlowSettings

definition liftDesign :: "design_error + 'a \<Rightarrow> error + 'a" where
  "liftDesign r = (case r of Inl e \<Rightarrow> Inl (ErrDesign e) | Inr x \<Rightarrow> Inr x)"

definition validateBindingMode :: "BindingMode \<Rightarrow> design_error + unit" where
  "validateBindingMode mode = ensure (BindingMode_IsValid mode) ErrInvalidBindingMode"

definition validateInitiatorRules ::
    "bool \<Rightarrow> CreateFlowInitiatorCmd list \<Rightarrow> (string \<rightharpoonup> SelectionMode) \<Rightarrow> design_error + unit" where
  "validateInitiatorRules isAllInitiationAllowed initiators selections =
     (if isAllInitiationAllowed then ensure (initiators = []) ErrInitiatorsNotAllowed
      else bindE (ensure (initiators \<noteq> []) ErrInitiatorsRequired) (\<lambda>_.
        checkAll (\<lambda>i. case CheckKindRule (ic_Kind i) (ic_IDs i) None selections of
            KindRuleUnknownKind \<Rightarrow> Inl ErrInvalidInitiatorKind
          | KindRuleFormFieldRequired \<Rightarrow> Inl ErrInvalidInitiatorKind
          | KindRuleIDsRequired \<Rightarrow> Inl ErrInitiatorsRequired
          | KindRuleOK \<Rightarrow> Inr ()) initiators))"

definition validateFlowLabels :: "(string \<times> string) list \<Rightarrow> design_error + unit" where
  "validateFlowLabels labels = ensure (ValidateLabels labels) ErrInvalidFlowLabel"

definition validateInstanceTitleTemplate :: "design \<Rightarrow> string \<Rightarrow> design_error + unit" where
  "validateInstanceTitleTemplate dn titleTemplate =
     ensure (titleTemplate = [] \<or> dn_template_ok dn titleTemplate) ErrInvalidTitleTemplate"

definition requireFreeSharedCode :: "string \<Rightarrow> db \<Rightarrow> design_error + unit" where
  "requireFreeSharedCode code db =
     ensure (\<not> list_ex (\<lambda>f. fl_Code f = code \<and> fl_IsShared f) (db_flows db)) ErrSharedFlowCodeExists"

definition requireTenantCategory :: "string \<Rightarrow> string \<Rightarrow> db \<Rightarrow> design_error + unit" where
  "requireTenantCategory categoryID tenantID db =
     bindE (ofOption ErrCategoryNotFound (find (\<lambda>c. ca_ID c = categoryID) (db_categories db))) (\<lambda>category.
       ensure (ca_TenantID category = tenantID) ErrCategoryNotFound)"

definition initiatorRows :: "string \<Rightarrow> CreateFlowInitiatorCmd list \<Rightarrow> FlowInitiator list" where
  "initiatorRows flowID is = map (\<lambda>i. \<lparr>fi_FlowID = flowID, fi_Kind = ic_Kind i, fi_IDs = ic_IDs i\<rparr>) is"

definition CreateFlow_Handle :: "env \<Rightarrow> design \<Rightarrow> CreateFlowCmd \<Rightarrow> db \<Rightarrow> error + (Flow \<times> db)" where
  "CreateFlow_Handle env dn cmd db =
     (let st = cf_Settings cmd; tenantID = cf_TenantID cmd
      in liftDesign (
         bindE (validateBindingMode (st_BindingMode st)) (\<lambda>_.
         bindE (validateInitiatorRules (st_IsAllInitiationAllowed st) (st_Initiators st) (dn_initiatorKinds dn)) (\<lambda>_.
         bindE (validateFlowLabels (st_Labels st)) (\<lambda>_.
         bindE (NormalizeConfig (st_BindingMode st) (st_BusinessBinding st)) (\<lambda>businessBinding.
         bindE (case businessBinding of None \<Rightarrow> Inr () | Some b \<Rightarrow> ValidateSchema (dn_schemas dn) b) (\<lambda>_.
         bindE (validateInstanceTitleTemplate dn (st_InstanceTitleTemplate st)) (\<lambda>_.
         bindE (ensure (\<not> list_ex (\<lambda>f. fl_TenantID f = tenantID \<and> fl_Code f = cf_Code cmd) (db_flows db)) ErrFlowCodeExists) (\<lambda>_.
         bindE (if cf_IsShared cmd then requireFreeSharedCode (cf_Code cmd) db else Inr ()) (\<lambda>_.
         bindE (requireTenantCategory (cf_CategoryID cmd) tenantID db) (\<lambda>_.
         let (fid, db1) = allocId env db;
             flow = \<lparr>fl_ID = fid, fl_TenantID = tenantID, fl_IsShared = cf_IsShared cmd, fl_CategoryID = cf_CategoryID cmd,
               fl_Code = cf_Code cmd, fl_Name = st_Name st, fl_Icon = st_Icon st, fl_Description = st_Description st,
               fl_Labels = st_Labels st, fl_BindingMode = st_BindingMode st, fl_BusinessBinding = businessBinding,
               fl_AdminUserIDs = st_AdminUserIDs st, fl_IsAllInitiationAllowed = st_IsAllInitiationAllowed st,
               fl_InstanceTitleTemplate = st_InstanceTitleTemplate st, fl_IsActive = True, fl_CurrentVersion = 0\<rparr>;
             db2 = db1\<lparr>db_flows := db_flows db1 @ [flow],
               db_initiators := db_initiators db1 @ initiatorRows fid (st_Initiators st)\<rparr>
         in Inr (flow, EmitEvents [FlowEvent (FlowCreatedEvent flow)] db2)))))))))))) "

text \<open>The settings are written to the row; tenant, sharing, category and code never change.\<close>

definition UpdateFlow_Handle :: "design \<Rightarrow> string \<Rightarrow> FlowSettings \<Rightarrow> db \<Rightarrow> error + (Flow \<times> db)" where
  "UpdateFlow_Handle dn flowID st db =
     bindE (ofOption ErrFlowNotFound (findFlow flowID db)) (\<lambda>flow0.
     liftDesign (
       bindE (validateInstanceTitleTemplate dn (st_InstanceTitleTemplate st)) (\<lambda>_.
       bindE (validateBindingMode (st_BindingMode st)) (\<lambda>_.
       bindE (validateInitiatorRules (st_IsAllInitiationAllowed st) (st_Initiators st) (dn_initiatorKinds dn)) (\<lambda>_.
       bindE (validateFlowLabels (st_Labels st)) (\<lambda>_.
       bindE (NormalizeConfig (st_BindingMode st) (st_BusinessBinding st)) (\<lambda>businessBinding.
       let bindingChanged = (fl_BindingMode flow0 \<noteq> st_BindingMode st \<or> fl_BusinessBinding flow0 \<noteq> businessBinding)
       in bindE (case businessBinding of
                   Some b \<Rightarrow> if bindingChanged then ValidateSchema (dn_schemas dn) b else Inr ()
                 | None \<Rightarrow> Inr ()) (\<lambda>_.
       let write = (\<lambda>f. f\<lparr>fl_Name := st_Name st, fl_Icon := st_Icon st, fl_Description := st_Description st,
             fl_Labels := st_Labels st, fl_BindingMode := st_BindingMode st, fl_BusinessBinding := businessBinding,
             fl_AdminUserIDs := st_AdminUserIDs st, fl_IsAllInitiationAllowed := st_IsAllInitiationAllowed st,
             fl_InstanceTitleTemplate := st_InstanceTitleTemplate st\<rparr>);
           flow = write flow0;
           db1 = db\<lparr>db_flows := updateWhere (\<lambda>f. fl_ID f = flowID) write (db_flows db),
             db_initiators := filter (\<lambda>i. fi_FlowID i \<noteq> flowID) (db_initiators db) @ initiatorRows flowID (st_Initiators st)\<rparr>
       in Inr (flow, EmitEvents [FlowEvent (FlowUpdatedEvent flow)] db1)))))))))"

text \<open>A flow loaded by a partial column list: the columns not selected keep their zero value.\<close>

definition zeroFlow :: Flow where
  "zeroFlow = \<lparr>fl_ID = [], fl_TenantID = [], fl_IsShared = False, fl_CategoryID = [], fl_Code = [], fl_Name = [],
     fl_Icon = None, fl_Description = None, fl_Labels = [], fl_BindingMode = BindingModeOther [],
     fl_BusinessBinding = None, fl_AdminUserIDs = [], fl_IsAllInitiationAllowed = False,
     fl_InstanceTitleTemplate = [], fl_IsActive = False, fl_CurrentVersion = 0\<rparr>"

definition flowNames :: "Flow \<Rightarrow> Flow" where
  "flowNames f = zeroFlow\<lparr>fl_ID := fl_ID f, fl_TenantID := fl_TenantID f, fl_Code := fl_Code f, fl_Name := fl_Name f\<rparr>"

definition ToggleFlowActive_Handle :: "string \<Rightarrow> bool \<Rightarrow> db \<Rightarrow> error + db" where
  "ToggleFlowActive_Handle flowID isActive db =
     bindE (ofOption ErrFlowNotFound (findFlow flowID db)) (\<lambda>flow.
     bindE (ensure (affected (\<lambda>f. fl_ID f = flowID) (db_flows db) \<noteq> 0) ErrFlowNotFound) (\<lambda>_.
       Inr (EmitEvents [FlowEvent (FlowToggledEvent (flowNames flow) isActive)]
         (db\<lparr>db_flows := updateWhere (\<lambda>f. fl_ID f = flowID) (\<lambda>f. f\<lparr>fl_IsActive := isActive\<rparr>) (db_flows db)\<rparr>))))"

section \<open>Deploying a version\<close>

record DeployFlowCmd =
  dp_FlowID :: string
  dp_Description :: "string option"
  dp_StorageMode :: StorageMode
  dp_FlowDefinition :: FlowDefinition
  dp_FormSchema :: "json option"

record deployment =
  pl_nodeData :: "(string \<times> NodeData) list"
  pl_fields :: "FormFieldDefinition list"
  pl_storageMode :: StorageMode

definition wrapErr :: "error \<Rightarrow> 'e + 'a \<Rightarrow> error + 'a" where
  "wrapErr e r = (case r of Inl _ \<Rightarrow> Inl e | Inr x \<Rightarrow> Inr x)"

definition deriveFormFields :: "design \<Rightarrow> json option \<Rightarrow> error + FormFieldDefinition list" where
  "deriveFormFields dn schema =
     (case dn_parse_form dn schema of
        Inl (Some e) \<Rightarrow> Inl e
      | Inl None \<Rightarrow> Inl (ErrDesign ErrInvalidFormDesign)
      | Inr fs \<Rightarrow> Inr fs)"

definition validateDeploy :: "env \<Rightarrow> design \<Rightarrow> DeployFlowCmd \<Rightarrow> error + deployment" where
  "validateDeploy env dn cmd =
     bindE (wrapErr (ErrDesign ErrInvalidFlowDesign)
              (ValidateFlowDefinition (dn_service dn) (env_inexactFloat64 env) (dn_decoder dn) (dp_FlowDefinition cmd))) (\<lambda>parsed.
     bindE (deriveFormFields dn (dp_FormSchema cmd)) (\<lambda>fs.
     bindE (wrapErr (ErrDesign ErrInvalidFormDesign) (ValidateFormFields env fs)) (\<lambda>_.
     bindE (wrapErr (ErrDesign ErrInvalidFlowDesign) (ValidateConditionAggregates (dn_service dn) parsed fs)) (\<lambda>_.
     bindE (wrapErr (ErrDesign ErrInvalidFlowDesign) (ValidateFieldPermissions parsed fs)) (\<lambda>_.
     let storageMode = cmpOr (StorageModeOther []) (dp_StorageMode cmd) StorageJSON
     in bindE (ensure (StorageMode_IsValid storageMode) (ErrDesign ErrInvalidStorageMode)) (\<lambda>_.
        bindE (if storageMode = StorageTable
               then wrapErr (ErrDesign ErrInvalidFormDesign) (ValidateTableFormSchema fs) else Inr ()) (\<lambda>_.
          Inr \<lparr>pl_nodeData = parsed, pl_fields = fs, pl_storageMode = storageMode\<rparr>)))))))"

definition loadDeployFlow :: "string \<Rightarrow> db \<Rightarrow> error + (Flow \<times> BusinessBindingConfig option)" where
  "loadDeployFlow flowID db =
     bindE (ofOption ErrFlowNotFound (findFlow flowID db)) (\<lambda>row.
     let flow = zeroFlow\<lparr>fl_ID := flowID, fl_Code := fl_Code row, fl_Name := fl_Name row,
           fl_BindingMode := fl_BindingMode row, fl_BusinessBinding := fl_BusinessBinding row\<rparr>
     in bindE (liftDesign (NormalizeConfig (fl_BindingMode flow) (fl_BusinessBinding flow))) (\<lambda>businessBinding.
          Inr (flow, businessBinding)))"

definition nextVersionNumber :: "string \<Rightarrow> db \<Rightarrow> int" where
  "nextVersionNumber flowID db =
     (let vs = map fv_Version (filter (\<lambda>v. fv_FlowID v = flowID) (db_versions db))
      in (if vs = [] then 0 else Max (set vs)) + 1)"

definition insertVersion :: "env \<Rightarrow> FlowVersion \<Rightarrow> db \<Rightarrow> FlowVersion \<times> db" where
  "insertVersion env v db =
     (let (vid, db1) = allocId env db; row = v\<lparr>fv_ID := vid\<rparr>
      in (row, db1\<lparr>db_versions := db_versions db1 @ [row]\<rparr>))"

text \<open>The node rows; the batch insert assigns their ids in order.\<close>

definition nodeRow :: "string \<Rightarrow> (string \<times> NodeData) list \<Rightarrow> NodeDefinition \<Rightarrow> error + FlowNode \<times> NodeData" where
  "nodeRow versionID parsed def =
     bindE (ofOption ErrNilDereference (map_of (rev parsed) (nd_ID def))) (\<lambda>data.
       Inr (ApplyTo data (zeroFlowNode\<lparr>n_FlowVersionID := versionID, n_Key := nd_ID def, n_Kind := nd_Kind def\<rparr>), data))"

fun insertNodes :: "env \<Rightarrow> FlowNode list \<Rightarrow> db \<Rightarrow> FlowNode list \<times> db" where
  "insertNodes env [] db = ([], db)"
| "insertNodes env (n # ns) db =
     (let (nid, db1) = allocId env db; row = n\<lparr>n_ID := nid\<rparr>;
          (rows, db2) = insertNodes env ns (db1\<lparr>db_nodes := db_nodes db1 @ [row]\<rparr>)
      in (row # rows, db2))"

definition assigneeRows :: "FlowNode \<times> NodeData \<Rightarrow> FlowNodeAssignee list" where
  "assigneeRows nd = map (\<lambda>a. \<lparr>na_NodeID = n_ID (fst nd), na_Kind = ad_Kind a, na_IDs = ad_IDs a,
     na_FormField = ad_FormField a, na_SortOrder = ad_SortOrder a\<rparr>) (GetAssignees (snd nd))"

definition ccRows :: "FlowNode \<times> NodeData \<Rightarrow> FlowNodeCC list" where
  "ccRows nd = map (\<lambda>c. \<lparr>nc_NodeID = n_ID (fst nd), nc_Kind = cd_Kind c, nc_IDs = cd_IDs c, nc_FormField = cd_FormField c,
     nc_Timing = cmpOr (CCTimingOther []) (cd_Timing c) CCTimingAlways\<rparr>) (GetCCs (snd nd))"

definition edgeRow :: "string \<Rightarrow> (string \<rightharpoonup> string) \<Rightarrow> EdgeDefinition \<Rightarrow> error + FlowEdge" where
  "edgeRow versionID nodeKeyToID ed =
     bindE (ofOption (ErrDesign ErrInvalidFlowDesign) (nodeKeyToID (ed_Source ed))) (\<lambda>sourceID.
     bindE (ofOption (ErrDesign ErrInvalidFlowDesign) (nodeKeyToID (ed_Target ed))) (\<lambda>targetID.
       Inr \<lparr>e_ID = [], e_FlowVersionID = versionID, e_Key = ed_ID ed, e_SourceNodeID = sourceID,
         e_SourceNodeKey = ed_Source ed, e_TargetNodeID = targetID, e_TargetNodeKey = ed_Target ed,
         e_SourceHandle = ed_SourceHandle ed\<rparr>))"

fun insertEdges :: "env \<Rightarrow> FlowEdge list \<Rightarrow> db \<Rightarrow> db" where
  "insertEdges env [] db = db"
| "insertEdges env (e # es) db =
     (let (eid, db1) = allocId env db
      in insertEdges env es (db1\<lparr>db_edges := db_edges db1 @ [e\<lparr>e_ID := eid\<rparr>]\<rparr>))"

definition DeployFlow_Handle :: "env \<Rightarrow> design \<Rightarrow> DeployFlowCmd \<Rightarrow> db \<Rightarrow> error + (FlowVersion \<times> db)" where
  "DeployFlow_Handle env dn cmd db =
     bindE (validateDeploy env dn cmd) (\<lambda>planned.
     bindE (loadDeployFlow (dp_FlowID cmd) db) (\<lambda>(flow, businessBinding).
     let (version, db1) = insertVersion env
           \<lparr>fv_ID = [], fv_FlowID = fl_ID flow, fv_Version = nextVersionNumber (fl_ID flow) db, fv_Status = VersionDraft,
            fv_Description = dp_Description cmd, fv_StorageMode = pl_storageMode planned, fv_FormFields = pl_fields planned,
            fv_PublishedAt = None, fv_PublishedBy = None, fv_BusinessBinding = businessBinding\<rparr> db
     in bindE (mapE (nodeRow (fv_ID version) (pl_nodeData planned)) (fd_Nodes (dp_FlowDefinition cmd))) (\<lambda>parsedNodes.
        let (nodes, db2) = insertNodes env (map fst parsedNodes) db1;
            pairs = zip nodes (map snd parsedNodes);
            nodeKeyToID = map_of (rev (map (\<lambda>n. (n_Key n, n_ID n)) nodes));
            db3 = db2\<lparr>db_node_assignees := db_node_assignees db2 @ concat (map assigneeRows pairs),
              db_node_ccs := db_node_ccs db2 @ concat (map ccRows pairs)\<rparr>
        in bindE (mapE (edgeRow (fv_ID version) nodeKeyToID) (fd_Edges (dp_FlowDefinition cmd))) (\<lambda>edges.
           let db4 = insertEdges env edges db3
           in Inr (version, EmitEvents [FlowEvent (FlowDeployedEvent flow (fv_ID version) (fv_Version version))] db4)))))"

section \<open>Publishing a version\<close>

definition PublishVersion_Handle :: "env \<Rightarrow> string \<Rightarrow> string \<Rightarrow> db \<Rightarrow> error + db" where
  "PublishVersion_Handle env versionID operatorID db =
     bindE (ofOption (ErrDesign ErrVersionNotFound) (findVersion versionID db)) (\<lambda>version0.
     bindE (ensure (fv_Status version0 = VersionDraft) (ErrDesign ErrVersionNotDraft)) (\<lambda>_.
     bindE (ofOption ErrRecordNotFound (findFlow (fv_FlowID version0) db)) (\<lambda>flow.
     let db1 = db\<lparr>db_versions := updateWhere (\<lambda>v. fv_FlowID v = fv_FlowID version0 \<and> fv_Status v = VersionPublished)
           (\<lambda>v. v\<lparr>fv_Status := VersionArchived\<rparr>) (db_versions db)\<rparr>;
         publish = (\<lambda>v. v\<lparr>fv_Status := VersionPublished, fv_PublishedAt := Some (env_now env), fv_PublishedBy := Some operatorID\<rparr>);
         version = publish version0;
         db2 = db1\<lparr>db_versions := updateWhere (\<lambda>v. fv_ID v = versionID) publish (db_versions db1)\<rparr>;
         db3 = db2\<lparr>db_flows := updateWhere (\<lambda>f. fl_ID f = fv_FlowID version0)
           (\<lambda>f. f\<lparr>fl_CurrentVersion := fv_Version version\<rparr>) (db_flows db2)\<rparr>
     in bindE (case env_form_storage env of
                 None \<Rightarrow> Inr db3
               | Some kind \<Rightarrow>
                   bindE (Dispatcher_ProvisionTable kind (flowNames flow) version db3) (\<lambda>db4.
                     Dispatcher_RecordMetadata env kind (flowNames flow) version db4)) (\<lambda>db5.
          Inr (EmitEvents [FlowEvent (FlowPublishedEvent (flowNames flow) versionID)] db5)))))"

end
