(* ===== verification/Design_Evolution.thy ===== *)
theory Design_Evolution
  imports Flow_Commands Store_Evolution Compiled_Flow "HOL-Library.Sublist"
begin

text \<open>
  What the commands that manage flows do to the store.  Each command is summarised by the store it
  leaves; together they keep \<open>config_evolves\<close>: deployed nodes, edges and rules are never touched
  again, a version only moves from draft over published to archived, and a flow keeps its tenant,
  its category and its code.  The rows of running instances are out of their reach.
\<close>

section \<open>How flow definitions may change\<close>

definition version_moves :: "FlowVersion \<Rightarrow> FlowVersion \<Rightarrow> bool" where
  "version_moves v v' \<longleftrightarrow>
     v' = v\<lparr>fv_Status := fv_Status v', fv_PublishedAt := fv_PublishedAt v', fv_PublishedBy := fv_PublishedBy v'\<rparr>
     \<and> (v' = v \<or> fv_Status v = VersionDraft \<and> fv_Status v' \<in> {VersionPublished, VersionArchived}
          \<or> fv_Status v = VersionPublished \<and> fv_Status v' = VersionArchived)"

definition flow_moves :: "Flow \<Rightarrow> Flow \<Rightarrow> bool" where
  "flow_moves f f' \<longleftrightarrow> fl_ID f' = fl_ID f \<and> fl_TenantID f' = fl_TenantID f \<and> fl_IsShared f' = fl_IsShared f
     \<and> fl_CategoryID f' = fl_CategoryID f \<and> fl_Code f' = fl_Code f"

definition config_evolves :: "db \<Rightarrow> db \<Rightarrow> bool" where
  "config_evolves db db' \<longleftrightarrow> db_categories db' = db_categories db \<and> db_delegations db' = db_delegations db
     \<and> prefix (db_nodes db) (db_nodes db') \<and> prefix (db_edges db) (db_edges db')
     \<and> prefix (db_node_assignees db) (db_node_assignees db') \<and> prefix (db_node_ccs db) (db_node_ccs db')
     \<and> prefix (db_form_tables db) (db_form_tables db') \<and> prefix (db_form_columns db) (db_form_columns db')
     \<and> rows_evolve flow_moves (\<lambda>_. True) (db_flows db) (db_flows db')
     \<and> rows_evolve version_moves (\<lambda>_. True) (db_versions db) (db_versions db')"

definition runtime_same :: "db \<Rightarrow> db \<Rightarrow> bool" where
  "runtime_same db db' \<longleftrightarrow> db_instances db' = db_instances db \<and> db_tasks db' = db_tasks db
     \<and> db_visits db' = db_visits db \<and> db_ccs db' = db_ccs db \<and> db_snapshots db' = db_snapshots db
     \<and> db_urges db' = db_urges db \<and> db_logs db' = db_logs db"

lemma version_moves_refl [simp]: "version_moves v v"
  by (simp add: version_moves_def)

lemma version_moves_trans: "version_moves a b \<Longrightarrow> version_moves b c \<Longrightarrow> version_moves a c"
  by (cases a, cases b, cases c) (auto simp: version_moves_def)

lemma version_moves_keeps:
  "version_moves v v' \<Longrightarrow> fv_ID v' = fv_ID v \<and> fv_FlowID v' = fv_FlowID v \<and> fv_Version v' = fv_Version v
     \<and> fv_StorageMode v' = fv_StorageMode v \<and> fv_FormFields v' = fv_FormFields v
     \<and> fv_BusinessBinding v' = fv_BusinessBinding v"
  by (cases v, cases v') (auto simp: version_moves_def)

lemma flow_moves_refl [simp]: "flow_moves f f"
  by (simp add: flow_moves_def)

lemma config_evolves_refl [simp]: "config_evolves db db"
  by (simp add: config_evolves_def)

lemma config_evolves_trans:
  assumes "config_evolves a b" and "config_evolves b c"
  shows "config_evolves a c"
  unfolding config_evolves_def
proof (intro conjI)
  show "rows_evolve flow_moves (\<lambda>_. True) (db_flows a) (db_flows c)"
    by (rule rows_evolve_trans[where ys = "db_flows b"]) (use assms in \<open>auto simp: config_evolves_def flow_moves_def\<close>)
  show "rows_evolve version_moves (\<lambda>_. True) (db_versions a) (db_versions c)"
    by (rule rows_evolve_trans[where ys = "db_versions b", OF _ _ version_moves_trans])
      (use assms in \<open>simp_all add: config_evolves_def\<close>)
qed (use assms in \<open>auto simp: config_evolves_def intro: prefix_order.trans\<close>)

lemma same_config_evolves: "same_config db db' \<Longrightarrow> config_evolves db db'"
  by (simp add: same_config_def config_evolves_def)

section \<open>The commands, summarised\<close>

definition freshIds :: "env \<Rightarrow> nat \<Rightarrow> nat \<Rightarrow> string list" where
  "freshIds env k n = map (env_new_id env) [k..<k + n]"

lemma freshIds_Suc: "freshIds env k (Suc n) = env_new_id env k # freshIds env (Suc k) n"
  by (simp add: freshIds_def upt_conv_Cons del: upt_Suc)

lemma length_freshIds [simp]: "length (freshIds env k n) = n"
  by (simp add: freshIds_def)

definition numbered :: "env \<Rightarrow> FlowNode list \<Rightarrow> nat \<Rightarrow> FlowNode list" where
  "numbered env ns k = map2 (\<lambda>n i. n\<lparr>n_ID := i\<rparr>) ns (freshIds env k (length ns))"

definition numberedEdges :: "env \<Rightarrow> FlowEdge list \<Rightarrow> nat \<Rightarrow> FlowEdge list" where
  "numberedEdges env es k = map2 (\<lambda>e i. e\<lparr>e_ID := i\<rparr>) es (freshIds env k (length es))"

lemma insertNodes_eq:
  "insertNodes env ns db = (numbered env ns (db_next_id db),
     db\<lparr>db_nodes := db_nodes db @ numbered env ns (db_next_id db), db_next_id := db_next_id db + length ns\<rparr>)"
  by (induction ns arbitrary: db) (simp_all add: numbered_def allocId_def freshIds_Suc Let_def)

lemma insertEdges_eq:
  "insertEdges env es db =
     db\<lparr>db_edges := db_edges db @ numberedEdges env es (db_next_id db), db_next_id := db_next_id db + length es\<rparr>"
  by (induction es arbitrary: db) (simp_all add: numberedEdges_def allocId_def freshIds_Suc Let_def)

lemma liftDesign_Inr [simp]: "liftDesign r = Inr x \<longleftrightarrow> r = Inr x"
  by (cases r) (simp_all add: liftDesign_def)

lemma wrapErr_Inr [simp]: "wrapErr e r = Inr x \<longleftrightarrow> r = Inr x"
  by (cases r) (simp_all add: wrapErr_def)

lemma CreateFlow_run:
  assumes "CreateFlow_Handle env dn cmd db = Inr (flow, db')"
  shows "fl_ID flow = env_new_id env (db_next_id db)" "fl_TenantID flow = cf_TenantID cmd" "fl_Code flow = cf_Code cmd"
    "fl_IsShared flow = cf_IsShared cmd" "fl_CurrentVersion flow = 0" "fl_CategoryID flow = cf_CategoryID cmd"
    "fl_IsAllInitiationAllowed flow = st_IsAllInitiationAllowed (cf_Settings cmd)"
    "st_IsAllInitiationAllowed (cf_Settings cmd) \<longleftrightarrow> st_Initiators (cf_Settings cmd) = []"
    "\<not> (\<exists>f \<in> set (db_flows db). fl_TenantID f = cf_TenantID cmd \<and> fl_Code f = cf_Code cmd)"
    "cf_IsShared cmd \<Longrightarrow> \<not> (\<exists>f \<in> set (db_flows db). fl_Code f = cf_Code cmd \<and> fl_IsShared f)"
    "db' = EmitEvents [FlowEvent (FlowCreatedEvent flow)] (db\<lparr>db_next_id := Suc (db_next_id db), db_flows := db_flows db @ [flow],
       db_initiators := db_initiators db @ initiatorRows (fl_ID flow) (st_Initiators (cf_Settings cmd))\<rparr>)"
  using assms
  by (auto simp: CreateFlow_Handle_def Let_def bindE_Inr_iff allocId_def requireFreeSharedCode_def list_ex_iff
      validateInitiatorRules_def split: if_splits)

lemma UpdateFlow_run:
  assumes "UpdateFlow_Handle dn flowID st db = Inr (flow, db')"
  obtains upd where "\<And>f. flow_moves f (upd f)" "\<And>f. fl_CurrentVersion (upd f) = fl_CurrentVersion f"
    "\<And>f. fl_IsActive (upd f) = fl_IsActive f"
    "\<And>f. fl_IsAllInitiationAllowed (upd f) = st_IsAllInitiationAllowed st"
    "st_IsAllInitiationAllowed st \<longleftrightarrow> st_Initiators st = []" "findFlow flowID db \<noteq> None"
    "db' = EmitEvents [FlowEvent (FlowUpdatedEvent flow)]
       (db\<lparr>db_flows := updateWhere (\<lambda>f. fl_ID f = flowID) upd (db_flows db),
         db_initiators := filter (\<lambda>i. fi_FlowID i \<noteq> flowID) (db_initiators db) @ initiatorRows flowID (st_Initiators st)\<rparr>)"
proof -
  obtain bb where r: "st_IsAllInitiationAllowed st \<longleftrightarrow> st_Initiators st = []" "findFlow flowID db \<noteq> None"
    "db' = EmitEvents [FlowEvent (FlowUpdatedEvent flow)]
       (db\<lparr>db_flows := updateWhere (\<lambda>f. fl_ID f = flowID)
            (\<lambda>f. f\<lparr>fl_Name := st_Name st, fl_Icon := st_Icon st, fl_Description := st_Description st,
             fl_Labels := st_Labels st, fl_BindingMode := st_BindingMode st, fl_BusinessBinding := bb,
             fl_AdminUserIDs := st_AdminUserIDs st, fl_IsAllInitiationAllowed := st_IsAllInitiationAllowed st,
             fl_InstanceTitleTemplate := st_InstanceTitleTemplate st\<rparr>) (db_flows db),
         db_initiators := filter (\<lambda>i. fi_FlowID i \<noteq> flowID) (db_initiators db) @ initiatorRows flowID (st_Initiators st)\<rparr>)"
    using assms
    by (auto simp: UpdateFlow_Handle_def Let_def bindE_Inr_iff validateInitiatorRules_def split: if_splits)
  show thesis by (rule that[OF _ _ _ _ r]) (simp_all add: flow_moves_def)
qed

lemma Toggle_run:
  assumes "ToggleFlowActive_Handle flowID isActive db = Inr db'"
  obtains evs where "db' = EmitEvents evs
     (db\<lparr>db_flows := updateWhere (\<lambda>f. fl_ID f = flowID) (\<lambda>f. f\<lparr>fl_IsActive := isActive\<rparr>) (db_flows db)\<rparr>)"
  using assms by (auto simp: ToggleFlowActive_Handle_def)

text \<open>A deployed version: the rows a definition is stored as.\<close>

definition deployedVersion ::
    "env \<Rightarrow> DeployFlowCmd \<Rightarrow> deployment \<Rightarrow> BusinessBindingConfig option \<Rightarrow> db \<Rightarrow> FlowVersion" where
  "deployedVersion env cmd planned bb db =
     \<lparr>fv_ID = env_new_id env (db_next_id db), fv_FlowID = dp_FlowID cmd, fv_Version = nextVersionNumber (dp_FlowID cmd) db,
      fv_Status = VersionDraft, fv_Description = dp_Description cmd, fv_StorageMode = pl_storageMode planned,
      fv_FormFields = pl_fields planned, fv_PublishedAt = None, fv_PublishedBy = None, fv_BusinessBinding = bb\<rparr>"

lemma DeployFlow_run:
  assumes "DeployFlow_Handle env dn cmd db = Inr (version, db')"
  obtains planned flow bb pns nodes edges as ccs evs where "validateDeploy env dn cmd = Inr planned"
    "loadDeployFlow (dp_FlowID cmd) db = Inr (flow, bb)" "version = deployedVersion env cmd planned bb db"
    "mapE (nodeRow (fv_ID version) (pl_nodeData planned)) (fd_Nodes (dp_FlowDefinition cmd)) = Inr pns"
    "nodes = numbered env (map fst pns) (Suc (db_next_id db))"
    "mapE (edgeRow (fv_ID version) (map_of (rev (map (\<lambda>n. (n_Key n, n_ID n)) nodes)))) (fd_Edges (dp_FlowDefinition cmd))
       = Inr edges"
    "db' = EmitEvents evs (db\<lparr>db_versions := db_versions db @ [version], db_nodes := db_nodes db @ nodes,
       db_node_assignees := db_node_assignees db @ as, db_node_ccs := db_node_ccs db @ ccs,
       db_edges := db_edges db @ numberedEdges env edges (Suc (db_next_id db + length nodes)),
       db_next_id := Suc (db_next_id db + length nodes + length edges)\<rparr>)"
proof -
  from assms obtain planned flow bb where pl: "validateDeploy env dn cmd = Inr planned"
    and fl: "loadDeployFlow (dp_FlowID cmd) db = Inr (flow, bb)"
    by (auto simp: DeployFlow_Handle_def bindE_Inr_iff)
  have fid: "fl_ID flow = dp_FlowID cmd" using fl by (auto simp: loadDeployFlow_def bindE_Inr_iff zeroFlow_def)
  let ?v = "deployedVersion env cmd planned bb db"
  obtain pns where pns: "mapE (nodeRow (fv_ID ?v) (pl_nodeData planned)) (fd_Nodes (dp_FlowDefinition cmd)) = Inr pns"
    using assms pl fl fid
    by (auto simp: DeployFlow_Handle_def bindE_Inr_iff insertVersion_def allocId_def Let_def deployedVersion_def)
  let ?nodes = "numbered env (map fst pns) (Suc (db_next_id db))"
  obtain edges where edges: "mapE (edgeRow (fv_ID ?v) (map_of (rev (map (\<lambda>n. (n_Key n, n_ID n)) ?nodes))))
      (fd_Edges (dp_FlowDefinition cmd)) = Inr edges"
    using assms pl fl fid pns
    by (auto simp: DeployFlow_Handle_def bindE_Inr_iff insertVersion_def allocId_def Let_def deployedVersion_def insertNodes_eq)
  have len: "length ?nodes = length pns" by (simp add: numbered_def)
  have "version = ?v \<and> (\<exists>as ccs evs. db' = EmitEvents evs (db\<lparr>db_versions := db_versions db @ [version],
       db_nodes := db_nodes db @ ?nodes, db_node_assignees := db_node_assignees db @ as, db_node_ccs := db_node_ccs db @ ccs,
       db_edges := db_edges db @ numberedEdges env edges (Suc (db_next_id db + length ?nodes)),
       db_next_id := Suc (db_next_id db + length ?nodes + length edges)\<rparr>))"
    using assms pl fl fid pns edges len
    by (auto simp: DeployFlow_Handle_def bindE_Inr_iff insertVersion_def allocId_def Let_def deployedVersion_def
        insertNodes_eq insertEdges_eq EmitEvents_def)
  with that[OF pl fl _ _ refl] pns edges show thesis by blast
qed

lemma insertFormTables_frame:
  "\<exists>fts fcs. fold (insertFormTable env v) specs db = db\<lparr>db_next_id := db_next_id db + length specs,
     db_form_tables := db_form_tables db @ fts, db_form_columns := db_form_columns db @ fcs\<rparr>
     \<and> map ft_ID fts = freshIds env (db_next_id db) (length specs)"
proof (induction specs arbitrary: db)
  case Nil
  show ?case by (intro exI[of _ "[]"]) (simp add: freshIds_def)
next
  case (Cons spec specs)
  let ?db1 = "insertFormTable env v spec db"
  obtain ft cs where e: "?db1 = db\<lparr>db_next_id := Suc (db_next_id db), db_form_tables := db_form_tables db @ [ft],
      db_form_columns := db_form_columns db @ cs\<rparr>" "ft_ID ft = env_new_id env (db_next_id db)"
    by (simp add: insertFormTable_eq Let_def)
  obtain fts fcs where i: "fold (insertFormTable env v) specs ?db1 = ?db1\<lparr>db_next_id := db_next_id ?db1 + length specs,
     db_form_tables := db_form_tables ?db1 @ fts, db_form_columns := db_form_columns ?db1 @ fcs\<rparr>"
     "map ft_ID fts = freshIds env (db_next_id ?db1) (length specs)"
    using Cons.IH[of ?db1] by blast
  show ?case
    by (rule exI[of _ "ft # fts"], rule exI[of _ "cs @ fcs"]) (use i e(2) in \<open>simp add: freshIds_Suc, simp add: e(1)\<close>)
qed

lemma createTables_frame:
  "foldE (\<lambda>table db'. bindE (renderTableStatements kind table) (\<lambda>_. Inr (createTable table db'))) specs db = Inr db'
     \<Longrightarrow> db' = db\<lparr>db_physical := db_physical db'\<rparr>"
proof (induction specs arbitrary: db)
  case (Cons s specs)
  obtain p where p: "createTable s db = db\<lparr>db_physical := p\<rparr>"
    by (cases "db_physical db (ts_Name s)") (simp_all add: createTable_def, metis db.surjective db.update_convs(11))
  have "db' = (createTable s db)\<lparr>db_physical := db_physical db'\<rparr>" using Cons by (auto simp: bindE_Inr_iff)
  then show ?case unfolding p by simp
qed simp

text \<open>What publishing adds for the form storage of a version.\<close>

definition form_storage_added :: "env \<Rightarrow> db \<Rightarrow> db \<Rightarrow> bool" where
  "form_storage_added env db db' \<longleftrightarrow> (\<exists>p fts fcs. db' = db\<lparr>db_physical := p, db_next_id := db_next_id db + length fts,
     db_form_tables := db_form_tables db @ fts, db_form_columns := db_form_columns db @ fcs\<rparr>
     \<and> map ft_ID fts = freshIds env (db_next_id db) (length fts))"

lemma form_storage_added_refl: "form_storage_added env db db"
  unfolding form_storage_added_def by (intro exI[of _ "db_physical db"] exI[of _ "[]"]) (simp add: freshIds_def)

lemma publish_storage_added:
  assumes "Dispatcher_ProvisionTable kind flow v db = Inr db1" and "Dispatcher_RecordMetadata env kind flow v db1 = Inr db2"
  shows "form_storage_added env db db2"
proof (cases "fv_StorageMode v = StorageTable")
  case True
  then obtain specs where "foldE (\<lambda>table db'. bindE (renderTableStatements kind table) (\<lambda>_. Inr (createTable table db'))) specs db = Inr db1"
    using assms(1) by (auto simp: Dispatcher_ProvisionTable_def TableStorage_ProvisionTable_def bindE_Inr_iff)
  from createTables_frame[OF this] obtain p where p: "db1 = db\<lparr>db_physical := p\<rparr>" by blast
  have "db2 = db1 \<or> (\<exists>specs. db2 = fold (insertFormTable env v) specs db1)"
    using assms(2) True by (auto simp: Dispatcher_RecordMetadata_def TableStorage_RecordMetadata_def bindE_Inr_iff split: if_splits)
  then show ?thesis
  proof
    assume "db2 = db1"
    then show ?thesis unfolding form_storage_added_def p by (intro exI[of _ p] exI[of _ "[]"]) (simp add: freshIds_def)
  next
    assume "\<exists>specs. db2 = fold (insertFormTable env v) specs db1"
    then obtain specs where specs: "db2 = fold (insertFormTable env v) specs db1" by blast
    obtain fts fcs where "db2 = db1\<lparr>db_next_id := db_next_id db1 + length specs,
       db_form_tables := db_form_tables db1 @ fts, db_form_columns := db_form_columns db1 @ fcs\<rparr>"
       "map ft_ID fts = freshIds env (db_next_id db1) (length specs)"
      using insertFormTables_frame[of env v specs db1] specs by auto
    moreover from this(2) have "length fts = length specs" by (metis length_freshIds length_map)
    ultimately show ?thesis unfolding form_storage_added_def p
      by (intro exI[of _ p] exI[of _ fts] exI[of _ fcs]) simp
  qed
next
  case False
  with assms show ?thesis by (simp add: Dispatcher_ProvisionTable_def Dispatcher_RecordMetadata_def form_storage_added_refl)
qed

definition archive :: "FlowVersion \<Rightarrow> FlowVersion" where
  "archive v = v\<lparr>fv_Status := VersionArchived\<rparr>"

definition publish :: "env \<Rightarrow> string \<Rightarrow> FlowVersion \<Rightarrow> FlowVersion" where
  "publish env operatorID v =
     v\<lparr>fv_Status := VersionPublished, fv_PublishedAt := Some (env_now env), fv_PublishedBy := Some operatorID\<rparr>"

lemma publish_sel [simp]:
  "fv_ID (publish env o' v) = fv_ID v" "fv_FlowID (publish env o' v) = fv_FlowID v" "fv_Version (publish env o' v) = fv_Version v"
  "fv_Status (publish env o' v) = VersionPublished" "fv_ID (archive v) = fv_ID v" "fv_FlowID (archive v) = fv_FlowID v"
  "fv_Version (archive v) = fv_Version v" "fv_Status (archive v) = VersionArchived"
  by (simp_all add: publish_def archive_def)

lemma PublishVersion_run:
  assumes "PublishVersion_Handle env versionID operatorID db = Inr db'"
  obtains version db3 db5 evs where "findVersion versionID db = Some version" "fv_Status version = VersionDraft"
    "findFlow (fv_FlowID version) db \<noteq> None"
    "db3 = db\<lparr>db_versions := updateWhere (\<lambda>v. fv_ID v = versionID) (publish env operatorID)
         (updateWhere (\<lambda>v. fv_FlowID v = fv_FlowID version \<and> fv_Status v = VersionPublished) archive (db_versions db)),
       db_flows := updateWhere (\<lambda>f. fl_ID f = fv_FlowID version) (\<lambda>f. f\<lparr>fl_CurrentVersion := fv_Version version\<rparr>) (db_flows db)\<rparr>"
    "form_storage_added env db3 db5" "db' = EmitEvents evs db5"
proof -
  have eta: "(\<lambda>v. v\<lparr>fv_Status := VersionArchived\<rparr>) = archive"
    "(\<lambda>v. v\<lparr>fv_Status := VersionPublished, fv_PublishedAt := Some (env_now env), fv_PublishedBy := Some operatorID\<rparr>) = publish env operatorID"
    by (auto simp: archive_def publish_def)
  obtain version where v: "findVersion versionID db = Some version" "fv_Status version = VersionDraft"
    "findFlow (fv_FlowID version) db \<noteq> None"
    using assms by (auto simp: PublishVersion_Handle_def bindE_Inr_iff)
  let ?db3 = "db\<lparr>db_versions := updateWhere (\<lambda>v. fv_ID v = versionID) (publish env operatorID)
         (updateWhere (\<lambda>v. fv_FlowID v = fv_FlowID version \<and> fv_Status v = VersionPublished) archive (db_versions db)),
       db_flows := updateWhere (\<lambda>f. fl_ID f = fv_FlowID version) (\<lambda>f. f\<lparr>fl_CurrentVersion := fv_Version version\<rparr>) (db_flows db)\<rparr>"
  have "\<exists>db5 evs. form_storage_added env ?db3 db5 \<and> db' = EmitEvents evs db5"
  proof (cases "env_form_storage env")
    case None
    then have "\<exists>evs. db' = EmitEvents evs ?db3"
      using assms v by (auto simp: PublishVersion_Handle_def bindE_Inr_iff Let_def eta)
    then show ?thesis using form_storage_added_refl by blast
  next
    case (Some kind)
    then obtain flow db4 db5 evs where "Dispatcher_ProvisionTable kind (flowNames flow) (publish env operatorID version) ?db3 = Inr db4"
      "Dispatcher_RecordMetadata env kind (flowNames flow) (publish env operatorID version) db4 = Inr db5" "db' = EmitEvents evs db5"
      using assms v by (auto simp: PublishVersion_Handle_def bindE_Inr_iff Let_def eta)
    then show ?thesis using publish_storage_added by blast
  qed
  then obtain db5 evs where add: "form_storage_added env ?db3 db5" and out: "db' = EmitEvents evs db5" by blast
  from that[OF v refl add out] show thesis .
qed

section \<open>A command on flow definitions leaves the running instances alone\<close>

definition design_step :: "db \<Rightarrow> db \<Rightarrow> bool" where
  "design_step db db' \<longleftrightarrow> runtime_same db db' \<and> config_evolves db db' \<and> prefix (db_events db) (db_events db')"

lemma freshIds_set: "set (freshIds env k n) = env_new_id env ` {k..<k + n}"
  by (simp add: freshIds_def)

lemma freshIds_distinct: "inj (env_new_id env) \<Longrightarrow> distinct (freshIds env k n)"
  by (auto simp: freshIds_def distinct_map intro: inj_on_subset)

lemma map2_key: "length xs = length is \<Longrightarrow> (\<And>x i. k (f x i) = i) \<Longrightarrow> map k (map2 f xs is) = is"
  by (induction xs "is" rule: list_induct2) simp_all

lemma numbered_ids: "map n_ID (numbered env ns k) = freshIds env k (length ns)"
  unfolding numbered_def by (rule map2_key) simp_all

lemma length_numbered [simp]: "length (numbered env ns k) = length ns"
  by (simp add: numbered_def)

lemma wf_store_design:
  assumes wf: "wf_store env db" and rt: "runtime_same db db'"
    and nodes: "db_nodes db' = db_nodes db @ ns" "map n_ID ns = freshIds env k (length ns)" "db_next_id db \<le> k"
    and used: "used_ids db' \<subseteq> used_ids db \<union> env_new_id env ` {db_next_id db..<db_next_id db'}"
    and nxt: "db_next_id db \<le> db_next_id db'" and vs: "distinct (map fv_ID (db_versions db'))"
  shows "wf_store env db'"
proof -
  have inj: "inj (env_new_id env)" using wf by (simp add: wf_store_def)
  have unused: "env_new_id env n \<notin> used_ids db'" if "db_next_id db' \<le> n" for n
  proof -
    have "env_new_id env n \<notin> env_new_id env ` {db_next_id db..<db_next_id db'}" using that inj by (auto dest: injD)
    then show ?thesis using that used wf_store_unused[OF wf, of n] nxt by auto
  qed
  have new: "n_ID n \<notin> used_ids db" if "n \<in> set ns" for n
  proof -
    have "n_ID n \<in> set (map n_ID ns)" using that by simp
    then show ?thesis unfolding nodes(2) using wf_store_unused[OF wf] nodes(3) by (auto simp: freshIds_set)
  qed
  moreover have "n_ID ` set (db_nodes db) \<subseteq> used_ids db" by (auto simp: used_ids_def)
  ultimately have dis: "set (map n_ID ns) \<inter> n_ID ` set (db_nodes db) = {}" by auto
  have "distinct (map n_ID ns)" unfolding nodes(2) by (rule freshIds_distinct[OF inj])
  then have d: "distinct (map n_ID (db_nodes db'))" using wf_store_nodes[OF wf] dis by (auto simp: nodes(1))
  have "n_ID n \<noteq> t_NodeID t" if "t \<in> set (db_tasks db)" "n \<in> set ns" for t n
  proof -
    have "t_NodeID t \<in> n_ID ` set (db_nodes db)"
      using wf that(1) unfolding wf_store_def visits_ok_def places_ok_def by metis
    then show ?thesis using new[OF that(2)] by (auto simp: used_ids_def)
  qed
  then have "hosts_ok (db_tasks db) (db_nodes db')"
    using wf by (auto simp: wf_store_def hosts_ok_def nodes(1))
  moreover have "places_ok (db_visits db) (db_nodes db')" using wf by (auto simp: wf_store_def places_ok_def nodes(1))
  ultimately show ?thesis using wf rt unused d vs by (simp add: wf_store_def runtime_same_def)
qed

lemma wf_store_versions: "wf_store env db \<Longrightarrow> distinct (map fv_ID (db_versions db))"
  by (simp add: wf_store_def)

lemma CreateFlow_design:
  assumes "CreateFlow_Handle env dn cmd db = Inr (flow, db')"
  shows "design_step db db'" "wf_store env db \<Longrightarrow> wf_store env db'"
proof -
  note r = CreateFlow_run[OF assms]
  show d: "design_step db db'"
    by (simp add: r(11) design_step_def runtime_same_def config_evolves_def EmitEvents_def rows_evolve_append1)
  show "wf_store env db'" if "wf_store env db"
    by (rule wf_store_design[OF that, of _ "[]" "db_next_id db"])
      (use d r wf_store_versions[OF that] in \<open>auto simp: design_step_def EmitEvents_def used_ids_def freshIds_def\<close>)
qed

lemma flows_updated_design:
  assumes "\<And>f. flow_moves f (upd f)"
    and db': "db' = EmitEvents evs (db\<lparr>db_flows := updateWhere P upd (db_flows db), db_initiators := is\<rparr>)"
  shows "design_step db db'" "wf_store env db \<Longrightarrow> wf_store env db'"
proof -
  have ids: "fl_ID (upd f) = fl_ID f" for f using assms(1)[of f] by (simp add: flow_moves_def)
  have img: "fl_ID ` set (updateWhere P upd (db_flows db)) = fl_ID ` set (db_flows db)"
    using ids by (metis image_set map_updateWhere_key)
  show d: "design_step db db'"
    by (simp add: db' design_step_def runtime_same_def config_evolves_def EmitEvents_def rows_evolve_update assms(1))
  show "wf_store env db'" if "wf_store env db"
    by (rule wf_store_design[OF that, of _ "[]" "db_next_id db"])
      (use d img wf_store_versions[OF that] in \<open>auto simp: design_step_def db' EmitEvents_def used_ids_def freshIds_def\<close>)
qed

lemma UpdateFlow_design:
  assumes "UpdateFlow_Handle dn flowID st db = Inr (flow, db')"
  shows "design_step db db'" "wf_store env db \<Longrightarrow> wf_store env db'"
  by (rule UpdateFlow_run[OF assms], rule flows_updated_design, assumption+)+

lemma Toggle_design:
  assumes "ToggleFlowActive_Handle flowID isActive db = Inr db'"
  shows "design_step db db'" "wf_store env db \<Longrightarrow> wf_store env db'"
proof -
  obtain evs where db': "db' = EmitEvents evs (db\<lparr>db_flows := updateWhere (\<lambda>f. fl_ID f = flowID)
      (\<lambda>f. f\<lparr>fl_IsActive := isActive\<rparr>) (db_flows db), db_initiators := db_initiators db\<rparr>)"
    using Toggle_run[OF assms] by auto
  show "design_step db db'" "wf_store env db \<Longrightarrow> wf_store env db'"
    by (rule flows_updated_design[OF _ db'], simp add: flow_moves_def)+
qed

lemma DeployFlow_design:
  assumes "DeployFlow_Handle env dn cmd db = Inr (version, db')"
  shows "design_step db db'" "wf_store env db \<Longrightarrow> wf_store env db'"
proof -
  obtain planned flow bb pns nodes edges as ccs evs where "validateDeploy env dn cmd = Inr planned"
    "loadDeployFlow (dp_FlowID cmd) db = Inr (flow, bb)" and v: "version = deployedVersion env cmd planned bb db"
    and "mapE (nodeRow (fv_ID version) (pl_nodeData planned)) (fd_Nodes (dp_FlowDefinition cmd)) = Inr pns"
    and nodes: "nodes = numbered env (map fst pns) (Suc (db_next_id db))"
    and "mapE (edgeRow (fv_ID version) (map_of (rev (map (\<lambda>n. (n_Key n, n_ID n)) nodes)))) (fd_Edges (dp_FlowDefinition cmd))
       = Inr edges"
    and db': "db' = EmitEvents evs (db\<lparr>db_versions := db_versions db @ [version], db_nodes := db_nodes db @ nodes,
       db_node_assignees := db_node_assignees db @ as, db_node_ccs := db_node_ccs db @ ccs,
       db_edges := db_edges db @ numberedEdges env edges (Suc (db_next_id db + length nodes)),
       db_next_id := Suc (db_next_id db + length nodes + length edges)\<rparr>)"
    by (rule DeployFlow_run[OF assms])
  show d: "design_step db db'"
    by (simp add: db' design_step_def runtime_same_def config_evolves_def EmitEvents_def rows_evolve_append1)
  have ids: "map n_ID nodes = freshIds env (Suc (db_next_id db)) (length nodes)"
    unfolding nodes numbered_ids by simp
  then have new: "n_ID ` set nodes = env_new_id env ` {Suc (db_next_id db)..<Suc (db_next_id db + length nodes)}"
    by (metis add_Suc freshIds_set image_set)
  have "used_ids db' = used_ids db \<union> insert (fv_ID version) (n_ID ` set nodes)"
    unfolding used_ids_def db' EmitEvents_def by (simp add: image_Un) blast
  moreover have "fv_ID version = env_new_id env (db_next_id db)" by (simp add: v deployedVersion_def)
  moreover have "db_next_id db' = Suc (db_next_id db + length nodes + length edges)" by (simp add: db' EmitEvents_def)
  ultimately have used: "used_ids db' \<subseteq> used_ids db \<union> env_new_id env ` {db_next_id db..<db_next_id db'}"
    unfolding new by auto
  show "wf_store env db'" if wf: "wf_store env db"
  proof (rule wf_store_design[OF wf _ _ ids _ used])
    have "fv_ID version \<notin> fv_ID ` set (db_versions db)"
      using wf_store_unused[OF wf order_refl] by (simp add: v deployedVersion_def used_ids_def)
    then show "distinct (map fv_ID (db_versions db'))" using wf_store_versions[OF wf] by (simp add: db' EmitEvents_def)
  qed (use d in \<open>auto simp: design_step_def db' EmitEvents_def\<close>)
qed

lemma form_storage_added_design:
  assumes "form_storage_added env db db'"
  shows "design_step db db'" "wf_store env db \<Longrightarrow> wf_store env db'"
proof -
  obtain p fts fcs where db': "db' = db\<lparr>db_physical := p, db_next_id := db_next_id db + length fts,
     db_form_tables := db_form_tables db @ fts, db_form_columns := db_form_columns db @ fcs\<rparr>"
    and ids: "map ft_ID fts = freshIds env (db_next_id db) (length fts)"
    using assms by (auto simp: form_storage_added_def)
  show d: "design_step db db'" by (simp add: db' design_step_def runtime_same_def config_evolves_def)
  have new: "ft_ID ` set fts = env_new_id env ` {db_next_id db..<db_next_id db + length fts}"
    using ids by (metis freshIds_set image_set)
  have "used_ids db' = used_ids db \<union> ft_ID ` set fts" unfolding used_ids_def db' by (simp add: image_Un) blast
  then have used: "used_ids db' \<subseteq> used_ids db \<union> env_new_id env ` {db_next_id db..<db_next_id db'}"
    unfolding new by (simp add: db')
  show "wf_store env db'" if "wf_store env db"
    by (rule wf_store_design[OF that _ _ _ _ used, of "[]" "db_next_id db"])
      (use d wf_store_versions[OF that] in \<open>auto simp: design_step_def db' freshIds_def\<close>)
qed

lemma EmitEvents_design:
  "design_step db (EmitEvents evs db)" "wf_store env db \<Longrightarrow> wf_store env (EmitEvents evs db)"
  by (simp_all add: design_step_def runtime_same_def config_evolves_def EmitEvents_def wf_store_def used_ids_def)

lemma design_step_trans: "design_step a b \<Longrightarrow> design_step b c \<Longrightarrow> design_step a c"
  using config_evolves_trans by (auto simp: design_step_def runtime_same_def intro: prefix_order.trans)

text \<open>Publishing changes two columns of the flow's versions and the flow's current version.\<close>

definition published :: "env \<Rightarrow> string \<Rightarrow> FlowVersion \<Rightarrow> FlowVersion list \<Rightarrow> FlowVersion list" where
  "published env operatorID version vs = updateWhere (\<lambda>v. fv_ID v = fv_ID version) (publish env operatorID)
     (updateWhere (\<lambda>v. fv_FlowID v = fv_FlowID version \<and> fv_Status v = VersionPublished) archive vs)"

lemma published_evolves:
  assumes "distinct (map fv_ID vs)" and "version \<in> set vs" and "fv_Status version = VersionDraft"
  shows "rows_evolve version_moves (\<lambda>_. True) vs (published env operatorID version vs)"
proof -
  have draft: "fv_Status v = VersionDraft" if "v \<in> set vs" "fv_ID v = fv_ID version" for v
    using distinct_key_eq[OF assms(1) that(1) assms(2)] that(2) assms(3) by simp
  have "list_all2 version_moves vs (published env operatorID version vs)"
    unfolding published_def updateWhere_def list_all2_map2 list.map_comp comp_def list_all2_same
    using draft by (auto simp: version_moves_def archive_def publish_def)
  then show ?thesis unfolding rows_evolve_def by (intro exI[of _ "published env operatorID version vs"] exI[of _ "[]"]) simp
qed

lemma PublishVersion_design:
  assumes "PublishVersion_Handle env versionID operatorID db = Inr db'" and wf: "wf_store env db"
  shows "design_step db db'" "wf_store env db'"
proof -
  obtain version db3 db5 evs where v: "findVersion versionID db = Some version" "fv_Status version = VersionDraft"
    and db3: "db3 = db\<lparr>db_versions := updateWhere (\<lambda>v. fv_ID v = versionID) (publish env operatorID)
         (updateWhere (\<lambda>v. fv_FlowID v = fv_FlowID version \<and> fv_Status v = VersionPublished) archive (db_versions db)),
       db_flows := updateWhere (\<lambda>f. fl_ID f = fv_FlowID version) (\<lambda>f. f\<lparr>fl_CurrentVersion := fv_Version version\<rparr>) (db_flows db)\<rparr>"
    and fs: "form_storage_added env db3 db5" and out: "db' = EmitEvents evs db5"
    by (rule PublishVersion_run[OF assms(1)], rule that, assumption+)
  have vid: "version \<in> set (db_versions db)" "fv_ID version = versionID"
    using v(1) by (auto simp: findVersion_def dest!: find_Some_mem)
  have vs: "db_versions db3 = published env operatorID version (db_versions db)" by (simp add: db3 published_def vid(2))
  have ev: "rows_evolve version_moves (\<lambda>_. True) (db_versions db) (db_versions db3)"
    unfolding vs by (rule published_evolves[OF wf_store_versions[OF wf] vid(1) v(2)])
  have fl: "rows_evolve flow_moves (\<lambda>_. True) (db_flows db) (db_flows db3)"
    by (simp add: db3 flow_moves_def rows_evolve_update)
  have s: "design_step db db3" using ev fl by (simp add: db3 design_step_def runtime_same_def config_evolves_def)
  then show "design_step db db'"
    using form_storage_added_design(1)[OF fs] EmitEvents_design(1)[of db5 evs] unfolding out by (meson design_step_trans)
  have ids: "map fv_ID (db_versions db3) = map fv_ID (db_versions db)" "map fl_ID (db_flows db3) = map fl_ID (db_flows db)"
    unfolding vs published_def by (simp_all add: db3 map_updateWhere_key)
  then have "fv_ID ` set (db_versions db3) = fv_ID ` set (db_versions db)" "fl_ID ` set (db_flows db3) = fl_ID ` set (db_flows db)"
    by (metis image_set)+
  then have used: "used_ids db3 = used_ids db" unfolding used_ids_def by (simp add: db3)
  have "distinct (map fv_ID (db_versions db3))" unfolding ids(1) by (rule wf_store_versions[OF wf])
  then have "wf_store env db3"
    by (intro wf_store_design[OF wf, of _ "[]" "db_next_id db"])
      (use s used in \<open>auto simp: design_step_def db3 freshIds_def\<close>)
  then show "wf_store env db'"
    unfolding out using form_storage_added_design(2)[OF fs] EmitEvents_design(2) by blast
qed

end
