(* ===== verification/Stored_Graph.thy ===== *)
theory Stored_Graph
  imports Design_Evolution
begin

text \<open>
  The graph a deploy stores.  \<open>sound_graph\<close> is what the engine needs of the rows of a version: one
  start node, exactly one way on from every node (one per branch of a condition node), edges that
  stay inside the version, no cycle, and every node on a path from the start to an end.  Deploying a
  definition stores a sound graph, and on a sound graph no edge lookup of the engine fails.
\<close>

section \<open>Sound graphs\<close>

definition outgoing :: "FlowEdge list \<Rightarrow> string \<Rightarrow> FlowEdge list" where
  "outgoing es nid = filter (\<lambda>e. e_SourceNodeID e = nid) es"

definition wires :: "FlowEdge list \<Rightarrow> (string \<times> string) set" where
  "wires es = (\<lambda>e. (e_SourceNodeID e, e_TargetNodeID e)) ` set es"

definition exits_ok :: "FlowNode \<Rightarrow> FlowEdge list \<Rightarrow> bool" where
  "exits_ok n outs \<longleftrightarrow> (case n_Kind n of
       NodeEnd \<Rightarrow> outs = []
     | NodeCondition \<Rightarrow> length (filter b_IsDefault (n_Branches n)) = 1 \<and> distinct (map b_ID (n_Branches n))
         \<and> distinct (map e_SourceHandle outs) \<and> e_SourceHandle ` set outs = Some ` b_ID ` set (n_Branches n)
     | _ \<Rightarrow> length outs = 1)"

definition sound_graph :: "FlowNode list \<Rightarrow> FlowEdge list \<Rightarrow> bool" where
  "sound_graph ns es \<longleftrightarrow> length (filter (\<lambda>n. n_Kind n = NodeStart) ns) = 1
     \<and> (\<forall>n \<in> set ns. validNodeKind (n_Kind n) \<and> exits_ok n (outgoing es (n_ID n)))
     \<and> wires es \<subseteq> n_ID ` set ns \<times> n_ID ` set ns \<and> acyclic (wires es)
     \<and> (\<forall>n \<in> set ns. \<exists>a \<in> set ns. n_Kind a = NodeStart \<and> (n_ID a, n_ID n) \<in> (wires es)\<^sup>*)
     \<and> (\<forall>n \<in> set ns. \<exists>b \<in> set ns. n_Kind b = NodeEnd \<and> (n_ID n, n_ID b) \<in> (wires es)\<^sup>*)"

section \<open>From a definition to its rows\<close>

lemma acyclic_image:
  assumes "acyclic r" and "r \<subseteq> A \<times> A" and "inj_on f A"
  shows "acyclic ((\<lambda>(a, b). (f a, f b)) ` r)"
proof -
  let ?g = "inv_into A f" and ?s = "(\<lambda>(a, b). (f a, f b)) ` r"
  have "(?g x, ?g y) \<in> r\<^sup>+" if "(x, y) \<in> ?s\<^sup>+" for x y
    using that
  proof (induction rule: trancl_induct)
    case (base y)
    then show ?case using assms(2,3) by (force simp: inv_into_f_f)
  next
    case (step y z)
    then have "(?g y, ?g z) \<in> r" using assms(2,3) by (force simp: inv_into_f_f)
    with step.IH show ?case by (rule trancl_into_trancl)
  qed
  then show ?thesis using assms(1) by (fastforce simp: acyclic_def)
qed

lemma rtrancl_image: "(a, b) \<in> r\<^sup>* \<Longrightarrow> (f a, f b) \<in> ((\<lambda>(a, b). (f a, f b)) ` r)\<^sup>*"
proof (induction rule: rtrancl_induct)
  case (step y z)
  then have "(f y, f z) \<in> (\<lambda>(a, b). (f a, f b)) ` r" by force
  with step.IH show ?case by (rule rtrancl_into_rtrancl)
qed simp

text \<open>What the engine reads of a node and of an edge.\<close>

definition nview :: "FlowNode \<Rightarrow> string \<times> NodeKind \<times> ConditionBranch list" where
  "nview n = (n_ID n, n_Kind n, n_Branches n)"

definition eview :: "FlowEdge \<Rightarrow> string \<times> string \<times> string option" where
  "eview e = (e_SourceNodeID e, e_TargetNodeID e, e_SourceHandle e)"

text \<open>The rows show the definition, with the keys renamed by \<open>f\<close>.\<close>

definition shows_definition :: "(string \<Rightarrow> string) \<Rightarrow> decoder \<Rightarrow> FlowDefinition \<Rightarrow> FlowNode list \<Rightarrow> FlowEdge list \<Rightarrow> bool" where
  "shows_definition f dec def ns es \<longleftrightarrow> inj_on f (nd_ID ` set (fd_Nodes def))
     \<and> map nview ns = map (\<lambda>d. (f (nd_ID d), nd_Kind d, branchesIn (dataOf dec d))) (fd_Nodes def)
     \<and> map eview es = map (\<lambda>d. (f (ed_Source d), f (ed_Target d), ed_SourceHandle d)) (fd_Edges def)"

lemma map_eq_mem: "map f xs = map g ys \<Longrightarrow> x \<in> set xs \<Longrightarrow> \<exists>y \<in> set ys. f x = g y"
  by (metis imageE imageI list.set_map)

lemma shown_wires:
  assumes "shows_definition f dec def ns es"
  shows "wires es = (\<lambda>(a, b). (f a, f b)) ` links def"
proof -
  have "wires es = (\<lambda>(a, b, c). (a, b)) ` set (map eview es)" by (force simp: wires_def eview_def)
  also have "\<dots> = (\<lambda>(a, b). (f a, f b)) ` links def"
    using assms by (force simp: shows_definition_def links_def)
  finally show ?thesis .
qed

lemma shown_outgoing:
  assumes "shows_definition f dec def ns es" and "edgesOk def" and "d \<in> set (fd_Nodes def)"
  shows "map e_SourceHandle (outgoing es (f (nd_ID d))) = map ed_SourceHandle (outsOf (fd_Edges def) (nd_ID d))"
proof -
  have src: "ed_Source e \<in> nd_ID ` set (fd_Nodes def)" if "e \<in> set (fd_Edges def)" for e
    using assms(2) that by (force simp: edgesOk_def links_def)
  have inj: "inj_on f (nd_ID ` set (fd_Nodes def))"
    and ev: "map eview es = map (\<lambda>d. (f (ed_Source d), f (ed_Target d), ed_SourceHandle d)) (fd_Edges def)"
    using assms(1) by (auto simp: shows_definition_def)
  have "map e_SourceHandle (outgoing es (f (nd_ID d)))
      = map (\<lambda>(a, b, h). h) (filter (\<lambda>(a, b, h). a = f (nd_ID d)) (map eview es))"
    by (simp add: outgoing_def eview_def filter_map comp_def)
  also have "\<dots> = map ed_SourceHandle (filter (\<lambda>e. f (ed_Source e) = f (nd_ID d)) (fd_Edges def))"
    unfolding ev by (simp add: filter_map comp_def)
  also have "filter (\<lambda>e. f (ed_Source e) = f (nd_ID d)) (fd_Edges def) = outsOf (fd_Edges def) (nd_ID d)"
    unfolding outsOf_def using inj_on_eq_iff[OF inj src, of _ "nd_ID d"] assms(3) by (intro filter_cong) simp_all
  finally show ?thesis .
qed

lemma shown_nodes:
  assumes "shows_definition f dec def ns es"
  shows "n \<in> set ns \<Longrightarrow> \<exists>d \<in> set (fd_Nodes def). n_ID n = f (nd_ID d) \<and> n_Kind n = nd_Kind d \<and> n_Branches n = branchesIn (dataOf dec d)"
    "d \<in> set (fd_Nodes def) \<Longrightarrow> \<exists>n \<in> set ns. n_ID n = f (nd_ID d) \<and> n_Kind n = nd_Kind d"
proof -
  have v: "map nview ns = map (\<lambda>d. (f (nd_ID d), nd_Kind d, branchesIn (dataOf dec d))) (fd_Nodes def)"
    using assms by (simp add: shows_definition_def)
  show "n \<in> set ns \<Longrightarrow> \<exists>d \<in> set (fd_Nodes def). n_ID n = f (nd_ID d) \<and> n_Kind n = nd_Kind d \<and> n_Branches n = branchesIn (dataOf dec d)"
    using map_eq_mem[OF v] by (auto simp: nview_def)
  show "d \<in> set (fd_Nodes def) \<Longrightarrow> \<exists>n \<in> set ns. n_ID n = f (nd_ID d) \<and> n_Kind n = nd_Kind d"
    using map_eq_mem[OF v[symmetric]] by (fastforce simp: nview_def)
qed

lemma shown_exits:
  assumes "map e_SourceHandle outs = map ed_SourceHandle (outsOf (fd_Edges def) (nd_ID d))" and "degreeOk dec def d"
    and "n_Kind n = nd_Kind d" and "n_Branches n = branchesIn (dataOf dec d)" and "validNodeKind (nd_Kind d)"
  shows "exits_ok n outs"
proof -
  let ?o = "outsOf (fd_Edges def) (nd_ID d)"
  have len: "length outs = length ?o" using assms(1) by (metis length_map)
  have img: "e_SourceHandle ` set outs = ed_SourceHandle ` set ?o" using assms(1) by (metis image_set)
  show ?thesis
    using assms(2-5) len img
    by (cases "nd_Kind d") (auto simp: exits_ok_def degreeOk_def Let_def branchesOk_def assms(1) validNodeKind_def)
qed

lemma sound_graph_shown:
  assumes sh: "shows_definition f dec def ns es" and wf: "wellFormed s h dec def"
  shows "sound_graph ns es"
proof -
  have w: "length (idsOf ((=) NodeStart) (fd_Nodes def)) = 1" "edgesOk def" "\<forall>d \<in> set (fd_Nodes def). degreeOk dec def d"
    "\<forall>d \<in> set (fd_Nodes def). nodeOk s h dec d" "acyclic (links def)"
    "\<forall>d \<in> set (fd_Nodes def). \<exists>a \<in> set (idsOf ((=) NodeStart) (fd_Nodes def)). (a, nd_ID d) \<in> (links def)\<^sup>*"
    "\<forall>d \<in> set (fd_Nodes def). \<exists>b \<in> set (idsOf ((=) NodeEnd) (fd_Nodes def)). (nd_ID d, b) \<in> (links def)\<^sup>*"
    using wf by (auto simp: wellFormed_def Let_def)
  have l: "links def \<subseteq> nd_ID ` set (fd_Nodes def) \<times> nd_ID ` set (fd_Nodes def)" using w(2) by (simp add: edgesOk_def)
  have inj: "inj_on f (nd_ID ` set (fd_Nodes def))" using sh by (simp add: shows_definition_def)
  have v: "map nview ns = map (\<lambda>d. (f (nd_ID d), nd_Kind d, branchesIn (dataOf dec d))) (fd_Nodes def)"
    using sh by (simp add: shows_definition_def)
  note wi = shown_wires[OF sh] and nm = shown_nodes[OF sh]
  have ids: "n_ID ` set ns = f ` nd_ID ` set (fd_Nodes def)"
  proof -
    have "map (\<lambda>(i, k, b). i) (map nview ns) = map (\<lambda>d. f (nd_ID d)) (fd_Nodes def)" unfolding v by simp
    then have "map n_ID ns = map (\<lambda>d. f (nd_ID d)) (fd_Nodes def)" by (simp add: nview_def comp_def)
    then show ?thesis by (metis image_image image_set)
  qed
  have start: "length (filter (\<lambda>n. n_Kind n = NodeStart) ns) = 1"
  proof -
    have "length (filter (\<lambda>n. n_Kind n = NodeStart) ns) = length (filter (\<lambda>(i, k, b). k = NodeStart) (map nview ns))"
      by (simp add: filter_map comp_def nview_def)
    also have "\<dots> = length (idsOf ((=) NodeStart) (fd_Nodes def))"
      unfolding v by (simp add: filter_map comp_def idsOf_def) (metis (mono_tags))
    finally show ?thesis using w(1) by simp
  qed
  have nodes: "validNodeKind (n_Kind n) \<and> exits_ok n (outgoing es (n_ID n))" if mem: "n \<in> set ns" for n
  proof -
    obtain d where d: "d \<in> set (fd_Nodes def)" "n_ID n = f (nd_ID d)" "n_Kind n = nd_Kind d" "n_Branches n = branchesIn (dataOf dec d)"
      using nm(1)[OF mem] by blast
    have "validNodeKind (nd_Kind d)" using w(4) d(1) by (simp add: nodeOk_def)
    with shown_exits[OF shown_outgoing[OF sh w(2) d(1)] _ d(3,4)] d w(3) show ?thesis by simp
  qed
  have reach: "\<exists>a \<in> set ns. n_Kind a = k \<and> P (n_ID a)" if "b \<in> set (idsOf ((=) k) (fd_Nodes def))" "P (f b)" for b k P
    using that nm(2) by (fastforce simp: idsOf_def)
  have "\<exists>a \<in> set ns. n_Kind a = NodeStart \<and> (n_ID a, n_ID n) \<in> (wires es)\<^sup>*"
    "\<exists>b \<in> set ns. n_Kind b = NodeEnd \<and> (n_ID n, n_ID b) \<in> (wires es)\<^sup>*" if n: "n \<in> set ns" for n
  proof -
    obtain d where d: "d \<in> set (fd_Nodes def)" "n_ID n = f (nd_ID d)" using nm(1)[OF n] by blast
    obtain a where a: "a \<in> set (idsOf ((=) NodeStart) (fd_Nodes def))" "(a, nd_ID d) \<in> (links def)\<^sup>*" using w(6) d(1) by blast
    obtain b where b: "b \<in> set (idsOf ((=) NodeEnd) (fd_Nodes def))" "(nd_ID d, b) \<in> (links def)\<^sup>*" using w(7) d(1) by blast
    show "\<exists>a \<in> set ns. n_Kind a = NodeStart \<and> (n_ID a, n_ID n) \<in> (wires es)\<^sup>*"
      by (rule reach[OF a(1)]) (use rtrancl_image[OF a(2), of f] d(2) wi in simp)
    show "\<exists>b \<in> set ns. n_Kind b = NodeEnd \<and> (n_ID n, n_ID b) \<in> (wires es)\<^sup>*"
      by (rule reach[OF b(1)]) (use rtrancl_image[OF b(2), of f] d(2) wi in simp)
  qed
  moreover have "wires es \<subseteq> n_ID ` set ns \<times> n_ID ` set ns" unfolding wi ids using l by auto
  moreover have "acyclic (wires es)" unfolding wi by (rule acyclic_image[OF w(5) l inj])
  ultimately show ?thesis using start nodes by (simp add: sound_graph_def)
qed

section \<open>Deploying stores a sound graph\<close>

definition storedNode :: "decoder \<Rightarrow> string \<Rightarrow> NodeDefinition \<Rightarrow> FlowNode" where
  "storedNode dec vid d = ApplyTo (dataOf dec d) (zeroFlowNode\<lparr>n_FlowVersionID := vid, n_Key := nd_ID d, n_Kind := nd_Kind d\<rparr>)"

lemma storedNode_sel [simp]:
  "n_FlowVersionID (storedNode dec vid d) = vid" "n_Key (storedNode dec vid d) = nd_ID d"
  "n_Kind (storedNode dec vid d) = nd_Kind d" "n_Branches (storedNode dec vid d) = branchesIn (dataOf dec d)"
  by (cases "dataOf dec d"; simp add: storedNode_def applyBaseNodeData_def applyTaskNodeData_def branchesIn_def zeroFlowNode_def)+

lemma map_of_rev: "distinct (map fst xs) \<Longrightarrow> map_of (rev xs) = map_of xs"
  by (rule map_of_inject_set[THEN iffD2]) (simp_all add: rev_map[symmetric])

lemma nodeRows_eq:
  assumes "distinct (map nd_ID ds)" and "parsed = map (\<lambda>n. (nd_ID n, dataOf dec n)) ds"
    and "mapE (nodeRow vid parsed) ds = Inr pns"
  shows "map fst pns = map (storedNode dec vid) ds"
proof -
  have lk: "map_of (rev parsed) (nd_ID d) = Some (dataOf dec d)" if "d \<in> set ds" for d
  proof -
    have "distinct (map fst parsed)" using assms(1,2) by (simp add: comp_def)
    moreover have "(nd_ID d, dataOf dec d) \<in> set parsed" using assms(2) that by auto
    ultimately show ?thesis by (simp add: map_of_rev)
  qed
  have "list_all2 (\<lambda>d p. nodeRow vid parsed d = Inr p) ds pns" using assms(3) by (rule mapE_Inr_list_all2)
  then have "list_all2 (\<lambda>d p. fst p = storedNode dec vid d) ds pns"
    by (rule list.rel_mono_strong) (use lk in \<open>auto simp: nodeRow_def storedNode_def\<close>)
  then show ?thesis by (induction rule: list_all2_induct) auto
qed

lemma map2_map1: "length xs = length is \<Longrightarrow> (\<And>x i. g (f x i) = h x) \<Longrightarrow> map g (map2 f xs is) = map h xs"
  by (induction xs "is" rule: list_induct2) simp_all

lemma numbered_keys:
  "map (\<lambda>n. (n_Key n, n_ID n)) (numbered env ns k) = zip (map n_Key ns) (freshIds env k (length ns))"
  unfolding numbered_def by (rule nth_equalityI) (simp_all add: freshIds_def)

lemma numbered_view:
  "map nview (numbered env ns k) = map2 (\<lambda>n i. (i, n_Kind n, n_Branches n)) ns (freshIds env k (length ns))"
  unfolding numbered_def by (rule nth_equalityI) (simp_all add: freshIds_def nview_def)

lemma edgeRows_view:
  assumes "mapE (edgeRow vid m) ds = Inr es"
  shows "map eview es = map (\<lambda>d. (the (m (ed_Source d)), the (m (ed_Target d)), ed_SourceHandle d)) ds"
    "\<forall>e \<in> set es. e_FlowVersionID e = vid"
proof -
  have "list_all2 (\<lambda>d e. edgeRow vid m d = Inr e) ds es" using assms by (rule mapE_Inr_list_all2)
  then show "map eview es = map (\<lambda>d. (the (m (ed_Source d)), the (m (ed_Target d)), ed_SourceHandle d)) ds"
    "\<forall>e \<in> set es. e_FlowVersionID e = vid"
    by (induction rule: list_all2_induct) (auto simp: edgeRow_def eview_def)
qed

lemma numberedEdges_view:
  "map eview (numberedEdges env es k) = map eview es"
  "e \<in> set (numberedEdges env es k) \<Longrightarrow> \<forall>d \<in> set es. e_FlowVersionID d = vid \<Longrightarrow> e_FlowVersionID e = vid"
proof -
  show "map eview (numberedEdges env es k) = map eview es"
    unfolding numberedEdges_def by (rule map2_map1) (simp_all add: eview_def)
  show "e \<in> set (numberedEdges env es k) \<Longrightarrow> \<forall>d \<in> set es. e_FlowVersionID d = vid \<Longrightarrow> e_FlowVersionID e = vid"
    unfolding numberedEdges_def by (auto dest: set_zip_leftD)
qed

lemma deploy_shows:
  assumes inj: "inj (env_new_id env)" and d: "distinct (map nd_ID (fd_Nodes def))"
    and pns: "map fst pns = map (storedNode dec vid) (fd_Nodes def)" and nodes: "nodes = numbered env (map fst pns) k"
    and edges: "mapE (edgeRow vid (map_of (rev (map (\<lambda>n. (n_Key n, n_ID n)) nodes)))) (fd_Edges def) = Inr es"
  shows "\<exists>f. shows_definition f dec def nodes (numberedEdges env es j)"
proof -
  let ?keys = "map nd_ID (fd_Nodes def)" and ?ids = "freshIds env k (length (fd_Nodes def))"
  let ?m = "map_of (zip ?keys ?ids)" and ?f = "\<lambda>key. the (map_of (zip (map nd_ID (fd_Nodes def)) (freshIds env k (length (fd_Nodes def)))) key)"
  have keys: "map (\<lambda>n. (n_Key n, n_ID n)) nodes = zip ?keys ?ids" unfolding nodes numbered_keys pns by (simp add: comp_def)
  have m: "map_of (rev (map (\<lambda>n. (n_Key n, n_ID n)) nodes)) = ?m" unfolding keys by (rule map_of_rev) (use d in simp)
  have at: "?f (?keys ! i) = ?ids ! i" if "i < length (fd_Nodes def)" for i
  proof -
    have "?m (?keys ! i) = Some (?ids ! i)" using that d by (intro map_of_zip_nth) simp_all
    then show ?thesis by simp
  qed
  have "distinct ?ids" by (rule freshIds_distinct[OF inj])
  then have "inj_on ?f (set ?keys)"
  proof (intro inj_onI)
    fix x y assume "distinct ?ids" and xy: "x \<in> set ?keys" "y \<in> set ?keys" and eq: "?f x = ?f y"
    obtain i where i: "x = ?keys ! i" "i < length (fd_Nodes def)" using xy(1) by (auto simp only: in_set_conv_nth length_map)
    obtain j where j: "y = ?keys ! j" "j < length (fd_Nodes def)" using xy(2) by (auto simp only: in_set_conv_nth length_map)
    have "?ids ! i = ?ids ! j" using eq unfolding i(1) j(1) at[OF i(2)] at[OF j(2)] .
    then show "x = y" using nth_eq_iff_index_eq[OF \<open>distinct ?ids\<close>, of i j] i j by simp
  qed
  moreover have "map nview nodes = map (\<lambda>d. (?f (nd_ID d), nd_Kind d, branchesIn (dataOf dec d))) (fd_Nodes def)"
    unfolding nodes numbered_view pns using at by (intro nth_equalityI) simp_all
  moreover have "map eview (numberedEdges env es j) = map (\<lambda>d. (?f (ed_Source d), ?f (ed_Target d), ed_SourceHandle d)) (fd_Edges def)"
    unfolding numberedEdges_view(1) edgeRows_view(1)[OF edges[unfolded m]] by simp
  ultimately show ?thesis unfolding shows_definition_def by (intro exI[of _ ?f]) simp
qed

section \<open>The engine on a sound graph\<close>

definition nodesOf :: "string \<Rightarrow> db \<Rightarrow> FlowNode list" where
  "nodesOf vid db = filter (\<lambda>n. n_FlowVersionID n = vid) (db_nodes db)"

definition edgesOf :: "string \<Rightarrow> db \<Rightarrow> FlowEdge list" where
  "edgesOf vid db = filter (\<lambda>e. e_FlowVersionID e = vid) (db_edges db)"

lemma filter_key_single:
  assumes "distinct (map k xs)" and "y \<in> k ` set xs"
  shows "\<exists>x \<in> set xs. filter (\<lambda>x. k x = y) xs = [x]"
  using assms
proof (induction xs)
  case (Cons a xs)
  show ?case
  proof (cases "k a = y")
    case True
    then have "filter (\<lambda>x. k x = y) xs = []" using Cons.prems(1) by (auto simp: filter_empty_conv image_iff)
    with True show ?thesis by simp
  next
    case False
    with Cons show ?thesis by auto
  qed
qed simp

lemma sound_compile:
  assumes "sound_graph (nodesOf vid db) (edgesOf vid db)"
  obtains c start where "compile vid db = Inr c" "cf_StartNode c = Some start" "start \<in> set (nodesOf vid db)" "n_Kind start = NodeStart"
proof -
  have one: "length (filter (\<lambda>n. n_Kind n = NodeStart) (nodesOf vid db)) = 1" using assms by (simp add: sound_graph_def)
  then obtain s where "filter (\<lambda>n. n_Kind n = NodeStart) (nodesOf vid db) = [s]" by (auto simp: length_Suc_conv)
  then have s: "s \<in> set (nodesOf vid db)" "n_Kind s = NodeStart" by (auto simp: filter_eq_Cons_iff)
  then have ne: "nodesOf vid db \<noteq> []" by auto
  then obtain c where c: "compile vid db = Inr c" by (auto simp: compile_def Let_def nodesOf_def)
  have "find (\<lambda>n. n_Kind n = NodeStart) (rev (nodesOf vid db)) \<noteq> None" using s by (auto simp: find_None_iff)
  then obtain start where "cf_StartNode c = Some start"
    using c ne by (auto simp: compile_def Let_def compileNodes_start nodesOf_def split: option.splits)
  from that[OF c this] compile_start_mem[OF c this] show thesis by (simp add: nodesOf_def)
qed

lemma compile_node_found:
  assumes "compile vid db = Inr c" and "distinct (map n_ID (db_nodes db))" and "n \<in> set (nodesOf vid db)"
  shows "cf_Nodes c (n_ID n) = Some n"
proof -
  have d: "distinct (map n_ID (nodesOf vid db))" unfolding nodesOf_def by (rule distinct_map_filter[OF assms(2)])
  have "find (\<lambda>m. n_ID m = n_ID n) (nodesOf vid db) = Some n"
  proof -
    obtain m where "find (\<lambda>m. n_ID m = n_ID n) (nodesOf vid db) = Some m" using assms(3) by (cases "find (\<lambda>m. n_ID m = n_ID n) (nodesOf vid db)") (auto simp: find_None_iff)
    moreover from this have "m = n" using distinct_key_eq[OF d _ assms(3)] find_Some_mem by fastforce
    ultimately show ?thesis by simp
  qed
  then show ?thesis
    using assms(1) d by (auto simp: compile_def Let_def nodesOf_def compileNodes_lookup split: if_splits)
qed

lemma outgoing_wire:
  assumes "sound_graph (nodesOf vid db) (edgesOf vid db)" and "e \<in> set (outgoing (edgesOf vid db) nid)"
  shows "(nid, e_TargetNodeID e) \<in> wires (edgesOf vid db)" "\<exists>m \<in> set (nodesOf vid db). n_ID m = e_TargetNodeID e"
proof -
  show w: "(nid, e_TargetNodeID e) \<in> wires (edgesOf vid db)" using assms(2) by (auto simp: outgoing_def wires_def)
  have "wires (edgesOf vid db) \<subseteq> n_ID ` set (nodesOf vid db) \<times> n_ID ` set (nodesOf vid db)"
    using assms(1) by (simp add: sound_graph_def)
  with w show "\<exists>m \<in> set (nodesOf vid db). n_ID m = e_TargetNodeID e" by force
qed

text \<open>The lookup of the next node succeeds, on every branch of a condition node and on every other node but an end.\<close>

lemma sound_next:
  assumes sg: "sound_graph (nodesOf vid db) (edgesOf vid db)" and d: "distinct (map n_ID (db_nodes db))"
    and c: "compile vid db = Inr c" and n: "n \<in> set (nodesOf vid db)"
    and br: "if n_Kind n = NodeCondition then (\<exists>b \<in> set (n_Branches n). branch = Some (b_ID b)) else branch = None \<and> n_Kind n \<noteq> NodeEnd"
  obtains e m where "FindOutgoing c (n_ID n) branch = Inr e" "cf_Nodes c (e_TargetNodeID e) = Some m"
    "m \<in> set (nodesOf vid db)" "(n_ID n, n_ID m) \<in> wires (edgesOf vid db)"
proof -
  let ?outs = "outgoing (edgesOf vid db) (n_ID n)"
  have src: "cf_EdgesBySource c (n_ID n) = ?outs"
    using compile_edges[OF c, of "n_ID n"] by (simp add: outgoing_def edgesOf_def conj_commute)
  have ex: "exits_ok n ?outs" "validNodeKind (n_Kind n)" using sg n by (auto simp: sound_graph_def)
  have "\<exists>e \<in> set ?outs. FindOutgoing c (n_ID n) branch = Inr e"
  proof (cases "n_Kind n = NodeCondition")
    case True
    then obtain b where b: "b \<in> set (n_Branches n)" "branch = Some (b_ID b)" using br by auto
    have "distinct (map e_SourceHandle ?outs)" "Some (b_ID b) \<in> e_SourceHandle ` set ?outs"
      using ex(1) True b(1) by (auto simp: exits_ok_def)
    from filter_key_single[OF this] show ?thesis unfolding FindOutgoing_Inr src b(2) by simp
  next
    case False
    then have "length ?outs = 1" "branch = None" using ex br by (auto simp: exits_ok_def validNodeKind_def split: NodeKind.splits)
    then show ?thesis unfolding FindOutgoing_Inr src by (auto simp: length_Suc_conv)
  qed
  then obtain e where e: "e \<in> set ?outs" "FindOutgoing c (n_ID n) branch = Inr e" by blast
  obtain m where m: "m \<in> set (nodesOf vid db)" "n_ID m = e_TargetNodeID e" using outgoing_wire(2)[OF sg e(1)] by blast
  have "cf_Nodes c (e_TargetNodeID e) = Some m" using compile_node_found[OF c d m(1)] m(2) by simp
  from that[OF e(2) this m(1)] outgoing_wire(1)[OF sg e(1)] m(2) show thesis by simp
qed

end
