(* ===== verification/Design_Invariants.thy ===== *)
theory Design_Invariants
  imports Stored_Graph
begin

text \<open>
  The invariant of the flow definitions: codes are unique in their tenant and shared codes
  everywhere, a flow is open to everyone exactly when it has no initiator rows, version numbers of a
  flow are distinct, the current version of a flow is its one published version, and every deployed
  version stores a sound graph.
\<close>

section \<open>The invariant\<close>

definition codes_ok :: "Flow list \<Rightarrow> bool" where
  "codes_ok fs \<longleftrightarrow> distinct (map fl_ID fs) \<and> distinct (map (\<lambda>f. (fl_TenantID f, fl_Code f)) fs)
     \<and> distinct (map fl_Code (filter fl_IsShared fs))"

definition initiators_ok :: "Flow list \<Rightarrow> FlowInitiator list \<Rightarrow> bool" where
  "initiators_ok fs is \<longleftrightarrow> fi_FlowID ` set is \<subseteq> fl_ID ` set fs
     \<and> (\<forall>f \<in> set fs. fl_IsAllInitiationAllowed f \<longleftrightarrow> fl_ID f \<notin> fi_FlowID ` set is)"

definition versions_ok :: "Flow list \<Rightarrow> FlowVersion list \<Rightarrow> bool" where
  "versions_ok fs vs \<longleftrightarrow> distinct (map fv_ID vs) \<and> fv_FlowID ` set vs \<subseteq> fl_ID ` set fs
     \<and> distinct (map (\<lambda>v. (fv_FlowID v, fv_Version v)) vs) \<and> (\<forall>v \<in> set vs. fv_Version v \<ge> 1)"

definition current_ok :: "Flow list \<Rightarrow> FlowVersion list \<Rightarrow> bool" where
  "current_ok fs vs \<longleftrightarrow> (\<forall>f \<in> set fs. \<forall>v \<in> set vs. fv_FlowID v = fl_ID f \<longrightarrow>
     (fv_Status v = VersionPublished \<longleftrightarrow> fv_Version v = fl_CurrentVersion f))
     \<and> (\<forall>f \<in> set fs. fl_CurrentVersion f = 0 \<or> (\<exists>v \<in> set vs. fv_FlowID v = fl_ID f \<and> fv_Version v = fl_CurrentVersion f))"

definition graphs_ok :: "db \<Rightarrow> bool" where
  "graphs_ok db \<longleftrightarrow> n_FlowVersionID ` set (db_nodes db) \<subseteq> fv_ID ` set (db_versions db)
     \<and> e_FlowVersionID ` set (db_edges db) \<subseteq> fv_ID ` set (db_versions db)
     \<and> (\<forall>v \<in> set (db_versions db). sound_graph (nodesOf (fv_ID v) db) (edgesOf (fv_ID v) db))"

definition design_ok :: "db \<Rightarrow> bool" where
  "design_ok db \<longleftrightarrow> codes_ok (db_flows db) \<and> initiators_ok (db_flows db) (db_initiators db)
     \<and> versions_ok (db_flows db) (db_versions db) \<and> current_ok (db_flows db) (db_versions db) \<and> graphs_ok db"

text \<open>Commands on instances leave all of this alone.\<close>

lemma graphs_ok_cong:
  "db_nodes db' = db_nodes db \<Longrightarrow> db_edges db' = db_edges db \<Longrightarrow> map fv_ID (db_versions db') = map fv_ID (db_versions db)
     \<Longrightarrow> graphs_ok db' = graphs_ok db"
proof -
  assume a: "db_nodes db' = db_nodes db" "db_edges db' = db_edges db" "map fv_ID (db_versions db') = map fv_ID (db_versions db)"
  then have v: "fv_ID ` set (db_versions db') = fv_ID ` set (db_versions db)" by (metis image_set)
  have eq: "graphs_ok d \<longleftrightarrow> n_FlowVersionID ` set (db_nodes d) \<subseteq> fv_ID ` set (db_versions d)
     \<and> e_FlowVersionID ` set (db_edges d) \<subseteq> fv_ID ` set (db_versions d)
     \<and> (\<forall>i \<in> fv_ID ` set (db_versions d). sound_graph (nodesOf i d) (edgesOf i d))" for d
    by (simp add: graphs_ok_def)
  show ?thesis unfolding eq[of db'] eq[of db] nodesOf_def edgesOf_def a(1,2) v by (rule refl)
qed

lemma design_ok_same: "same_config db db' \<Longrightarrow> design_ok db' = design_ok db"
  using graphs_ok_cong[of db' db] by (simp add: same_config_def design_ok_def)

lemma design_ok_emit [simp]: "design_ok (EmitEvents evs db) = design_ok db"
  by (rule design_ok_same) (simp add: same_config_def EmitEvents_def)

section \<open>Saving a flow\<close>

lemma flows_updated_ok:
  assumes ok: "design_ok db" and mv: "\<And>f. flow_moves f (upd f)" and cur: "\<And>f. fl_CurrentVersion (upd f) = fl_CurrentVersion f"
    and ini: "initiators_ok (updateWhere P upd (db_flows db)) is"
  shows "design_ok (db\<lparr>db_flows := updateWhere P upd (db_flows db), db_initiators := is\<rparr>)"
proof -
  let ?fs = "updateWhere P upd (db_flows db)"
  have sel: "fl_ID (upd f) = fl_ID f" "fl_TenantID (upd f) = fl_TenantID f" "fl_Code (upd f) = fl_Code f"
    "fl_IsShared (upd f) = fl_IsShared f" for f using mv[of f] by (simp_all add: flow_moves_def)
  have ids: "map fl_ID ?fs = map fl_ID (db_flows db)" by (rule map_updateWhere_key) (rule sel)
  have "filter fl_IsShared ?fs = map (\<lambda>r. if P r then upd r else r) (filter fl_IsShared (db_flows db))"
    by (simp add: updateWhere_def filter_map comp_def) (metis (mono_tags, lifting) sel(4))
  then have "map fl_Code (filter fl_IsShared ?fs) = map fl_Code (filter fl_IsShared (db_flows db))"
    by (auto simp: sel)
  moreover have "map (\<lambda>f. (fl_TenantID f, fl_Code f)) ?fs = map (\<lambda>f. (fl_TenantID f, fl_Code f)) (db_flows db)"
    by (rule map_updateWhere_key) (simp add: sel)
  ultimately have c: "codes_ok ?fs" using ok ids by (simp add: design_ok_def codes_ok_def)
  have img: "fl_ID ` set ?fs = fl_ID ` set (db_flows db)" using ids by (metis image_set)
  have row: "\<exists>g \<in> set (db_flows db). fl_ID f = fl_ID g \<and> fl_CurrentVersion f = fl_CurrentVersion g" if "f \<in> set ?fs" for f
    using that by (auto simp: updateWhere_def sel cur)
  have v: "versions_ok ?fs (db_versions db)" using ok img by (simp add: design_ok_def versions_ok_def)
  have "current_ok (db_flows db) (db_versions db)" using ok by (simp add: design_ok_def)
  then have "current_ok ?fs (db_versions db)" unfolding current_ok_def using row by (metis (no_types, lifting))
  moreover have "graphs_ok (db\<lparr>db_flows := ?fs, db_initiators := is\<rparr>)"
    using ok graphs_ok_cong[of "db\<lparr>db_flows := ?fs, db_initiators := is\<rparr>" db] by (simp add: design_ok_def)
  ultimately show ?thesis using c v ini by (simp add: design_ok_def)
qed

lemma initiators_ok_cong:
  assumes "map (\<lambda>f. (fl_ID f, fl_IsAllInitiationAllowed f)) fs' = map (\<lambda>f. (fl_ID f, fl_IsAllInitiationAllowed f)) fs"
  shows "initiators_ok fs' is = initiators_ok fs is"
proof -
  have eq: "initiators_ok gs is \<longleftrightarrow> fi_FlowID ` set is \<subseteq> fst ` set (map (\<lambda>f. (fl_ID f, fl_IsAllInitiationAllowed f)) gs)
     \<and> (\<forall>(i, a) \<in> set (map (\<lambda>f. (fl_ID f, fl_IsAllInitiationAllowed f)) gs). a \<longleftrightarrow> i \<notin> fi_FlowID ` set is)" for gs
    by (simp add: initiators_ok_def image_image)
  show ?thesis unfolding eq assms by (rule refl)
qed

lemma initiatorRows_ids: "fi_FlowID ` set (initiatorRows fid is) = (if is = [] then {} else {fid})"
  by (cases "is") (auto simp: initiatorRows_def)

lemma CreateFlow_ok:
  assumes "CreateFlow_Handle env dn cmd db = Inr (flow, db')" and ok: "design_ok db" and wf: "wf_store env db"
  shows "design_ok db'"
proof -
  note r = CreateFlow_run[OF assms(1)]
  let ?is = "initiatorRows (fl_ID flow) (st_Initiators (cf_Settings cmd))"
  have new: "fl_ID flow \<notin> fl_ID ` set (db_flows db)"
    using wf_store_unused[OF wf order_refl] r(1) by (simp add: used_ids_def)
  have c: "codes_ok (db_flows db @ [flow])"
    using ok new r(2,3,4,9,10) by (auto simp: design_ok_def codes_ok_def)
  have old: "initiators_ok (db_flows db) (db_initiators db)" "versions_ok (db_flows db) (db_versions db)"
    "current_ok (db_flows db) (db_versions db)" using ok by (auto simp: design_ok_def)
  have sub: "fl_ID flow \<notin> fi_FlowID ` set (db_initiators db)" "fl_ID flow \<notin> fv_FlowID ` set (db_versions db)"
    using old(1,2) new by (auto simp: initiators_ok_def versions_ok_def)
  have "fl_ID f \<noteq> fl_ID flow" if "f \<in> set (db_flows db)" for f using that new by (metis imageI)
  then have i: "initiators_ok (db_flows db @ [flow]) (db_initiators db @ ?is)"
    using old(1) sub(1) r(7,8) by (auto simp: initiators_ok_def initiatorRows_ids image_Un split: if_splits)
  have v: "versions_ok (db_flows db @ [flow]) (db_versions db)" using old(2) by (auto simp: versions_ok_def)
  have "fv_FlowID v \<noteq> fl_ID flow" if "v \<in> set (db_versions db)" for v using that sub(2) by (metis imageI)
  then have cu: "current_ok (db_flows db @ [flow]) (db_versions db)"
    using old(3) r(5) by (auto simp: current_ok_def)
  have "graphs_ok (db\<lparr>db_next_id := Suc (db_next_id db), db_flows := db_flows db @ [flow], db_initiators := db_initiators db @ ?is\<rparr>)"
    using ok graphs_ok_cong[of "db\<lparr>db_next_id := Suc (db_next_id db), db_flows := db_flows db @ [flow], db_initiators := db_initiators db @ ?is\<rparr>" db]
    by (simp add: design_ok_def)
  with c i v cu show ?thesis by (subst r(11)) (simp only: design_ok_emit, simp add: design_ok_def)
qed

lemma Toggle_ok:
  assumes "ToggleFlowActive_Handle flowID isActive db = Inr db'" and ok: "design_ok db"
  shows "design_ok db'"
proof -
  let ?f = "\<lambda>f. f\<lparr>fl_IsActive := isActive\<rparr>" and ?P = "\<lambda>f. fl_ID f = flowID"
  obtain evs where db': "db' = EmitEvents evs (db\<lparr>db_flows := updateWhere ?P ?f (db_flows db)\<rparr>)"
    using Toggle_run[OF assms(1)] by blast
  have "initiators_ok (db_flows db) (db_initiators db)" using ok by (simp add: design_ok_def)
  moreover have "map (\<lambda>f. (fl_ID f, fl_IsAllInitiationAllowed f)) (updateWhere ?P ?f (db_flows db))
      = map (\<lambda>f. (fl_ID f, fl_IsAllInitiationAllowed f)) (db_flows db)" by (rule map_updateWhere_key) simp
  ultimately have "initiators_ok (updateWhere ?P ?f (db_flows db)) (db_initiators db)"
    using initiators_ok_cong by blast
  from flows_updated_ok[OF ok _ _ this] show ?thesis by (simp add: db' flow_moves_def)
qed

lemma UpdateFlow_ok:
  assumes "UpdateFlow_Handle dn flowID st db = Inr (flow, db')" and ok: "design_ok db"
  shows "design_ok db'"
proof -
  obtain upd where u: "\<And>f. flow_moves f (upd f)" "\<And>f. fl_CurrentVersion (upd f) = fl_CurrentVersion f"
    "\<And>f. fl_IsAllInitiationAllowed (upd f) = st_IsAllInitiationAllowed st"
    "st_IsAllInitiationAllowed st \<longleftrightarrow> st_Initiators st = []" "findFlow flowID db \<noteq> None"
    and db': "db' = EmitEvents [FlowEvent (FlowUpdatedEvent flow)]
       (db\<lparr>db_flows := updateWhere (\<lambda>f. fl_ID f = flowID) upd (db_flows db),
         db_initiators := filter (\<lambda>i. fi_FlowID i \<noteq> flowID) (db_initiators db) @ initiatorRows flowID (st_Initiators st)\<rparr>)"
    by (rule UpdateFlow_run[OF assms(1)], rule that, assumption+)
  let ?fs = "updateWhere (\<lambda>f. fl_ID f = flowID) upd (db_flows db)"
  let ?is = "filter (\<lambda>i. fi_FlowID i \<noteq> flowID) (db_initiators db) @ initiatorRows flowID (st_Initiators st)"
  have sel: "fl_ID (upd f) = fl_ID f" for f using u(1)[of f] by (simp add: flow_moves_def)
  have mem: "flowID \<in> fl_ID ` set (db_flows db)" using u(5) by (auto simp: findFlow_def dest!: find_Some_mem)
  have "map fl_ID ?fs = map fl_ID (db_flows db)" by (rule map_updateWhere_key) (rule sel)
  then have img: "fl_ID ` set ?fs = fl_ID ` set (db_flows db)" by (metis image_set)
  have fi: "fi_FlowID ` set ?is = (fi_FlowID ` set (db_initiators db) - {flowID}) \<union> (if st_Initiators st = [] then {} else {flowID})"
    by (auto simp: initiatorRows_ids image_Un)
  have old: "initiators_ok (db_flows db) (db_initiators db)" using ok by (simp add: design_ok_def)
  have "initiators_ok ?fs ?is"
    unfolding initiators_ok_def img fi
  proof (intro conjI ballI)
    show "fi_FlowID ` set (db_initiators db) - {flowID} \<union> (if st_Initiators st = [] then {} else {flowID}) \<subseteq> fl_ID ` set (db_flows db)"
      using old mem by (auto simp: initiators_ok_def)
    fix f assume "f \<in> set ?fs"
    then obtain g where g: "g \<in> set (db_flows db)" "f = (if fl_ID g = flowID then upd g else g)" by (rule updateWhere_memE)
    then show "fl_IsAllInitiationAllowed f \<longleftrightarrow>
        fl_ID f \<notin> fi_FlowID ` set (db_initiators db) - {flowID} \<union> (if st_Initiators st = [] then {} else {flowID})"
      using old u(3)[of g] u(4) sel[of g] by (cases "fl_ID g = flowID") (auto simp: initiators_ok_def)
  qed
  from flows_updated_ok[OF ok u(1,2) this] show ?thesis by (simp add: db')
qed

section \<open>Deploying a version\<close>

lemma nextVersionNumber_new:
  "nextVersionNumber fid db > fv_Version v" if "v \<in> set (db_versions db)" "fv_FlowID v = fid" for v
proof -
  let ?vs = "map fv_Version (filter (\<lambda>v. fv_FlowID v = fid) (db_versions db))"
  have mem: "fv_Version v \<in> set ?vs" using that by auto
  then have "fv_Version v \<le> Max (set ?vs)" by (intro Max_ge) auto
  moreover have "?vs \<noteq> []" using mem by (metis list.set(1) empty_iff)
  ultimately show ?thesis by (simp add: nextVersionNumber_def Let_def)
qed

lemma nextVersionNumber_pos:
  assumes "\<forall>v \<in> set (db_versions db). fv_Version v \<ge> 1"
  shows "nextVersionNumber fid db \<ge> 1"
proof (cases "\<exists>v \<in> set (db_versions db). fv_FlowID v = fid")
  case True
  then obtain v where "v \<in> set (db_versions db)" "fv_FlowID v = fid" by blast
  with nextVersionNumber_new[OF this] assms show ?thesis by force
next
  case False
  then have "filter (\<lambda>v. fv_FlowID v = fid) (db_versions db) = []" by (auto simp: filter_empty_conv)
  then show ?thesis by (simp add: nextVersionNumber_def)
qed

lemma version_added_ok:
  assumes v: "versions_ok fs vs" "current_ok fs vs" and fid: "fv_FlowID w \<in> fl_ID ` set fs" and new: "fv_ID w \<notin> fv_ID ` set vs"
    and num: "\<And>v. v \<in> set vs \<Longrightarrow> fv_FlowID v = fv_FlowID w \<Longrightarrow> fv_Version w > fv_Version v" "fv_Version w \<ge> 1"
    and st: "fv_Status w = VersionDraft"
  shows "versions_ok fs (vs @ [w])" "current_ok fs (vs @ [w])"
proof -
  have "(fv_FlowID w, fv_Version w) \<noteq> (fv_FlowID v, fv_Version v)" if "v \<in> set vs" for v using num(1)[OF that] by auto
  then show "versions_ok fs (vs @ [w])" using v(1) fid new num(2) by (auto simp: versions_ok_def)
  have cur: "fv_Version w \<noteq> fl_CurrentVersion f" if "f \<in> set fs" "fv_FlowID w = fl_ID f" for f
  proof -
    have "fl_CurrentVersion f = 0 \<or> (\<exists>v \<in> set vs. fv_FlowID v = fl_ID f \<and> fv_Version v = fl_CurrentVersion f)"
      using v(2) that(1) by (simp add: current_ok_def)
    then show ?thesis using num that(2) by force
  qed
  show "current_ok fs (vs @ [w])"
    unfolding current_ok_def
  proof (intro conjI ballI impI)
    fix f u assume f: "f \<in> set fs" and "u \<in> set (vs @ [w])" and fu: "fv_FlowID u = fl_ID f"
    then consider "u \<in> set vs" | "u = w" by auto
    then show "fv_Status u = VersionPublished \<longleftrightarrow> fv_Version u = fl_CurrentVersion f"
      using v(2) f fu cur[OF f] st by cases (auto simp: current_ok_def)
  next
    fix f assume "f \<in> set fs"
    then show "fl_CurrentVersion f = 0 \<or> (\<exists>v \<in> set (vs @ [w]). fv_FlowID v = fl_ID f \<and> fv_Version v = fl_CurrentVersion f)"
      using v(2) by (fastforce simp: current_ok_def)
  qed
qed

lemma graphs_added_ok:
  assumes ok: "graphs_ok db" and new: "fv_ID w \<notin> fv_ID ` set (db_versions db)"
    and ns: "db_nodes db' = db_nodes db @ ns" "\<forall>n \<in> set ns. n_FlowVersionID n = fv_ID w"
    and es: "db_edges db' = db_edges db @ es" "\<forall>e \<in> set es. e_FlowVersionID e = fv_ID w"
    and vs: "db_versions db' = db_versions db @ [w]" and sg: "sound_graph ns es"
  shows "graphs_ok db'"
proof -
  have sub: "n_FlowVersionID ` set (db_nodes db) \<subseteq> fv_ID ` set (db_versions db)" "e_FlowVersionID ` set (db_edges db) \<subseteq> fv_ID ` set (db_versions db)"
    using ok by (auto simp: graphs_ok_def)
  have "filter (\<lambda>n. n_FlowVersionID n = fv_ID w) (db_nodes db) = []" "filter (\<lambda>e. e_FlowVersionID e = fv_ID w) (db_edges db) = []"
    unfolding filter_empty_conv using sub new by (metis image_subset_iff)+
  then have n: "nodesOf (fv_ID w) db' = ns" "edgesOf (fv_ID w) db' = es"
    using ns es by (auto simp: nodesOf_def edgesOf_def filter_all)
  have o: "nodesOf (fv_ID v) db' = nodesOf (fv_ID v) db" "edgesOf (fv_ID v) db' = edgesOf (fv_ID v) db" if "v \<in> set (db_versions db)" for v
  proof -
    have "fv_ID v \<noteq> fv_ID w" using that new by (metis imageI)
    then have "filter (\<lambda>n. n_FlowVersionID n = fv_ID v) ns = []" "filter (\<lambda>e. e_FlowVersionID e = fv_ID v) es = []"
      using ns(2) es(2) by (auto simp: filter_empty_conv)
    then show "nodesOf (fv_ID v) db' = nodesOf (fv_ID v) db" "edgesOf (fv_ID v) db' = edgesOf (fv_ID v) db"
      by (simp_all add: nodesOf_def edgesOf_def ns es)
  qed
  show ?thesis
    using ok sub n o sg ns(2) es(2) by (auto simp: graphs_ok_def ns(1) es(1) vs)
qed

lemma validateDeploy_wellFormed:
  assumes "validateDeploy env dn cmd = Inr planned"
  shows "wellFormed (dn_service dn) (env_inexactFloat64 env) (dn_decoder dn) (dp_FlowDefinition cmd)"
    "pl_nodeData planned = map (\<lambda>n. (nd_ID n, dataOf (dn_decoder dn) n)) (fd_Nodes (dp_FlowDefinition cmd))"
  using assms by (auto simp: validateDeploy_def bindE_Inr_iff Let_def ValidateFlowDefinition_iff)

lemma DeployFlow_ok:
  assumes run: "DeployFlow_Handle env dn cmd db = Inr (version, db')" and ok: "design_ok db" and wf: "wf_store env db"
  shows "design_ok db'"
proof -
  let ?def = "dp_FlowDefinition cmd" and ?dec = "dn_decoder dn"
  obtain planned flow bb pns nodes edges as ccs evs where pl: "validateDeploy env dn cmd = Inr planned"
    and fl: "loadDeployFlow (dp_FlowID cmd) db = Inr (flow, bb)" and v: "version = deployedVersion env cmd planned bb db"
    and pns: "mapE (nodeRow (fv_ID version) (pl_nodeData planned)) (fd_Nodes ?def) = Inr pns"
    and nodes: "nodes = numbered env (map fst pns) (Suc (db_next_id db))"
    and edges: "mapE (edgeRow (fv_ID version) (map_of (rev (map (\<lambda>n. (n_Key n, n_ID n)) nodes)))) (fd_Edges ?def) = Inr edges"
    and db': "db' = EmitEvents evs (db\<lparr>db_versions := db_versions db @ [version], db_nodes := db_nodes db @ nodes,
       db_node_assignees := db_node_assignees db @ as, db_node_ccs := db_node_ccs db @ ccs,
       db_edges := db_edges db @ numberedEdges env edges (Suc (db_next_id db + length nodes)),
       db_next_id := Suc (db_next_id db + length nodes + length edges)\<rparr>)"
    by (rule DeployFlow_run[OF run])
  note wfd = validateDeploy_wellFormed[OF pl]
  have dist: "distinct (map nd_ID (fd_Nodes ?def))" using wfd(1) by (simp add: wellFormed_def Let_def)
  have st: "map fst pns = map (storedNode ?dec (fv_ID version)) (fd_Nodes ?def)" by (rule nodeRows_eq[OF dist wfd(2) pns])
  have inj: "inj (env_new_id env)" using wf by (simp add: wf_store_def)
  let ?es = "numberedEdges env edges (Suc (db_next_id db + length nodes))"
  obtain f where "shows_definition f ?dec ?def nodes ?es" using deploy_shows[OF inj dist st nodes edges] by blast
  from sound_graph_shown[OF this wfd(1)] have sg: "sound_graph nodes ?es" .
  have nv: "\<forall>n \<in> set nodes. n_FlowVersionID n = fv_ID version"
    unfolding nodes st numbered_def by (fastforce dest: set_zip_leftD)
  have ev: "\<forall>e \<in> set ?es. e_FlowVersionID e = fv_ID version"
    using numberedEdges_view(2) edgeRows_view(2)[OF edges] by blast
  have new: "fv_ID version \<notin> fv_ID ` set (db_versions db)"
    using wf_store_unused[OF wf order_refl] by (simp add: v deployedVersion_def used_ids_def)
  have fid: "dp_FlowID cmd \<in> fl_ID ` set (db_flows db)"
    using fl by (auto simp: loadDeployFlow_def bindE_Inr_iff findFlow_def intro: rev_image_eqI dest!: find_Some_mem)
  have old: "versions_ok (db_flows db) (db_versions db)" "current_ok (db_flows db) (db_versions db)" "graphs_ok db"
    using ok by (auto simp: design_ok_def)
  have "\<forall>u \<in> set (db_versions db). fv_Version u \<ge> 1" using old(1) by (simp add: versions_ok_def)
  note num = nextVersionNumber_new[of _ db "dp_FlowID cmd"] nextVersionNumber_pos[OF this, of "dp_FlowID cmd"]
  have sel: "fv_FlowID version = dp_FlowID cmd" "fv_Version version = nextVersionNumber (dp_FlowID cmd) db" "fv_Status version = VersionDraft"
    by (simp_all add: v deployedVersion_def)
  note added = version_added_ok[OF old(1,2) _ new, unfolded sel, OF fid num refl]
  have "graphs_ok db'"
    by (rule graphs_added_ok[OF old(3) new _ nv _ ev _ sg]) (simp_all add: db' EmitEvents_def)
  then show ?thesis using ok added by (simp add: design_ok_def db' EmitEvents_def)
qed

section \<open>Publishing a version\<close>

definition publishedRow :: "env \<Rightarrow> string \<Rightarrow> FlowVersion \<Rightarrow> FlowVersion \<Rightarrow> FlowVersion" where
  "publishedRow env o' w v =
     (let u = if fv_FlowID v = fv_FlowID w \<and> fv_Status v = VersionPublished then archive v else v
      in if fv_ID v = fv_ID w then publish env o' u else u)"

lemma published_row: "published env o' w vs = map (publishedRow env o' w) vs"
  by (auto simp: published_def updateWhere_def publishedRow_def Let_def)

lemma publishedRow_sel [simp]:
  "fv_ID (publishedRow env o' w v) = fv_ID v" "fv_FlowID (publishedRow env o' w v) = fv_FlowID v"
  "fv_Version (publishedRow env o' w v) = fv_Version v"
  "fv_Status (publishedRow env o' w v) = (if fv_ID v = fv_ID w then VersionPublished
     else if fv_FlowID v = fv_FlowID w \<and> fv_Status v = VersionPublished then VersionArchived else fv_Status v)"
  by (simp_all add: publishedRow_def Let_def)

lemma published_keys:
  "map fv_ID (published env o' w vs) = map fv_ID vs"
  "map (\<lambda>v. (fv_FlowID v, fv_Version v)) (published env o' w vs) = map (\<lambda>v. (fv_FlowID v, fv_Version v)) vs"
  by (simp_all add: published_row comp_def)

lemma publish_current_ok:
  assumes v: "versions_ok fs vs" and c: "current_ok fs vs" and w: "w \<in> set vs"
  shows "current_ok (updateWhere (\<lambda>f. fl_ID f = fv_FlowID w) (\<lambda>f. f\<lparr>fl_CurrentVersion := fv_Version w\<rparr>) fs) (published env o' w vs)"
    (is "current_ok ?fs ?vs")
  unfolding current_ok_def
proof (intro conjI ballI impI)
  have key: "u = w" if "u \<in> set vs" "fv_FlowID u = fv_FlowID w" "fv_Version u = fv_Version w" for u
    by (rule distinct_key_eq[of "\<lambda>v. (fv_FlowID v, fv_Version v)" vs]) (use v that w in \<open>auto simp: versions_ok_def\<close>)
  fix f' u' assume "f' \<in> set ?fs" and "u' \<in> set ?vs" and flow: "fv_FlowID u' = fl_ID f'"
  obtain f where f: "f \<in> set fs" "f' = (if fl_ID f = fv_FlowID w then f\<lparr>fl_CurrentVersion := fv_Version w\<rparr> else f)"
    using \<open>f' \<in> set ?fs\<close> by (rule updateWhere_memE)
  obtain u where u: "u \<in> set vs" "u' = publishedRow env o' w u" using \<open>u' \<in> set ?vs\<close> by (auto simp: published_row)
  have id: "u = w" if "fv_ID u = fv_ID w" using distinct_key_eq[of fv_ID vs, OF _ u(1) w that] v by (simp add: versions_ok_def)
  have old: "fv_FlowID u = fl_ID f \<Longrightarrow> fv_Status u = VersionPublished \<longleftrightarrow> fv_Version u = fl_CurrentVersion f"
    using c f(1) u(1) by (simp add: current_ok_def)
  show "fv_Status u' = VersionPublished \<longleftrightarrow> fv_Version u' = fl_CurrentVersion f'"
  proof (cases "fl_ID f = fv_FlowID w")
    case True
    then have fu: "fv_FlowID u = fv_FlowID w" "fl_CurrentVersion f' = fv_Version w" using f(2) u(2) flow by simp_all
    show ?thesis
    proof (cases "fv_ID u = fv_ID w")
      case True
      then show ?thesis using id fu(2) by (simp add: u(2))
    next
      case False
      then have "fv_Version u \<noteq> fv_Version w" using key[OF u(1) fu(1)] by blast
      then show ?thesis using False fu by (simp add: u(2))
    qed
  next
    case False
    then have fu: "fv_FlowID u = fl_ID f" "f' = f" using f(2) u(2) flow by simp_all
    then have "fv_FlowID u \<noteq> fv_FlowID w" "fv_ID u \<noteq> fv_ID w" using False id by auto
    then show ?thesis using old[OF fu(1)] fu(2) by (simp add: u(2))
  qed
next
  fix f' assume "f' \<in> set ?fs"
  then obtain f where f: "f \<in> set fs" "f' = (if fl_ID f = fv_FlowID w then f\<lparr>fl_CurrentVersion := fv_Version w\<rparr> else f)"
    by (rule updateWhere_memE)
  have "fl_CurrentVersion f = 0 \<or> (\<exists>v \<in> set vs. fv_FlowID v = fl_ID f \<and> fv_Version v = fl_CurrentVersion f)"
    using c f(1) by (simp add: current_ok_def)
  then show "fl_CurrentVersion f' = 0 \<or> (\<exists>v \<in> set ?vs. fv_FlowID v = fl_ID f' \<and> fv_Version v = fl_CurrentVersion f')"
    using f(2) w by (cases "fl_ID f = fv_FlowID w") (auto simp: published_row)
qed

lemma PublishVersion_ok:
  assumes run: "PublishVersion_Handle env versionID operatorID db = Inr db'" and ok: "design_ok db"
  shows "design_ok db'"
proof -
  obtain version db3 db5 evs where v: "findVersion versionID db = Some version" "fv_Status version = VersionDraft"
    and db3: "db3 = db\<lparr>db_versions := updateWhere (\<lambda>v. fv_ID v = versionID) (publish env operatorID)
         (updateWhere (\<lambda>v. fv_FlowID v = fv_FlowID version \<and> fv_Status v = VersionPublished) archive (db_versions db)),
       db_flows := updateWhere (\<lambda>f. fl_ID f = fv_FlowID version) (\<lambda>f. f\<lparr>fl_CurrentVersion := fv_Version version\<rparr>) (db_flows db)\<rparr>"
    and fs: "form_storage_added env db3 db5" and out: "db' = EmitEvents evs db5"
    by (rule PublishVersion_run[OF run], rule that, assumption+)
  let ?fs = "updateWhere (\<lambda>f. fl_ID f = fv_FlowID version) (\<lambda>f. f\<lparr>fl_CurrentVersion := fv_Version version\<rparr>) (db_flows db)"
  have vid: "version \<in> set (db_versions db)" "fv_ID version = versionID"
    using v(1) by (auto simp: findVersion_def dest!: find_Some_mem)
  have vs: "db_versions db3 = published env operatorID version (db_versions db)" by (simp add: db3 published_def vid(2))
  have old: "codes_ok (db_flows db)" "initiators_ok (db_flows db) (db_initiators db)" "versions_ok (db_flows db) (db_versions db)"
    "current_ok (db_flows db) (db_versions db)" "graphs_ok db" using ok by (auto simp: design_ok_def)
  have fkeys: "map fl_ID ?fs = map fl_ID (db_flows db)" "map (\<lambda>f. (fl_TenantID f, fl_Code f)) ?fs = map (\<lambda>f. (fl_TenantID f, fl_Code f)) (db_flows db)"
    "map (\<lambda>f. (fl_ID f, fl_IsAllInitiationAllowed f)) ?fs = map (\<lambda>f. (fl_ID f, fl_IsAllInitiationAllowed f)) (db_flows db)"
    by (rule map_updateWhere_key, simp)+
  have "filter fl_IsShared ?fs = map (\<lambda>r. if fl_ID r = fv_FlowID version then r\<lparr>fl_CurrentVersion := fv_Version version\<rparr> else r)
      (filter fl_IsShared (db_flows db))"
    by (auto simp: updateWhere_def filter_map comp_def intro!: arg_cong[where f = "map _"] filter_cong)
  then have "map fl_Code (filter fl_IsShared ?fs) = map fl_Code (filter fl_IsShared (db_flows db))" by auto
  then have c: "codes_ok ?fs" using old(1) fkeys(1,2) by (simp add: codes_ok_def)
  have i: "initiators_ok ?fs (db_initiators db)" using old(2) initiators_ok_cong[OF fkeys(3)] by simp
  have img: "fl_ID ` set ?fs = fl_ID ` set (db_flows db)" using fkeys(1) by (metis image_set)
  have ve: "versions_ok ?fs (published env operatorID version (db_versions db))"
  proof -
    have "fv_FlowID u \<in> fl_ID ` set (db_flows db) \<and> fv_Version u \<ge> 1" if "u \<in> set (published env operatorID version (db_versions db))" for u
      using that old(3) by (auto simp: published_row versions_ok_def)
    then show ?thesis using old(3) unfolding versions_ok_def published_keys img by blast
  qed
  note cu = publish_current_ok[OF old(3,4) vid(1), of env operatorID]
  have "graphs_ok db3" using graphs_ok_cong[of db3 db] old(5) published_keys(1) vs by (simp add: db3)
  then have "design_ok db3" using c i ve cu by (simp add: design_ok_def vs) (simp add: db3)
  moreover have "design_ok db5 = design_ok db3"
    using fs graphs_ok_cong[of db5 db3] by (auto simp: form_storage_added_def design_ok_def)
  ultimately show ?thesis by (simp add: out)
qed

end
