(* ===== verification/Transition_Runs.thy ===== *)
theory Transition_Runs
  imports Main
begin

text \<open>
  Runs of a transition system: a property every step keeps holds along every run, and a preorder
  every step follows relates the ends of every run.  The engine with its store and the business
  binding beside it are instances.
\<close>

locale preserved =
  fixes move :: "'s \<Rightarrow> 's \<Rightarrow> bool" and inv :: "'s \<Rightarrow> bool"
  assumes keeps: "inv s \<Longrightarrow> move s t \<Longrightarrow> inv t"
begin

lemma run: "move\<^sup>*\<^sup>* s t \<Longrightarrow> inv s \<Longrightarrow> inv t"
  by (induction rule: rtranclp_induct) (auto intro: keeps)

end

locale evolving = preserved +
  fixes R :: "'s \<Rightarrow> 's \<Rightarrow> bool"
  assumes stays: "R s s" and follows: "R s t \<Longrightarrow> R t u \<Longrightarrow> R s u" and moves_along: "inv s \<Longrightarrow> move s t \<Longrightarrow> R s t"
begin

lemma run_along:
  assumes "move\<^sup>*\<^sup>* s t" and "inv s"
  shows "R s t"
  using assms
proof (induction rule: rtranclp_induct)
  case base
  show ?case by (rule stays)
next
  case (step t u)
  have "R t u" by (rule moves_along[OF run[OF step(1,4)] step(2)])
  with step.IH[OF step.prems] show ?case by (rule follows)
qed

end

end
