(* ===== verification/Approval_System.thy ===== *)
theory Approval_System
  imports Command_Invariants Design_Invariants Transition_Runs
begin

text \<open>
  The approval module as a transition system.  A request is a command of the CQRS bus (on an
  instance, or on flow definitions) or one task of a scanner pass; it runs in a transaction (\<^verbatim>\<open>behavior/transaction.go\<close>), so an error leaves
  the store as it was.  Requests on one instance are serialised by its row lock; a run is a
  sequence of requests.
\<close>

section \<open>Requests\<close>

datatype Request =
    StartInstance StartInstanceCmd
  | ApproveTask TaskCmd
  | RejectTask TaskCmd
  | TransferTask TaskCmd string
  | ReassignTask string string UserInfo string CallerContext
  | AddAssignee AddAssigneeCmd
  | RemoveAssignee string UserInfo CallerContext
  | WithdrawInstance string UserInfo CallerContext string
  | TerminateInstance string UserInfo CallerContext string
  | ResubmitInstance string UserInfo CallerContext "(string \<times> json) list"
  | RollbackTask TaskCmd string
  | MarkCCRead string string CallerContext
  | AddCC string "string list" UserInfo CallerContext
  | UrgeTask string string string CallerContext
  | TimeoutOf string
  | PreWarningOf string

fun execute :: "env \<Rightarrow> Request \<Rightarrow> db \<Rightarrow> error + db" where
  "execute env (StartInstance cmd) db = map_sum id snd (StartInstance_Handle env cmd db)"
| "execute env (ApproveTask cmd) db = ApproveTask_Handle env cmd db"
| "execute env (RejectTask cmd) db = RejectTask_Handle env cmd db"
| "execute env (TransferTask cmd target) db = TransferTask_Handle env cmd target db"
| "execute env (ReassignTask tid target operator reason caller) db =
     ReassignTask_Handle env tid target operator reason caller db"
| "execute env (AddAssignee cmd) db = AddAssignee_Handle env cmd db"
| "execute env (RemoveAssignee tid operator caller) db = RemoveAssignee_Handle env tid operator caller db"
| "execute env (WithdrawInstance iid operator caller reason) db =
     WithdrawInstance_Handle env iid operator caller reason db"
| "execute env (TerminateInstance iid operator caller reason) db =
     TerminateInstance_Handle env iid operator caller reason db"
| "execute env (ResubmitInstance iid operator caller formData) db =
     ResubmitInstance_Handle env iid operator caller formData db"
| "execute env (RollbackTask cmd target) db = RollbackTask_Handle env cmd target db"
| "execute env (MarkCCRead iid userID caller) db = MarkCCRead_Handle env iid userID caller db"
| "execute env (AddCC iid userIDs operator caller) db = AddCC_Handle env iid userIDs operator caller db"
| "execute env (UrgeTask tid urger message caller) db = UrgeTask_Handle env tid urger message caller db"
| "execute env (TimeoutOf tid) db =
     bindE (ofOption ErrRecordNotFound (findTask tid db)) (\<lambda>t. processTimeout env t db)"
| "execute env (PreWarningOf tid) db =
     bindE (ofOption ErrRecordNotFound (findTask tid db)) (\<lambda>t. preWarnOne env t db)"

datatype DesignRequest =
    CreateFlow CreateFlowCmd
  | UpdateFlow string FlowSettings
  | ToggleFlowActive string bool
  | DeployFlow DeployFlowCmd
  | PublishVersion string string

fun manage :: "env \<Rightarrow> design \<Rightarrow> DesignRequest \<Rightarrow> db \<Rightarrow> error + db" where
  "manage env dn (CreateFlow cmd) db = map_sum id snd (CreateFlow_Handle env dn cmd db)"
| "manage env dn (UpdateFlow flowID settings) db = map_sum id snd (UpdateFlow_Handle dn flowID settings db)"
| "manage env dn (ToggleFlowActive flowID isActive) db = ToggleFlowActive_Handle flowID isActive db"
| "manage env dn (DeployFlow cmd) db = map_sum id snd (DeployFlow_Handle env dn cmd db)"
| "manage env dn (PublishVersion versionID operatorID) db = PublishVersion_Handle env versionID operatorID db"

definition TransactionBehavior_Handle :: "(db \<Rightarrow> error + db) \<Rightarrow> db \<Rightarrow> error option \<times> db" where
  "TransactionBehavior_Handle handler db =
     (case handler db of Inl e \<Rightarrow> (Some e, db) | Inr db' \<Rightarrow> (None, db'))"

text \<open>
  One request against the store.  The clock and the host's answers may differ from request to
  request; the id generator is the same throughout.
\<close>

inductive step :: "(nat \<Rightarrow> string) \<Rightarrow> db \<Rightarrow> db \<Rightarrow> bool" for ids where
  request: "env_new_id env = ids \<Longrightarrow>
     TransactionBehavior_Handle (execute env r) db = (e, db') \<Longrightarrow> step ids db db'"
| manage: "env_new_id env = ids \<Longrightarrow>
     TransactionBehavior_Handle (manage env dn d) db = (e, db') \<Longrightarrow> step ids db db'"

inductive_cases stepE: "step ids db db'"

lemma manage_step: "manage env dn d db = Inr db' \<Longrightarrow> step (env_new_id env) db db'"
  by (rule step.manage[of env _ dn d _ None]) (simp_all add: TransactionBehavior_Handle_def)

lemma execute_step: "execute env r db = Inr db' \<Longrightarrow> step (env_new_id env) db db'"
  by (rule step.request[of env _ r _ None]) (simp_all add: TransactionBehavior_Handle_def)

section \<open>Every request commits\<close>

lemma execute_commits:
  assumes run: "execute env r db = Inr db'" and wf: "wf_store env db"
  shows "\<exists>iid. commits env iid db db'"
proof (cases r)
  case (StartInstance cmd)
  then show ?thesis using run StartInstance_commits(1)[OF _ wf] by (cases "StartInstance_Handle env cmd db") (auto, blast)
next
  case (TimeoutOf tid)
  then show ?thesis using run processTimeout_commits[OF _ _ wf]
    by (auto simp: findTask_def dest: find_row) (blast dest: find_row)
next
  case (PreWarningOf tid)
  then show ?thesis using run sendPreWarning_commits
    by (auto simp: findTask_def preWarnOne_def split: option.splits) (blast dest: find_row)
next
  case (ApproveTask cmd)
  with run show ?thesis by simp (erule ApproveTask_commits, rule exI, assumption)
next
  case (RejectTask cmd)
  with run show ?thesis by simp (erule RejectTask_commits, rule exI, assumption)
next
  case (TransferTask cmd target)
  with run show ?thesis by simp (erule TransferTask_commits, rule exI, assumption)
next
  case (ReassignTask tid target operator reason caller)
  with run show ?thesis by simp (erule ReassignTask_commits, rule exI, assumption)
next
  case (AddAssignee cmd)
  with run show ?thesis by simp (erule AddAssignee_commits, rule exI, assumption)
next
  case (RemoveAssignee tid operator caller)
  with run show ?thesis by simp (erule RemoveAssignee_commits, rule exI, assumption)
next
  case (RollbackTask cmd target)
  with run show ?thesis by simp (erule RollbackTask_commits, rule exI, assumption)
next
  case (UrgeTask tid urger message caller)
  with run show ?thesis by simp (erule UrgeTask_commits, rule exI, assumption)
next
  case (WithdrawInstance iid operator caller reason)
  with run show ?thesis by simp (rule exI, erule WithdrawInstance_commits)
next
  case (TerminateInstance iid operator caller reason)
  with run show ?thesis by simp (rule exI, erule TerminateInstance_commits)
next
  case (ResubmitInstance iid operator caller formData)
  with run show ?thesis by simp (rule exI, erule ResubmitInstance_commits)
next
  case (MarkCCRead iid userID caller)
  with run show ?thesis by simp (rule exI, erule MarkCCRead_commits)
next
  case (AddCC iid userIDs operator caller)
  with run show ?thesis by simp (rule exI, erule AddCC_commits)
qed

definition consistent :: "(nat \<Rightarrow> string) \<Rightarrow> db \<Rightarrow> bool" where
  "consistent ids db \<longleftrightarrow> (\<forall>env. env_new_id env = ids \<longrightarrow> wf_store env db) \<and> (\<forall>iid. settled iid db)"

lemma wf_store_ids: "env_new_id env = env_new_id env' \<Longrightarrow> wf_store env db = wf_store env' db"
  by (simp add: wf_store_def)

lemma settled_frame:
  assumes st: "store_step iid db db'" and se: "settled other db" and ne: "other \<noteq> iid"
  shows "settled other db'"
proof -
  have inst: "rows_evolve (instance_rel iid) (\<lambda>i. i_ID i = iid) (db_instances db) (db_instances db')"
    and tasks: "rows_evolve (task_rel iid) (\<lambda>t. t_InstanceID t = iid) (db_tasks db) (db_tasks db')"
    and visits: "rows_evolve (visit_rel iid) (\<lambda>v. v_InstanceID v = iid) (db_visits db) (db_visits db')"
    using st by (auto simp: store_step_def)
  have i: "i \<in> set (db_instances db)" if "i \<in> set (db_instances db')" "i_ID i = other" for i
    using rows_evolve_mem[OF inst that(1)] that(2) ne by (auto simp: instance_rel_def)
  have t: "t \<in> set (db_tasks db)" if "t \<in> set (db_tasks db')" "t_InstanceID t = other" for t
    using rows_evolve_mem[OF tasks that(1)] that(2) ne by (auto simp: task_rel_def)
  have v: "v \<in> set (db_visits db)" if "v \<in> set (db_visits db')" "v_InstanceID v = other" for v
    using rows_evolve_mem[OF visits that(1)] that(2) ne by (auto simp: visit_rel_def)
  have v': "v \<in> set (db_visits db')" if "v \<in> set (db_visits db)" "v_InstanceID v = other" for v
    using rows_evolve_kept[OF visits that(1)] that(2) ne by (auto simp: visit_rel_def)
  have oa: "open_at other n w db \<Longrightarrow> open_at other n w db'" for n w using t by (auto simp: open_at_def)
  have "running_at other c db'" if "running_at other c db" for c
  proof -
    obtain w where w: "w \<in> set (db_visits db)" "active_of other w" "c = Some (v_NodeID w)"
      "\<forall>u \<in> set (db_visits db). active_of other u \<longrightarrow> u = w" "open_at other (v_NodeID w) (v_ID w) db"
      using \<open>running_at other c db\<close> unfolding running_at_def by blast
    have "\<forall>u \<in> set (db_visits db'). active_of other u \<longrightarrow> u = w" using w(4) v unfolding active_of_def by blast
    then show ?thesis unfolding running_at_def using w v' oa unfolding active_of_def by blast
  qed
  moreover have "idle other db \<Longrightarrow> idle other db'" using v by (auto simp: idle_def active_of_def)
  moreover have "quiet other db \<Longrightarrow> quiet other db'" using t by (auto simp: quiet_def)
  ultimately show ?thesis using se i unfolding settled_def by metis
qed

lemma store_step_frame:
  assumes "store_step iid db db'"
  shows "filter (\<lambda>i. i_ID i \<noteq> iid) (db_instances db') = filter (\<lambda>i. i_ID i \<noteq> iid) (db_instances db)
     \<and> filter (\<lambda>t. t_InstanceID t \<noteq> iid) (db_tasks db') = filter (\<lambda>t. t_InstanceID t \<noteq> iid) (db_tasks db)
     \<and> filter (\<lambda>v. v_InstanceID v \<noteq> iid) (db_visits db') = filter (\<lambda>v. v_InstanceID v \<noteq> iid) (db_visits db)
     \<and> filter (\<lambda>r. cc_InstanceID r \<noteq> iid) (db_ccs db') = filter (\<lambda>r. cc_InstanceID r \<noteq> iid) (db_ccs db)"
proof -
  have r: "rows_evolve (instance_rel iid) (\<lambda>i. i_ID i = iid) (db_instances db) (db_instances db')"
    "rows_evolve (task_rel iid) (\<lambda>t. t_InstanceID t = iid) (db_tasks db) (db_tasks db')"
    "rows_evolve (visit_rel iid) (\<lambda>v. v_InstanceID v = iid) (db_visits db) (db_visits db')"
    "rows_evolve (cc_rel iid) (\<lambda>r. cc_InstanceID r = iid) (db_ccs db) (db_ccs db')"
    using assms by (auto simp: store_step_def)
  show ?thesis
    by (intro conjI rows_evolve_frame[OF r(1)] rows_evolve_frame[OF r(2)] rows_evolve_frame[OF r(3)] rows_evolve_frame[OF r(4)])
      (auto simp: instance_rel_def task_rel_def visit_rel_def cc_rel_def)
qed

lemma map_sum_snd_Inr: "map_sum id snd r = Inr db \<longleftrightarrow> (\<exists>x. r = Inr (x, db))"
  by (cases r) auto

lemma manage_design:
  assumes run: "manage env dn d db = Inr db'" and wf: "wf_store env db"
  shows "design_step db db' \<and> wf_store env db' \<and> (design_ok db \<longrightarrow> design_ok db')"
proof (cases d)
  case (CreateFlow cmd)
  then obtain flow where "CreateFlow_Handle env dn cmd db = Inr (flow, db')" using run by (auto simp: map_sum_snd_Inr)
  then show ?thesis using CreateFlow_design CreateFlow_ok wf by blast
next
  case (UpdateFlow flowID st)
  then obtain flow where "UpdateFlow_Handle dn flowID st db = Inr (flow, db')" using run by (auto simp: map_sum_snd_Inr)
  then show ?thesis using UpdateFlow_design UpdateFlow_ok wf by blast
next
  case (DeployFlow cmd)
  then obtain version where "DeployFlow_Handle env dn cmd db = Inr (version, db')" using run by (auto simp: map_sum_snd_Inr)
  then show ?thesis using DeployFlow_design DeployFlow_ok wf by blast
next
  case (ToggleFlowActive flowID isActive)
  then have "ToggleFlowActive_Handle flowID isActive db = Inr db'" using run by simp
  then show ?thesis using Toggle_design Toggle_ok wf by blast
next
  case (PublishVersion versionID operatorID)
  then have "PublishVersion_Handle env versionID operatorID db = Inr db'" using run by simp
  then show ?thesis using PublishVersion_design PublishVersion_ok wf by blast
qed

lemma settled_runtime: "runtime_same db db' \<Longrightarrow> settled iid db' = settled iid db"
  by (simp add: runtime_same_def settled_def running_at_def open_at_def idle_def quiet_def)

text \<open>A step is an error, a request on one instance, or a command on flow definitions.\<close>

lemma step_cases:
  assumes "step ids db db'"
  obtains "db' = db" | env r where "env_new_id env = ids" "execute env r db = Inr db'"
    | env dn d where "env_new_id env = ids" "manage env dn d db = Inr db'"
proof -
  have ok: "TransactionBehavior_Handle h db = (e, db') \<Longrightarrow> db' = db \<or> h db = Inr db'" for h e
    by (auto simp: TransactionBehavior_Handle_def split: sum.splits)
  from assms show thesis using that ok by (elim stepE) metis+
qed

lemma step_commits:
  assumes "step ids db db'" and con: "consistent ids db"
  shows "consistent ids db' \<and> ((\<exists>iid. store_step iid db db') \<or> design_step db db')"
  using assms(1)
proof (cases rule: step_cases)
  case 1
  then show ?thesis using con store_step_refl by blast
next
  case (2 env r)
  have wf: "wf_store env db" and se: "\<And>iid. settled iid db" using con 2(1) by (auto simp: consistent_def)
  obtain iid where c: "commits env iid db db'" using execute_commits[OF 2(2) wf] by blast
  then have c': "wf_store env db'" "store_step iid db db'" "settled iid db'"
    using wf se by (auto simp: commits_def)
  have "settled other db'" for other
    using c'(3) settled_frame[OF c'(2) se] by (cases "other = iid") auto
  moreover have "wf_store env' db'" if "env_new_id env' = ids" for env'
    using c'(1) wf_store_ids[of env env'] that 2(1) by simp
  ultimately show ?thesis using c'(2) by (auto simp: consistent_def)
next
  case (3 env dn d)
  have wf: "wf_store env db" and se: "\<And>iid. settled iid db" using con 3(1) by (auto simp: consistent_def)
  note m = manage_design[OF 3(2) wf]
  have "settled iid db'" for iid using m se settled_runtime by (auto simp: design_step_def)
  moreover have "wf_store env' db'" if "env_new_id env' = ids" for env'
    using m wf_store_ids[of env env'] that 3(1) by simp
  ultimately show ?thesis using m by (auto simp: consistent_def)
qed

lemma step_design_ok:
  assumes "step ids db db'" and con: "consistent ids db" and ok: "design_ok db"
  shows "design_ok db'"
  using assms(1)
proof (cases rule: step_cases)
  case (2 env r)
  have "wf_store env db" using con 2(1) by (auto simp: consistent_def)
  then obtain iid where "commits env iid db db'" using execute_commits[OF 2(2)] by blast
  then have "same_config db db'" using con 2(1) by (auto simp: commits_def consistent_def store_step_def)
  then show ?thesis using ok design_ok_same by blast
next
  case (3 env dn d)
  then show ?thesis using manage_design[OF 3(2)] ok con by (auto simp: consistent_def)
qed (use ok in simp)

section \<open>Runs\<close>

text \<open>A store before the first instance is started: any flow definitions, no runtime rows.\<close>

definition fresh_store :: "(nat \<Rightarrow> string) \<Rightarrow> db \<Rightarrow> bool" where
  "fresh_store ids db \<longleftrightarrow> inj ids \<and> distinct (map n_ID (db_nodes db)) \<and> distinct (map fv_ID (db_versions db))
     \<and> (\<forall>n \<ge> db_next_id db. ids n \<notin> used_ids db)
     \<and> db_instances db = [] \<and> db_tasks db = [] \<and> db_visits db = [] \<and> db_ccs db = []"

definition reachable :: "(nat \<Rightarrow> string) \<Rightarrow> db \<Rightarrow> bool" where
  "reachable ids db \<longleftrightarrow> (\<exists>db0. fresh_store ids db0 \<and> (step ids)\<^sup>*\<^sup>* db0 db)"

lemma fresh_consistent: "fresh_store ids db \<Longrightarrow> consistent ids db"
  by (simp add: fresh_store_def consistent_def wf_store_def parents_ok_def visits_ok_def
      hosts_ok_def owners_ok_def places_ok_def settled_def)

interpretation definitions: preserved "step ids" "\<lambda>db. consistent ids db \<and> design_ok db" for ids
  by unfold_locales (auto dest: step_commits step_design_ok)

text \<open>A store as the migration leaves it: categories may have been entered, no flow exists.\<close>

definition blank_store :: "(nat \<Rightarrow> string) \<Rightarrow> db \<Rightarrow> bool" where
  "blank_store ids db \<longleftrightarrow> fresh_store ids db \<and> db_flows db = [] \<and> db_initiators db = [] \<and> db_versions db = []
     \<and> db_nodes db = [] \<and> db_edges db = []"

lemma blank_design_ok: "blank_store ids db \<Longrightarrow> design_ok db"
  by (simp add: blank_store_def design_ok_def codes_ok_def initiators_ok_def versions_ok_def current_ok_def graphs_ok_def)

lemma run_design_ok: "(step ids)\<^sup>*\<^sup>* db db' \<Longrightarrow> consistent ids db \<Longrightarrow> design_ok db \<Longrightarrow> design_ok db'"
  using definitions.run by blast

text \<open>What a run does to a row, forgetting which instance each step worked on.\<close>

definition task_moves :: "Task \<Rightarrow> Task \<Rightarrow> bool" where
  "task_moves t t' \<longleftrightarrow> t_ID t' = t_ID t \<and> t_TenantID t' = t_TenantID t \<and> t_InstanceID t' = t_InstanceID t
     \<and> t_NodeID t' = t_NodeID t \<and> t_VisitID t' = t_VisitID t
     \<and> (CanTransition TaskStateMachine)\<^sup>*\<^sup>* (t_Status t) (t_Status t')"

definition instance_moves :: "Instance \<Rightarrow> Instance \<Rightarrow> bool" where
  "instance_moves i i' \<longleftrightarrow> i_ID i' = i_ID i \<and> i_TenantID i' = i_TenantID i \<and> i_FlowID i' = i_FlowID i
     \<and> i_FlowVersionID i' = i_FlowVersionID i \<and> i_Applicant i' = i_Applicant i
     \<and> (CanTransition InstanceStateMachine)\<^sup>*\<^sup>* (i_Status i) (i_Status i')"

definition history :: "db \<Rightarrow> db \<Rightarrow> bool" where
  "history db db' \<longleftrightarrow> config_evolves db db'
     \<and> rows_evolve instance_moves (\<lambda>_. True) (db_instances db) (db_instances db')
     \<and> rows_evolve task_moves (\<lambda>_. True) (db_tasks db) (db_tasks db')
     \<and> prefix (db_logs db) (db_logs db') \<and> prefix (db_events db) (db_events db')"

lemma rows_evolve_mono:
  assumes "rows_evolve R N xs ys" and "\<And>x y. R x y \<Longrightarrow> R' x y"
  shows "rows_evolve R' (\<lambda>_. True) xs ys"
  using assms list_all2_mono[of R xs _ R'] by (auto simp: rows_evolve_def)

lemma rows_evolve_eq_prefix: "rows_evolve (=) N xs ys \<Longrightarrow> prefix xs ys"
  by (auto simp: rows_evolve_def list.rel_eq prefix_def)

lemma store_step_history:
  assumes "store_step iid db db'"
  shows "history db db'"
  unfolding history_def
proof (intro conjI)
  show "rows_evolve instance_moves (\<lambda>_. True) (db_instances db) (db_instances db')"
    by (rule rows_evolve_mono[of "instance_rel iid"])
      (use assms in \<open>auto simp: store_step_def instance_rel_def instance_moves_def\<close>)
  show "rows_evolve task_moves (\<lambda>_. True) (db_tasks db) (db_tasks db')"
    by (rule rows_evolve_mono[of "task_rel iid"])
      (use assms in \<open>auto simp: store_step_def task_rel_def task_moves_def\<close>)
qed (use assms same_config_evolves in \<open>auto simp: store_step_def intro: rows_evolve_eq_prefix\<close>)

lemma design_step_history: "design_step db db' \<Longrightarrow> history db db'"
  by (simp add: design_step_def runtime_same_def history_def instance_moves_def task_moves_def)

lemma history_refl [simp]: "history db db"
  by (simp add: history_def instance_moves_def task_moves_def)

lemma history_trans:
  assumes "history a b" and "history b c"
  shows "history a c"
  unfolding history_def
proof (intro conjI)
  show "config_evolves a c" using assms config_evolves_trans by (auto simp: history_def)
  show "rows_evolve instance_moves (\<lambda>_. True) (db_instances a) (db_instances c)"
    by (rule rows_evolve_trans[where ys = "db_instances b"])
      (use assms in \<open>auto simp: history_def instance_moves_def intro: rtranclp_trans\<close>)
  show "rows_evolve task_moves (\<lambda>_. True) (db_tasks a) (db_tasks c)"
    by (rule rows_evolve_trans[where ys = "db_tasks b"])
      (use assms in \<open>auto simp: history_def task_moves_def intro: rtranclp_trans\<close>)
qed (use assms in \<open>auto simp: history_def intro: prefix_order.trans\<close>)

interpretation store: evolving "step ids" "consistent ids" history for ids
proof
  show "consistent ids t" if "consistent ids s" "step ids s t" for s t
    using step_commits[OF that(2,1)] by blast
  show "history s t" if "consistent ids s" "step ids s t" for s t
    using step_commits[OF that(2,1)] store_step_history design_step_history by blast
qed (auto intro: history_trans)

lemmas run_consistent = store.run
lemmas run_history = store.run_along

lemma reachable_consistent: "reachable ids db \<Longrightarrow> consistent ids db"
  by (auto simp: reachable_def intro: run_consistent fresh_consistent)

end
