(* ===== verification/Example_Design.thy ===== *)
theory Example_Design
  imports Approval_System
begin

text \<open>
  A flow from its creation to its first instance: a flow is created, a definition with one approval
  node and one required form field is deployed to it in table mode and published, and an instance
  is started.
\<close>

definition designIds :: "nat \<Rightarrow> string" where
  "designIds n = (if n < 20 then replicate (20 - n) (CHR ''0'') @ replicate n (CHR ''1'') else replicate (Suc n) (CHR ''i''))"

definition designEnv :: env where
  "designEnv = exampleEnv\<lparr>env_new_id := designIds\<rparr>"

definition designBlank :: db where
  "designBlank = emptyDb\<lparr>db_categories := [\<lparr>ca_ID = ''cat'', ca_TenantID = ''tenant''\<rparr>]\<rparr>"

definition designField :: FormFieldDefinition where
  "designField = FormField ''reason'' FieldInput ''Reason'' True [] None None 0 (ColumnTypeOther []) None []"

definition designHost :: design where
  "designHost = \<lparr>dn_service = \<lparr>fds_aggregateKinds = [], fds_assigneeKinds = [''user'' \<mapsto> SelectionUser], fds_ccKinds = Map.empty\<rparr>,
     dn_decoder = \<lparr>dec_base = (\<lambda>j. Some zeroBaseNodeData),
       dec_approval = (\<lambda>j. Some (zeroApprovalNodeData\<lparr>an_Task := zeroTaskNodeData\<lparr>td_Assignees :=
         [\<lparr>ad_Kind = ''user'', ad_IDs = [''alice''], ad_FormField = None, ad_SortOrder = 0\<rparr>]\<rparr>\<rparr>)),
       dec_handle = (\<lambda>j. None), dec_cc = (\<lambda>j. None), dec_condition = (\<lambda>j. None)\<rparr>,
     dn_parse_form = (\<lambda>j. Inr [designField]), dn_schemas = (\<lambda>t. None), dn_template_ok = (\<lambda>t. True),
     dn_initiatorKinds = Map.empty\<rparr>"

definition designSettings :: FlowSettings where
  "designSettings = \<lparr>st_Name = ''Leave'', st_Icon = None, st_Description = None, st_Labels = [],
     st_BindingMode = BindingStandalone, st_BusinessBinding = None, st_AdminUserIDs = [], st_IsAllInitiationAllowed = True,
     st_InstanceTitleTemplate = [], st_Initiators = []\<rparr>"

definition designCreate :: CreateFlowCmd where
  "designCreate = \<lparr>cf_TenantID = ''tenant'', cf_IsShared = False, cf_Code = ''leave'', cf_CategoryID = ''cat'',
     cf_Settings = designSettings\<rparr>"

definition designDeploy :: DeployFlowCmd where
  "designDeploy = \<lparr>dp_FlowID = designIds 0, dp_Description = None, dp_StorageMode = StorageTable,
     dp_FlowDefinition = \<lparr>fd_Nodes = [\<lparr>nd_ID = ''s'', nd_Kind = NodeStart, nd_Data = None\<rparr>,
         \<lparr>nd_ID = ''a'', nd_Kind = NodeApproval, nd_Data = Some JNull\<rparr>, \<lparr>nd_ID = ''e'', nd_Kind = NodeEnd, nd_Data = None\<rparr>],
       fd_Edges = [\<lparr>ed_ID = ''sa'', ed_Source = ''s'', ed_Target = ''a'', ed_SourceHandle = None\<rparr>,
         \<lparr>ed_ID = ''ae'', ed_Source = ''a'', ed_Target = ''e'', ed_SourceHandle = None\<rparr>]\<rparr>,
     dp_FormSchema = None\<rparr>"

definition designStart :: StartInstanceCmd where
  "designStart = \<lparr>si_TenantID = [], si_FlowCode = ''leave'', si_Applicant = exampleUser ''carol'', si_BusinessRef = None,
     si_FormData = Some [(''reason'', JStr ''ill'')], si_Globals = None,
     si_Caller = \<lparr>caller_TenantID = ''tenant'', caller_IsSuperAdmin = False, caller_IsSystemInternal = False\<rparr>\<rparr>"

definition createdStore :: db where
  "createdStore = projr (manage designEnv designHost (CreateFlow designCreate) designBlank)"

definition deployedStore :: db where
  "deployedStore = projr (manage designEnv designHost (DeployFlow designDeploy) createdStore)"

definition publishedStore :: db where
  "publishedStore = projr (manage designEnv designHost (PublishVersion (designIds 1) ''admin'') deployedStore)"

definition formStore :: db where
  "formStore = projr (execute designEnv (StartInstance designStart) publishedStore)"

section \<open>The run\<close>

text \<open>What the evaluation of the four requests is asked about the stores it passes through.\<close>

definition tablesMatch :: "tableSpec list \<Rightarrow> db \<Rightarrow> bool" where
  "tablesMatch specs db = list_all (\<lambda>spec. case db_physical db (ts_Name spec) of None \<Rightarrow> False
     | Some t \<Rightarrow> pt_Columns t = ts_Columns spec \<and> pt_Child t = IsChild spec) specs"

definition checkDeployed :: "db \<Rightarrow> db \<Rightarrow> bool" where
  "checkDeployed c d \<longleftrightarrow> db_nodes c = [] \<and> map n_Kind (db_nodes d) = [NodeStart, NodeApproval, NodeEnd]
     \<and> map fl_ID (db_flows c) = [designIds 0] \<and> map fl_TenantID (db_flows c) = [''tenant'']
     \<and> map fv_ID (db_versions d) = [designIds 1]
     \<and> map fv_FormFields (db_versions d) = [[designField]] \<and> map fv_StorageMode (db_versions d) = [StorageTable]
     \<and> map fv_FlowID (db_versions d) = [designIds 0] \<and> map n_FlowVersionID (db_nodes d) = replicate 3 (designIds 1)
     \<and> db_form_tables d = [] \<and> db_form_columns d = [] \<and> db_instances d = [] \<and> map fl_Code (db_flows d) = [''leave'']"

definition checkPublished :: "db \<Rightarrow> bool" where
  "checkPublished p \<longleftrightarrow> map fv_ID (db_versions p) = [designIds 1] \<and> map fv_FormFields (db_versions p) = [[designField]]
     \<and> map fv_StorageMode (db_versions p) = [StorageTable] \<and> map fl_CurrentVersion (db_flows p) = [1]
     \<and> map fl_IsActive (db_flows p) = [True] \<and> map fl_IsAllInitiationAllowed (db_flows p) = [True]
     \<and> (case buildTableSpecs Postgres ''leave'' (designIds 1) [designField] of Inl _ \<Rightarrow> False
        | Inr specs \<Rightarrow> list_all2 (records p) (filter (\<lambda>t. ft_VersionID t = designIds 1) (db_form_tables p)) specs \<and> tablesMatch specs p)
     \<and> (case TableStorage_Write designEnv (hd (db_versions p)) ''inst'' (Some [(''reason'', JStr ''ill'')]) p of
          Inl _ \<Rightarrow> False | Inr _ \<Rightarrow> True)"

definition checkStarted :: "db \<Rightarrow> bool" where
  "checkStarted f \<longleftrightarrow> map i_Status (db_instances f) = [InstanceRunning] \<and> map i_FlowVersionID (db_instances f) = [designIds 1]
     \<and> map i_FormData (db_instances f) = [Some [(''reason'', JStr ''ill'')]] \<and> map t_AssigneeID (db_tasks f) = [''alice'']
     \<and> map t_Status (db_tasks f) = [TaskPending] \<and> db_form_tables f \<noteq> []"

lemma design_evaluated:
  "case manage designEnv designHost (CreateFlow designCreate) designBlank of Inl _ \<Rightarrow> False
   | Inr c \<Rightarrow> (case manage designEnv designHost (DeployFlow designDeploy) c of Inl _ \<Rightarrow> False
     | Inr d \<Rightarrow> checkDeployed c d \<and> (case manage designEnv designHost (PublishVersion (designIds 1) ''admin'') d of Inl _ \<Rightarrow> False
       | Inr p \<Rightarrow> checkPublished p \<and> (case execute designEnv (StartInstance designStart) p of Inl _ \<Rightarrow> False
         | Inr f \<Rightarrow> checkStarted f)))"
  by code_simp

lemma created_run: "manage designEnv designHost (CreateFlow designCreate) designBlank = Inr createdStore"
  using design_evaluated unfolding createdStore_def
  by (cases "manage designEnv designHost (CreateFlow designCreate) designBlank") (simp_all del: manage.simps)

lemma deployed_run: "manage designEnv designHost (DeployFlow designDeploy) createdStore = Inr deployedStore"
  using design_evaluated unfolding deployedStore_def created_run
  by (cases "manage designEnv designHost (DeployFlow designDeploy) createdStore") (simp_all del: manage.simps)

lemma published_run: "manage designEnv designHost (PublishVersion (designIds 1) ''admin'') deployedStore = Inr publishedStore"
  using design_evaluated deployed_run unfolding publishedStore_def created_run
  by (cases "manage designEnv designHost (PublishVersion (designIds 1) ''admin'') deployedStore") (simp_all del: manage.simps)

lemma form_run: "execute designEnv (StartInstance designStart) publishedStore = Inr formStore"
  using design_evaluated deployed_run published_run unfolding formStore_def created_run
  by (cases "execute designEnv (StartInstance designStart) publishedStore") (simp_all del: manage.simps execute.simps)

lemma design_checks: "checkDeployed createdStore deployedStore" "checkPublished publishedStore" "checkStarted formStore"
  using design_evaluated by (simp_all add: created_run deployed_run published_run form_run del: manage.simps execute.simps One_nat_def)

lemma designIds_inj: "inj designIds"
proof (rule injI)
  fix m n assume e: "designIds m = designIds n"
  have len: "length (designIds k) = (if k < 20 then 20 else Suc k)" for k by (simp add: designIds_def)
  have cnt: "k < 20 \<Longrightarrow> length (filter ((=) (CHR ''1'')) (designIds k)) = k" for k by (simp add: designIds_def)
  show "m = n"
  proof (cases "m < 20")
    case True
    then have "n < 20" using arg_cong[OF e, of length] len[of m] len[of n] by (auto split: if_splits)
    then show ?thesis using cnt[OF True] cnt[OF \<open>n < 20\<close>] e by metis
  next
    case False
    then show ?thesis using arg_cong[OF e, of length] len[of m] len[of n] by (auto split: if_splits)
  qed
qed

lemma designEnv_ids [simp]: "env_new_id designEnv = designIds"
  by (simp add: designEnv_def)

lemma design_blank: "blank_store designIds designBlank"
  using designIds_inj
  by (simp add: blank_store_def fresh_store_def designBlank_def emptyDb_def used_ids_def)

lemma design_steps:
  "(step designIds)\<^sup>*\<^sup>* designBlank createdStore" "(step designIds)\<^sup>*\<^sup>* designBlank deployedStore"
  "(step designIds)\<^sup>*\<^sup>* designBlank publishedStore" "(step designIds)\<^sup>*\<^sup>* designBlank formStore"
proof -
  have s: "step designIds designBlank createdStore" "step designIds createdStore deployedStore"
    "step designIds deployedStore publishedStore" "step designIds publishedStore formStore"
    using manage_step[OF created_run] manage_step[OF deployed_run] manage_step[OF published_run] execute_step[OF form_run] by simp_all
  show a: "(step designIds)\<^sup>*\<^sup>* designBlank createdStore" using s(1) by simp
  show b: "(step designIds)\<^sup>*\<^sup>* designBlank deployedStore" using a s(2) by simp
  show c: "(step designIds)\<^sup>*\<^sup>* designBlank publishedStore" using b s(3) by simp
  show "(step designIds)\<^sup>*\<^sup>* designBlank formStore" using c s(4) by simp
qed

text \<open>The one version of the example, as it is deployed and as it is published.\<close>

definition draftVersion :: FlowVersion where
  "draftVersion = hd (db_versions deployedStore)"

definition liveVersion :: FlowVersion where
  "liveVersion = hd (db_versions publishedStore)"

lemma draft_facts:
  "draftVersion \<in> set (db_versions deployedStore)" "fv_ID draftVersion = designIds 1"
  "fv_FormFields draftVersion = [designField]" "fv_StorageMode draftVersion = StorageTable"
  using design_checks(1) by (auto simp: checkDeployed_def draftVersion_def)

lemma live_facts:
  "liveVersion \<in> set (db_versions publishedStore)" "fv_ID liveVersion = designIds 1"
  "fv_FormFields liveVersion = [designField]" "fv_StorageMode liveVersion = StorageTable"
  using design_checks(2) by (auto simp: checkPublished_def liveVersion_def)

lemma live_written:
  "\<exists>db. TableStorage_Write designEnv liveVersion ''inst'' (Some [(''reason'', JStr ''ill'')]) publishedStore = Inr db"
  using design_checks(2) by (auto simp: checkPublished_def liveVersion_def split: sum.splits)

lemma live_found: "findVersion (designIds 1) publishedStore = Some liveVersion"
  using design_checks(2) by (auto simp: checkPublished_def liveVersion_def findVersion_def)

lemma design_xid: "isXID (designIds 1)" "\<not> hasPrefix (designIds 1) (sanitizeForIdentifier ''leave'')"
  by code_simp+

lemma live_provisioned: "\<exists>specs. provisioned Postgres ''leave'' liveVersion specs publishedStore"
  using design_checks(2)
  by (auto simp: checkPublished_def provisioned_def live_facts tablesOf_def tablesMatch_def list_all_iff split: sum.splits option.splits)

end
