(* ===== verification/Flow_Safety.thy ===== *)
theory Flow_Safety
  imports Design_Invariants Engine_Invariants
begin

text \<open>
  The traversal on a deployed version.  \<open>ProcessNode\<close> gives up after a hundred nodes
  (\<^verbatim>\<open>ErrMaxNodeDepth\<close>).  On a sound graph the nodes that can still follow become strictly fewer
  with every step, so a version of at most a hundred nodes never meets the limit: with a larger
  limit the traversal would do exactly the same.
\<close>

definition ahead :: "FlowEdge list \<Rightarrow> string \<Rightarrow> string set" where
  "ahead es nid = (wires es)\<^sup>* `` {nid}"

lemma finite_ahead: "finite (ahead es nid)"
proof -
  have "finite (wires es)" by (simp add: wires_def)
  then show ?thesis unfolding ahead_def by (rule finite_rtrancl_Image) simp
qed

lemma ahead_self: "nid \<in> ahead es nid"
  by (simp add: ahead_def)

lemma ahead_shrinks:
  assumes "acyclic (wires es)" and "(a, b) \<in> wires es"
  shows "card (ahead es b) < card (ahead es a)"
proof (rule psubset_card_mono[OF finite_ahead])
  have "a \<notin> ahead es b"
    using assms by (auto simp: ahead_def acyclic_def dest: rtrancl_into_trancl2)
  moreover have "ahead es b \<subseteq> ahead es a"
    using assms(2) by (auto simp: ahead_def intro: converse_rtrancl_into_rtrancl)
  ultimately show "ahead es b \<subset> ahead es a" using ahead_self by blast
qed

lemma ahead_nodes:
  assumes "wires es \<subseteq> n_ID ` set ns \<times> n_ID ` set ns" and "n \<in> set ns"
  shows "card (ahead es (n_ID n)) \<le> length ns"
proof -
  have "ahead es (n_ID n) \<subseteq> n_ID ` set ns"
  proof
    fix m assume "m \<in> ahead es (n_ID n)"
    then have "(n_ID n, m) \<in> (wires es)\<^sup>*" by (simp add: ahead_def)
    then show "m \<in> n_ID ` set ns" by (rule rtranclE) (use assms in auto)
  qed
  then have "card (ahead es (n_ID n)) \<le> card (n_ID ` set ns)" by (intro card_mono) auto
  also have "\<dots> \<le> length ns" by (meson List.finite_set card_image_le card_length order_trans)
  finally show ?thesis .
qed

lemma handleProcessResult_cong:
  assumes "pr_Action r = NodeActionContinue \<Longrightarrow>
      advanceVia f inst node (pr_BranchID r) (concludeNodeVisit env vst NodeVisitPassed (EmitEvents (pr_Events r) db))
      = advanceVia g inst node (pr_BranchID r) (concludeNodeVisit env vst NodeVisitPassed (EmitEvents (pr_Events r) db))"
  shows "handleProcessResult f env inst node vst r db = handleProcessResult g env inst node vst r db"
  using assms by (cases "pr_Action r") (simp_all add: handleProcessResult_def)

lemma evolves_graph:
  assumes "evolves env iid db db'" and "wf_store env db"
  shows "nodesOf vid db' = nodesOf vid db" "edgesOf vid db' = edgesOf vid db"
  using assms by (simp_all add: evolves_def store_step_def same_config_def nodesOf_def edgesOf_def)

lemma advance_target:
  assumes "compile vid db = Inr c" and "FindOutgoing c nid b = Inr e" and "cf_Nodes c (e_TargetNodeID e) = Some m"
  shows "(nid, n_ID m) \<in> wires (edgesOf vid db)" "m \<in> set (nodesOf vid db)"
proof -
  have m: "m \<in> set (db_nodes db)" "n_FlowVersionID m = vid" "n_ID m = e_TargetNodeID e"
    using compile_node_mem[OF assms(1,3)] by auto
  have "e \<in> set (cf_EdgesBySource c nid)"
    using assms(2) unfolding FindOutgoing_Inr by (cases b) (auto simp: filter_eq_Cons_iff)
  then have "e \<in> set (edgesOf vid db)" "e_SourceNodeID e = nid" by (auto simp: compile_edges[OF assms(1)] edgesOf_def)
  then show "(nid, n_ID m) \<in> wires (edgesOf vid db)" using m(3) by (force simp: wires_def)
  show "m \<in> set (nodesOf vid db)" using m by (simp add: nodesOf_def)
qed

lemma ProcessNode_fuel:
  assumes "enterable env inst db" and "sound_graph (nodesOf (i_FlowVersionID inst) db) (edgesOf (i_FlowVersionID inst) db)"
    and "node \<in> set (nodesOf (i_FlowVersionID inst) db)"
    and "card (ahead (edgesOf (i_FlowVersionID inst) db) (n_ID node)) \<le> k"
    and "card (ahead (edgesOf (i_FlowVersionID inst) db) (n_ID node)) \<le> k'"
  shows "ProcessNode k env db inst node = ProcessNode k' env db inst node"
  using assms
proof (induction k arbitrary: db node k')
  case 0
  then have "ahead (edgesOf (i_FlowVersionID inst) db) (n_ID node) = {}" using finite_ahead by simp
  then show ?case using ahead_self by blast
next
  case (Suc k)
  let ?vid = "i_FlowVersionID inst"
  have node: "node \<in> set (db_nodes db)" using Suc.prems(3) by (simp add: nodesOf_def)
  have "card (ahead (edgesOf ?vid db) (n_ID node)) > 0"
    using finite_ahead ahead_self[of "n_ID node"] by (auto simp: card_gt_0_iff)
  then obtain j where k': "k' = Suc j" using Suc.prems(5) by (cases k') auto
  obtain vst db1 where bv: "beginNodeVisit env inst node db = (vst, db1)" by fastforce
  let ?pc = "\<lparr>pc_Instance = inst, pc_Node = node, pc_Visit = vst, pc_FormData = NewFormData (i_FormData inst)\<rparr>"
  have "handleProcessResult (ProcessNode k env) env inst node vst r db2 = handleProcessResult (ProcessNode j env) env inst node vst r db2"
    if p: "Process env ?pc (n_Kind node) db1 = Inr (r, db2)" for r db2
  proof (rule handleProcessResult_cong)
    assume act: "pr_Action r = NodeActionContinue"
    let ?db3 = "concludeNodeVisit env vst NodeVisitPassed (EmitEvents (pr_Events r) db2)"
    note c = continue_enterable[OF Suc.prems(1) node bv p act]
    have "wf_store env db" using Suc.prems(1) by (simp add: enterable_def)
    note g = evolves_graph[OF c(2) this, of ?vid]
    have sg: "sound_graph (nodesOf ?vid ?db3) (edgesOf ?vid ?db3)" using Suc.prems(2) g by simp
    have "ProcessNode k env ?db3 inst m = ProcessNode j env ?db3 inst m"
      if "compile ?vid ?db3 = Inr cf" "FindOutgoing cf (n_ID node) (pr_BranchID r) = Inr e" "cf_Nodes cf (e_TargetNodeID e) = Some m" for cf e m
    proof -
      note t = advance_target[OF that]
      have "acyclic (wires (edgesOf ?vid db))" using Suc.prems(2) by (simp add: sound_graph_def)
      then have "card (ahead (edgesOf ?vid db) (n_ID m)) < card (ahead (edgesOf ?vid db) (n_ID node))"
        using t(1) g(2) by (intro ahead_shrinks) simp_all
      then show ?thesis using Suc.prems(4,5) k' g(2) by (intro Suc.IH[OF c(1) sg t(2)]) simp_all
    qed
    then show "advanceVia (ProcessNode k env) inst node (pr_BranchID r) ?db3 = advanceVia (ProcessNode j env) inst node (pr_BranchID r) ?db3"
      unfolding advanceVia_def by (auto intro!: bindE_cong)
  qed
  then show ?case unfolding k' by (auto simp: bv Let_def intro!: bindE_cong)
qed

text \<open>The limit plays no role for a version of at most a hundred nodes.\<close>

lemma depth_irrelevant:
  assumes "enterable env inst db" and sg: "sound_graph (nodesOf (i_FlowVersionID inst) db) (edgesOf (i_FlowVersionID inst) db)"
    and n: "node \<in> set (nodesOf (i_FlowVersionID inst) db)" and len: "length (nodesOf (i_FlowVersionID inst) db) \<le> maxNodeDepth"
  shows "ProcessNode (maxNodeDepth + k) env db inst node = ProcessNode maxNodeDepth env db inst node"
proof -
  have "wires (edgesOf (i_FlowVersionID inst) db)
      \<subseteq> n_ID ` set (nodesOf (i_FlowVersionID inst) db) \<times> n_ID ` set (nodesOf (i_FlowVersionID inst) db)"
    using sg by (simp add: sound_graph_def)
  from ahead_nodes[OF this n] len
  have "card (ahead (edgesOf (i_FlowVersionID inst) db) (n_ID node)) \<le> maxNodeDepth" by simp
  then show ?thesis by (intro ProcessNode_fuel[OF assms(1) sg n]) simp_all
qed

end
