(* ===== verification/Deployed_Nodes.thy ===== *)
theory Deployed_Nodes
  imports Design_Invariants Pass_Rule
begin

text \<open>
  What a deploy stores for a node.  The designer's payload may leave options out; \<open>ApplyTo\<close> fills in
  the defaults, and the checks of the payload then guarantee that the engine reads declared values
  only, and that the pass rule of a node always comes to a decision.
\<close>

definition task_options_valid :: "FlowNode \<Rightarrow> bool" where
  "task_options_valid n \<longleftrightarrow> ExecutionType_IsValid (n_ExecutionType n) \<and> EmptyAssigneeAction_IsValid (n_EmptyAssigneeAction n)
     \<and> TimeoutAction_IsValid (n_TimeoutAction n) \<and> ApprovalMethod_IsValid (n_ApprovalMethod n) \<and> PassRule_IsValid (n_PassRule n)"

definition approval_options_valid :: "FlowNode \<Rightarrow> bool" where
  "approval_options_valid n \<longleftrightarrow> SameApplicantAction_IsValid (n_SameApplicantAction n)
     \<and> ConsecutiveApproverAction_IsValid (n_ConsecutiveApproverAction n) \<and> RollbackType_IsValid (n_RollbackType n)
     \<and> RollbackDataStrategy_IsValid (n_RollbackDataStrategy n) \<and> list_all AddAssigneeType_IsValid (n_AddAssigneeTypes n)"

definition node_valid :: "FlowNode \<Rightarrow> bool" where
  "node_valid n \<longleftrightarrow> (case n_Kind n of
       NodeApproval \<Rightarrow> task_options_valid n \<and> approval_options_valid n
     | NodeHandle \<Rightarrow> task_options_valid n
     | k \<Rightarrow> validNodeKind k)"

lemma nodeOk_data:
  assumes "nodeOk s h dec d"
  shows "nd_Kind d = NodeApproval \<Longrightarrow> \<exists>a. dataOf dec d = ApprovalData a \<and> validateApprovalNodeData s h a = Inr ()"
    "nd_Kind d = NodeHandle \<Longrightarrow> \<exists>a. dataOf dec d = HandleData a \<and> validateHandleNodeData s a = Inr ()"
    "validNodeKind (nd_Kind d)"
proof -
  have p: "ParseData dec (nd_Kind d) (nd_Data d) = Inr (dataOf dec d)" and v: "validateNodeConfig s h (dataOf dec d) = Inr ()"
    using assms by (simp_all add: nodeOk_def)
  show "\<exists>a. dataOf dec d = ApprovalData a \<and> validateApprovalNodeData s h a = Inr ()" if "nd_Kind d = NodeApproval"
    using ParseData_kind(4)[OF p that] v by auto
  show "\<exists>a. dataOf dec d = HandleData a \<and> validateHandleNodeData s a = Inr ()" if "nd_Kind d = NodeHandle"
  proof -
    have "\<exists>a. dataOf dec d = HandleData a"
      using p unfolding that ParseData.simps bindE_Inr_iff by (metis Inr_inject)
    with v show ?thesis by auto
  qed
  show "validNodeKind (nd_Kind d)" using assms by (simp add: nodeOk_def)
qed

text \<open>An option that is left out or valid is valid once its valid default is filled in.\<close>

lemma cmpOr_valid: "x = zero \<or> P x \<Longrightarrow> P dflt \<Longrightarrow> P (cmpOr zero x dflt)"
  by (auto simp: cmpOr_def)

lemma validateTaskNodeData_options:
  assumes "validateTaskNodeData s d = Inr ()"
  shows "td_ExecutionType d = ExecutionOther [] \<or> ExecutionType_IsValid (td_ExecutionType d)"
    "td_EmptyAssigneeAction d = EmptyAssigneeOther [] \<or> EmptyAssigneeAction_IsValid (td_EmptyAssigneeAction d)"
    "td_TimeoutAction d = TimeoutActionOther [] \<or> TimeoutAction_IsValid (td_TimeoutAction d)"
  using assms unfolding validateTaskNodeData_def bindE_Inr_iff ensure_Inr by blast+

lemma validateApprovalNodeData_options:
  assumes "validateApprovalNodeData s h d = Inr ()"
  shows "validateTaskNodeData s (an_Task d) = Inr ()"
    "an_ApprovalMethod d = ApprovalMethodOther [] \<or> ApprovalMethod_IsValid (an_ApprovalMethod d)"
    "an_PassRule d = PassRuleOther [] \<or> PassRule_IsValid (an_PassRule d)"
    "validatePassThreshold h d = Inr ()"
    "an_SameApplicantAction d = SameApplicantOther [] \<or> SameApplicantAction_IsValid (an_SameApplicantAction d)"
    "an_ConsecutiveApproverAction d = ConsecutiveApproverOther [] \<or> ConsecutiveApproverAction_IsValid (an_ConsecutiveApproverAction d)"
    "an_RollbackType d = RollbackOther [] \<or> RollbackType_IsValid (an_RollbackType d)"
    "an_RollbackDataStrategy d = RollbackDataOther [] \<or> RollbackDataStrategy_IsValid (an_RollbackDataStrategy d)"
    "list_all AddAssigneeType_IsValid (an_AddAssigneeTypes d)"
  using assms unfolding validateApprovalNodeData_def bindE_Inr_iff checkAll_Inr ensure_Inr list_all_iff by (simp_all del: ensure_Inr)

lemma default_options_valid:
  "ExecutionType_IsValid ExecutionManual" "EmptyAssigneeAction_IsValid EmptyAssigneeAutoPass" "TimeoutAction_IsValid TimeoutActionNone"
  "ApprovalMethod_IsValid ApprovalParallel" "ApprovalMethod_IsValid ApprovalSequential" "PassRule_IsValid PassAll" "PassRule_IsValid PassAny"
  "SameApplicantAction_IsValid SameApplicantSelfApprove" "ConsecutiveApproverAction_IsValid ConsecutiveApproverNone"
  "RollbackType_IsValid RollbackPrevious" "RollbackDataStrategy_IsValid RollbackDataKeep"
  by simp_all

lemma applied_task_valid:
  assumes "validateTaskNodeData s d = Inr ()" and "ApprovalMethod_IsValid m" and "PassRule_IsValid r"
  shows "task_options_valid ((applyTaskNodeData d n)\<lparr>n_ApprovalMethod := m, n_PassRule := r\<rparr>)"
  unfolding task_options_valid_def applyTaskNodeData_def
  by (simp add: assms(2,3) cmpOr_valid[OF validateTaskNodeData_options(1)[OF assms(1)] default_options_valid(1)]
      cmpOr_valid[OF validateTaskNodeData_options(2)[OF assms(1)] default_options_valid(2)]
      cmpOr_valid[OF validateTaskNodeData_options(3)[OF assms(1)] default_options_valid(3)])

lemma storedNode_valid:
  assumes "nodeOk s h dec d"
  shows "node_valid (storedNode dec vid d)"
proof (cases "nd_Kind d")
  case NodeApproval
  then obtain a where a: "dataOf dec d = ApprovalData a" and v: "validateApprovalNodeData s h a = Inr ()"
    using nodeOk_data(1)[OF assms] by blast
  note opt = validateApprovalNodeData_options[OF v]
  have "task_options_valid (storedNode dec vid d)"
    using applied_task_valid[OF opt(1) cmpOr_valid[OF opt(2) default_options_valid(4)] cmpOr_valid[OF opt(3) default_options_valid(6)]]
    by (simp add: storedNode_def a task_options_valid_def)
  moreover have "approval_options_valid (storedNode dec vid d)"
    using cmpOr_valid[OF opt(5) default_options_valid(8)] cmpOr_valid[OF opt(6) default_options_valid(9)]
      cmpOr_valid[OF opt(7) default_options_valid(10)] cmpOr_valid[OF opt(8) default_options_valid(11)] opt(9)
    by (simp add: storedNode_def a approval_options_valid_def)
  ultimately show ?thesis by (simp add: node_valid_def NodeApproval)
next
  case NodeHandle
  then obtain a where a: "dataOf dec d = HandleData a" and "validateHandleNodeData s a = Inr ()"
    using nodeOk_data(2)[OF assms] by blast
  then have "validateTaskNodeData s (hn_Task a) = Inr ()" by (auto simp: validateHandleNodeData_def bindE_Inr_iff)
  from applied_task_valid[OF this default_options_valid(5,7)] have "task_options_valid (storedNode dec vid d)"
    by (simp add: storedNode_def a)
  then show ?thesis by (simp add: node_valid_def NodeHandle)
qed (use nodeOk_data(3)[OF assms] in \<open>simp_all add: node_valid_def validNodeKind_def\<close>)

lemma node_valid_id [simp]: "node_valid (n\<lparr>n_ID := i\<rparr>) = node_valid n"
  by (cases "n_Kind n") (simp_all add: node_valid_def task_options_valid_def approval_options_valid_def)

lemma storedNode_threshold:
  assumes "nodeOk s h dec d" and "isTaskKind (nd_Kind d)"
  shows "threshold_ok (n_PassRule (storedNode dec vid d)) (buildPassRuleContext h (storedNode dec vid d) ts)"
proof (cases "nd_Kind d = NodeApproval")
  case True
  then obtain a where a: "dataOf dec d = ApprovalData a" and v: "validateApprovalNodeData s h a = Inr ()"
    using nodeOk_data(1)[OF assms(1)] by blast
  have "validatePassThreshold h a = Inr ()" by (rule validateApprovalNodeData_options(4)[OF v])
  then show ?thesis
    by (cases "an_PassRule a") (auto simp: storedNode_def a validatePassThreshold_def cmpOr_def buildPassRuleContext_eq Let_def)
next
  case False
  then obtain a where "dataOf dec d = HandleData a" using nodeOk_data(2)[OF assms(1)] assms(2) by (auto simp: isTaskKind_def)
  then show ?thesis by (simp add: storedNode_def)
qed

lemma node_valid_rule: "node_valid n \<Longrightarrow> isTaskKind (n_Kind n) \<Longrightarrow> PassRule_IsValid (n_PassRule n)"
  by (auto simp: node_valid_def isTaskKind_def task_options_valid_def)

lemma deploy_added_def:
  assumes "DeployFlow_Handle env dn cmd db = Inr (version, db')" and "n \<in> set (db_nodes db')" and "n \<notin> set (db_nodes db)"
  obtains d i planned where "validateDeploy env dn cmd = Inr planned" "d \<in> set (fd_Nodes (dp_FlowDefinition cmd))"
    "nodeOk (dn_service dn) (env_inexactFloat64 env) (dn_decoder dn) d"
    "n = (storedNode (dn_decoder dn) (fv_ID version) d)\<lparr>n_ID := i\<rparr>"
proof -
  let ?def = "dp_FlowDefinition cmd" and ?dec = "dn_decoder dn"
  obtain planned flow bb pns nodes edges as ccs evs where pl: "validateDeploy env dn cmd = Inr planned"
    and "loadDeployFlow (dp_FlowID cmd) db = Inr (flow, bb)" and "version = deployedVersion env cmd planned bb db"
    and pns: "mapE (nodeRow (fv_ID version) (pl_nodeData planned)) (fd_Nodes ?def) = Inr pns"
    and nodes: "nodes = numbered env (map fst pns) (Suc (db_next_id db))"
    and "mapE (edgeRow (fv_ID version) (map_of (rev (map (\<lambda>n. (n_Key n, n_ID n)) nodes)))) (fd_Edges ?def) = Inr edges"
    and db': "db' = EmitEvents evs (db\<lparr>db_versions := db_versions db @ [version], db_nodes := db_nodes db @ nodes,
       db_node_assignees := db_node_assignees db @ as, db_node_ccs := db_node_ccs db @ ccs,
       db_edges := db_edges db @ numberedEdges env edges (Suc (db_next_id db + length nodes)),
       db_next_id := Suc (db_next_id db + length nodes + length edges)\<rparr>)"
    by (rule DeployFlow_run[OF assms(1)])
  note wfd = validateDeploy_wellFormed[OF pl]
  have w: "distinct (map nd_ID (fd_Nodes ?def))" "\<forall>d \<in> set (fd_Nodes ?def). nodeOk (dn_service dn) (env_inexactFloat64 env) ?dec d"
    using wfd(1) by (auto simp: wellFormed_def Let_def)
  have st: "map fst pns = map (storedNode ?dec (fv_ID version)) (fd_Nodes ?def)" by (rule nodeRows_eq[OF w(1) wfd(2) pns])
  have "n \<in> set nodes" using assms(2,3) by (simp add: db' EmitEvents_def)
  then obtain m i where "(m, i) \<in> set (zip (map (storedNode ?dec (fv_ID version)) (fd_Nodes ?def)) (freshIds env (Suc (db_next_id db)) (length (fd_Nodes ?def))))"
    and n: "n = m\<lparr>n_ID := i\<rparr>"
    unfolding nodes st numbered_def by auto
  then obtain d where "d \<in> set (fd_Nodes ?def)" "m = storedNode ?dec (fv_ID version) d" by (fastforce dest: set_zip_leftD)
  with that n w(2) pl show thesis by blast
qed

lemma deploy_added_node:
  assumes "DeployFlow_Handle env dn cmd db = Inr (version, db')" and "n \<in> set (db_nodes db')" and "n \<notin> set (db_nodes db)"
  obtains d i where "nodeOk (dn_service dn) (env_inexactFloat64 env) (dn_decoder dn) d"
    "n = (storedNode (dn_decoder dn) (fv_ID version) d)\<lparr>n_ID := i\<rparr>"
  by (rule deploy_added_def[OF assms]) (rule that)

section \<open>What the engine reads back\<close>

text \<open>
  The rows of a deployed version are the nodes of the definition under fresh ids, each with its
  payload applied, and the edges of the definition between those ids.
\<close>

lemma numbered_shown:
  assumes "shows_definition f dec def (numbered env (map (storedNode dec vid) (fd_Nodes def)) k) es"
  shows "numbered env (map (storedNode dec vid) (fd_Nodes def)) k
     = map (\<lambda>d. (storedNode dec vid d)\<lparr>n_ID := f (nd_ID d)\<rparr>) (fd_Nodes def)"
proof (rule nth_equalityI)
  let ?ns = "numbered env (map (storedNode dec vid) (fd_Nodes def)) k"
  show len: "length ?ns = length (map (\<lambda>d. (storedNode dec vid d)\<lparr>n_ID := f (nd_ID d)\<rparr>) (fd_Nodes def))"
    by (simp add: numbered_def freshIds_def)
  fix i assume "i < length ?ns"
  then have i: "i < length (fd_Nodes def)" using len by simp
  have "map nview ?ns ! i = (f (nd_ID (fd_Nodes def ! i)), nd_Kind (fd_Nodes def ! i), branchesIn (dataOf dec (fd_Nodes def ! i)))"
    using assms i by (simp add: shows_definition_def)
  then have id: "n_ID (?ns ! i) = f (nd_ID (fd_Nodes def ! i))" using i len by (simp add: nview_def)
  have row: "?ns ! i = (storedNode dec vid (fd_Nodes def ! i))\<lparr>n_ID := freshIds env k (length (fd_Nodes def)) ! i\<rparr>"
    using i by (simp add: numbered_def freshIds_def)
  then show "?ns ! i = map (\<lambda>d. (storedNode dec vid d)\<lparr>n_ID := f (nd_ID d)\<rparr>) (fd_Nodes def) ! i"
    using id i by simp
qed

lemma deploy_stored:
  assumes run: "DeployFlow_Handle env dn cmd db = Inr (version, db')" and ok: "graphs_ok db" and wf: "wf_store env db"
  obtains f where "inj_on f (nd_ID ` set (fd_Nodes (dp_FlowDefinition cmd)))"
    "nodesOf (fv_ID version) db' = map (\<lambda>d. (storedNode (dn_decoder dn) (fv_ID version) d)\<lparr>n_ID := f (nd_ID d)\<rparr>)
       (fd_Nodes (dp_FlowDefinition cmd))"
    "map eview (edgesOf (fv_ID version) db') = map (\<lambda>d. (f (ed_Source d), f (ed_Target d), ed_SourceHandle d))
       (fd_Edges (dp_FlowDefinition cmd))"
    "edgesOk (dp_FlowDefinition cmd)" "fd_Nodes (dp_FlowDefinition cmd) \<noteq> []"
proof -
  let ?def = "dp_FlowDefinition cmd" and ?dec = "dn_decoder dn"
  obtain planned flow bb pns nodes edges as ccs evs where pl: "validateDeploy env dn cmd = Inr planned"
    and "loadDeployFlow (dp_FlowID cmd) db = Inr (flow, bb)" and v: "version = deployedVersion env cmd planned bb db"
    and pns: "mapE (nodeRow (fv_ID version) (pl_nodeData planned)) (fd_Nodes ?def) = Inr pns"
    and nodes: "nodes = numbered env (map fst pns) (Suc (db_next_id db))"
    and edges: "mapE (edgeRow (fv_ID version) (map_of (rev (map (\<lambda>n. (n_Key n, n_ID n)) nodes)))) (fd_Edges ?def) = Inr edges"
    and db': "db' = EmitEvents evs (db\<lparr>db_versions := db_versions db @ [version], db_nodes := db_nodes db @ nodes,
       db_node_assignees := db_node_assignees db @ as, db_node_ccs := db_node_ccs db @ ccs,
       db_edges := db_edges db @ numberedEdges env edges (Suc (db_next_id db + length nodes)),
       db_next_id := Suc (db_next_id db + length nodes + length edges)\<rparr>)"
    by (rule DeployFlow_run[OF run])
  note wfd = validateDeploy_wellFormed[OF pl]
  have w: "distinct (map nd_ID (fd_Nodes ?def))" "edgesOk ?def" "length (idsOf ((=) NodeStart) (fd_Nodes ?def)) = 1"
    using wfd(1) by (simp_all add: wellFormed_def Let_def)
  then have ne: "fd_Nodes ?def \<noteq> []" by (auto simp: idsOf_def)
  have st: "map fst pns = map (storedNode ?dec (fv_ID version)) (fd_Nodes ?def)" by (rule nodeRows_eq[OF w(1) wfd(2) pns])
  have inj: "inj (env_new_id env)" using wf by (simp add: wf_store_def)
  let ?es = "numberedEdges env edges (Suc (db_next_id db + length nodes))"
  obtain f where sh: "shows_definition f ?dec ?def nodes ?es" using deploy_shows[OF inj w(1) st nodes edges] by blast
  have rows: "nodes = map (\<lambda>d. (storedNode ?dec (fv_ID version) d)\<lparr>n_ID := f (nd_ID d)\<rparr>) (fd_Nodes ?def)"
    using numbered_shown sh unfolding nodes st by blast
  have new: "fv_ID version \<notin> fv_ID ` set (db_versions db)"
    using wf_store_unused[OF wf order_refl] by (simp add: v deployedVersion_def used_ids_def)
  then have none: "filter (\<lambda>n. n_FlowVersionID n = fv_ID version) (db_nodes db) = []"
      "filter (\<lambda>e. e_FlowVersionID e = fv_ID version) (db_edges db) = []"
    unfolding filter_empty_conv using ok[unfolded graphs_ok_def] by (metis image_subset_iff)+
  have "\<forall>e \<in> set ?es. e_FlowVersionID e = fv_ID version"
    using numberedEdges_view(2) edgeRows_view(2)[OF edges] by blast
  then have e: "edgesOf (fv_ID version) db' = ?es" using none by (simp add: edgesOf_def db' EmitEvents_def filter_all)
  have n: "nodesOf (fv_ID version) db' = nodes"
    using none by (simp add: nodesOf_def db' EmitEvents_def rows filter_all)
  show thesis
    by (rule that[of f]) (use sh n e rows w ne in \<open>simp_all add: shows_definition_def\<close>)
qed

lemma deploy_compiled:
  assumes run: "DeployFlow_Handle env dn cmd db = Inr (version, db')" and ok: "graphs_ok db" and wf: "wf_store env db"
    and d': "distinct (map n_ID (db_nodes db'))"
  obtains c f where "compile (fv_ID version) db' = Inr c" "inj_on f (nd_ID ` set (fd_Nodes (dp_FlowDefinition cmd)))"
    "dom (cf_Nodes c) = f ` nd_ID ` set (fd_Nodes (dp_FlowDefinition cmd))"
    "\<forall>d \<in> set (fd_Nodes (dp_FlowDefinition cmd)).
       cf_Nodes c (f (nd_ID d)) = Some ((storedNode (dn_decoder dn) (fv_ID version) d)\<lparr>n_ID := f (nd_ID d)\<rparr>)
       \<and> map (\<lambda>e. (e_TargetNodeID e, e_SourceHandle e)) (cf_EdgesBySource c (f (nd_ID d)))
         = map (\<lambda>e. (f (ed_Target e), ed_SourceHandle e)) (outsOf (fd_Edges (dp_FlowDefinition cmd)) (nd_ID d))"
proof -
  let ?def = "dp_FlowDefinition cmd" and ?vid = "fv_ID version" and ?dec = "dn_decoder dn"
  obtain f where inj: "inj_on f (nd_ID ` set (fd_Nodes ?def))"
    and ns: "nodesOf ?vid db' = map (\<lambda>d. (storedNode ?dec ?vid d)\<lparr>n_ID := f (nd_ID d)\<rparr>) (fd_Nodes ?def)"
    and es: "map eview (edgesOf ?vid db') = map (\<lambda>d. (f (ed_Source d), f (ed_Target d), ed_SourceHandle d)) (fd_Edges ?def)"
    and eok: "edgesOk ?def" and ne: "fd_Nodes ?def \<noteq> []"
    by (rule deploy_stored[OF run ok wf])
  have "nodesOf ?vid db' \<noteq> []" using ns ne by simp
  then obtain c where c: "compile ?vid db' = Inr c" by (auto simp: compile_def Let_def nodesOf_def)
  have found: "cf_Nodes c (f (nd_ID d)) = Some ((storedNode ?dec ?vid d)\<lparr>n_ID := f (nd_ID d)\<rparr>)" if "d \<in> set (fd_Nodes ?def)" for d
  proof -
    have "(storedNode ?dec ?vid d)\<lparr>n_ID := f (nd_ID d)\<rparr> \<in> set (nodesOf ?vid db')" unfolding ns using that by simp
    from compile_node_found[OF c d' this] show ?thesis by simp
  qed
  have "dom (cf_Nodes c) \<subseteq> f ` nd_ID ` set (fd_Nodes ?def)"
  proof
    fix x assume "x \<in> dom (cf_Nodes c)"
    then obtain n where "cf_Nodes c x = Some n" by blast
    from compile_node_mem[OF c this] have "n \<in> set (nodesOf ?vid db')" "n_ID n = x" by (auto simp: nodesOf_def)
    then show "x \<in> f ` nd_ID ` set (fd_Nodes ?def)" unfolding ns by auto
  qed
  then have dom: "dom (cf_Nodes c) = f ` nd_ID ` set (fd_Nodes ?def)" using found by auto
  have outs: "map (\<lambda>e. (e_TargetNodeID e, e_SourceHandle e)) (cf_EdgesBySource c (f (nd_ID d)))
      = map (\<lambda>e. (f (ed_Target e), ed_SourceHandle e)) (outsOf (fd_Edges ?def) (nd_ID d))" if d: "d \<in> set (fd_Nodes ?def)" for d
  proof -
    have src: "e \<in> set (fd_Edges ?def) \<Longrightarrow> ed_Source e \<in> nd_ID ` set (fd_Nodes ?def)" for e
      using eok by (auto simp: edgesOk_def links_def)
    have "cf_EdgesBySource c (f (nd_ID d)) = outgoing (edgesOf ?vid db') (f (nd_ID d))"
      using compile_edges[OF c] by (simp add: outgoing_def edgesOf_def conj_commute)
    then have "map (\<lambda>e. (e_TargetNodeID e, e_SourceHandle e)) (cf_EdgesBySource c (f (nd_ID d)))
        = map snd (filter (\<lambda>v. fst v = f (nd_ID d)) (map eview (edgesOf ?vid db')))"
      by (simp add: outgoing_def eview_def filter_map comp_def)
    also have "\<dots> = map (\<lambda>e. (f (ed_Target e), ed_SourceHandle e)) (filter (\<lambda>e. f (ed_Source e) = f (nd_ID d)) (fd_Edges ?def))"
      unfolding es by (simp add: filter_map comp_def)
    also have "filter (\<lambda>e. f (ed_Source e) = f (nd_ID d)) (fd_Edges ?def) = outsOf (fd_Edges ?def) (nd_ID d)"
      unfolding outsOf_def using inj_on_eq_iff[OF inj src, of _ "nd_ID d"] d by (intro filter_cong) simp_all
    finally show ?thesis .
  qed
  show thesis by (rule that[OF c inj dom]) (use found outs in blast)
qed

end
