(* ===== verification/Flow_Cache.thy ===== *)
theory Flow_Cache
  imports Approval_System
begin

text \<open>
  The cache of compiled flows (\<^verbatim>\<open>FlowCache\<close> of \<^verbatim>\<open>engine/compiled_flow.go\<close>).  Elsewhere in the development
  the engine compiles a version whenever it needs it; this theory shows that the cache makes no
  difference: whatever requests are handled and whatever the cache evicts, an entry is what
  compiling the version now would give.  The backing cache (\<^verbatim>\<open>cache.Cache\<close>) is a map that may lose
  entries at any time, by eviction or invalidation, and returns nothing it was not given.
\<close>

section \<open>The cache\<close>

type_synonym FlowCache = "string \<rightharpoonup> CompiledFlow"

definition FlowCache_Get :: "FlowCache \<Rightarrow> string \<Rightarrow> db \<Rightarrow> error + (CompiledFlow \<times> FlowCache)" where
  "FlowCache_Get cache versionID db =
     (case cache versionID of
        Some c \<Rightarrow> Inr (c, cache)
      | None \<Rightarrow> bindE (compile versionID db) (\<lambda>c. Inr (c, cache(versionID \<mapsto> c))))"

definition FlowCache_Invalidate :: "FlowCache \<Rightarrow> string \<Rightarrow> FlowCache" where
  "FlowCache_Invalidate cache versionID = cache(versionID := None)"

text \<open>The engine with its cache: requests, lookups, and the loss of entries.\<close>

inductive cached_step :: "(nat \<Rightarrow> string) \<Rightarrow> FlowCache \<times> db \<Rightarrow> FlowCache \<times> db \<Rightarrow> bool" for ids where
  request: "step ids db db' \<Longrightarrow> cached_step ids (cache, db) (cache, db')"
| lookup: "FlowCache_Get cache vid db = Inr (c, cache') \<Longrightarrow> cached_step ids (cache, db) (cache', db)"
| invalidate: "cached_step ids (cache, db) (FlowCache_Invalidate cache vid, db)"

section \<open>A stored version never changes\<close>

lemma DeployFlow_rows:
  assumes "DeployFlow_Handle env dn cmd db = Inr (version, db')" and wf: "wf_store env db"
  obtains ns es where "db_nodes db' = db_nodes db @ ns" "db_edges db' = db_edges db @ es"
    "fv_ID version \<notin> fv_ID ` set (db_versions db)"
    "\<forall>n \<in> set ns. n_FlowVersionID n = fv_ID version" "\<forall>e \<in> set es. e_FlowVersionID e = fv_ID version"
proof -
  let ?def = "dp_FlowDefinition cmd" and ?dec = "dn_decoder dn"
  obtain planned flow bb pns nodes edges as ccs evs where pl: "validateDeploy env dn cmd = Inr planned"
    and "loadDeployFlow (dp_FlowID cmd) db = Inr (flow, bb)" and v: "version = deployedVersion env cmd planned bb db"
    and pns: "mapE (nodeRow (fv_ID version) (pl_nodeData planned)) (fd_Nodes ?def) = Inr pns"
    and nodes: "nodes = numbered env (map fst pns) (Suc (db_next_id db))"
    and edges: "mapE (edgeRow (fv_ID version) (map_of (rev (map (\<lambda>n. (n_Key n, n_ID n)) nodes)))) (fd_Edges ?def) = Inr edges"
    and db': "db' = EmitEvents evs (db\<lparr>db_versions := db_versions db @ [version], db_nodes := db_nodes db @ nodes,
       db_node_assignees := db_node_assignees db @ as, db_node_ccs := db_node_ccs db @ ccs,
       db_edges := db_edges db @ numberedEdges env edges (Suc (db_next_id db + length nodes)),
       db_next_id := Suc (db_next_id db + length nodes + length edges)\<rparr>)"
    by (rule DeployFlow_run[OF assms(1)])
  note wfd = validateDeploy_wellFormed[OF pl]
  have "distinct (map nd_ID (fd_Nodes ?def))" using wfd(1) by (simp add: wellFormed_def Let_def)
  then have st: "map fst pns = map (storedNode ?dec (fv_ID version)) (fd_Nodes ?def)" by (rule nodeRows_eq[OF _ wfd(2) pns])
  have "\<forall>n \<in> set nodes. n_FlowVersionID n = fv_ID version"
    unfolding nodes st numbered_def by (fastforce dest: set_zip_leftD)
  moreover have "\<forall>e \<in> set (numberedEdges env edges (Suc (db_next_id db + length nodes))). e_FlowVersionID e = fv_ID version"
    using numberedEdges_view(2) edgeRows_view(2)[OF edges] by blast
  moreover have "fv_ID version \<notin> fv_ID ` set (db_versions db)"
    using wf_store_unused[OF wf order_refl] by (simp add: v deployedVersion_def used_ids_def)
  ultimately show thesis by (intro that) (simp_all add: db' EmitEvents_def)
qed

lemma compile_append:
  assumes "db_nodes db' = db_nodes db @ ns" "db_edges db' = db_edges db @ es"
    and "\<forall>n \<in> set ns. n_FlowVersionID n \<noteq> vid" "\<forall>e \<in> set es. e_FlowVersionID e \<noteq> vid"
  shows "compile vid db' = compile vid db"
proof -
  have "filter (\<lambda>n. n_FlowVersionID n = vid) ns = []" "filter (\<lambda>e. e_FlowVersionID e = vid) es = []"
    using assms(3,4) by (auto simp: filter_empty_conv)
  then show ?thesis by (simp add: compile_def assms(1,2))
qed

lemma manage_compile:
  assumes run: "manage env dn d db = Inr db'" and wf: "wf_store env db" and vid: "vid \<in> fv_ID ` set (db_versions db)"
  shows "compile vid db' = compile vid db"
proof (cases d)
  case (CreateFlow cmd)
  then obtain flow where "CreateFlow_Handle env dn cmd db = Inr (flow, db')" using run by (auto simp: map_sum_snd_Inr)
  note r = CreateFlow_run(11)[OF this]
  show ?thesis by (rule compile_cong) (subst r, simp add: EmitEvents_def)+
next
  case (UpdateFlow flowID st)
  then obtain flow where "UpdateFlow_Handle dn flowID st db = Inr (flow, db')" using run by (auto simp: map_sum_snd_Inr)
  then show ?thesis by (rule UpdateFlow_run) (auto simp: EmitEvents_def intro: compile_cong)
next
  case (DeployFlow cmd)
  then obtain version where "DeployFlow_Handle env dn cmd db = Inr (version, db')" using run by (auto simp: map_sum_snd_Inr)
  then show ?thesis by (rule DeployFlow_rows[OF _ wf]) (use vid in \<open>auto intro!: compile_append\<close>)
next
  case (ToggleFlowActive flowID isActive)
  then have "ToggleFlowActive_Handle flowID isActive db = Inr db'" using run by simp
  then show ?thesis by (rule Toggle_run) (auto simp: EmitEvents_def intro: compile_cong)
next
  case (PublishVersion versionID operatorID)
  then have "PublishVersion_Handle env versionID operatorID db = Inr db'" using run by simp
  then show ?thesis
    by (rule PublishVersion_run) (auto simp: EmitEvents_def form_storage_added_def intro!: compile_cong)
qed

lemma compile_stored:
  assumes "graphs_ok db" and "compile vid db = Inr c"
  shows "vid \<in> fv_ID ` set (db_versions db)"
proof -
  obtain n where "n \<in> set (db_nodes db)" "n_FlowVersionID n = vid"
    using assms(2) by (auto simp: compile_def Let_def filter_empty_conv split: if_splits)
  then show ?thesis using assms(1) unfolding graphs_ok_def by blast
qed

lemma step_compile:
  assumes "step ids db db'" and con: "consistent ids db" and ok: "design_ok db" and c: "compile vid db = Inr c"
  shows "compile vid db' = Inr c"
  using assms(1)
proof (cases rule: step_cases)
  case (2 env r)
  have "wf_store env db" using con 2(1) by (auto simp: consistent_def)
  then obtain iid where "commits env iid db db'" using execute_commits[OF 2(2)] by blast
  then have "same_config db db'" using con 2(1) by (auto simp: commits_def consistent_def store_step_def)
  then show ?thesis using c compile_cong[of db' db vid] by (simp add: same_config_def)
next
  case (3 env dn d)
  have "wf_store env db" using con 3(1) by (auto simp: consistent_def)
  moreover have "vid \<in> fv_ID ` set (db_versions db)" using compile_stored[OF _ c] ok by (simp add: design_ok_def)
  ultimately show ?thesis using manage_compile[OF 3(2)] c by simp
qed (use c in simp)

section \<open>The cache is transparent\<close>

definition coherent :: "FlowCache \<Rightarrow> db \<Rightarrow> bool" where
  "coherent cache db \<longleftrightarrow> (\<forall>vid c. cache vid = Some c \<longrightarrow> compile vid db = Inr c)"

lemma coherent_Get:
  assumes "coherent cache db"
  shows "map_sum id fst (FlowCache_Get cache vid db) = compile vid db"
    and "FlowCache_Get cache vid db = Inr (c, cache') \<Longrightarrow> coherent cache' db"
proof -
  show "map_sum id fst (FlowCache_Get cache vid db) = compile vid db"
  proof (cases "cache vid")
    case None
    then show ?thesis by (cases "compile vid db") (simp_all add: FlowCache_Get_def)
  next
    case (Some c)
    then show ?thesis using assms by (simp add: FlowCache_Get_def coherent_def)
  qed
  show "coherent cache' db" if "FlowCache_Get cache vid db = Inr (c, cache')"
    using that assms by (auto simp: FlowCache_Get_def coherent_def split: option.splits if_splits)
qed

interpretation cached: preserved "cached_step ids"
  "\<lambda>s. consistent ids (snd s) \<and> design_ok (snd s) \<and> coherent (fst s) (snd s)" for ids
proof
  fix s t
  assume inv: "consistent ids (snd s) \<and> design_ok (snd s) \<and> coherent (fst s) (snd s)" and "cached_step ids s t"
  from this(2) show "consistent ids (snd t) \<and> design_ok (snd t) \<and> coherent (fst t) (snd t)"
  proof (cases rule: cached_step.cases)
    case (request db db' cache)
    have "consistent ids db'" "design_ok db'" using definitions.keeps[of ids db db'] inv request by simp_all
    moreover have "coherent cache db'"
      unfolding coherent_def using step_compile[OF request(3)] inv request(1) by (simp add: coherent_def)
    ultimately show ?thesis using request by simp
  next
    case (lookup cache vid db c cache')
    then show ?thesis using inv coherent_Get(2)[of cache db vid c cache'] by simp
  next
    case (invalidate cache db vid)
    then show ?thesis using inv by (simp add: coherent_def FlowCache_Invalidate_def)
  qed
qed

end
