(* ===== verification/Flow_Properties.thy ===== *)
theory Flow_Properties
  imports Example_Design Flow_Safety Deployed_Nodes Flow_Cache
begin

text \<open>
  The properties of flow definitions, from the check of a definition over its deployment to the
  rows the engine runs on.  The runs start from a store without flows, so that every flow, version
  and node of a later store was put there by the commands.
\<close>

section \<open>The check of a definition\<close>

text \<open>
  C16: deploy-time validation accepts exactly the well-formed definitions: unique nodes with valid
  payloads, one start and at least one end, rollback targets that are other task nodes, edges
  between existing nodes with the out-degree of their kind, one edge per branch of a condition, no
  cycle, every node reachable from the start and leading to an end.
\<close>

theorem deploy_accepts_well_formed:
  "(\<exists>parsed. ValidateFlowDefinition s h dec def = Inr parsed) \<longleftrightarrow> wellFormed s h dec def"
  by (simp add: ValidateFlowDefinition_iff)

text \<open>
  C27: the two graph searches end on every graph and are right: the depth-first search reports a
  cycle exactly when there is one, and the breadth-first search collects each node that is
  reachable from the starts exactly once.
\<close>

theorem graph_searches_total:
  assumes "\<forall>x. set (adj x) \<subseteq> set nodes" and "\<forall>x. x \<notin> set nodes \<longrightarrow> adj x = []" and "set starts \<subseteq> set nodes"
  shows "detectCycle nodes adj = Some (\<not> acyclic (edge_rel adj))
     \<and> (\<exists>w. collectReachable adj starts = Some w \<and> distinct w \<and> set w = (edge_rel adj)\<^sup>* `` set starts)"
  using assms detectCycle_spec[of adj nodes] collectReachable_spec[of adj nodes starts] by blast

theorem graph_searches_total_witness:
  "detectCycle [''a'', ''b''] (\<lambda>x. if x = ''a'' then [''b''] else [])
     = Some (\<not> acyclic (edge_rel (\<lambda>x. if x = ''a'' then [''b''] else [])))
   \<and> (\<exists>w. collectReachable (\<lambda>x. if x = ''a'' then [''b''] else []) [''a''] = Some w \<and> distinct w
        \<and> set w = (edge_rel (\<lambda>x. if x = ''a'' then [''b''] else []))\<^sup>* `` {''a''})"
proof -
  let ?adj = "\<lambda>x. if x = ''a'' then [''b''] else []"
  have "\<forall>x. set (?adj x) \<subseteq> set [''a'', ''b'']" "\<forall>x. x \<notin> set [''a'', ''b''] \<longrightarrow> ?adj x = []" "set [''a''] \<subseteq> set [''a'', ''b'']"
    by auto
  from graph_searches_total[OF this] show ?thesis by simp
qed

section \<open>Deployed rows\<close>

lemma run_from_blank:
  assumes "blank_store ids db0" and "(step ids)\<^sup>*\<^sup>* db0 db"
  shows "consistent ids db" "design_ok db"
  using run_consistent[OF assms(2)] run_design_ok[OF assms(2)] blank_design_ok[OF assms(1)] fresh_consistent assms(1)
  by (auto simp: blank_store_def)



text \<open>
  C29: a deployed node holds declared values only.  Every option the payload leaves out has got its
  default, and every option it sets was checked, so that each row a deploy adds carries valid
  enumeration values for its kind.
\<close>

theorem stored_nodes_valid:
  assumes "DeployFlow_Handle env dn cmd db = Inr (version, db')"
    and "n \<in> set (db_nodes db')" and "n \<notin> set (db_nodes db)"
  shows "node_valid n"
proof -
  obtain d i where "nodeOk (dn_service dn) (env_inexactFloat64 env) (dn_decoder dn) d"
    and n: "n = (storedNode (dn_decoder dn) (fv_ID version) d)\<lparr>n_ID := i\<rparr>"
    by (rule deploy_added_node[OF assms])
  from storedNode_valid[OF this(1)] show ?thesis by (simp add: n)
qed

text \<open>The approval node of the example.\<close>

definition designNode :: FlowNode where
  "designNode = db_nodes deployedStore ! 1"

lemma design_deployed: "\<exists>version. DeployFlow_Handle designEnv designHost designDeploy createdStore = Inr (version, deployedStore)"
  using deployed_run by (auto simp: map_sum_snd_Inr)

lemma designNode_facts:
  "designNode \<in> set (db_nodes deployedStore)" "designNode \<notin> set (db_nodes createdStore)" "n_Kind designNode = NodeApproval"
proof -
  have c: "map n_Kind (db_nodes deployedStore) = [NodeStart, NodeApproval, NodeEnd]" "db_nodes createdStore = []"
    using design_checks(1) by (auto simp: checkDeployed_def)
  have len: "1 < length (db_nodes deployedStore)" using arg_cong[OF c(1), of length] by simp
  then show "designNode \<in> set (db_nodes deployedStore)" unfolding designNode_def by (rule nth_mem)
  show "designNode \<notin> set (db_nodes createdStore)" by (simp add: c(2))
  show "n_Kind designNode = NodeApproval" using arg_cong[OF c(1), of "\<lambda>xs. xs ! 1"] len by (simp add: designNode_def)
qed

theorem stored_nodes_valid_witness: "node_valid designNode"
proof -
  obtain version where "DeployFlow_Handle designEnv designHost designDeploy createdStore = Inr (version, deployedStore)"
    using design_deployed by blast
  from stored_nodes_valid[OF this designNode_facts(1,2)] show ?thesis .
qed

text \<open>
  C19: a deployed approval or handle node is never stuck.  Whatever the designer left out or chose,
  once all tasks of a non-empty round at the node are final, its pass rule passes or rejects.
\<close>

theorem deployed_node_decides:
  assumes "DeployFlow_Handle env dn cmd db = Inr (version, db')"
    and "n \<in> set (db_nodes db')" and "n \<notin> set (db_nodes db)" and "n_Kind n = NodeApproval \<or> n_Kind n = NodeHandle"
    and "ts \<noteq> []" and "\<forall>t \<in> set ts. TaskStatus_IsFinal (t_Status t)"
  shows "\<exists>r. evaluatePassRule (env_inexactFloat64 env) n ts = Inr r \<and> r \<noteq> PassRulePending"
proof -
  let ?h = "env_inexactFloat64 env"
  obtain d i where ok: "nodeOk (dn_service dn) ?h (dn_decoder dn) d"
    and n: "n = (storedNode (dn_decoder dn) (fv_ID version) d)\<lparr>n_ID := i\<rparr>"
    by (rule deploy_added_node[OF assms(1-3)])
  have k: "isTaskKind (nd_Kind d)" using assms(4) by (simp add: n isTaskKind_def)
  have "node_valid n" using storedNode_valid[OF ok] by (simp add: n)
  from node_valid_rule[OF this] have "PassRule_IsValid (n_PassRule n)" using k by (simp add: n)
  moreover have "threshold_ok (n_PassRule n) (buildPassRuleContext ?h n ts)"
    using storedNode_threshold[OF ok k, of "fv_ID version" ts] by (simp add: n buildPassRuleContext_eq)
  ultimately show ?thesis using assms(5,6) by (intro evaluate_decides) simp_all
qed

theorem deployed_node_decides_witness:
  "\<exists>r. evaluatePassRule (\<lambda>x. x) designNode [exampleTask ''alice'' 1 TaskApproved, exampleTask ''bob'' 2 TaskTransferred] = Inr r
     \<and> r \<noteq> PassRulePending"
proof -
  obtain version where "DeployFlow_Handle designEnv designHost designDeploy createdStore = Inr (version, deployedStore)"
    using design_deployed by blast
  from deployed_node_decides[OF this designNode_facts(1,2),
      of "[exampleTask ''alice'' 1 TaskApproved, exampleTask ''bob'' 2 TaskTransferred]"]
  show ?thesis using designNode_facts(3) by (simp add: exampleTask_def TaskStatus_IsFinal_def designEnv_def exampleEnv_def)
qed

section \<open>The graph the engine runs on\<close>

text \<open>
  C15: the engine never gets lost in a deployed version.  Every version of a store that was built by
  the commands compiles, has its start node, and at each of its nodes the engine finds a next node
  of the same version: along the one edge of an ordinary node, along the edge of whichever branch a
  condition node selects.
\<close>

theorem deployed_flow_runs:
  assumes "blank_store ids db0" and "(step ids)\<^sup>*\<^sup>* db0 db" and "v \<in> set (db_versions db)"
  shows "\<exists>c start. compile (fv_ID v) db = Inr c \<and> cf_StartNode c = Some start \<and> n_Kind start = NodeStart
     \<and> (\<forall>n \<in> set (db_nodes db). \<forall>branch. n_FlowVersionID n = fv_ID v \<and> n_Kind n \<noteq> NodeEnd
          \<and> (if n_Kind n = NodeCondition then branch \<in> Some ` b_ID ` set (n_Branches n) else branch = None) \<longrightarrow>
          (\<exists>e m. FindOutgoing c (n_ID n) branch = Inr e \<and> cf_Nodes c (e_TargetNodeID e) = Some m \<and> n_FlowVersionID m = fv_ID v))"
proof -
  note inv = run_from_blank[OF assms(1,2)]
  have sg: "sound_graph (nodesOf (fv_ID v) db) (edgesOf (fv_ID v) db)"
    using inv(2) assms(3) by (simp add: design_ok_def graphs_ok_def)
  have "wf_store (exampleEnv\<lparr>env_new_id := ids\<rparr>) db" using inv(1) by (simp add: consistent_def)
  then have d: "distinct (map n_ID (db_nodes db))" by (rule wf_store_nodes)
  obtain c start where c: "compile (fv_ID v) db = Inr c" "cf_StartNode c = Some start" "n_Kind start = NodeStart"
    using sound_compile[OF sg] by metis
  have "\<exists>e m. FindOutgoing c (n_ID n) branch = Inr e \<and> cf_Nodes c (e_TargetNodeID e) = Some m \<and> n_FlowVersionID m = fv_ID v"
    if "n \<in> set (db_nodes db)" "n_FlowVersionID n = fv_ID v" "n_Kind n \<noteq> NodeEnd"
      "if n_Kind n = NodeCondition then branch \<in> Some ` b_ID ` set (n_Branches n) else branch = None" for n branch
  proof -
    have n: "n \<in> set (nodesOf (fv_ID v) db)" using that by (simp add: nodesOf_def)
    have "if n_Kind n = NodeCondition then (\<exists>b \<in> set (n_Branches n). branch = Some (b_ID b)) else branch = None \<and> n_Kind n \<noteq> NodeEnd"
      using that(3,4) by auto
    from sound_next[OF sg d c(1) n this] show ?thesis by (metis (mono_tags, lifting) mem_Collect_eq nodesOf_def set_filter)
  qed
  then show ?thesis using c by blast
qed

theorem deployed_flow_runs_witness:
  "\<exists>c start. compile (designIds 1) publishedStore = Inr c \<and> cf_StartNode c = Some start \<and> n_Kind start = NodeStart"
  using deployed_flow_runs[OF design_blank design_steps(3) live_facts(1)] unfolding live_facts(2) by blast

text \<open>
  C18: the cache of compiled flows is transparent.  Whatever requests were handled, lookups made and
  entries invalidated since the cache was empty, a lookup returns what compiling the version from
  the store gives, errors included.
\<close>

theorem cache_transparent:
  assumes "blank_store ids db0" and "(cached_step ids)\<^sup>*\<^sup>* (Map.empty, db0) (cache, db)"
  shows "map_sum id fst (FlowCache_Get cache vid db) = compile vid db"
proof -
  have "consistent ids db0" "design_ok db0" using run_from_blank[OF assms(1) rtranclp.rtrancl_refl] .
  then have "coherent cache db" using cached.run[OF assms(2)] by (simp add: coherent_def)
  then show ?thesis by (rule coherent_Get(1))
qed

theorem cache_transparent_witness:
  "\<exists>c. FlowCache_Get [designIds 1 \<mapsto> c] (designIds 1) formStore = Inr (c, [designIds 1 \<mapsto> c])
     \<and> compile (designIds 1) formStore = Inr c"
proof -
  have "map n_FlowVersionID (db_nodes deployedStore) = replicate 3 (designIds 1)"
    using design_checks(1) by (simp add: checkDeployed_def)
  then have "filter (\<lambda>n. n_FlowVersionID n = designIds 1) (db_nodes deployedStore) \<noteq> []"
    by (cases "db_nodes deployedStore") (auto simp: numeral_eq_Suc)
  then obtain c where c: "compile (designIds 1) deployedStore = Inr c" by (auto simp: compile_def Let_def)
  let ?cs = "cached_step designIds" and ?cache = "[designIds 1 \<mapsto> c]"
  have "?cs (Map.empty, designBlank) (Map.empty, createdStore)" "?cs (Map.empty, createdStore) (Map.empty, deployedStore)"
    "?cs (?cache, deployedStore) (?cache, publishedStore)" "?cs (?cache, publishedStore) (?cache, formStore)"
    using manage_step[OF created_run] manage_step[OF deployed_run] manage_step[OF published_run] execute_step[OF form_run]
    by (simp_all add: cached_step.request)
  moreover have "?cs (Map.empty, deployedStore) (?cache, deployedStore)"
    by (rule cached_step.lookup[of _ "designIds 1" _ c]) (simp add: FlowCache_Get_def c del: One_nat_def)
  ultimately have "?cs\<^sup>*\<^sup>* (Map.empty, designBlank) (?cache, formStore)"
    by (meson converse_rtranclp_into_rtranclp rtranclp.rtrancl_refl)
  from cache_transparent[OF design_blank this, of "designIds 1"] show ?thesis
    by (intro exI[of _ c]) (simp add: FlowCache_Get_def del: One_nat_def)
qed

text \<open>
  C32: the depth limit of the traversal never bites on a version of at most a hundred nodes: from
  whichever node the traversal of a fresh instance enters, a larger limit gives the same outcome.
\<close>

theorem depth_limit_irrelevant:
  assumes "blank_store ids db0" and "(step ids)\<^sup>*\<^sup>* db0 db" and "env_new_id env = ids" and "v \<in> set (db_versions db)"
    and "length (filter (\<lambda>n. n_FlowVersionID n = fv_ID v) (db_nodes db)) \<le> maxNodeDepth"
    and "insertInstance env i db = (inst, db1)" and "i_Status i = InstanceRunning" and "i_FlowVersionID i = fv_ID v"
    and "node \<in> set (db_nodes db)" and "n_FlowVersionID node = fv_ID v"
  shows "ProcessNode (maxNodeDepth + k) env db1 inst node = ProcessNode maxNodeDepth env db1 inst node"
proof -
  note inv = run_from_blank[OF assms(1,2)]
  have wf: "wf_store env db" using inv(1) assms(3) by (simp add: consistent_def)
  note ins = insertInstance_run[OF assms(6) wf]
  have db1: "db_nodes db1 = db_nodes db" "db_edges db1 = db_edges db"
    using assms(6) by (auto simp: insertInstance_def allocId_def Let_def)
  have v: "i_FlowVersionID inst = fv_ID v" "i_Status inst = InstanceRunning" using ins(6) assms(7,8) by simp_all
  have "sound_graph (nodesOf (fv_ID v) db) (edgesOf (fv_ID v) db)"
    using inv(2) assms(4) by (simp add: design_ok_def graphs_ok_def)
  moreover have "enterable env inst db1"
    using ins(1,3-5) v(2) by (auto simp: enterable_def mirrors_def)
  ultimately show ?thesis
    using assms(5,9,10) by (intro depth_irrelevant) (simp_all add: v(1) db1 nodesOf_def edgesOf_def)
qed

theorem depth_limit_irrelevant_witness:
  "ProcessNode (maxNodeDepth + 5) designEnv (snd (insertInstance designEnv (hd (db_instances formStore)) deployedStore))
      (fst (insertInstance designEnv (hd (db_instances formStore)) deployedStore)) designNode
   = ProcessNode maxNodeDepth designEnv (snd (insertInstance designEnv (hd (db_instances formStore)) deployedStore))
      (fst (insertInstance designEnv (hd (db_instances formStore)) deployedStore)) designNode"
proof -
  let ?i = "hd (db_instances formStore)"
  have i: "i_Status ?i = InstanceRunning" "i_FlowVersionID ?i = fv_ID draftVersion"
    using design_checks(3) draft_facts(2) by (auto simp: checkStarted_def)
  have vids: "map n_FlowVersionID (db_nodes deployedStore) = replicate 3 (designIds 1)"
    using design_checks(1) unfolding checkDeployed_def by blast
  have "n_FlowVersionID designNode \<in> n_FlowVersionID ` set (db_nodes deployedStore)" using designNode_facts(1) by blast
  then have n: "n_FlowVersionID designNode = fv_ID draftVersion"
    using vids draft_facts(2) by (metis image_set in_set_replicate)
  have "length (db_nodes deployedStore) = 3" using arg_cong[OF vids, of length] by simp
  then have len: "length (filter (\<lambda>n. n_FlowVersionID n = fv_ID draftVersion) (db_nodes deployedStore)) \<le> maxNodeDepth"
    using length_filter_le[of "\<lambda>n. n_FlowVersionID n = fv_ID draftVersion" "db_nodes deployedStore"] by (simp add: maxNodeDepth_def)
  show ?thesis
    by (rule depth_limit_irrelevant[OF design_blank design_steps(2) designEnv_ids draft_facts(1) len _ i designNode_facts(1) n]) simp
qed

section \<open>The registry of flows\<close>



text \<open>
  C28: a flow has at most one published version.  A flow without one has the current version
  number zero; otherwise the current version number is the number of the published version, so
  that starting an instance always finds the version that was published last.
\<close>

theorem one_current_version:
  assumes "blank_store ids db0" and "(step ids)\<^sup>*\<^sup>* db0 db" and "f \<in> set (db_flows db)"
  shows "fl_CurrentVersion f = 0 \<and> {v \<in> set (db_versions db). fv_FlowID v = fl_ID f \<and> fv_Status v = VersionPublished} = {}
     \<or> (\<exists>v. {v \<in> set (db_versions db). fv_FlowID v = fl_ID f \<and> fv_Status v = VersionPublished} = {v}
          \<and> fv_Version v = fl_CurrentVersion f)"
proof -
  have ok: "versions_ok (db_flows db) (db_versions db)" "current_ok (db_flows db) (db_versions db)"
    using run_from_blank(2)[OF assms(1,2)] by (simp_all add: design_ok_def)
  have pub: "fv_Status v = VersionPublished \<longleftrightarrow> fv_Version v = fl_CurrentVersion f" if "v \<in> set (db_versions db)" "fv_FlowID v = fl_ID f" for v
    using ok(2) assms(3) that by (simp add: current_ok_def)
  have one: "v = w" if "v \<in> set (db_versions db)" "w \<in> set (db_versions db)" "fv_FlowID v = fv_FlowID w" "fv_Version v = fv_Version w" for v w
    using ok(1) that distinct_key_eq[of "\<lambda>v. (fv_FlowID v, fv_Version v)" "db_versions db" v w] by (simp add: versions_ok_def)
  have pos: "fv_Version v \<ge> 1" if "v \<in> set (db_versions db)" for v using ok(1) that by (simp add: versions_ok_def)
  show ?thesis
  proof (cases "fl_CurrentVersion f = 0")
    case True
    then have "{v \<in> set (db_versions db). fv_FlowID v = fl_ID f \<and> fv_Status v = VersionPublished} = {}"
      using pub pos by fastforce
    with True show ?thesis by simp
  next
    case False
    then obtain v where v: "v \<in> set (db_versions db)" "fv_FlowID v = fl_ID f" "fv_Version v = fl_CurrentVersion f"
      using ok(2) assms(3) by (auto simp: current_ok_def)
    have "{w \<in> set (db_versions db). fv_FlowID w = fl_ID f \<and> fv_Status w = VersionPublished} = {v}"
      using v pub one by auto
    then show ?thesis using v(3) by blast
  qed
qed

theorem one_current_version_witness:
  "\<exists>f \<in> set (db_flows publishedStore). fl_CurrentVersion f = 1
     \<and> (\<exists>v. {v \<in> set (db_versions publishedStore). fv_FlowID v = fl_ID f \<and> fv_Status v = VersionPublished} = {v} \<and> fv_Version v = 1)"
proof -
  have f: "hd (db_flows publishedStore) \<in> set (db_flows publishedStore)" "fl_CurrentVersion (hd (db_flows publishedStore)) = 1"
    using design_checks(2) by (auto simp: checkPublished_def)
  from one_current_version[OF design_blank design_steps(3) f(1)] show ?thesis
    using f by (intro bexI[OF _ f(1)]) simp
qed

text \<open>
  C31: a flow is open to everyone exactly when it has no initiator rows: the commands never leave
  a restricted flow that nobody may start, nor initiator rows that are ignored.
\<close>

theorem initiators_match_policy:
  assumes "blank_store ids db0" and "(step ids)\<^sup>*\<^sup>* db0 db" and "f \<in> set (db_flows db)"
  shows "fl_IsAllInitiationAllowed f \<longleftrightarrow> filter (\<lambda>i. fi_FlowID i = fl_ID f) (db_initiators db) = []"
proof -
  have "fl_IsAllInitiationAllowed f \<longleftrightarrow> fl_ID f \<notin> fi_FlowID ` set (db_initiators db)"
    using run_from_blank(2)[OF assms(1,2)] assms(3) by (simp add: design_ok_def initiators_ok_def)
  then show ?thesis by (auto simp: filter_empty_conv image_iff)
qed

theorem initiators_match_policy_witness:
  "filter (\<lambda>i. fi_FlowID i = fl_ID (hd (db_flows publishedStore))) (db_initiators publishedStore) = []"
proof -
  have f: "hd (db_flows publishedStore) \<in> set (db_flows publishedStore)" "fl_IsAllInitiationAllowed (hd (db_flows publishedStore))"
    using design_checks(2) by (auto simp: checkPublished_def)
  from initiators_match_policy[OF design_blank design_steps(3) f(1)] f(2) show ?thesis by simp
qed



end
