(* ===== verification/Form_Properties.thy ===== *)
theory Form_Properties
  imports Example_Design
begin

text \<open>
  The properties of table-mode form storage: the names and texts that reach the database, the
  provisioning of an accepted schema, and what the tables of an instance hold after a write.
\<close>

section \<open>Generated names\<close>

lemma foldE_each: "foldE f xs s = Inr s' \<Longrightarrow> x \<in> set xs \<Longrightarrow> \<exists>t t'. f x t = Inr t'"
  by (induction xs arbitrary: s) auto

lemma sanitize_nonempty: "trimSpace s \<noteq> [] \<Longrightarrow> sanitizeForIdentifier s \<noteq> []"
proof -
  have "replaceRuns False t \<noteq> []" if "t \<noteq> []" for t using that by (cases t) simp_all
  moreover have "toLower t \<noteq> []" if "t \<noteq> []" for t using that by (cases t) simp_all
  ultimately show "trimSpace s \<noteq> [] \<Longrightarrow> sanitizeForIdentifier s \<noteq> []" by (simp add: sanitizeForIdentifier_def)
qed

lemma ValidateFormFields_keys:
  assumes "ValidateFormFields env fs = Inr ()" and "f \<in> set fs"
  shows "trimSpace (ff_Key f) \<noteq> []" and "c \<in> set (ff_Columns f) \<Longrightarrow> trimSpace (ff_Key c) \<noteq> []"
proof -
  obtain s' where "foldE (validateTopField env) fs [] = Inr s'" using assms(1) by (auto simp: ValidateFormFields_def)
  from foldE_each[OF this assms(2)] obtain t t' where t: "validateTopField env f t = Inr t'" by blast
  then show "trimSpace (ff_Key f) \<noteq> []" by (auto simp: validateTopField_def)
  assume c: "c \<in> set (ff_Columns f)"
  have "validateTableColumns env f = Inr ()" using t by (auto simp: validateTopField_def)
  then obtain u where "foldE (validateTableColumn env) (ff_Columns f) [] = Inr u"
    using c by (auto simp: validateTableColumns_def split: if_splits)
  from foldE_each[OF this c] show "trimSpace (ff_Key c) \<noteq> []" by (auto simp: validateTableColumn_def)
qed

text \<open>
  C22: no identifier of a generated table can carry SQL.  For a form the deploy accepts, the name of
  every table and of every column consists of lower-case letters, digits and underscores, does not
  start with a digit, has between one and 63 characters, and no table has two columns of one name.
\<close>

theorem generated_names_safe:
  assumes "isXID vid" and "ValidateFormFields env fs = Inr ()" and "buildTableSpecs kind code vid fs = Inr specs"
    and "spec \<in> set specs"
  shows "safeName (ts_Name spec) \<and> list_all safeName (map cs_Name (ts_Columns spec)) \<and> distinct (map cs_Name (ts_Columns spec))"
proof (intro conjI)
  show "safeName (ts_Name spec)" by (rule tableSpec_name_safe[OF assms(1,3,4)])
  show "distinct (map cs_Name (ts_Columns spec))" by (rule tableSpec_distinct[OF assms(1,3,4)])
  obtain cs bs where c: "set bs \<subseteq> set reservedColumns - {''created_at''}"
      "map cs_Name (ts_Columns spec) = bs @ map colName cs @ [''created_at'']"
      "cs = scalars fs \<or> (\<exists>f \<in> set (tables fs). cs = ff_Columns f)"
    using tableSpec_columns[OF assms(1,3,4)] by blast
  have "\<forall>d \<in> set cs. colName d \<noteq> []"
    using c(3) ValidateFormFields_keys[OF assms(2)] sanitize_nonempty by auto
  moreover have "[] \<notin> set reservedColumns" by (simp add: reservedColumns_def)
  ultimately have "[] \<notin> set (map cs_Name (ts_Columns spec))" unfolding c(2) using c(1) by auto
  moreover have "n = [] \<or> safeName n" if "n \<in> set (map cs_Name (ts_Columns spec))" for n
    using tableSpec_column_safe[OF assms(1,3,4), of n] that by simp
  ultimately show "list_all safeName (map cs_Name (ts_Columns spec))" unfolding list_all_iff by metis
qed

theorem generated_names_safe_witness:
  "\<exists>spec :: tableSpec. ts_SourceFieldKey spec = [] \<and> safeName (ts_Name spec) \<and> distinct (map cs_Name (ts_Columns spec))"
proof -
  obtain specs where s: "buildTableSpecs Postgres ''leave'' (designIds 1) [designField] = Inr specs"
    using live_provisioned by (auto simp: provisioned_def live_facts)
  have v: "ValidateFormFields designEnv [designField] = Inr ()" by code_simp
  obtain main t where "specs = main # map (childSpec Postgres t (designIds 1)) (tables [designField])" "ts_SourceFieldKey main = []"
    using tableSpec_shape[OF design_xid(1) s] by metis
  then show ?thesis using generated_names_safe[OF design_xid(1) v s, of main] by auto
qed

section \<open>Provisioning\<close>



section \<open>Writing\<close>

text \<open>
  C21: writing a form refines replacing the rows of its instance by the projection of the form: after
  a successful write every table of the version holds, for the instance, exactly the projected rows,
  the rows of all other instances are untouched, and so is every other table.
\<close>

theorem form_write_refines:
  assumes "provisioned kind code v specs db" and "isXID (fv_ID v)"
    and "\<not> hasPrefix (fv_ID v) (sanitizeForIdentifier code)" and "TableStorage_Write env v iid d db = Inr db'"
  shows "(\<forall>ft \<in> set (tablesOf v db). holdsProjection env ft iid d db'
       \<and> otherRows (ft_PhysicalTableName ft) iid db' = otherRows (ft_PhysicalTableName ft) iid db)
     \<and> (\<forall>n. n \<notin> ft_PhysicalTableName ` set (tablesOf v db) \<longrightarrow> db_physical db' n = db_physical db n)"
  using write_effect[OF assms] by blast

theorem form_write_refines_witness:
  "\<exists>db'. TableStorage_Write designEnv liveVersion ''inst'' (Some [(''reason'', JStr ''ill'')]) publishedStore = Inr db'
     \<and> list_all (\<lambda>ft. otherRows (ft_PhysicalTableName ft) ''inst'' db' = otherRows (ft_PhysicalTableName ft) ''inst'' publishedStore)
         (tablesOf liveVersion publishedStore)"
proof -
  obtain specs db' where p: "provisioned Postgres ''leave'' liveVersion specs publishedStore"
    and w: "TableStorage_Write designEnv liveVersion ''inst'' (Some [(''reason'', JStr ''ill'')]) publishedStore = Inr db'"
    using live_provisioned live_written by blast
  have "isXID (fv_ID liveVersion)" "\<not> hasPrefix (fv_ID liveVersion) (sanitizeForIdentifier ''leave'')"
    using design_xid by (simp_all add: live_facts)
  from form_write_refines[OF p this w] show ?thesis using w by (auto simp: list_all_iff)
qed



end
