(* ===== verification/Example_Run.thy ===== *)
theory Example_Run
  imports Approval_System
begin

text \<open>
  A small deployment on which the properties are instantiated: one flow, whose approval node
  asks two users, started by an applicant and decided by the two users in turn.
\<close>

definition exampleFlow :: Flow where
  "exampleFlow = \<lparr>fl_ID = ''flow'', fl_TenantID = ''tenant'', fl_IsShared = False, fl_CategoryID = ''cat'',
     fl_Code = ''leave'', fl_Name = ''Leave'', fl_Icon = None, fl_Description = None, fl_Labels = [],
     fl_BindingMode = BindingStandalone, fl_BusinessBinding = None, fl_AdminUserIDs = [''admin''], fl_IsAllInitiationAllowed = True,
     fl_InstanceTitleTemplate = [], fl_IsActive = True, fl_CurrentVersion = 1\<rparr>"

definition exampleVersion :: FlowVersion where
  "exampleVersion = \<lparr>fv_ID = ''v'', fv_FlowID = ''flow'', fv_Version = 1, fv_Status = VersionPublished,
     fv_Description = None, fv_StorageMode = StorageJSON, fv_FormFields = [], fv_PublishedAt = None,
     fv_PublishedBy = None, fv_BusinessBinding = None\<rparr>"

definition exampleEdge :: "string \<Rightarrow> string \<Rightarrow> FlowEdge" where
  "exampleEdge s t = \<lparr>e_ID = s @ t, e_FlowVersionID = ''v'', e_Key = s @ t, e_SourceNodeID = s,
     e_SourceNodeKey = s, e_TargetNodeID = t, e_TargetNodeKey = t, e_SourceHandle = None\<rparr>"

definition exampleStore :: db where
  "exampleStore = emptyDb\<lparr>db_flows := [exampleFlow], db_versions := [exampleVersion],
     db_nodes := [zeroFlowNode\<lparr>n_ID := ''start'', n_FlowVersionID := ''v'', n_Kind := NodeStart\<rparr>,
       exampleNode PassAll 0 0,
       zeroFlowNode\<lparr>n_ID := ''end'', n_FlowVersionID := ''v'', n_Kind := NodeEnd\<rparr>],
     db_edges := [exampleEdge ''start'' ''node'', exampleEdge ''node'' ''end''],
     db_node_assignees := [\<lparr>na_NodeID = ''node'', na_Kind = ''user'', na_IDs = [''alice'', ''bob''],
       na_FormField = None, na_SortOrder = 0\<rparr>]\<rparr>"

definition exampleCaller :: CallerContext where
  "exampleCaller = \<lparr>caller_TenantID = ''tenant'', caller_IsSuperAdmin = False, caller_IsSystemInternal = False\<rparr>"

definition exampleStartCmd :: StartInstanceCmd where
  "exampleStartCmd = \<lparr>si_TenantID = [], si_FlowCode = ''leave'', si_Applicant = exampleUser ''carol'',
     si_BusinessRef = None, si_FormData = Some [], si_Globals = None, si_Caller = exampleCaller\<rparr>"

definition exampleCmd :: "string \<Rightarrow> string \<Rightarrow> TaskCmd" where
  "exampleCmd tid uid = \<lparr>cmd_TaskID = tid, cmd_Operator = exampleUser uid, cmd_Caller = exampleCaller,
     cmd_Opinion = [], cmd_FormData = [], cmd_Attachments = []\<rparr>"

text \<open>The store after the start, after the first approval and after the second.\<close>

definition startedStore :: db where
  "startedStore = projr (execute exampleEnv (StartInstance exampleStartCmd) exampleStore)"

definition halfStore :: db where
  "halfStore = projr (execute exampleEnv (ApproveTask (exampleCmd ''iiii'' ''alice'')) startedStore)"

definition doneStore :: db where
  "doneStore = projr (execute exampleEnv (ApproveTask (exampleCmd ''iiiii'' ''bob'')) halfStore)"

section \<open>The run\<close>

abbreviation exampleIds :: "nat \<Rightarrow> string" where
  "exampleIds \<equiv> env_new_id exampleEnv"

text \<open>One evaluation of the three requests.\<close>

lemma example_evaluated:
  "case execute exampleEnv (StartInstance exampleStartCmd) exampleStore of Inl _ \<Rightarrow> False
   | Inr s \<Rightarrow> db_instances s \<noteq> [] \<and> i_Status (hd (db_instances s)) = InstanceRunning \<and> db_versions s \<noteq> []
     \<and> (case WithdrawInstance_Handle exampleEnv (i_ID (hd (db_instances s))) (exampleUser ''carol'') exampleCaller [] s of
          Inl _ \<Rightarrow> False | Inr _ \<Rightarrow> True)
     \<and> (case UrgeTask_Handle exampleEnv ''iiii'' ''carol'' [] exampleCaller s of Inl _ \<Rightarrow> False | Inr _ \<Rightarrow> True)
     \<and> findTask ''iiii'' s \<noteq> None \<and> findNode ''node'' s \<noteq> None \<and> map t_NodeID (db_tasks s) = [''node'', ''node'']
     \<and> list_all (\<lambda>n. n_FieldPermissions n = []) (db_nodes s)
     \<and> (case execute exampleEnv (ApproveTask (exampleCmd ''iiii'' ''alice'')) s of Inl _ \<Rightarrow> False
        | Inr h \<Rightarrow> db_tasks h \<noteq> [] \<and> t_Status (hd (db_tasks h)) = TaskApproved
          \<and> (case execute exampleEnv (ApproveTask (exampleCmd ''iiiii'' ''bob'')) h of Inl _ \<Rightarrow> False
             | Inr d \<Rightarrow> db_instances d \<noteq> [] \<and> i_Status (hd (db_instances d)) = InstanceApproved))"
  by code_simp

lemma started_run: "execute exampleEnv (StartInstance exampleStartCmd) exampleStore = Inr startedStore"
  using example_evaluated unfolding startedStore_def
  by (cases "execute exampleEnv (StartInstance exampleStartCmd) exampleStore") simp_all

lemma half_run: "execute exampleEnv (ApproveTask (exampleCmd ''iiii'' ''alice'')) startedStore = Inr halfStore"
  using example_evaluated unfolding halfStore_def started_run
  by (cases "execute exampleEnv (ApproveTask (exampleCmd ''iiii'' ''alice'')) startedStore") (simp_all del: execute.simps)

lemma done_run: "execute exampleEnv (ApproveTask (exampleCmd ''iiiii'' ''bob'')) halfStore = Inr doneStore"
  using example_evaluated half_run unfolding doneStore_def started_run
  by (cases "execute exampleEnv (ApproveTask (exampleCmd ''iiiii'' ''bob'')) halfStore") (simp_all del: execute.simps)

lemma example_facts:
  "db_instances startedStore \<noteq> []" "i_Status (hd (db_instances startedStore)) = InstanceRunning" "db_versions startedStore \<noteq> []"
  "db_tasks halfStore \<noteq> []" "t_Status (hd (db_tasks halfStore)) = TaskApproved"
  "db_instances doneStore \<noteq> []" "i_Status (hd (db_instances doneStore)) = InstanceApproved"
  using example_evaluated by (simp_all add: started_run half_run done_run del: execute.simps)

lemma started_facts:
  "\<exists>db. WithdrawInstance_Handle exampleEnv (i_ID (hd (db_instances startedStore))) (exampleUser ''carol'') exampleCaller [] startedStore = Inr db"
  "\<exists>db. UrgeTask_Handle exampleEnv ''iiii'' ''carol'' [] exampleCaller startedStore = Inr db"
  "\<exists>t. findTask ''iiii'' startedStore = Some t" "\<exists>n. findNode ''node'' startedStore = Some n"
  "map t_NodeID (db_tasks startedStore) = [''node'', ''node'']" "list_all (\<lambda>n. n_FieldPermissions n = []) (db_nodes startedStore)"
  using example_evaluated by (auto simp: started_run simp del: execute.simps split: sum.splits)

lemma exampleIds_inj: "inj exampleIds"
  by (rule injI) (simp add: exampleEnv_def)

lemma example_fresh: "fresh_store exampleIds exampleStore"
proof -
  have ids: "set (exampleIds n) \<subseteq> {CHR ''i''}" for n by (auto simp: exampleEnv_def)
  have "used_ids exampleStore = {''start'', ''node'', ''end'', ''flow'', ''v''}"
    by (auto simp: used_ids_def exampleStore_def emptyDb_def zeroFlowNode_def exampleNode_def exampleFlow_def exampleVersion_def)
  then have "\<forall>x \<in> used_ids exampleStore. \<not> set x \<subseteq> {CHR ''i''}" by simp
  then have "exampleIds n \<notin> used_ids exampleStore" for n using ids by blast
  then show ?thesis
    using exampleIds_inj by (simp add: fresh_store_def exampleStore_def emptyDb_def zeroFlowNode_def exampleNode_def)
qed

lemma example_steps:
  "step exampleIds exampleStore startedStore" "step exampleIds startedStore halfStore" "step exampleIds halfStore doneStore"
  using execute_step[OF started_run] execute_step[OF half_run] execute_step[OF done_run] by simp_all

lemma example_reachable: "reachable exampleIds startedStore" "reachable exampleIds halfStore" "reachable exampleIds doneStore"
proof -
  note s = example_steps
  have r: "(step exampleIds)\<^sup>*\<^sup>* exampleStore startedStore" using s(1) by simp
  then show "reachable exampleIds startedStore" using example_fresh by (auto simp: reachable_def)
  have r2: "(step exampleIds)\<^sup>*\<^sup>* exampleStore halfStore" using r s(2) by simp
  then show "reachable exampleIds halfStore" using example_fresh by (auto simp: reachable_def)
  have "(step exampleIds)\<^sup>*\<^sup>* exampleStore doneStore" using r2 s(3) by simp
  then show "reachable exampleIds doneStore" using example_fresh by (auto simp: reachable_def)
qed

end
