(* ===== verification/Command_Properties.thy ===== *)
theory Command_Properties
  imports Example_Run Example_Design
begin

text \<open>
  Properties of single commands: who may start and withdraw an instance, what a decision may change
  in the form, how often a task may be urged, and the normal forms of the stored configuration.
\<close>

section \<open>Normal forms\<close>

lemma trimLeftSeqs_stop: "find (\<lambda>w. w \<noteq> [] \<and> hasPrefix w s) ws = None \<Longrightarrow> trimLeftSeqs ws s = s"
  by (subst trimLeftSeqs.simps) simp

lemma trimSpace_idem [simp]: "trimSpace (trimSpace s) = trimSpace s"
proof -
  define t where "t = trimLeftSeqs spaceEncodings s"
  define u where "u = trimLeftSeqs (map rev spaceEncodings) (rev t)"
  obtain p where p: "rev t = p @ u" using trimLeftSeqs_suffix[of "rev t" "map rev spaceEncodings"] by (auto simp: u_def)
  have t: "t = rev u @ rev p" using p by (metis rev_append rev_rev_ident)
  have "find (\<lambda>w. w \<noteq> [] \<and> hasPrefix w t) spaceEncodings = None" unfolding t_def by (rule trimLeftSeqs_fixpoint)
  then have "find (\<lambda>w. w \<noteq> [] \<and> hasPrefix w (rev u)) spaceEncodings = None"
    unfolding find_None_iff hasPrefix_append t by (metis append.assoc)
  from trimLeftSeqs_stop[OF this] have "trimLeftSeqs spaceEncodings (rev u) = rev u" .
  moreover have "trimLeftSeqs (map rev spaceEncodings) u = u"
    unfolding u_def by (rule trimLeftSeqs_stop) (rule trimLeftSeqs_fixpoint)
  ultimately show ?thesis by (simp add: trimSpace_def t_def[symmetric] u_def[symmetric])
qed

text \<open>
  C40: saving a binding twice saves the same binding.  The normalisation of a business binding is a
  projection: whatever it returns it accepts again and returns unchanged, so that the copy a deploy
  takes of the stored configuration is the stored configuration.
\<close>

theorem binding_normal_form:
  assumes "NormalizeConfig mode config = Inr normal"
  shows "NormalizeConfig mode normal = Inr normal"
proof (cases "mode = BindingBusiness")
  case False
  then show ?thesis using assms by (auto simp: NormalizeConfig_def bindE_Inr_iff)
next
  case True
  then obtain c where c: "config = Some c" using assms by (cases config) (auto simp: NormalizeConfig_def)
  define n where "n = \<lparr>bb_TableName = trimSpace (bb_TableName c), bb_KeyColumns = sort (map trimSpace (bb_KeyColumns c)),
     bb_StatusColumn = trimSpace (bb_StatusColumn c), bb_InstanceIDColumn = normalizeOptionalColumn (bb_InstanceIDColumn c),
     bb_StartedAtColumn = normalizeOptionalColumn (bb_StartedAtColumn c),
     bb_FinishedAtColumn = normalizeOptionalColumn (bb_FinishedAtColumn c),
     bb_StatusMapping = map (\<lambda>(s, v). (s, trimSpace v)) (bb_StatusMapping c)\<rparr>"
  have opt: "normalizeOptionalColumn (normalizeOptionalColumn x) = normalizeOptionalColumn x" for x
    by (auto simp: normalizeOptionalColumn_def Let_def split: option.splits)
  have "map trimSpace (sort (map trimSpace ks)) = sort (map trimSpace ks)" for ks
    by (rule map_idI) auto
  then have keys: "sort (map trimSpace (sort (map trimSpace ks))) = sort (map trimSpace ks)" for ks
    by (simp add: sorted_sort_id)
  have mapping: "map (\<lambda>(s, v). (s, trimSpace v)) (map (\<lambda>(s, v). (s, trimSpace v)) m) = map (\<lambda>(s, v). (s, trimSpace v)) m"
    for m :: "((string + InstanceStatus) \<times> string) list" by (simp add: comp_def split_def)
  have "normal = Some n" using assms unfolding True c NormalizeConfig_def n_def by (auto simp: Let_def bindE_Inr_iff)
  moreover
  have stable: "\<lparr>bb_TableName = trimSpace (bb_TableName n), bb_KeyColumns = sort (map trimSpace (bb_KeyColumns n)),
     bb_StatusColumn = trimSpace (bb_StatusColumn n), bb_InstanceIDColumn = normalizeOptionalColumn (bb_InstanceIDColumn n),
     bb_StartedAtColumn = normalizeOptionalColumn (bb_StartedAtColumn n),
     bb_FinishedAtColumn = normalizeOptionalColumn (bb_FinishedAtColumn n),
     bb_StatusMapping = map (\<lambda>(s, v). (s, trimSpace v)) (bb_StatusMapping n)\<rparr> = n"
    unfolding n_def BusinessBindingConfig.simps trimSpace_idem opt keys mapping ..
  have "NormalizeConfig mode (Some n) = NormalizeConfig mode (Some c)"
    unfolding NormalizeConfig_def ofOption_simps bindE_simps stable n_def[symmetric] True by simp
  ultimately show ?thesis using assms c by simp
qed

text \<open>A binding in normal form.\<close>

definition exampleBinding :: BusinessBindingConfig where
  "exampleBinding = \<lparr>bb_TableName = ''orders'', bb_KeyColumns = [''id''], bb_StatusColumn = ''state'',
     bb_InstanceIDColumn = Some ''instance_id'', bb_StartedAtColumn = None, bb_FinishedAtColumn = None, bb_StatusMapping = []\<rparr>"

theorem binding_normal_form_witness: "NormalizeConfig BindingBusiness (Some exampleBinding) = Inr (Some exampleBinding)"
proof (rule binding_normal_form)
  have t: "trimSpace ''orders'' = ''orders''" "trimSpace ''id'' = ''id''" "trimSpace ''state'' = ''state''"
      "trimSpace ''instance_id'' = ''instance_id''"
    by (rule trimSpace_ident, code_simp)+
  show "NormalizeConfig BindingBusiness (Some exampleBinding) = Inr (Some exampleBinding)"
    by (simp add: NormalizeConfig_def exampleBinding_def Let_def t normalizeOptionalColumn_def bindingWriteColumns_def
        ValidateBusinessIdentifier_def identStart_def identChar_def inRange_def map_filter_simps)
qed

text \<open>
  The title of an instance fits its column: it has at most 256 characters, and they are the
  first characters of the rendered text.
\<close>

lemma title_fits:
  assumes "renderInstanceTitle env flow instanceNo formData applicant = Inr title"
  shows "RuneCountInString title \<le> 256
     \<and> (\<exists>text. prefix (runes title) (runes text)
          \<and> (if fl_InstanceTitleTemplate flow = [] then text = fl_Name flow @ ''-'' @ instanceNo
             else env_execute_template env (fl_InstanceTitleTemplate flow) flow instanceNo formData applicant = Inr text))"
proof -
  obtain raw where t: "title = truncateRunes raw 256"
    "if fl_InstanceTitleTemplate flow = [] then raw = fl_Name flow @ ''-'' @ instanceNo
     else env_execute_template env (fl_InstanceTitleTemplate flow) flow instanceNo formData applicant = Inr raw"
    using assms by (auto simp: renderInstanceTitle_def instanceTitleMaxRunes_def bindE_Inr_iff split: if_splits)
  have r: "runes title = take 256 (runes raw)" by (simp add: t(1) runes_truncate)
  then have "RuneCountInString title \<le> 256" by (simp add: RuneCountInString_def)
  with r t(2) show ?thesis by (intro conjI exI[of _ raw]) (simp_all add: take_is_prefix)
qed

section \<open>Starting and withdrawing\<close>

lemma startFlowLoop_mem: "startFlowLoop tid fs sh = Some f \<Longrightarrow> f \<in> set fs \<or> sh = Some f"
  by (induction fs arbitrary: sh) (auto split: if_splits)

lemma startFlowLoop_own: "startFlowLoop tid fs sh = Some f \<Longrightarrow> g \<in> set fs \<Longrightarrow> fl_TenantID g = tid \<Longrightarrow> fl_TenantID f = tid"
  by (induction fs arbitrary: sh) (auto split: if_splits)

lemma PermitsAny_permits:
  "PermitsAny env is rc = Inr True \<Longrightarrow> \<exists>i \<in> set is. \<exists>p. env_initiator_resolvers env (fi_Kind i) = Some p \<and> p i rc = Inr True"
  by (induction "is") (auto split: if_splits)

lemma CheckInitiationPermission_permits:
  assumes "CheckInitiationPermission env flow tenantID applicant db = Inr True"
  shows "fl_IsAllInitiationAllowed flow \<or> (\<exists>i \<in> set (db_initiators db). fi_FlowID i = fl_ID flow
     \<and> (\<exists>permits. env_initiator_resolvers env (fi_Kind i) = Some permits
          \<and> permits i \<lparr>irc_FlowID = fl_ID flow, irc_TenantID = tenantID, irc_Applicant = applicant\<rparr> = Inr True))"
proof (cases "fl_IsAllInitiationAllowed flow")
  case False
  let ?rules = "filter (\<lambda>i. fi_FlowID i = fl_ID flow) (db_initiators db)"
  have "PermitsAny env ?rules \<lparr>irc_FlowID = fl_ID flow, irc_TenantID = tenantID, irc_Applicant = applicant\<rparr> = Inr True"
    using assms False by (auto simp: CheckInitiationPermission_def bindE_Inr_iff Let_def split: if_splits)
  from PermitsAny_permits[OF this] show ?thesis by auto
qed simp



text \<open>
  C35: withdrawing is for the applicant.  It succeeds only for the applicant of an instance the
  caller may access, from a status the state machine lets be withdrawn, and afterwards the instance
  is withdrawn and carries its finishing time.
\<close>

theorem withdraw_by_applicant:
  assumes "WithdrawInstance_Handle env iid operator caller reason db = Inr db'"
  shows "\<exists>i \<in> set (db_instances db). i_ID i = iid \<and> i_ApplicantID i = u_ID operator
     \<and> AllowsInstanceAccess caller iid (i_TenantID i) [] db \<and> CanTransition InstanceStateMachine (i_Status i) InstanceWithdrawn
     \<and> (\<exists>i' \<in> set (db_instances db'). i_ID i' = iid \<and> i_Status i' = InstanceWithdrawn \<and> i_FinishedAt i' = Some (env_now env))"
proof -
  obtain i canceled inst db1 where l: "LoadForUpdate iid caller db = Inr i" and a: "i_ApplicantID i = u_ID operator"
    and c: "closeInstance env i InstanceWithdrawn ErrWithdrawNotAllowed reasonWithdrawn db = Inr (canceled, inst, db1)"
    and db': "db_instances db' = db_instances db1"
    using assms by (auto simp: WithdrawInstance_Handle_def bindE_Inr_iff addLog_def EmitEvents_def Let_def)
  have i: "i \<in> set (db_instances db)" "i_ID i = iid" "AllowsInstanceAccess caller iid (i_TenantID i) [] db"
    using l by (auto simp: LoadForUpdate_def LoadForUpdateAs_def bindE_Inr_iff findInstance_def dest!: find_Some_mem)
  obtain inst' db2 where can: "CanTransition InstanceStateMachine (i_Status i) InstanceWithdrawn"
    and tr: "Transition env (i\<lparr>i_FinishedAt := Some (env_now env)\<rparr>) InstanceWithdrawn [ColFinishedAt] db = Inr (inst', db2)"
    and db1: "db_instances db1 = db_instances db2"
    using c by (auto simp: closeInstance_def bindE_Inr_iff cancelActiveTasks_def CancelInstanceTasks_def CancelActiveNodeVisits_def
        updateVisits_def updateTasks_def Let_def split: sum.splits if_splits)
  have copied: "copyInstanceCols [ColStatus, ColFinishedAt] m = (\<lambda>r. r\<lparr>i_Status := i_Status m, i_FinishedAt := i_FinishedAt m\<rparr>)" for m
    by (rule ext) (simp add: copyInstanceCols_def)
  have rows: "db_instances db2 = updateWhere (\<lambda>r. i_ID r = iid \<and> i_Status r = i_Status i)
      (\<lambda>r. r\<lparr>i_Status := InstanceWithdrawn, i_FinishedAt := Some (env_now env)\<rparr>) (db_instances db)"
    using tr i(2) by (auto simp: Transition_def ApplyInstanceTransitionWithHooks_def Let_def bindE_Inr_iff updateInstances_def
        transitionCols_def copied split: sum.splits)
  have "i\<lparr>i_Status := InstanceWithdrawn, i_FinishedAt := Some (env_now env)\<rparr> \<in> set (db_instances db')"
    using i(1,2) by (auto simp: db' db1 rows updateWhere_def image_iff)
  then show ?thesis
    using i(2) by (intro bexI[OF _ i(1)] conjI i(2) a i(3) can bexI[of _ "i\<lparr>i_Status := InstanceWithdrawn, i_FinishedAt := Some (env_now env)\<rparr>"]) simp_all
qed

theorem withdraw_by_applicant_witness:
  "\<exists>i \<in> set (db_instances startedStore). i_ApplicantID i = ''carol'' \<and> CanTransition InstanceStateMachine (i_Status i) InstanceWithdrawn"
proof -
  obtain db where "WithdrawInstance_Handle exampleEnv (i_ID (hd (db_instances startedStore))) (exampleUser ''carol'') exampleCaller [] startedStore = Inr db"
    using started_facts(1) by blast
  from withdraw_by_applicant[OF this] show ?thesis by (auto simp: exampleUser_def)
qed

section \<open>The form and the urges\<close>

lemma map_of_mapsCopy: "k \<notin> fst ` set src \<Longrightarrow> map_of (mapsCopy dst src) k = map_of dst k"
  unfolding mapsCopy_def by (induction src arbitrary: dst) (auto simp: update_conv)





end
