(* ===== verification/Builtin_Conditions.thy ===== *)
theory Builtin_Conditions
  imports Flow_Engine Form_Validation Flow_Definition Float64
begin

text \<open>
  The built-in condition evaluators: \<^verbatim>\<open>strategy/condition.go\<close>, \<^verbatim>\<open>strategy/aggregator.go\<close> and
  \<^verbatim>\<open>shared/numeric.go\<close>.  A subject or an expected value is a decoded JSON value, so every number is
  a \<^verbatim>\<open>float64\<close> and every list an \<^verbatim>\<open>[]any\<close>; the other numeric types of the switches and \<^verbatim>\<open>[]string\<close>
  have no JSON value of their own.  \<^verbatim>\<open>fmt.Sprint\<close> of a composite value is the environment's
  \<^term>\<open>env_sprint\<close>; the expression engine is an argument: it evaluates a source text in an
  environment to a value, of which the evaluator reads only the outcome of \<^verbatim>\<open>Bool()\<close>.

  The second half shows what the operators promise: the negative operators are the complements
  of the positive ones, the four orderings are one comparison, the errors of a deployed field
  condition are type mismatches only.
\<close>

section \<open>Comparison of values\<close>

fun ToFloat64 :: "json \<Rightarrow> rat option" where
  "ToFloat64 (JNum x) = Some x"
| "ToFloat64 _ = None"

definition valuesEqual :: "env \<Rightarrow> json \<Rightarrow> json \<Rightarrow> bool" where
  "valuesEqual env a b =
     (case (ToFloat64 a, ToFloat64 b) of
        (Some x, Some y) \<Rightarrow> x = y
      | _ \<Rightarrow> if a = JNull \<or> b = JNull then a = JNull \<and> b = JNull
             else env_sprint env a = env_sprint env b)"

definition orderedResult :: "string \<Rightarrow> bool \<Rightarrow> bool \<Rightarrow> bool" where
  "orderedResult operator isGreater isEqual =
     (if operator = ''gt'' then isGreater
      else if operator = ''gte'' then isGreater \<or> isEqual
      else if operator = ''lt'' then \<not> isGreater \<and> \<not> isEqual
      else if operator = ''lte'' then \<not> isGreater
      else False)"

abbreviation ErrIncomparableValues :: error where
  "ErrIncomparableValues \<equiv> ErrStrategy IncomparableValues"

definition compareOrdered :: "string \<Rightarrow> json \<Rightarrow> json \<Rightarrow> error + bool" where
  "compareOrdered operator subject expected =
     (case ToFloat64 subject of
        Some x \<Rightarrow>
          bindE (ofOption ErrIncomparableValues (ToFloat64 expected)) (\<lambda>y.
            Inr (orderedResult operator (x > y) (x = y)))
      | None \<Rightarrow>
          (case (subject, expected) of
             (JStr s, JStr t) \<Rightarrow> Inr (orderedResult operator (s > t) (s = t))
           | _ \<Rightarrow> Inl ErrIncomparableValues))"

fun toAnySlice :: "json \<Rightarrow> error + json list" where
  "toAnySlice (JList xs) = Inr xs"
| "toAnySlice _ = Inl ErrIncomparableValues"

definition valueInList :: "env \<Rightarrow> json \<Rightarrow> json \<Rightarrow> error + bool" where
  "valueInList env subject expected =
     bindE (toAnySlice expected) (\<lambda>list. Inr (list_ex (valuesEqual env subject) list))"

text \<open>\<^verbatim>\<open>strings.Contains\<close> and \<^verbatim>\<open>strings.HasSuffix\<close>.\<close>

fun strContains :: "string \<Rightarrow> string \<Rightarrow> bool" where
  "strContains [] w = (w = [])"
| "strContains (c # s) w = (hasPrefix w (c # s) \<or> strContains s w)"

definition hasSuffix :: "string \<Rightarrow> string \<Rightarrow> bool" where
  "hasSuffix w s = hasPrefix (rev w) (rev s)"

fun subjectContains :: "env \<Rightarrow> json \<Rightarrow> json \<Rightarrow> error + bool" where
  "subjectContains env JNull expected = Inr False"
| "subjectContains env (JStr s) expected =
     (case expected of JStr w \<Rightarrow> Inr (strContains s w) | _ \<Rightarrow> Inl ErrIncomparableValues)"
| "subjectContains env subject expected =
     (case toAnySlice subject of
        Inl _ \<Rightarrow> Inl ErrIncomparableValues
      | Inr list \<Rightarrow> Inr (list_ex (\<lambda>item. valuesEqual env item expected) list))"

definition compareStringPair :: "json \<Rightarrow> json \<Rightarrow> (string \<Rightarrow> string \<Rightarrow> bool) \<Rightarrow> error + bool" where
  "compareStringPair subject expected predicate =
     (case (subject, expected) of
        (JStr s, JStr w) \<Rightarrow> Inr (predicate s w)
      | _ \<Rightarrow> Inl ErrIncomparableValues)"

fun isEmptyValue :: "json \<Rightarrow> bool" where
  "isEmptyValue JNull = True"
| "isEmptyValue (JStr s) = (trimSpace s = [])"
| "isEmptyValue (JList xs) = (xs = [])"
| "isEmptyValue (JObj m) = (m = [])"
| "isEmptyValue _ = False"

definition compareCondition :: "env \<Rightarrow> string \<Rightarrow> json \<Rightarrow> json \<Rightarrow> error + bool" where
  "compareCondition env operator subject expected =
     (if operator = ''eq'' then Inr (valuesEqual env subject expected)
      else if operator = ''ne'' then Inr (\<not> valuesEqual env subject expected)
      else if operator = ''gt'' \<or> operator = ''gte'' \<or> operator = ''lt'' \<or> operator = ''lte''
      then compareOrdered operator subject expected
      else if operator = ''in'' then valueInList env subject expected
      else if operator = ''not_in'' then
        bindE (valueInList env subject expected) (\<lambda>contains. Inr (\<not> contains))
      else if operator = ''contains'' then subjectContains env subject expected
      else if operator = ''not_contains'' then
        bindE (subjectContains env subject expected) (\<lambda>contains. Inr (\<not> contains))
      else if operator = ''starts_with'' then compareStringPair subject expected (\<lambda>s w. hasPrefix w s)
      else if operator = ''ends_with'' then compareStringPair subject expected (\<lambda>s w. hasSuffix w s)
      else if operator = ''is_empty'' then Inr (isEmptyValue subject)
      else if operator = ''is_not_empty'' then Inr (\<not> isEmptyValue subject)
      else Inl (ErrStrategy (UnsupportedOperator operator)))"

section \<open>Aggregators\<close>

type_synonym Fold = "rat list \<Rightarrow> nat \<Rightarrow> rat \<times> bool"

text \<open>\<open>sum += v\<close> in \<^verbatim>\<open>float64\<close>.\<close>

fun sumFloat :: "rat list \<Rightarrow> rat \<Rightarrow> rat" where
  "sumFloat [] s = s"
| "sumFloat (v # vs) s = sumFloat vs (rnd64 (s + v))"

definition Sum_Fold :: Fold where
  "Sum_Fold vs rowCount = (sumFloat vs 0, True)"

definition Count_Fold :: Fold where
  "Count_Fold vs rowCount = (floatOfInt (int rowCount), True)"

definition Avg_Fold :: Fold where
  "Avg_Fold vs rowCount =
     (if vs = [] then (0, False)
      else (fdiv (sumFloat vs 0) (floatOfInt (int (length vs))), True))"

text \<open>The aggregators the module registers, with their kinds.\<close>

definition builtinAggregators :: "(string \<times> Fold) list" where
  "builtinAggregators = [(''sum'', Sum_Fold), (''count'', Count_Fold), (''avg'', Avg_Fold)]"

definition expectedAggregates :: "string list" where
  "expectedAggregates = [''sum'', ''count'', ''avg'']"

definition ValidateBuiltinAggregators :: "(string \<times> Fold) list \<Rightarrow> error + unit" where
  "ValidateBuiltinAggregators aggregators =
     checkAll (\<lambda>kind. ensure (kind \<in> set (map fst aggregators))
       (ErrStrategy (BuiltinAggregatorMissing kind))) expectedAggregates"

text \<open>The index of \<^verbatim>\<open>NewFieldConditionEvaluator\<close>: a later aggregator replaces an earlier one.\<close>

definition indexAggregators :: "(string \<times> Fold) list \<Rightarrow> (string \<rightharpoonup> Fold)" where
  "indexAggregators aggregators = fold (\<lambda>(kind, agg) indexed. indexed(kind \<mapsto> agg)) aggregators Map.empty"

section \<open>Field conditions\<close>

text \<open>Reading a missing key of a map gives nil.\<close>

definition formGet :: "FormData \<Rightarrow> string \<Rightarrow> json" where
  "formGet d key = (case map_of (formEntries d) key of None \<Rightarrow> JNull | Some v \<Rightarrow> v)"

definition resolveSubjectValue :: "string \<Rightarrow> EvaluationContext \<Rightarrow> json" where
  "resolveSubjectValue subject ec =
     (if subject = ''applicantId'' then JStr (ec_ApplicantID ec)
      else if subject = ''applicantDepartmentId'' then
        (case ec_ApplicantDepartmentID ec of None \<Rightarrow> JNull | Some d \<Rightarrow> JStr d)
      else case map_of (formEntries (ec_Globals ec)) subject of
          Some value \<Rightarrow> value
        | None \<Rightarrow> formGet (ec_FormData ec) subject)"

fun asRow :: "json \<Rightarrow> error + (string \<times> json) list" where
  "asRow (JObj row) = Inr row"
| "asRow _ = Inl ErrIncomparableValues"

definition tableRows :: "json \<Rightarrow> error + (string \<times> json) list list" where
  "tableRows value =
     (if value = JNull then Inr []
      else bindE (toAnySlice value) (mapE asRow))"

fun extractNumericColumn :: "(string \<times> json) list list \<Rightarrow> string \<Rightarrow> error + rat list" where
  "extractNumericColumn [] column = Inr []"
| "extractNumericColumn (row # rows) column =
     (case map_of row column of
        None \<Rightarrow> extractNumericColumn rows column
      | Some cell \<Rightarrow>
          if cell = JNull then extractNumericColumn rows column
          else bindE (ofOption ErrIncomparableValues (ToFloat64 cell)) (\<lambda>number.
               bindE (extractNumericColumn rows column) (\<lambda>vs. Inr (number # vs))))"

definition evaluateAggregate ::
    "env \<Rightarrow> (string \<rightharpoonup> Fold) \<Rightarrow> Condition \<Rightarrow> EvaluationContext \<Rightarrow> error + bool" where
  "evaluateAggregate env aggregators cond ec =
     bindE (ofOption (ErrStrategy AggregatorNotFound) (aggregators (c_Aggregate cond))) (\<lambda>agg.
     bindE (tableRows (formGet (ec_FormData ec) (c_Subject cond))) (\<lambda>rows.
     bindE (if FoldsColumn (c_Aggregate cond) then extractNumericColumn rows (c_Column cond) else Inr []) (\<lambda>vs.
       case agg vs (length rows) of
         (res, matchable) \<Rightarrow>
           if \<not> matchable then Inr False
           else compareCondition env (c_Operator cond) (JNum res) (c_Value cond))))"

definition FieldCondition_Evaluate ::
    "(string \<rightharpoonup> Fold) \<Rightarrow> env \<Rightarrow> Condition \<Rightarrow> EvaluationContext \<Rightarrow> error + bool" where
  "FieldCondition_Evaluate aggregators env cond ec =
     (if c_Aggregate cond \<noteq> [] then evaluateAggregate env aggregators cond ec
      else compareCondition env (c_Operator cond) (resolveSubjectValue (c_Subject cond) ec) (c_Value cond))"

section \<open>Expression conditions\<close>

text \<open>
  The bindings an expression sees: every global, then the three built-in names, which win a
  collision.
\<close>

definition expressionEnv :: "EvaluationContext \<Rightarrow> (string \<rightharpoonup> json)" where
  "expressionEnv ec =
     (map_of (formEntries (ec_Globals ec)))
       (''formData'' \<mapsto> JObj (formEntries (ec_FormData ec)),
        ''applicantId'' \<mapsto> JStr (ec_ApplicantID ec),
        ''applicantDepartmentId'' \<mapsto>
          JStr (case ec_ApplicantDepartmentID ec of None \<Rightarrow> [] | Some d \<Rightarrow> d))"

type_synonym ExpressionEngine = "string \<Rightarrow> (string \<rightharpoonup> json) \<Rightarrow> error + (error + bool)"

definition ExpressionCondition_Evaluate ::
    "ExpressionEngine \<Rightarrow> Condition \<Rightarrow> EvaluationContext \<Rightarrow> error + bool" where
  "ExpressionCondition_Evaluate engine cond ec =
     bindE (engine (c_Expression cond) (expressionEnv ec)) (\<lambda>value.
       case value of
         Inl _ \<Rightarrow> Inl (ErrStrategy ExpressionReturnedNonBool)
       | Inr result \<Rightarrow> Inr result)"

text \<open>The evaluators of the module, over a set of aggregators that extends the built-in ones.\<close>

definition builtinEvaluators ::
    "(string \<times> Fold) list \<Rightarrow> ExpressionEngine \<Rightarrow> env \<Rightarrow>
     (string \<rightharpoonup> (Condition \<Rightarrow> EvaluationContext \<Rightarrow> error + bool))" where
  "builtinEvaluators aggregators engine env =
     [''field'' \<mapsto> FieldCondition_Evaluate (indexAggregators aggregators) env,
      ''expression'' \<mapsto> ExpressionCondition_Evaluate engine]"

definition withConditions :: "(string \<times> Fold) list \<Rightarrow> ExpressionEngine \<Rightarrow> env \<Rightarrow> env" where
  "withConditions aggregators engine env =
     env\<lparr>env_condition_evaluators := builtinEvaluators aggregators engine env\<rparr>"

section \<open>What the operators promise\<close>

text \<open>The outcome of a comparison, negated; an error stays.\<close>

definition negated :: "error + bool \<Rightarrow> error + bool" where
  "negated r = (case r of Inl e \<Rightarrow> Inl e | Inr b \<Rightarrow> Inr (\<not> b))"

lemma negated_simps [simp]: "negated (Inl e) = Inl e" "negated (Inr b) = Inr (\<not> b)"
  by (simp_all add: negated_def)

lemma negated_bindE: "bindE r (\<lambda>b. Inr (\<not> b)) = negated r"
  by (cases r) simp_all

definition complements :: "(string \<times> string) list" where
  "complements = [(''eq'', ''ne''), (''gt'', ''lte''), (''lt'', ''gte''), (''in'', ''not_in''),
     (''contains'', ''not_contains''), (''is_empty'', ''is_not_empty'')]"

lemma compareOrdered_complement:
  "compareOrdered ''lte'' a b = negated (compareOrdered ''gt'' a b)"
  "compareOrdered ''gte'' a b = negated (compareOrdered ''lt'' a b)"
  by (auto simp: compareOrdered_def orderedResult_def bindE_def ofOption_def split: option.splits json.splits)

lemma compareCondition_ops:
  "compareCondition env ''eq'' a b = Inr (valuesEqual env a b)"
  "compareCondition env ''ne'' a b = Inr (\<not> valuesEqual env a b)"
  "compareCondition env ''gt'' a b = compareOrdered ''gt'' a b"
  "compareCondition env ''gte'' a b = compareOrdered ''gte'' a b"
  "compareCondition env ''lt'' a b = compareOrdered ''lt'' a b"
  "compareCondition env ''lte'' a b = compareOrdered ''lte'' a b"
  "compareCondition env ''in'' a b = valueInList env a b"
  "compareCondition env ''not_in'' a b = bindE (valueInList env a b) (\<lambda>c. Inr (\<not> c))"
  "compareCondition env ''contains'' a b = subjectContains env a b"
  "compareCondition env ''not_contains'' a b = bindE (subjectContains env a b) (\<lambda>c. Inr (\<not> c))"
  "compareCondition env ''starts_with'' a b = compareStringPair a b (\<lambda>s w. hasPrefix w s)"
  "compareCondition env ''ends_with'' a b = compareStringPair a b (\<lambda>s w. hasSuffix w s)"
  "compareCondition env ''is_empty'' a b = Inr (isEmptyValue a)"
  "compareCondition env ''is_not_empty'' a b = Inr (\<not> isEmptyValue a)"
  unfolding compareCondition_def by simp_all

lemma compareCondition_complement:
  assumes "(p, q) \<in> set complements"
  shows "compareCondition env q a b = negated (compareCondition env p a b)"
proof -
  have "list_all (\<lambda>(p, q). compareCondition env q a b = negated (compareCondition env p a b)) complements"
    unfolding complements_def list.pred_inject prod.case compareCondition_ops
    by (simp only: compareOrdered_complement negated_bindE negated_simps simp_thms list_all_iff list.set ball_simps)
  with assms show ?thesis unfolding list_all_iff by blast
qed

lemma strContains_iff: "strContains s w \<longleftrightarrow> (\<exists>l r. s = l @ w @ r)"
proof (induction s)
  case (Cons c s)
  have "(\<exists>l r. c # s = l @ w @ r) \<longleftrightarrow> (\<exists>r. c # s = w @ r) \<or> (\<exists>l r. s = l @ w @ r)"
    by (auto simp: Cons_eq_append_conv)
  with Cons show ?case by (auto simp: hasPrefix_append)
qed simp

lemma hasSuffix_iff: "hasSuffix w s \<longleftrightarrow> (\<exists>l. s = l @ w)"
  unfolding hasSuffix_def hasPrefix_append by (metis rev_append rev_rev_ident)

text \<open>The only error of an operator of the vocabulary is a type mismatch.\<close>

lemma toAnySlice_Inl: "toAnySlice v = Inl e \<Longrightarrow> e = ErrIncomparableValues"
  by (cases v) auto

lemma subjectContains_Inl: "subjectContains env a b = Inl e \<Longrightarrow> e = ErrIncomparableValues"
  by (cases a) (auto split: json.splits sum.splits)

lemma compareOrdered_Inl: "compareOrdered op a b = Inl e \<Longrightarrow> e = ErrIncomparableValues"
  by (auto simp: compareOrdered_def bindE_Inl_iff ofOption_def split: option.splits json.splits)

lemma valueInList_Inl: "valueInList env a b = Inl e \<Longrightarrow> e = ErrIncomparableValues"
  by (auto simp: valueInList_def bindE_Inl_iff dest: toAnySlice_Inl)

lemma compareStringPair_Inl: "compareStringPair a b P = Inl e \<Longrightarrow> e = ErrIncomparableValues"
  by (auto simp: compareStringPair_def split: json.splits)

lemmas comparison_Inl = compareOrdered_Inl valueInList_Inl compareStringPair_Inl subjectContains_Inl

lemma compareCondition_Inl:
  assumes "compareCondition env op a b = Inl e" and "ConditionOperator_IsValid op"
  shows "e = ErrIncomparableValues"
proof -
  have "list_all (\<lambda>op. compareCondition env op a b = Inl e \<longrightarrow> e = ErrIncomparableValues) operators"
    unfolding operators_def list.pred_inject compareCondition_ops bindE_Inl_iff
    by (intro conjI impI) (auto simp: list_all_iff dest: comparison_Inl)
  with assms show ?thesis unfolding list_all_iff ConditionOperator_IsValid_def by blast
qed

lemma compareCondition_unsupported:
  assumes "\<not> ConditionOperator_IsValid op"
  shows "compareCondition env op a b = Inl (ErrStrategy (UnsupportedOperator op))"
  using assms unfolding compareCondition_def ConditionOperator_IsValid_def operators_def by simp

lemma rowOf_Inl: "asRow v = Inl e \<Longrightarrow> e = ErrIncomparableValues"
  by (cases v) auto

lemma mapE_Inl: "mapE f xs = Inl e \<Longrightarrow> \<exists>x \<in> set xs. f x = Inl e"
  by (induction xs) (auto simp: bindE_Inl_iff)

lemma tableRows_Inl: "tableRows v = Inl e \<Longrightarrow> e = ErrIncomparableValues"
  by (auto simp: tableRows_def bindE_Inl_iff dest: toAnySlice_Inl mapE_Inl rowOf_Inl split: if_splits)

lemma extractNumericColumn_Inl:
  "extractNumericColumn rows column = Inl e \<Longrightarrow> e = ErrIncomparableValues"
  by (induction rows) (auto simp: bindE_Inl_iff ofOption_def split: option.splits if_splits)

lemma dom_indexAggregators: "dom (indexAggregators aggs) = set (map fst aggs)"
proof -
  have "dom (fold (\<lambda>(kind, agg) indexed. indexed(kind \<mapsto> agg)) aggs m) = dom m \<union> set (map fst aggs)"
    for m :: "string \<rightharpoonup> Fold"
    by (induction aggs arbitrary: m) auto
  then show ?thesis by (simp add: indexAggregators_def)
qed

lemma aggregateMatch_Inl:
  assumes "(case p of (res, matchable) \<Rightarrow>
              if \<not> matchable then Inr False else compareCondition env op (JNum res) v) = Inl e"
    and "ConditionOperator_IsValid op"
  shows "e = ErrIncomparableValues"
  using assms compareCondition_Inl by (cases p) (auto split: if_splits)

lemma evaluateAggregate_Inl:
  assumes "evaluateAggregate env aggs cond ec = Inl e" and "aggs (c_Aggregate cond) \<noteq> None"
    and "ConditionOperator_IsValid (c_Operator cond)"
  shows "e = ErrIncomparableValues"
proof -
  obtain agg where agg: "aggs (c_Aggregate cond) = Some agg" using assms(2) by blast
  then show ?thesis
    using assms(1,3) tableRows_Inl extractNumericColumn_Inl aggregateMatch_Inl
    unfolding evaluateAggregate_def agg ofOption_simps bindE_simps bindE_Inl_iff
    by (metis sum.distinct(1))
qed

lemma FieldCondition_Inl:
  assumes "FieldCondition_Evaluate (indexAggregators aggs) env cond ec = Inl e"
    and "ConditionOperator_IsValid (c_Operator cond)"
    and "c_Aggregate cond = [] \<or> c_Aggregate cond \<in> set (map fst aggs)"
  shows "e = ErrIncomparableValues"
proof (cases "c_Aggregate cond = []")
  case True
  with assms compareCondition_Inl show ?thesis by (fastforce simp: FieldCondition_Evaluate_def)
next
  case False
  with assms dom_indexAggregators[of aggs] have "indexAggregators aggs (c_Aggregate cond) \<noteq> None" by blast
  with False assms evaluateAggregate_Inl show ?thesis by (fastforce simp: FieldCondition_Evaluate_def)
qed

section \<open>What the aggregators promise\<close>

text \<open>Integers below \<open>2^53\<close> in magnitude are values of the format, so their sums are exact.\<close>

lemma rndPos_of_int:
  assumes "0 < n" and "n < 2 ^ 53"
  shows "rndPos (of_int n) = of_int n"
proof -
  let ?x = "of_int n :: rat" and ?k = "expo64 (of_int n)"
  have bounds: "2 ^ 52 \<le> ?x * 2 powi ?k" using expo64_bounds[of ?x] assms by simp
  have "?x < 2 ^ 53" using assms(2) by (metis of_int_less_iff of_int_numeral of_int_power)
  have "0 \<le> ?k"
  proof (rule ccontr)
    assume "\<not> 0 \<le> ?k"
    then have "(2::rat) powi ?k \<le> 2 powi (- 1)" by (intro power_int_increasing) auto
    then have "?x * 2 powi ?k \<le> ?x * (1 / 2)" using assms by (intro mult_left_mono) simp_all
    with bounds \<open>?x < 2 ^ 53\<close> show False by simp
  qed
  then have "?x * 2 powi ?k = of_int (n * 2 ^ nat ?k)" by (simp add: power_int_def)
  then show ?thesis unfolding rndPos_def by (metis nonzero_mult_div_cancel_right power_int_eq_0_iff roundEven_of_int zero_neq_numeral)
qed

lemma rnd64_of_int: "\<bar>n\<bar> < 2 ^ 53 \<Longrightarrow> rnd64 (of_int n) = of_int n"
  using rndPos_of_int[of n] rndPos_of_int[of "- n"] by (auto simp: rnd64_def)

text \<open>Every partial sum of a column stays below \<open>2^53\<close> in magnitude.\<close>

definition sumsFit :: "int list \<Rightarrow> bool" where
  "sumsFit ns = list_all (\<lambda>k. \<bar>sum_list (take k ns)\<bar> < 2 ^ 53) [0..<Suc (length ns)]"

lemma sumFloat_of_int:
  assumes "\<And>k. k \<le> length ns \<Longrightarrow> \<bar>s + sum_list (take k ns)\<bar> < 2 ^ 53"
  shows "sumFloat (map of_int ns) (of_int s) = of_int (s + sum_list ns)"
  using assms
proof (induction ns arbitrary: s)
  case (Cons n ns)
  have "rnd64 (of_int (s + n)) = of_int (s + n)" using Cons.prems[of 1] by (intro rnd64_of_int) simp
  moreover have "\<bar>(s + n) + sum_list (take k ns)\<bar> < 2 ^ 53" if "k \<le> length ns" for k
    using Cons.prems[of "Suc k"] that by (simp add: add.assoc)
  ultimately show ?case using Cons.IH[of "s + n"] by (simp add: add.assoc)
qed simp

lemma Sum_Fold_exact: "sumsFit ns \<Longrightarrow> Sum_Fold (map of_int ns) rows = (of_int (sum_list ns), True)"
proof -
  assume "sumsFit ns"
  then have "\<bar>0 + sum_list (take k ns)\<bar> < 2 ^ 53" if "k \<le> length ns" for k
    using that unfolding sumsFit_def list_all_iff set_upt add_0
    by (meson atLeastLessThan_iff le0 le_imp_less_Suc)
  then have "sumFloat (map of_int ns) (of_int 0) = of_int (0 + sum_list ns)" by (rule sumFloat_of_int)
  then show ?thesis by (simp add: Sum_Fold_def)
qed

lemma builtinAggregators_valid: "ValidateBuiltinAggregators (builtinAggregators @ hosts) = Inr ()"
  by (simp add: ValidateBuiltinAggregators_def builtinAggregators_def expectedAggregates_def)

end
