(* ===== verification/Resolver_Overlay.thy ===== *)
theory Resolver_Overlay
  imports Pass_Rule Approval_Store
begin

text \<open>
  The registration of principal resolvers (\<^verbatim>\<open>strategy/overlay.go\<close>, \<^verbatim>\<open>strategy/registry.go\<close> and the
  descriptors of \<^verbatim>\<open>approval/kind_descriptor.go\<close>): host resolvers are overlaid onto the built-in
  ones, a resolver of a known kind replaces it in place, any other joins the end in ascending kind
  order.  A resolver is its descriptor and its function; a nil entry of a slice is \<^term>\<open>None\<close>.

  The lemmas show the overlay against its specification: the designer order is the kinds in the
  order they first appear, and the index holds the last registration of each kind.
\<close>

section \<open>Descriptors\<close>

record KindDescriptor =
  kd_Kind :: string
  kd_Label :: string
  kd_Selection :: SelectionMode

record 'f Resolver =
  rs_Describe :: KindDescriptor
  rs_Run :: 'f

abbreviation kindOf :: "'f Resolver \<Rightarrow> string" where
  "kindOf r \<equiv> kd_Kind (rs_Describe r)"

text \<open>The text of a selection mode out of the enumeration, for the error that names it.\<close>

fun selectionText :: "SelectionMode \<Rightarrow> string" where
  "selectionText (SelectionOther s) = s"
| "selectionText _ = []"

definition KindDescriptor_Validate :: "KindDescriptor \<Rightarrow> error + unit" where
  "KindDescriptor_Validate d =
     bindE (ensure (kd_Kind d \<noteq> []) (ErrStrategy KindEmpty)) (\<lambda>_.
     bindE (ensure (kd_Label d \<noteq> []) (ErrStrategy (KindLabelEmpty (kd_Kind d)))) (\<lambda>_.
       ensure (SelectionMode_IsValid (kd_Selection d))
         (ErrStrategy (InvalidSelectionMode (selectionText (kd_Selection d))))))"

section \<open>The overlay\<close>

fun hostEntries :: "'f Resolver option list \<Rightarrow> error + 'f Resolver list" where
  "hostEntries [] = Inr []"
| "hostEntries (None # rs) = Inl (ErrStrategy NilResolver)"
| "hostEntries (Some r # rs) = bindE (hostEntries rs) (\<lambda>entries. Inr (r # entries))"

text \<open>The loop over the sorted entries; the first argument is the kind of the entry before.\<close>

fun uniqueEntries :: "string option \<Rightarrow> 'f Resolver list \<Rightarrow> error + 'f Resolver list" where
  "uniqueEntries prev [] = Inr []"
| "uniqueEntries prev (r # rs) =
     (if prev = Some (kindOf r) then Inl (ErrStrategy (DuplicateHostKind (kindOf r)))
      else bindE (uniqueEntries (Some (kindOf r)) rs) (\<lambda>ordered. Inr (r # ordered)))"

definition orderHostResolvers :: "'f Resolver option list \<Rightarrow> error + 'f Resolver list" where
  "orderHostResolvers hosts =
     bindE (hostEntries hosts) (\<lambda>entries. uniqueEntries None (sort_key kindOf entries))"

text \<open>The loop of \<^verbatim>\<open>overlayKinds\<close> over the resolvers in designer order and their positions.\<close>

fun overlayLoop ::
    "'f Resolver option list \<Rightarrow> 'f Resolver list \<Rightarrow> (string \<rightharpoonup> nat) \<Rightarrow> error + 'f Resolver list" where
  "overlayLoop [] ordered position = Inr ordered"
| "overlayLoop (None # rs) ordered position = Inl (ErrStrategy NilResolver)"
| "overlayLoop (Some r # rs) ordered position =
     bindE (KindDescriptor_Validate (rs_Describe r)) (\<lambda>_.
       case position (kindOf r) of
         Some i \<Rightarrow> overlayLoop rs (ordered[i := r]) position
       | None \<Rightarrow> overlayLoop rs (ordered @ [r]) (position(kindOf r \<mapsto> length ordered)))"

definition indexResolvers :: "'f Resolver list \<Rightarrow> (string \<rightharpoonup> 'f Resolver)" where
  "indexResolvers ordered = fold (\<lambda>r index. index(kindOf r \<mapsto> r)) ordered Map.empty"

record 'f Composite =
  co_ordered :: "'f Resolver list"
  co_resolvers :: "string \<rightharpoonup> 'f Resolver"

definition overlayKinds ::
    "'f Resolver option list \<Rightarrow> 'f Resolver option list \<Rightarrow> error + 'f Composite" where
  "overlayKinds builtins hosts =
     bindE (orderHostResolvers hosts) (\<lambda>sortedHosts.
     bindE (overlayLoop (builtins @ map Some sortedHosts) [] Map.empty) (\<lambda>ordered.
       Inr \<lparr>co_ordered = ordered, co_resolvers = indexResolvers ordered\<rparr>))"

text \<open>Initiation is checked before a form exists: no initiator kind may select from the form.\<close>

definition NewCompositeInitiatorResolver ::
    "'f Resolver option list \<Rightarrow> 'f Resolver option list \<Rightarrow> error + 'f Composite" where
  "NewCompositeInitiatorResolver builtins hosts =
     bindE (overlayKinds builtins hosts) (\<lambda>c.
     bindE (checkAll (\<lambda>r. ensure (kd_Selection (rs_Describe r) \<noteq> SelectionFormField)
              (ErrStrategy (FormFieldInitiatorKind (kindOf r)))) (co_ordered c)) (\<lambda>_. Inr c))"

definition describeAll :: "'f Resolver list \<Rightarrow> KindDescriptor list" where
  "describeAll resolvers = map rs_Describe resolvers"

definition Composite_Describe :: "'f Composite \<Rightarrow> string \<Rightarrow> KindDescriptor option" where
  "Composite_Describe c kind = map_option rs_Describe (co_resolvers c kind)"

definition requireKinds :: "(string \<rightharpoonup> 'r) \<Rightarrow> string list \<Rightarrow> (string \<Rightarrow> error) \<Rightarrow> error + unit" where
  "requireKinds index expected missing =
     checkAll (\<lambda>kind. ensure (index kind \<noteq> None) (missing kind)) expected"

section \<open>The registry\<close>

definition expectedPassRules :: "PassRule list" where
  "expectedPassRules = [PassAll, PassAny, PassRatio, PassFixedCount]"

definition expectedAssigneeKinds :: "string list" where
  "expectedAssigneeKinds = [''user'', ''role'', ''department'', ''self'', ''superior'',
     ''department_leader'', ''form_field'']"

definition expectedCCKinds :: "string list" where
  "expectedCCKinds = [''user'', ''role'', ''department'', ''form_field'']"

definition expectedInitiatorKinds :: "string list" where
  "expectedInitiatorKinds = [''user'', ''role'', ''department'']"

definition expectedConditionKinds :: "string list" where
  "expectedConditionKinds = [''field'', ''expression'']"

record ('a, 'c, 'i) StrategyRegistry =
  sr_passRules :: "PassRule \<rightharpoonup> (PassRuleContext \<Rightarrow> PassRuleResult)"
  sr_conditions :: "string \<rightharpoonup> (Condition \<Rightarrow> EvaluationContext \<Rightarrow> error + bool)"
  sr_assignees :: "'a Composite option"
  sr_ccs :: "'c Composite option"
  sr_initiators :: "'i Composite option"

definition ValidateBuiltins :: "('a, 'c, 'i) StrategyRegistry \<Rightarrow> error + unit" where
  "ValidateBuiltins r =
     bindE (checkAll (\<lambda>rule. ensure (sr_passRules r rule \<noteq> None)
              (ErrStrategy (BuiltinPassRuleMissing rule))) expectedPassRules) (\<lambda>_.
     bindE (checkAll (\<lambda>kind. ensure (sr_conditions r kind \<noteq> None)
              (ErrStrategy (BuiltinEvaluatorMissing kind))) expectedConditionKinds) (\<lambda>_.
       case (sr_assignees r, sr_ccs r, sr_initiators r) of
         (Some assignees, Some ccs, Some initiators) \<Rightarrow>
           bindE (requireKinds (co_resolvers assignees) expectedAssigneeKinds
                    (\<lambda>k. ErrStrategy (BuiltinAssigneeMissing k))) (\<lambda>_.
           bindE (requireKinds (co_resolvers ccs) expectedCCKinds
                    (\<lambda>k. ErrStrategy (BuiltinCCMissing k))) (\<lambda>_.
             requireKinds (co_resolvers initiators) expectedInitiatorKinds
               (\<lambda>k. ErrStrategy (BuiltinInitiatorMissing k))))
       | _ \<Rightarrow> Inl (ErrStrategy NilResolver)))"

section \<open>Host resolvers\<close>

lemma hostEntries_Inr: "hostEntries hosts = Inr entries \<longleftrightarrow> hosts = map Some entries"
proof (induction hosts arbitrary: entries)
  case (Cons h hosts)
  then show ?case by (cases h; cases entries) (auto simp: bindE_Inr_iff)
qed auto

lemma uniqueEntries_Inr:
  "uniqueEntries prev rs = Inr out \<Longrightarrow>
     out = rs \<and> distinct_adj (map kindOf rs) \<and> (rs \<noteq> [] \<longrightarrow> prev \<noteq> Some (kindOf (hd rs)))"
proof (induction rs arbitrary: prev out)
  case (Cons r rs)
  then obtain ys where p: "prev \<noteq> Some (kindOf r)" and ys: "uniqueEntries (Some (kindOf r)) rs = Inr ys"
    and out: "out = r # ys"
    by (auto split: if_splits)
  from Cons.IH[OF ys] p out show ?case by (cases rs) auto
qed simp

lemma sorted_distinct_adj: "sorted xs \<Longrightarrow> distinct_adj xs \<Longrightarrow> distinct xs"
proof (induction xs)
  case (Cons x xs)
  have "x \<notin> set xs"
  proof
    assume "x \<in> set xs"
    then obtain y ys where xs: "xs = y # ys" by (cases xs) auto
    with Cons.prems have "x \<noteq> y" "x \<le> y" "\<forall>z \<in> set ys. y \<le> z" by auto
    with \<open>x \<in> set xs\<close> xs show False by auto
  qed
  with Cons show ?case by (cases xs) auto
qed simp

lemma orderHostResolvers_Inr:
  assumes "orderHostResolvers hosts = Inr sortedHosts"
  obtains entries where "hosts = map Some entries" and "sortedHosts = sort_key kindOf entries"
    and "distinct (map kindOf sortedHosts)"
proof -
  obtain entries where e: "hostEntries hosts = Inr entries"
    and u: "uniqueEntries None (sort_key kindOf entries) = Inr sortedHosts"
    using assms unfolding orderHostResolvers_def by blast
  have "sortedHosts = sort_key kindOf entries" and "distinct_adj (map kindOf (sort_key kindOf entries))"
    using uniqueEntries_Inr[OF u] by auto
  moreover have "sorted (map kindOf (sort_key kindOf entries))" by simp
  ultimately have "distinct (map kindOf sortedHosts)" by (auto intro: sorted_distinct_adj)
  with e \<open>sortedHosts = _\<close> show ?thesis using that by (auto simp: hostEntries_Inr)
qed

section \<open>The overlay against its specification\<close>

text \<open>The last registration of every kind.\<close>

definition lastOf :: "'f Resolver list \<Rightarrow> (string \<rightharpoonup> 'f Resolver)" where
  "lastOf rs = map_of (rev (map (\<lambda>r. (kindOf r, r)) rs))"

lemma indexResolvers_eq: "indexResolvers rs = lastOf rs"
proof -
  have "fold (\<lambda>r index. index(kindOf r \<mapsto> r)) rs m = m ++ lastOf rs" for m :: "string \<rightharpoonup> 'a Resolver"
    by (induction rs arbitrary: m) (auto simp: lastOf_def fun_eq_iff map_add_def split: option.splits)
  then show ?thesis by (simp add: indexResolvers_def)
qed

lemma lastOf_append: "lastOf (xs @ ys) = lastOf xs ++ lastOf ys"
  by (simp add: lastOf_def)

lemma lastOf_None: "lastOf rs k = None \<longleftrightarrow> k \<notin> kindOf ` set rs"
  by (auto simp: lastOf_def map_of_eq_None_iff image_iff)

lemma lastOf_distinct:
  assumes "distinct (map kindOf rs)"
  shows "lastOf rs k = Some r \<longleftrightarrow> r \<in> set rs \<and> kindOf r = k"
proof -
  have "distinct (map fst (rev (map (\<lambda>r. (kindOf r, r)) rs)))"
    using assms by (simp add: rev_map o_def flip: rev_map)
  then show ?thesis unfolding lastOf_def by (subst map_of_eq_Some_iff) auto
qed

lemma lastOf_update:
  assumes "distinct (map kindOf (rs[i := r]))" and "i < length rs" and "kindOf (rs ! i) = kindOf r"
    and "distinct (map kindOf rs)"
  shows "lastOf (rs[i := r]) = lastOf (rs @ [r])"
proof
  fix k
  have mem: "x \<in> set (rs[i := r]) \<longleftrightarrow> x = r \<or> x \<in> set rs \<and> kindOf x \<noteq> kindOf r" for x
    using assms(2,3,4) by (auto simp: in_set_conv_nth nth_list_update distinct_conv_nth) metis+
  show "lastOf (rs[i := r]) k = lastOf (rs @ [r]) k"
  proof (cases "k = kindOf r")
    case True
    with mem assms(1) have "lastOf (rs[i := r]) k = Some r" by (simp add: lastOf_distinct)
    with True show ?thesis by (simp add: lastOf_def)
  next
    case False
    then have "lastOf (rs @ [r]) k = lastOf rs k" by (simp add: lastOf_def)
    moreover have "lastOf (rs[i := r]) k = Some x \<longleftrightarrow> lastOf rs k = Some x" for x
      using False mem assms(1,4) by (auto simp: lastOf_distinct)
    ultimately show ?thesis by (metis not_None_eq)
  qed
qed

definition posOK :: "'f Resolver list \<Rightarrow> (string \<rightharpoonup> nat) \<Rightarrow> bool" where
  "posOK ordered position \<longleftrightarrow>
     (\<forall>k i. position k = Some i \<longleftrightarrow> i < length ordered \<and> kindOf (ordered ! i) = k)"

lemma posOK_distinct: "posOK ordered position \<Longrightarrow> distinct (map kindOf ordered)"
  unfolding posOK_def distinct_conv_nth by (simp, metis option.inject)

lemma posOK_update: "posOK ordered position \<Longrightarrow> position (kindOf r) = Some i \<Longrightarrow> posOK (ordered[i := r]) position"
  unfolding posOK_def by (auto simp: nth_list_update)

lemma posOK_append:
  assumes "posOK ordered position" and "position (kindOf r) = None"
  shows "posOK (ordered @ [r]) (position(kindOf r \<mapsto> length ordered))"
proof -
  have "kindOf (ordered ! i) \<noteq> kindOf r" if "i < length ordered" for i
    using assms that unfolding posOK_def by (metis option.distinct(1))
  with assms(1) show ?thesis unfolding posOK_def by (auto simp: nth_append less_Suc_eq)
qed

lemma firstSeen_again: "k \<in> set ks \<Longrightarrow> firstSeen (ks @ k # rest) = firstSeen (ks @ rest)"
proof (induction ks)
  case (Cons a ks)
  show ?case
  proof (cases "k = a")
    case True
    then show ?thesis by (simp flip: filter_firstSeen)
  qed (use Cons in simp)
qed simp

lemma overlayLoop_Inr:
  assumes "overlayLoop rs ordered position = Inr out" and "posOK ordered position"
  shows "(\<exists>rs'. rs = map Some rs' \<and> map kindOf out = firstSeen (map kindOf (ordered @ rs'))
            \<and> lastOf out = lastOf (ordered @ rs')
            \<and> (\<forall>r \<in> set rs'. KindDescriptor_Validate (rs_Describe r) = Inr ()))
         \<and> distinct (map kindOf out)"
  using assms
proof (induction rs ordered position rule: overlayLoop.induct)
  case (1 ordered position)
  then show ?case by (auto simp: firstSeen_distinct posOK_distinct)
next
  case (3 r rs ordered position)
  have valid: "KindDescriptor_Validate (rs_Describe r) = Inr ()" using 3(3) by auto
  show ?case
  proof (cases "position (kindOf r)")
    case None
    then have run: "overlayLoop rs (ordered @ [r]) (position(kindOf r \<mapsto> length ordered)) = Inr out"
      using 3(3) valid by simp
    from 3(1)[OF valid None run posOK_append[OF 3(4) None]] obtain rs' where
      "rs = map Some rs'" "map kindOf out = firstSeen (map kindOf ((ordered @ [r]) @ rs'))"
      "lastOf out = lastOf ((ordered @ [r]) @ rs')"
      "\<forall>r \<in> set rs'. KindDescriptor_Validate (rs_Describe r) = Inr ()" "distinct (map kindOf out)"
      by blast
    with valid show ?thesis by (intro conjI exI[of _ "r # rs'"]) simp_all
  next
    case (Some i)
    then have run: "overlayLoop rs (ordered[i := r]) position = Inr out" using 3(3) valid by simp
    from 3(2)[OF valid Some run posOK_update[OF 3(4) Some]] obtain rs' where IH:
      "rs = map Some rs'" "map kindOf out = firstSeen (map kindOf (ordered[i := r] @ rs'))"
      "lastOf out = lastOf (ordered[i := r] @ rs')"
      "\<forall>r \<in> set rs'. KindDescriptor_Validate (rs_Describe r) = Inr ()" "distinct (map kindOf out)"
      by blast
    have i: "i < length ordered" "kindOf (ordered ! i) = kindOf r"
      using Some 3(4) unfolding posOK_def by blast+
    have kinds: "map kindOf (ordered[i := r]) = map kindOf ordered"
      using i by (metis list_update_id map_update nth_map length_map)
    have "distinct (map kindOf (ordered[i := r]))" using posOK_distinct[OF 3(4)] kinds by simp
    then have upd: "lastOf (ordered[i := r]) = lastOf (ordered @ [r])"
      using i posOK_distinct[OF 3(4)] by (rule lastOf_update)
    have "kindOf r \<in> set (map kindOf ordered)" using i by (metis length_map nth_map nth_mem)
    then have "firstSeen (map kindOf (ordered @ r # rs')) = firstSeen (map kindOf (ordered[i := r] @ rs'))"
      using kinds by (simp add: firstSeen_again)
    moreover have "lastOf (ordered @ r # rs') = lastOf (ordered[i := r] @ rs')"
      using upd by (metis append.assoc append_Cons append_Nil lastOf_append)
    ultimately show ?thesis using IH valid by (intro conjI exI[of _ "r # rs'"]) simp_all
  qed
qed simp

text \<open>What a successful overlay yields, in terms of the two lists it was given.\<close>

lemma overlayKinds_Inr:
  assumes "overlayKinds builtins hosts = Inr c"
  obtains bs hs where "builtins = map Some bs" and "hosts = map Some hs"
    and "map kindOf (co_ordered c) = firstSeen (map kindOf (bs @ sort_key kindOf hs))"
    and "co_resolvers c = lastOf bs ++ lastOf (sort_key kindOf hs)"
    and "co_resolvers c = lastOf (co_ordered c)"
    and "distinct (map kindOf (co_ordered c))" and "distinct (map kindOf hs)"
    and "\<And>r. r \<in> set bs \<union> set hs \<Longrightarrow> KindDescriptor_Validate (rs_Describe r) = Inr ()"
proof -
  obtain sorted ordered where o: "orderHostResolvers hosts = Inr sorted"
    and l: "overlayLoop (builtins @ map Some sorted) [] Map.empty = Inr ordered"
    and c: "c = \<lparr>co_ordered = ordered, co_resolvers = indexResolvers ordered\<rparr>"
    using assms unfolding overlayKinds_def by blast
  obtain hs where hs: "hosts = map Some hs" "sorted = sort_key kindOf hs" "distinct (map kindOf sorted)"
    using orderHostResolvers_Inr[OF o] .
  have "posOK [] Map.empty" by (simp add: posOK_def)
  from overlayLoop_Inr[OF l this] obtain rs where rs: "builtins @ map Some sorted = map Some rs"
      "map kindOf ordered = firstSeen (map kindOf rs)" "lastOf ordered = lastOf rs"
      "\<forall>r \<in> set rs. KindDescriptor_Validate (rs_Describe r) = Inr ()" "distinct (map kindOf ordered)"
    by auto
  obtain bs ss where split: "rs = bs @ ss" "builtins = map Some bs" "map Some sorted = map Some ss"
    using rs(1) by (metis map_eq_append_conv)
  then have ss: "ss = sorted" by (simp add: inj_map_eq_map)
  have "mset (map kindOf sorted) = mset (map kindOf hs)" using hs(2) by simp
  then have d: "distinct (map kindOf hs)" using hs(3) mset_eq_imp_distinct_iff by blast
  show ?thesis
    by (rule that[OF split(2) hs(1)])
      (use rs split ss hs d c in \<open>auto simp: indexResolvers_eq lastOf_append\<close>)
qed

section \<open>When an overlay succeeds and what it contains\<close>

definition registrable :: "'f Resolver option list \<Rightarrow> bool" where
  "registrable hosts \<longleftrightarrow>
     list_all (\<lambda>h. case h of None \<Rightarrow> False | Some r \<Rightarrow> KindDescriptor_Validate (rs_Describe r) = Inr ()) hosts
     \<and> distinct (map (\<lambda>h. kindOf (the h)) hosts)"

lemma registrable_map_Some:
  "registrable (map Some rs) \<longleftrightarrow>
     (\<forall>r \<in> set rs. KindDescriptor_Validate (rs_Describe r) = Inr ()) \<and> distinct (map kindOf rs)"
  by (simp add: registrable_def list_all_iff o_def)

lemma registrableE:
  assumes "registrable hosts"
  obtains rs where "hosts = map Some rs" and "\<forall>r \<in> set rs. KindDescriptor_Validate (rs_Describe r) = Inr ()"
    and "distinct (map kindOf rs)"
proof -
  have "h \<noteq> None" if "h \<in> set hosts" for h
    using assms that unfolding registrable_def list_all_iff by (auto split: option.splits)
  then have "hosts = map Some (map the hosts)" by (auto simp: o_def intro!: map_idI[symmetric])
  with assms that registrable_map_Some show ?thesis by metis
qed

lemma uniqueEntries_distinct:
  "distinct (map kindOf rs) \<Longrightarrow> (\<And>k. prev = Some k \<Longrightarrow> k \<notin> kindOf ` set rs) \<Longrightarrow> uniqueEntries prev rs = Inr rs"
proof (induction rs arbitrary: prev)
  case (Cons r rs)
  have "uniqueEntries (Some (kindOf r)) rs = Inr rs" using Cons.prems(1) by (intro Cons.IH) auto
  moreover have "prev \<noteq> Some (kindOf r)" using Cons.prems(2) by auto
  ultimately show ?case by simp
qed simp

lemma overlayLoop_total:
  "\<forall>r \<in> set rs. KindDescriptor_Validate (rs_Describe r) = Inr () \<Longrightarrow>
     \<exists>out. overlayLoop (map Some rs) ordered position = Inr out"
  by (induction rs arbitrary: ordered position) (auto split: option.splits)

lemma distinct_sort_key: "distinct (map kindOf rs) \<Longrightarrow> distinct (map kindOf (sort_key kindOf rs))"
  by (metis mset_eq_imp_distinct_iff mset_map mset_sort)

lemma overlayKinds_succeeds:
  assumes "\<forall>r \<in> set bs. KindDescriptor_Validate (rs_Describe r) = Inr ()"
  shows "(\<exists>c. overlayKinds (map Some bs) hosts = Inr c) \<longleftrightarrow> registrable hosts"
proof
  assume "\<exists>c. overlayKinds (map Some bs) hosts = Inr c"
  then obtain c where "overlayKinds (map Some bs) hosts = Inr c" by blast
  from overlayKinds_Inr[OF this] show "registrable hosts"
    by (metis UnI2 registrable_map_Some)
next
  assume "registrable hosts"
  then obtain hs where hs: "hosts = map Some hs"
      "\<forall>r \<in> set hs. KindDescriptor_Validate (rs_Describe r) = Inr ()" "distinct (map kindOf hs)"
    by (rule registrableE)
  then have "orderHostResolvers hosts = Inr (sort_key kindOf hs)"
    using uniqueEntries_distinct[OF distinct_sort_key[OF hs(3)], of None]
    unfolding orderHostResolvers_def by (simp add: hostEntries_Inr[THEN iffD2])
  moreover obtain out where "overlayLoop (map Some (bs @ sort_key kindOf hs)) [] Map.empty = Inr out"
    using overlayLoop_total[of "bs @ sort_key kindOf hs" "[]" Map.empty] assms hs(2)
    by (metis Un_iff set_append set_sort)
  ultimately show "\<exists>c. overlayKinds (map Some bs) hosts = Inr c"
    by (simp add: overlayKinds_def)
qed

lemma lastOf_find: "distinct (map kindOf rs) \<Longrightarrow> lastOf rs k = find (\<lambda>r. kindOf r = k) rs"
proof (cases "find (\<lambda>r. kindOf r = k) rs")
  case None
  then have "k \<notin> kindOf ` set rs" by (auto simp: find_None_all)
  with None show ?thesis by (simp add: lastOf_None[THEN iffD2])
next
  case (Some r)
  moreover assume "distinct (map kindOf rs)"
  ultimately show ?thesis using find_Some_mem[OF Some] by (simp add: lastOf_distinct)
qed

text \<open>The resolver of a kind: the host's if it has one, else the built-in one.\<close>

definition overlaid :: "'f Resolver list \<Rightarrow> 'f Resolver list \<Rightarrow> string \<Rightarrow> 'f Resolver option" where
  "overlaid bs hs k =
     (case find (\<lambda>h. kindOf h = k) hs of Some h \<Rightarrow> Some h | None \<Rightarrow> find (\<lambda>b. kindOf b = k) bs)"

lemma lastOf_sort:
  assumes "distinct (map kindOf hs)"
  shows "lastOf (sort_key kindOf hs) = lastOf hs"
proof
  fix k
  have "lastOf (sort_key kindOf hs) k = Some r \<longleftrightarrow> lastOf hs k = Some r" for r
    using assms distinct_sort_key[OF assms] by (simp add: lastOf_distinct)
  then show "lastOf (sort_key kindOf hs) k = lastOf hs k" by (metis not_None_eq)
qed

lemma firstSeen_append_distinct:
  assumes "distinct xs" and "distinct ys"
  shows "firstSeen (xs @ ys) = xs @ filter (\<lambda>y. y \<notin> set xs) ys"
  using assms
proof (induction xs)
  case (Cons x xs)
  have "x \<notin> set xs" using Cons.prems by simp
  then have "filter (\<lambda>y. y \<noteq> x) xs = xs" by (auto simp: filter_id_conv)
  then have "filter (\<lambda>y. y \<noteq> x) (xs @ filter (\<lambda>y. y \<notin> set xs) ys) = xs @ filter (\<lambda>y. y \<notin> set (x # xs)) ys"
    by (simp add: conj_commute)
  with Cons show ?case by simp
qed (simp add: firstSeen_distinct)

lemma map_sort_key_kind: "map kindOf (sort_key kindOf hs) = sort (map kindOf hs)"
  by (rule properties_for_sort[symmetric]) simp_all

lemma overlayKinds_spec:
  assumes "overlayKinds (map Some bs) (map Some hs) = Inr c" and "distinct (map kindOf bs)"
  shows "co_resolvers c k = overlaid bs hs k"
    and "map kindOf (co_ordered c) =
           map kindOf bs @ filter (\<lambda>k. k \<notin> kindOf ` set bs) (sort (map kindOf hs))"
    and "r \<in> set (co_ordered c) \<longleftrightarrow> co_resolvers c (kindOf r) = Some r"
proof -
  obtain bs' hs' where "map Some bs = map Some bs'" "map Some hs = map Some hs'"
    and eq: "map kindOf (co_ordered c) = firstSeen (map kindOf (bs' @ sort_key kindOf hs'))"
      "co_resolvers c = lastOf bs' ++ lastOf (sort_key kindOf hs')"
      "co_resolvers c = lastOf (co_ordered c)" "distinct (map kindOf (co_ordered c))" "distinct (map kindOf hs')"
    using overlayKinds_Inr[OF assms(1)] by metis
  then have [simp]: "bs' = bs" "hs' = hs" by (simp_all add: inj_map_eq_map)
  have hs: "distinct (map kindOf hs)" using eq(5) by simp
  have "co_resolvers c = lastOf bs ++ lastOf hs" using eq(2) lastOf_sort[OF hs] by simp
  then show "co_resolvers c k = overlaid bs hs k"
    using lastOf_find[OF assms(2)] lastOf_find[OF hs] by (simp add: overlaid_def map_add_def split: option.split)
  show "map kindOf (co_ordered c) = map kindOf bs @ filter (\<lambda>k. k \<notin> kindOf ` set bs) (sort (map kindOf hs))"
    using eq(1) firstSeen_append_distinct[OF assms(2), of "sort (map kindOf hs)"] hs
    by (simp add: map_sort_key_kind)
  show "r \<in> set (co_ordered c) \<longleftrightarrow> co_resolvers c (kindOf r) = Some r"
    using eq(3) lastOf_distinct[OF eq(4)] by simp
qed

end
