(* ===== verification/Builtin_Principals.thy ===== *)
theory Builtin_Principals
  imports Builtin_Conditions Resolver_Overlay Start_Instance
begin

text \<open>
  The built-in principal resolvers: who is assigned (\<^verbatim>\<open>strategy/assignee.go\<close>), who is notified
  (\<^verbatim>\<open>strategy/cc.go\<close>), who may start a flow (\<^verbatim>\<open>strategy/initiator.go\<close>, the role membership of
  \<^verbatim>\<open>shared/user_resolve.go\<close>), and the wiring of \<^verbatim>\<open>strategy/module.go\<close> that puts them, overlaid with
  the host's resolvers, into the environment of the engine.  The host's organisation service is a
  record of its methods; \<^verbatim>\<open>T\<close> is the translation of a message key and \<^verbatim>\<open>toStr\<close> the conversion
  \<^verbatim>\<open>cast.ToString\<close> of a list element, both arguments.  A flat-map over a slice with an error stops
  at the first error.
\<close>

section \<open>The organisation service\<close>

record AssigneeService =
  as_GetSuperior :: "string \<Rightarrow> error + UserInfo option"
  as_GetDepartmentLeaders :: "string \<Rightarrow> error + UserInfo list"
  as_GetRoleUsers :: "string \<Rightarrow> error + UserInfo list"
  as_UserHasRole :: "(string \<Rightarrow> string \<Rightarrow> error + bool) option"

section \<open>IDs from a form field\<close>

definition normalizeIDs :: "string list \<Rightarrow> string list" where
  "normalizeIDs raw = filter (\<lambda>i. i \<noteq> []) (map trimSpace raw)"

definition FormFieldIDs :: "(json \<Rightarrow> string) \<Rightarrow> FormData \<Rightarrow> string option \<Rightarrow> error + string list" where
  "FormFieldIDs toStr formData field =
     (case field of
        None \<Rightarrow> Inl (ErrStrategy FormFieldNameEmpty)
      | Some name \<Rightarrow>
          if trimSpace name = [] then Inl (ErrStrategy FormFieldNameEmpty)
          else case formGet formData (trimSpace name) of
              JNull \<Rightarrow> Inr []
            | JStr s \<Rightarrow> Inr (normalizeIDs [s])
            | JList xs \<Rightarrow> Inr (normalizeIDs (map toStr xs))
            | _ \<Rightarrow> Inl (ErrStrategy UnsupportedFieldValueType))"

section \<open>Assignees\<close>

abbreviation seat :: "UserInfo \<Rightarrow> ResolvedAssignee" where
  "seat u \<equiv> \<lparr>ra_User = u, ra_Delegator = None\<rparr>"

type_synonym AssigneeRun = "FlowNodeAssignee \<Rightarrow> NodeResolveContext \<Rightarrow> error + ResolvedAssignee list"

definition resolveAssigneesByIDs :: "env \<Rightarrow> string list \<Rightarrow> error + ResolvedAssignee list" where
  "resolveAssigneesByIDs env ids =
     bindE (ResolveUserInfoMap env ids) (\<lambda>infos. Inr (map (\<lambda>uid. seat (infoOf infos uid)) ids))"

definition UserAssignee_Resolve :: "env \<Rightarrow> AssigneeRun" where
  "UserAssignee_Resolve env a rc =
     (let ids = normalizeIDs (na_IDs a)
      in if ids = [] then Inr [] else resolveAssigneesByIDs env ids)"

text \<open>One lookup per configured id, in order.\<close>

definition flatLookup :: "(string \<Rightarrow> error + UserInfo list) \<Rightarrow> string list \<Rightarrow> error + ResolvedAssignee list" where
  "flatLookup lookup ids =
     bindE (mapE (\<lambda>i. bindE (lookup i) (\<lambda>users. Inr (map seat users))) ids) (\<lambda>rs. Inr (concat rs))"

definition RoleAssignee_Resolve :: "AssigneeService option \<Rightarrow> AssigneeRun" where
  "RoleAssignee_Resolve svc a rc =
     bindE (ofOption (ErrStrategy AssigneeServiceNil) svc) (\<lambda>s. flatLookup (as_GetRoleUsers s) (na_IDs a))"

definition DepartmentAssignee_Resolve :: "AssigneeService option \<Rightarrow> AssigneeRun" where
  "DepartmentAssignee_Resolve svc a rc =
     bindE (ofOption (ErrStrategy AssigneeServiceNil) svc) (\<lambda>s. flatLookup (as_GetDepartmentLeaders s) (na_IDs a))"

definition SelfAssignee_Resolve :: AssigneeRun where
  "SelfAssignee_Resolve a rc =
     (let applicant = i_Applicant (rc_Instance rc)
      in bindE (ensure (u_ID applicant \<noteq> []) (ErrStrategy ApplicantIDEmpty)) (\<lambda>_. Inr [seat applicant]))"

definition SuperiorAssignee_Resolve :: "AssigneeService option \<Rightarrow> AssigneeRun" where
  "SuperiorAssignee_Resolve svc a rc =
     bindE (ofOption (ErrStrategy AssigneeServiceNil) svc) (\<lambda>s.
     bindE (as_GetSuperior s (i_ApplicantID (rc_Instance rc))) (\<lambda>info.
       case info of
         None \<Rightarrow> Inr []
       | Some u \<Rightarrow> Inr (if u_ID u = [] then [] else [seat u])))"

definition DepartmentLeaderAssignee_Resolve :: "AssigneeService option \<Rightarrow> AssigneeRun" where
  "DepartmentLeaderAssignee_Resolve svc a rc =
     bindE (ofOption (ErrStrategy AssigneeServiceNil) svc) (\<lambda>s.
       case u_DepartmentID (i_Applicant (rc_Instance rc)) of
         None \<Rightarrow> Inr []
       | Some d \<Rightarrow>
           if d = [] then Inr []
           else bindE (as_GetDepartmentLeaders s d) (\<lambda>leaders. Inr (map seat leaders)))"

definition FormFieldAssignee_Resolve :: "(json \<Rightarrow> string) \<Rightarrow> env \<Rightarrow> AssigneeRun" where
  "FormFieldAssignee_Resolve toStr env a rc =
     bindE (FormFieldIDs toStr (rc_FormData rc) (na_FormField a)) (\<lambda>ids.
       if ids = [] then Inr []
       else bindE (resolveAssigneesByIDs env ids) (\<lambda>assignees.
         let unresolved = map (\<lambda>r. u_ID (ra_User r))
               (filter (\<lambda>r. trimSpace (u_Name (ra_User r)) = []) assignees)
         in if unresolved \<noteq> [] then Inl (ErrStrategy (AssigneeResolveFailed unresolved))
            else Inr assignees))"

section \<open>Carbon copies\<close>

type_synonym CCRun = "FlowNodeCC \<Rightarrow> NodeResolveContext \<Rightarrow> error + string list"

definition UserCC_Resolve :: CCRun where
  "UserCC_Resolve cfg rc = Inr (NormalizeUniqueIDs (nc_IDs cfg))"

definition collectOrgUserIDs :: "string list \<Rightarrow> (string \<Rightarrow> error + UserInfo list) \<Rightarrow> error + string list" where
  "collectOrgUserIDs ids lookup =
     bindE (foldE (\<lambda>i out. bindE (lookup i) (\<lambda>users.
              Inr (snd (ou_AddAll (filter (\<lambda>u. u \<noteq> []) (map u_ID users)) out))))
              (NormalizeUniqueIDs ids) NewOrderedUnique) (\<lambda>out. Inr (ou_ToSlice out))"

definition RoleCC_Resolve :: "AssigneeService option \<Rightarrow> CCRun" where
  "RoleCC_Resolve svc cfg rc =
     bindE (ofOption (ErrStrategy AssigneeServiceNil) svc) (\<lambda>s. collectOrgUserIDs (nc_IDs cfg) (as_GetRoleUsers s))"

definition DepartmentCC_Resolve :: "AssigneeService option \<Rightarrow> CCRun" where
  "DepartmentCC_Resolve svc cfg rc =
     bindE (ofOption (ErrStrategy AssigneeServiceNil) svc) (\<lambda>s.
       collectOrgUserIDs (nc_IDs cfg) (as_GetDepartmentLeaders s))"

definition FormFieldCC_Resolve :: "(json \<Rightarrow> string) \<Rightarrow> CCRun" where
  "FormFieldCC_Resolve toStr cfg rc =
     bindE (FormFieldIDs toStr (rc_FormData rc) (nc_FormField cfg)) (\<lambda>ids. Inr (NormalizeUniqueIDs ids))"

section \<open>Initiators\<close>

type_synonym InitiatorRun = "FlowInitiator \<Rightarrow> InitiatorResolveContext \<Rightarrow> error + bool"

text \<open>The answers remembered for the life of a context; \<^term>\<open>None\<close> without a memo.\<close>

type_synonym roleMembershipMemo = "(string \<times> string \<rightharpoonup> bool) option"

definition askRoleMembership :: "AssigneeService \<Rightarrow> string \<Rightarrow> string \<Rightarrow> error + bool" where
  "askRoleMembership svc userID roleID =
     (case as_UserHasRole svc of
        Some check \<Rightarrow> check userID roleID
      | None \<Rightarrow> bindE (as_GetRoleUsers svc roleID) (\<lambda>users. Inr (list_ex (\<lambda>u. u_ID u = userID) users)))"

definition UserHasRole ::
    "AssigneeService option \<Rightarrow> string \<Rightarrow> string \<Rightarrow> roleMembershipMemo \<Rightarrow> error + (bool \<times> roleMembershipMemo)" where
  "UserHasRole svc userID roleID memo =
     (case svc of
        None \<Rightarrow> Inr (False, memo)
      | Some s \<Rightarrow>
          (case Option.bind memo (\<lambda>answers. answers (userID, roleID)) of
             Some member \<Rightarrow> Inr (member, memo)
           | None \<Rightarrow>
               bindE (askRoleMembership s userID roleID) (\<lambda>member.
                 Inr (member, map_option (\<lambda>answers. answers((userID, roleID) \<mapsto> member)) memo))))"

definition UserInitiator_Permits :: InitiatorRun where
  "UserInitiator_Permits i rc = Inr (u_ID (irc_Applicant rc) \<in> set (fi_IDs i))"

definition DepartmentInitiator_Permits :: InitiatorRun where
  "DepartmentInitiator_Permits i rc =
     (case u_DepartmentID (irc_Applicant rc) of None \<Rightarrow> Inr False | Some d \<Rightarrow> Inr (d \<in> set (fi_IDs i)))"

fun roleLoop ::
    "AssigneeService option \<Rightarrow> string \<Rightarrow> string list \<Rightarrow> roleMembershipMemo \<Rightarrow> error + (bool \<times> roleMembershipMemo)" where
  "roleLoop svc userID [] memo = Inr (False, memo)"
| "roleLoop svc userID (roleID # roles) memo =
     bindE (UserHasRole svc userID roleID memo) (\<lambda>(member, memo').
       if member then Inr (True, memo') else roleLoop svc userID roles memo')"

definition RoleInitiator_Permits ::
    "AssigneeService option \<Rightarrow> roleMembershipMemo \<Rightarrow> FlowInitiator \<Rightarrow> InitiatorResolveContext
     \<Rightarrow> error + (bool \<times> roleMembershipMemo)" where
  "RoleInitiator_Permits svc memo i rc = roleLoop svc (u_ID (irc_Applicant rc)) (fi_IDs i) memo"

section \<open>The module\<close>

definition builtin :: "(string \<Rightarrow> string) \<Rightarrow> string \<Rightarrow> string \<Rightarrow> SelectionMode \<Rightarrow> 'f \<Rightarrow> 'f Resolver option" where
  "builtin T key kind mode run =
     Some \<lparr>rs_Describe = \<lparr>kd_Kind = kind, kd_Label = T (key @ kind), kd_Selection = mode\<rparr>, rs_Run = run\<rparr>"

definition BuiltinAssigneeResolvers ::
    "(string \<Rightarrow> string) \<Rightarrow> (json \<Rightarrow> string) \<Rightarrow> env \<Rightarrow> AssigneeService option \<Rightarrow> AssigneeRun Resolver option list" where
  "BuiltinAssigneeResolvers T toStr env svc =
     (let b = builtin T ''approval_assignee_kind_''
      in [b ''user'' SelectionUser (UserAssignee_Resolve env),
          b ''role'' SelectionRole (RoleAssignee_Resolve svc),
          b ''department'' SelectionDepartment (DepartmentAssignee_Resolve svc),
          b ''self'' SelectionNone SelfAssignee_Resolve,
          b ''superior'' SelectionNone (SuperiorAssignee_Resolve svc),
          b ''department_leader'' SelectionNone (DepartmentLeaderAssignee_Resolve svc),
          b ''form_field'' SelectionFormField (FormFieldAssignee_Resolve toStr env)])"

definition BuiltinCCResolvers ::
    "(string \<Rightarrow> string) \<Rightarrow> (json \<Rightarrow> string) \<Rightarrow> AssigneeService option \<Rightarrow> CCRun Resolver option list" where
  "BuiltinCCResolvers T toStr svc =
     (let b = builtin T ''approval_cc_kind_''
      in [b ''user'' SelectionUser UserCC_Resolve,
          b ''role'' SelectionRole (RoleCC_Resolve svc),
          b ''department'' SelectionDepartment (DepartmentCC_Resolve svc),
          b ''form_field'' SelectionFormField (FormFieldCC_Resolve toStr)])"

text \<open>An initiator run takes and returns the memo of its context.\<close>

type_synonym MemoInitiatorRun =
  "roleMembershipMemo \<Rightarrow> FlowInitiator \<Rightarrow> InitiatorResolveContext \<Rightarrow> error + (bool \<times> roleMembershipMemo)"

definition unmemoized :: "InitiatorRun \<Rightarrow> MemoInitiatorRun" where
  "unmemoized permits memo i rc = bindE (permits i rc) (\<lambda>ok. Inr (ok, memo))"

definition BuiltinInitiatorResolvers ::
    "(string \<Rightarrow> string) \<Rightarrow> AssigneeService option \<Rightarrow> MemoInitiatorRun Resolver option list" where
  "BuiltinInitiatorResolvers T svc =
     (let b = builtin T ''approval_initiator_kind_''
      in [b ''user'' SelectionUser (unmemoized UserInitiator_Permits),
          b ''role'' SelectionRole (RoleInitiator_Permits svc),
          b ''department'' SelectionDepartment (unmemoized DepartmentInitiator_Permits)])"

record Strategies =
  st_T :: "string \<Rightarrow> string"
  st_toStr :: "json \<Rightarrow> string"
  st_service :: "AssigneeService option"
  st_engine :: ExpressionEngine
  st_hostAggregators :: "(string \<times> Fold) list"
  st_hostAssignees :: "AssigneeRun Resolver option list"
  st_hostCCs :: "CCRun Resolver option list"
  st_hostInitiators :: "MemoInitiatorRun Resolver option list"

abbreviation st_aggregators :: "Strategies \<Rightarrow> (string \<times> Fold) list" where
  "st_aggregators st \<equiv> builtinAggregators @ st_hostAggregators st"

text \<open>The pass rules of the module, indexed by their rule.\<close>

definition builtinPassRules :: "PassRule \<rightharpoonup> (PassRuleContext \<Rightarrow> PassRuleResult)" where
  "builtinPassRules =
     [PassAll \<mapsto> AllPass_Evaluate, PassAny \<mapsto> AnyPass_Evaluate, PassRatio \<mapsto> RatioPass_Evaluate,
      PassFixedCount \<mapsto> FixedCountPass_Evaluate]"

type_synonym Registry = "(AssigneeRun, CCRun, MemoInitiatorRun) StrategyRegistry"

text \<open>
  The boot of the module: the three composites, the registry, and the two validations the module
  invokes.  A failure stops the application.
\<close>

definition strategyModule :: "Strategies \<Rightarrow> env \<Rightarrow> error + Registry" where
  "strategyModule st env =
     bindE (overlayKinds (BuiltinAssigneeResolvers (st_T st) (st_toStr st) env (st_service st))
              (st_hostAssignees st)) (\<lambda>assignees.
     bindE (overlayKinds (BuiltinCCResolvers (st_T st) (st_toStr st) (st_service st)) (st_hostCCs st)) (\<lambda>ccs.
     bindE (NewCompositeInitiatorResolver (BuiltinInitiatorResolvers (st_T st) (st_service st))
              (st_hostInitiators st)) (\<lambda>initiators.
       let registry = \<lparr>sr_passRules = builtinPassRules,
             sr_conditions = builtinEvaluators (st_aggregators st) (st_engine st) env,
             sr_assignees = Some assignees, sr_ccs = Some ccs, sr_initiators = Some initiators\<rparr>
       in bindE (ValidateBuiltins registry) (\<lambda>_.
          bindE (ValidateBuiltinAggregators (st_aggregators st)) (\<lambda>_. Inr registry)))))"

definition runsOf :: "'f Composite option \<Rightarrow> (string \<rightharpoonup> 'f)" where
  "runsOf c kind = Option.bind c (\<lambda>co. map_option rs_Run (co_resolvers co kind))"

text \<open>
  The environment an engine of the booted registry runs in.  An initiation check asks the host
  afresh: the memo of \<^verbatim>\<open>WithRoleMembershipMemo\<close> is empty when the check begins.
\<close>

definition strategyEnv :: "Registry \<Rightarrow> env \<Rightarrow> env" where
  "strategyEnv r env =
     env\<lparr>env_assignee_resolvers := runsOf (sr_assignees r), env_cc_resolvers := runsOf (sr_ccs r),
         env_condition_evaluators := sr_conditions r,
         env_initiator_resolvers := (\<lambda>kind. map_option (\<lambda>run i rc.
           bindE (run (Some Map.empty) i rc) (\<lambda>(ok, memo). Inr ok)) (runsOf (sr_initiators r) kind))\<rparr>"

section \<open>The memo is transparent\<close>

text \<open>Every remembered answer is the host's answer.\<close>

definition memoOK :: "AssigneeService option \<Rightarrow> roleMembershipMemo \<Rightarrow> bool" where
  "memoOK svc memo \<longleftrightarrow>
     (\<forall>s answers u r b. svc = Some s \<longrightarrow> memo = Some answers \<longrightarrow> answers (u, r) = Some b \<longrightarrow> askRoleMembership s u r = Inr b)"

lemma UserHasRole_memo:
  assumes "memoOK svc memo"
  shows "bindE (UserHasRole svc u r memo) (\<lambda>(b, m). Inr b) = bindE (UserHasRole svc u r None) (\<lambda>(b, m). Inr b)"
    and "UserHasRole svc u r memo = Inr (b, memo') \<Longrightarrow> memoOK svc memo'"
  using assms unfolding UserHasRole_def memoOK_def
  by (cases memo; auto simp: bindE_def split: option.splits sum.splits prod.splits if_splits)+

lemma roleLoop_memo:
  assumes "memoOK svc memo"
  shows "bindE (roleLoop svc u roles memo) (\<lambda>(b, m). Inr b) = bindE (roleLoop svc u roles None) (\<lambda>(b, m). Inr b)"
  using assms
proof (induction roles arbitrary: memo)
  case (Cons r roles)
  have none: "m = None" if "UserHasRole svc u r None = Inr (b, m)" for b m
    using that unfolding UserHasRole_def by (auto split: option.splits)
  note one = UserHasRole_memo(1)[OF Cons.prems, of u r]
  show ?case
  proof (cases "UserHasRole svc u r memo")
    case (Inl e)
    with one have "UserHasRole svc u r None = Inl e" by (cases "UserHasRole svc u r None") auto
    with Inl show ?thesis by simp
  next
    case (Inr p)
    obtain b m where p: "p = (b, m)" by (cases p)
    then have m: "memoOK svc m" using UserHasRole_memo(2)[OF Cons.prems] Inr by blast
    obtain m0 where "UserHasRole svc u r None = Inr (b, m0)"
      using one Inr p by (cases "UserHasRole svc u r None") auto
    with none have "UserHasRole svc u r None = Inr (b, None)" by blast
    with Inr p Cons.IH[OF m] show ?thesis by (cases b) simp_all
  qed
qed simp

text \<open>Role membership decides: the loop answers whether the user holds one of the roles.\<close>

lemma roleLoop_Inr:
  assumes "roleLoop (Some s) u roles None = Inr (b, m)"
  shows "b \<longleftrightarrow> (\<exists>r \<in> set roles. askRoleMembership s u r = Inr True)"
  using assms
proof (induction roles)
  case (Cons r roles)
  then obtain c where c: "askRoleMembership s u r = Inr c"
    by (auto simp: UserHasRole_def)
  with Cons show ?case by (cases c) (auto simp: UserHasRole_def)
qed simp

section \<open>The built-in vocabularies\<close>

abbreviation builtinAssignees :: "Strategies \<Rightarrow> env \<Rightarrow> AssigneeRun Resolver list" where
  "builtinAssignees st env \<equiv> map the (BuiltinAssigneeResolvers (st_T st) (st_toStr st) env (st_service st))"

abbreviation builtinCCs :: "Strategies \<Rightarrow> CCRun Resolver list" where
  "builtinCCs st \<equiv> map the (BuiltinCCResolvers (st_T st) (st_toStr st) (st_service st))"

abbreviation builtinInitiators :: "Strategies \<Rightarrow> MemoInitiatorRun Resolver list" where
  "builtinInitiators st \<equiv> map the (BuiltinInitiatorResolvers (st_T st) (st_service st))"

lemmas builtin_defs = BuiltinAssigneeResolvers_def BuiltinCCResolvers_def BuiltinInitiatorResolvers_def
  Let_def builtin_def KindDescriptor_Validate_def

lemma builtin_kinds:
  "map kindOf (builtinAssignees st env) = expectedAssigneeKinds"
  "map kindOf (builtinCCs st) = expectedCCKinds"
  "map kindOf (builtinInitiators st) = expectedInitiatorKinds"
  by (simp_all add: builtin_defs expectedAssigneeKinds_def expectedCCKinds_def expectedInitiatorKinds_def)

lemma builtin_Some:
  "BuiltinAssigneeResolvers (st_T st) (st_toStr st) env (st_service st) = map Some (builtinAssignees st env)"
  "BuiltinCCResolvers (st_T st) (st_toStr st) (st_service st) = map Some (builtinCCs st)"
  "BuiltinInitiatorResolvers (st_T st) (st_service st) = map Some (builtinInitiators st)"
  by (simp_all add: builtin_defs)

lemma builtin_valid:
  assumes "\<And>k. st_T st k \<noteq> []"
  shows "\<forall>r \<in> set (builtinAssignees st env). KindDescriptor_Validate (rs_Describe r) = Inr ()"
    and "\<forall>r \<in> set (builtinCCs st). KindDescriptor_Validate (rs_Describe r) = Inr ()"
    and "\<forall>r \<in> set (builtinInitiators st). KindDescriptor_Validate (rs_Describe r) = Inr ()"
  by (simp_all add: builtin_defs assms)

lemma builtin_selections: "\<forall>r \<in> set (builtinInitiators st). kd_Selection (rs_Describe r) \<noteq> SelectionFormField"
  by (simp add: builtin_defs)

lemma expected_distinct:
  "distinct expectedAssigneeKinds" "distinct expectedCCKinds" "distinct expectedInitiatorKinds"
  by (simp_all add: expectedAssigneeKinds_def expectedCCKinds_def expectedInitiatorKinds_def)

lemma builtin_distinct:
  "distinct (map kindOf (builtinAssignees st env))" "distinct (map kindOf (builtinCCs st))"
  "distinct (map kindOf (builtinInitiators st))"
  by (simp_all only: builtin_kinds expected_distinct)

lemma overlayKinds_hosts: "overlayKinds builtins hosts = Inr c \<Longrightarrow> map Some (map the hosts) = hosts"
  by (erule overlayKinds_Inr) (simp add: o_def)

section \<open>The boot of the module\<close>

text \<open>An overlay keeps every built-in kind.\<close>

lemma overlaid_keeps: "k \<in> kindOf ` set bs \<Longrightarrow> overlaid bs hs k \<noteq> None"
proof -
  assume "k \<in> kindOf ` set bs"
  then have "find (\<lambda>b. kindOf b = k) bs \<noteq> None" unfolding find_None_all by blast
  then show ?thesis by (simp add: overlaid_def split: option.split)
qed

lemma overlayKinds_keeps:
  assumes "overlayKinds (map Some bs) hosts = Inr c" and "distinct (map kindOf bs)"
  shows "requireKinds (co_resolvers c) (map kindOf bs) missing = Inr ()"
proof -
  obtain hs where hs: "hosts = map Some hs" using overlayKinds_Inr[OF assms(1)] by metis
  have "co_resolvers c k = overlaid bs hs k" for k
    using overlayKinds_spec(1)[OF assms(1)[unfolded hs] assms(2)] .
  then show ?thesis using overlaid_keeps[of _ bs hs] by (simp add: requireKinds_def)
qed

text \<open>No host initiator kind may select from the form.\<close>

definition noFormField :: "'f Resolver option list \<Rightarrow> bool" where
  "noFormField hosts \<longleftrightarrow>
     list_all (\<lambda>h. case h of None \<Rightarrow> True | Some r \<Rightarrow> kd_Selection (rs_Describe r) \<noteq> SelectionFormField) hosts"

lemma co_ordered_from:
  assumes "overlayKinds (map Some bs) (map Some hs) = Inr c" and "distinct (map kindOf bs)"
  shows "set hs \<subseteq> set (co_ordered c)" and "set (co_ordered c) \<subseteq> set bs \<union> set hs"
proof -
  obtain hs' where "map Some hs = map Some hs'" and "distinct (map kindOf hs')"
    using overlayKinds_Inr[OF assms(1)] by metis
  then have d: "distinct (map kindOf hs)" by (simp add: inj_map_eq_map)
  note spec = overlayKinds_spec[OF assms]
  show "set hs \<subseteq> set (co_ordered c)"
  proof
    fix r assume "r \<in> set hs"
    then have "find (\<lambda>h. kindOf h = kindOf r) hs = Some r" using find_unique_key[OF d] by simp
    then show "r \<in> set (co_ordered c)" using spec(1,3) by (simp add: overlaid_def)
  qed
  show "set (co_ordered c) \<subseteq> set bs \<union> set hs"
    using spec(1,3) by (auto simp: overlaid_def split: option.splits dest: find_Some_mem)
qed

lemma NewCompositeInitiatorResolver_Inr:
  assumes "distinct (map kindOf bs)" and "\<forall>r \<in> set bs. kd_Selection (rs_Describe r) \<noteq> SelectionFormField"
  shows "NewCompositeInitiatorResolver (map Some bs) hosts = Inr c \<longleftrightarrow>
           overlayKinds (map Some bs) hosts = Inr c \<and> noFormField hosts"
proof (cases "overlayKinds (map Some bs) hosts")
  case (Inr d)
  obtain hs where hs: "hosts = map Some hs" using overlayKinds_Inr[OF Inr] by metis
  have "(\<forall>r \<in> set (co_ordered d). kd_Selection (rs_Describe r) \<noteq> SelectionFormField) \<longleftrightarrow> noFormField hosts"
    using co_ordered_from[OF Inr[unfolded hs] assms(1)] assms(2) unfolding noFormField_def hs list_all_iff by auto
  with Inr show ?thesis by (auto simp: NewCompositeInitiatorResolver_def bindE_Inr_iff)
qed (simp add: NewCompositeInitiatorResolver_def)

definition hostsRegistrable :: "Strategies \<Rightarrow> bool" where
  "hostsRegistrable st \<longleftrightarrow>
     registrable (st_hostAssignees st) \<and> registrable (st_hostCCs st) \<and> registrable (st_hostInitiators st)
     \<and> noFormField (st_hostInitiators st)"

lemma strategyModule_eq:
  "strategyModule st env =
     bindE (overlayKinds (map Some (builtinAssignees st env)) (st_hostAssignees st)) (\<lambda>assignees.
     bindE (overlayKinds (map Some (builtinCCs st)) (st_hostCCs st)) (\<lambda>ccs.
     bindE (NewCompositeInitiatorResolver (map Some (builtinInitiators st)) (st_hostInitiators st)) (\<lambda>initiators.
       let registry = \<lparr>sr_passRules = builtinPassRules,
             sr_conditions = builtinEvaluators (st_aggregators st) (st_engine st) env,
             sr_assignees = Some assignees, sr_ccs = Some ccs, sr_initiators = Some initiators\<rparr>
       in bindE (ValidateBuiltins registry) (\<lambda>_.
          bindE (ValidateBuiltinAggregators (st_aggregators st)) (\<lambda>_. Inr registry)))))"
  unfolding strategyModule_def builtin_Some[symmetric] ..

lemma strategyModule_Inr:
  assumes "strategyModule st env = Inr r"
  obtains assignees ccs initiators where
    "overlayKinds (map Some (builtinAssignees st env)) (st_hostAssignees st) = Inr assignees"
    "overlayKinds (map Some (builtinCCs st)) (st_hostCCs st) = Inr ccs"
    "overlayKinds (map Some (builtinInitiators st)) (st_hostInitiators st) = Inr initiators"
    "noFormField (st_hostInitiators st)"
    "r = \<lparr>sr_passRules = builtinPassRules,
          sr_conditions = builtinEvaluators (st_aggregators st) (st_engine st) env,
          sr_assignees = Some assignees, sr_ccs = Some ccs, sr_initiators = Some initiators\<rparr>"
proof -
  have d: "distinct (map kindOf (builtinInitiators st))" by (simp only: builtin_kinds expected_distinct)
  obtain assignees ccs initiators where
    o: "overlayKinds (map Some (builtinAssignees st env)) (st_hostAssignees st) = Inr assignees"
       "overlayKinds (map Some (builtinCCs st)) (st_hostCCs st) = Inr ccs"
    and i: "NewCompositeInitiatorResolver (map Some (builtinInitiators st)) (st_hostInitiators st) = Inr initiators"
    and r: "r = \<lparr>sr_passRules = builtinPassRules,
          sr_conditions = builtinEvaluators (st_aggregators st) (st_engine st) env,
          sr_assignees = Some assignees, sr_ccs = Some ccs, sr_initiators = Some initiators\<rparr>"
    using assms unfolding strategyModule_eq Let_def by blast
  from i show ?thesis
    unfolding NewCompositeInitiatorResolver_Inr[OF d builtin_selections] using that o r by blast
qed

lemma ValidateBuiltins_ok:
  assumes "overlayKinds (map Some (builtinAssignees st env)) (st_hostAssignees st) = Inr assignees"
    and "overlayKinds (map Some (builtinCCs st)) (st_hostCCs st) = Inr ccs"
    and "overlayKinds (map Some (builtinInitiators st)) (st_hostInitiators st) = Inr initiators"
  shows "ValidateBuiltins \<lparr>sr_passRules = builtinPassRules,
           sr_conditions = builtinEvaluators (st_aggregators st) (st_engine st) env,
           sr_assignees = Some assignees, sr_ccs = Some ccs, sr_initiators = Some initiators\<rparr> = Inr ()"
  using overlayKinds_keeps[OF assms(1)] overlayKinds_keeps[OF assms(2)] overlayKinds_keeps[OF assms(3)]
  unfolding builtin_kinds
  by (simp add: ValidateBuiltins_def expected_distinct expectedPassRules_def builtinPassRules_def
        expectedConditionKinds_def builtinEvaluators_def)

lemma strategyModule_succeeds:
  assumes "\<And>k. st_T st k \<noteq> []"
  shows "(\<exists>r. strategyModule st env = Inr r) \<longleftrightarrow> hostsRegistrable st"
proof
  assume "\<exists>r. strategyModule st env = Inr r"
  then obtain r where "strategyModule st env = Inr r" by blast
  then obtain a c i where "overlayKinds (map Some (builtinAssignees st env)) (st_hostAssignees st) = Inr a"
      "overlayKinds (map Some (builtinCCs st)) (st_hostCCs st) = Inr c"
      "overlayKinds (map Some (builtinInitiators st)) (st_hostInitiators st) = Inr i"
      "noFormField (st_hostInitiators st)"
    by (rule strategyModule_Inr)
  with overlayKinds_succeeds[OF builtin_valid(1)[OF assms]] overlayKinds_succeeds[OF builtin_valid(2)[OF assms]]
    overlayKinds_succeeds[OF builtin_valid(3)[OF assms]]
  show "hostsRegistrable st" unfolding hostsRegistrable_def by blast
next
  assume h: "hostsRegistrable st"
  obtain a c i where o: "overlayKinds (map Some (builtinAssignees st env)) (st_hostAssignees st) = Inr a"
      "overlayKinds (map Some (builtinCCs st)) (st_hostCCs st) = Inr c"
      "overlayKinds (map Some (builtinInitiators st)) (st_hostInitiators st) = Inr i"
    using h overlayKinds_succeeds[OF builtin_valid(1)[OF assms]] overlayKinds_succeeds[OF builtin_valid(2)[OF assms]]
      overlayKinds_succeeds[OF builtin_valid(3)[OF assms]] unfolding hostsRegistrable_def by blast
  have d: "distinct (map kindOf (builtinInitiators st))" by (simp only: builtin_kinds expected_distinct)
  have i: "NewCompositeInitiatorResolver (map Some (builtinInitiators st)) (st_hostInitiators st) = Inr i"
    using NewCompositeInitiatorResolver_Inr[OF d builtin_selections] o(3) h unfolding hostsRegistrable_def by blast
  show "\<exists>r. strategyModule st env = Inr r"
    unfolding strategyModule_eq o i bindE_simps Let_def ValidateBuiltins_ok[OF o]
      builtinAggregators_valid by blast
qed

end
