(* ===== verification/Condition_Routing.thy ===== *)
theory Condition_Routing
  imports Builtin_Principals Deployed_Nodes
begin

text \<open>
  Routing at a condition node, from the deploy-time check of its branches to the branch the engine
  takes: the loops of \<^verbatim>\<open>engine/processor_condition.go\<close> against the disjunction of conjunctions they
  stand for, and the facts a deploy establishes about the branches of the node it stores.
\<close>

section \<open>Conditions, groups and branches\<close>

text \<open>One condition by the evaluator registered for its kind.\<close>

definition evalCondition :: "env \<Rightarrow> EvaluationContext \<Rightarrow> Condition \<Rightarrow> error + bool" where
  "evalCondition env ec c =
     bindE (ofOption ErrConditionEvaluatorNotFound (env_condition_evaluators env (c_Kind c))) (\<lambda>ev. ev c ec)"

text \<open>A branch matches when all conditions of one of its groups hold; it fails when every group has a
  condition that does not hold.\<close>

definition branchMatches :: "env \<Rightarrow> EvaluationContext \<Rightarrow> ConditionBranch \<Rightarrow> bool" where
  "branchMatches env ec b \<longleftrightarrow>
     list_ex (\<lambda>g. list_all (\<lambda>c. evalCondition env ec c = Inr True) (g_Conditions g)) (b_ConditionGroups b)"

definition branchFails :: "env \<Rightarrow> EvaluationContext \<Rightarrow> ConditionBranch \<Rightarrow> bool" where
  "branchFails env ec b \<longleftrightarrow>
     list_all (\<lambda>g. list_ex (\<lambda>c. evalCondition env ec c = Inr False) (g_Conditions g)) (b_ConditionGroups b)"

lemma evaluateGroupConditions_Cons:
  "evaluateGroupConditions env ec (c # cs) =
     bindE (evalCondition env ec c) (\<lambda>match. if \<not> match then Inr False else evaluateGroupConditions env ec cs)"
  by (simp add: evalCondition_def bindE_assoc)

lemma evaluateGroupConditions_True:
  "evaluateGroupConditions env ec cs = Inr True \<longleftrightarrow> list_all (\<lambda>c. evalCondition env ec c = Inr True) cs"
  by (induction cs) (auto simp: evaluateGroupConditions_Cons bindE_Inr_iff simp del: evaluateGroupConditions.simps(2))

lemma evaluateGroupConditions_False:
  "evaluateGroupConditions env ec cs = Inr False \<Longrightarrow> list_ex (\<lambda>c. evalCondition env ec c = Inr False) cs"
  by (induction cs) (auto simp: evaluateGroupConditions_Cons simp del: evaluateGroupConditions.simps(2) split: if_splits)

lemma evaluateGroupConditions_error:
  "evaluateGroupConditions env ec cs = Inl e \<Longrightarrow> \<exists>c \<in> set cs. evalCondition env ec c = Inl e"
  by (induction cs)
    (auto simp: evaluateGroupConditions_Cons bindE_Inl_iff simp del: evaluateGroupConditions.simps(2) split: if_splits)

lemma groupsLoop_True:
  "groupsLoop env ec gs = Inr True \<Longrightarrow>
     list_ex (\<lambda>g. list_all (\<lambda>c. evalCondition env ec c = Inr True) (g_Conditions g)) gs"
  by (induction gs) (auto simp: evaluateGroupConditions_True split: if_splits)

lemma groupsLoop_False:
  "groupsLoop env ec gs = Inr False \<Longrightarrow>
     list_all (\<lambda>g. list_ex (\<lambda>c. evalCondition env ec c = Inr False) (g_Conditions g)) gs"
  by (induction gs) (auto simp: evaluateGroupConditions_False split: if_splits)

lemma groupsLoop_error:
  "groupsLoop env ec gs = Inl e \<Longrightarrow> \<exists>g \<in> set gs. \<exists>c \<in> set (g_Conditions g). evalCondition env ec c = Inl e"
  by (induction gs) (auto simp: bindE_Inl_iff dest: evaluateGroupConditions_error split: if_splits)

lemma evaluateConditionGroups_result:
  assumes "b_ConditionGroups b \<noteq> []"
  shows "evaluateConditionGroups env ec (b_ConditionGroups b) = Inr True \<Longrightarrow> branchMatches env ec b"
    and "evaluateConditionGroups env ec (b_ConditionGroups b) = Inr False \<Longrightarrow> branchFails env ec b"
  using assms groupsLoop_True groupsLoop_False
  by (auto simp: evaluateConditionGroups_def branchMatches_def branchFails_def)

lemma evaluateConditionGroups_error:
  "evaluateConditionGroups env ec gs = Inl e \<Longrightarrow> \<exists>g \<in> set gs. \<exists>c \<in> set (g_Conditions g). evalCondition env ec c = Inl e"
  using groupsLoop_error by (auto simp: evaluateConditionGroups_def split: if_splits)

section \<open>Selection of a branch\<close>

definition groupsRan :: "env \<Rightarrow> EvaluationContext \<Rightarrow> bool \<Rightarrow> ConditionBranch \<Rightarrow> bool" where
  "groupsRan env ec match b \<longleftrightarrow> evaluateConditionGroups env ec (b_ConditionGroups b) = Inr match"

lemma selectBranch_Inr:
  assumes "selectBranch env ec bs dflt = Inr bid"
  shows "(\<exists>pre b post. bs = pre @ b # post \<and> bid = b_ID b \<and> \<not> b_IsDefault b \<and> groupsRan env ec True b
            \<and> (\<forall>c \<in> set pre. \<not> b_IsDefault c \<longrightarrow> groupsRan env ec False c))
       \<or> (\<forall>c \<in> set bs. \<not> b_IsDefault c \<longrightarrow> groupsRan env ec False c)
         \<and> (\<exists>b. bid = b_ID b \<and> (b \<in> set bs \<and> b_IsDefault b \<or> dflt = Some b))"
  using assms
proof (induction bs arbitrary: dflt)
  case Nil
  then show ?case by (auto split: option.splits)
next
  case (Cons x bs)
  show ?case
  proof (cases "b_IsDefault x")
    case True
    with Cons.prems have "selectBranch env ec bs (Some x) = Inr bid" by simp
    from Cons.IH[OF this] consider
        (hit) pre b post where "bs = pre @ b # post" "bid = b_ID b" "\<not> b_IsDefault b" "groupsRan env ec True b"
          "\<forall>c \<in> set pre. \<not> b_IsDefault c \<longrightarrow> groupsRan env ec False c"
      | (dflt) b where "\<forall>c \<in> set bs. \<not> b_IsDefault c \<longrightarrow> groupsRan env ec False c" "bid = b_ID b"
          "b \<in> set bs \<and> b_IsDefault b \<or> b = x"
      by blast
    then show ?thesis
    proof cases
      case hit
      then show ?thesis using True by (intro disjI1 exI[of _ "x # pre"] exI[of _ b] exI[of _ post]) auto
    next
      case dflt
      then show ?thesis using True by - (rule disjI2, rule conjI[OF _ exI[of _ b]], auto)
    qed
  next
    case False
    with Cons.prems obtain m where m: "evaluateConditionGroups env ec (b_ConditionGroups x) = Inr m"
      and rest: "(if m then Inr (b_ID x) else selectBranch env ec bs dflt) = Inr bid" by auto
    show ?thesis
    proof (cases m)
      case True
      with rest m False show ?thesis
        by (intro disjI1 exI[of _ "[]"] exI[of _ x] exI[of _ bs]) (auto simp: groupsRan_def)
    next
      case no: False
      with m have x: "groupsRan env ec False x" by (simp add: groupsRan_def)
      from rest no have "selectBranch env ec bs dflt = Inr bid" by simp
      from Cons.IH[OF this] consider
          (hit) pre b post where "bs = pre @ b # post" "bid = b_ID b" "\<not> b_IsDefault b" "groupsRan env ec True b"
            "\<forall>c \<in> set pre. \<not> b_IsDefault c \<longrightarrow> groupsRan env ec False c"
        | (dflt) b where "\<forall>c \<in> set bs. \<not> b_IsDefault c \<longrightarrow> groupsRan env ec False c" "bid = b_ID b"
            "b \<in> set bs \<and> b_IsDefault b \<or> dflt = Some b"
        by blast
      then show ?thesis
      proof cases
        case hit
        then show ?thesis using x by (intro disjI1 exI[of _ "x # pre"] exI[of _ b] exI[of _ post]) auto
      next
        case dflt
        then show ?thesis using x by - (rule disjI2, rule conjI[OF _ exI[of _ b]], auto)
      qed
    qed
  qed
qed

lemma selectBranch_Inl:
  assumes "selectBranch env ec bs dflt = Inl e"
  shows "(\<exists>b \<in> set bs. evaluateConditionGroups env ec (b_ConditionGroups b) = Inl e)
       \<or> dflt = None \<and> (\<forall>b \<in> set bs. \<not> b_IsDefault b)"
  using assms
  by (induction bs arbitrary: dflt) (auto simp: bindE_Inl_iff split: if_splits option.splits)

text \<open>The branches of a node a deploy may store.\<close>

definition branches_valid :: "string list \<Rightarrow> ConditionBranch list \<Rightarrow> bool" where
  "branches_valid kinds bs \<longleftrightarrow>
     validateConditionBranches bs = Inr () \<and> distinct (map b_ID bs) \<and> length (filter b_IsDefault bs) = 1
     \<and> (\<forall>b \<in> set bs. \<forall>g \<in> set (b_ConditionGroups b). \<forall>c \<in> set (g_Conditions g).
          c_Kind c = ''field'' \<longrightarrow> c_Aggregate c \<noteq> [] \<longrightarrow> c_Aggregate c \<in> set kinds)"

lemma conditionBranches_Inr:
  assumes "conditionBranches bs prios = Inr ()"
  shows "distinct (map b_Priority (filter (\<lambda>b. \<not> b_IsDefault b) bs))
     \<and> set prios \<inter> b_Priority ` set (filter (\<lambda>b. \<not> b_IsDefault b) bs) = {}
     \<and> (\<forall>b \<in> set bs. \<not> b_IsDefault b \<longrightarrow> b_ConditionGroups b \<noteq> [])
     \<and> (\<forall>b \<in> set bs. \<forall>g \<in> set (b_ConditionGroups b). \<forall>c \<in> set (g_Conditions g). validateCondition c = Inr ())"
  using assms
proof (induction bs arbitrary: prios)
  case (Cons b bs)
  then obtain prios' where
    step: "(if b_IsDefault b then Inr prios
            else bindE (ensure (b_Priority b \<notin> set prios) (Cond errDuplicateBranchPriority)) (\<lambda>_.
                 bindE (ensure (b_ConditionGroups b \<noteq> []) (Cond errBranchConditionsRequired)) (\<lambda>_.
                   Inr (prios @ [b_Priority b])))) = Inr prios'"
    and conds: "\<forall>g \<in> set (b_ConditionGroups b). \<forall>c \<in> set (g_Conditions g). validateCondition c = Inr ()"
    and rest: "conditionBranches bs prios' = Inr ()"
    by (auto simp: bindE_Inr_iff)
  from Cons.IH[OF rest] step conds show ?case by (auto split: if_splits)
qed simp

text \<open>Sorting by priority puts every branch with a smaller priority before.\<close>

lemma sortBranches_before:
  assumes "sortBranches bs = pre @ b # post" and "c \<in> set bs" and "b_Priority c < b_Priority b"
  shows "c \<in> set pre"
proof -
  have "sorted (map (\<lambda>b. (b_Priority b, b_ID b)) (pre @ b # post))"
    using assms(1) unfolding sortBranches_def by (metis sorted_sort_key)
  then have "\<forall>d \<in> set post. (b_Priority b, b_ID b) \<le> (b_Priority d, b_ID d)"
    by (simp add: sorted_append)
  moreover have "c \<in> set (pre @ b # post)" using assms(1,2) unfolding sortBranches_def by (metis set_sort)
  ultimately show ?thesis using assms(3) by (auto simp: less_eq_prod_def)
qed

lemma selectBranch_routes:
  assumes run: "selectBranch env ec (sortBranches bs) None = Inr bid" and v: "branches_valid kinds bs"
  shows "\<exists>b \<in> set bs. bid = b_ID b
           \<and> (if b_IsDefault b then \<forall>c \<in> set bs. c \<noteq> b \<longrightarrow> branchFails env ec c
              else branchMatches env ec b
                \<and> (\<forall>c \<in> set bs. \<not> b_IsDefault c \<longrightarrow> b_Priority c < b_Priority b \<longrightarrow> branchFails env ec c))"
proof -
  have s: "set (sortBranches bs) = set bs" by (simp add: sortBranches_def)
  have ne: "b_ConditionGroups b \<noteq> []" if "b \<in> set bs" "\<not> b_IsDefault b" for b
    using v conditionBranches_Inr[of bs "[]"] that unfolding branches_valid_def validateConditionBranches_def by blast
  have ran: "groupsRan env ec m b \<Longrightarrow> b \<in> set bs \<Longrightarrow> \<not> b_IsDefault b \<Longrightarrow>
      if m then branchMatches env ec b else branchFails env ec b" for m b
    using evaluateConditionGroups_result[OF ne] unfolding groupsRan_def by (cases m) auto
  from selectBranch_Inr[OF run] consider
      (hit) pre b post where "sortBranches bs = pre @ b # post" "bid = b_ID b" "\<not> b_IsDefault b" "groupsRan env ec True b"
        "\<forall>c \<in> set pre. \<not> b_IsDefault c \<longrightarrow> groupsRan env ec False c"
    | (dflt) b where "\<forall>c \<in> set bs. \<not> b_IsDefault c \<longrightarrow> groupsRan env ec False c" "bid = b_ID b" "b \<in> set bs" "b_IsDefault b"
    unfolding s by blast
  then show ?thesis
  proof cases
    case hit
    have mem: "set pre \<subseteq> set bs" "b \<in> set bs" using hit(1) s by auto
    have "branchFails env ec c" if "c \<in> set bs" "\<not> b_IsDefault c" "b_Priority c < b_Priority b" for c
      using sortBranches_before[OF hit(1) that(1,3)] hit(5) ran[of False c] that(1,2) by auto
    with hit mem ran[of True b] show ?thesis by (intro bexI[of _ b]) auto
  next
    case dflt
    obtain d where "filter b_IsDefault bs = [d]"
      using v unfolding branches_valid_def by (auto simp: length_Suc_conv numeral_eq_Suc)
    then have only: "c = b" if "c \<in> set bs" "b_IsDefault c" for c
      using that dflt(3,4) by (metis (mono_tags) filter_set list.set(1,2) mem_Collect_eq set_filter singletonD)
    have "branchFails env ec c" if c: "c \<in> set bs" "c \<noteq> b" for c
    proof -
      have "\<not> b_IsDefault c" using only c by blast
      then show ?thesis using ran[of False c] dflt(1) c(1) by simp
    qed
    then show ?thesis using dflt(2,3,4) by (intro bexI[of _ b]) simp_all
  qed
qed

text \<open>The context a condition node evaluates in.\<close>

definition nodeContext :: "ProcessContext \<Rightarrow> EvaluationContext" where
  "nodeContext pc = \<lparr>ec_FormData = pc_FormData pc, ec_ApplicantID = i_ApplicantID (pc_Instance pc),
     ec_ApplicantDepartmentID = u_DepartmentID (i_Applicant (pc_Instance pc)), ec_Globals = i_Globals (pc_Instance pc)\<rparr>"

lemma Condition_Process_eq:
  "n_Branches (pc_Node pc) \<noteq> [] \<Longrightarrow> Condition_Process env pc db =
     bindE (selectBranch env (nodeContext pc) (sortBranches (n_Branches (pc_Node pc))) None)
       (\<lambda>b. Inr (continueResult (Some b) [], db))"
  by (simp add: Condition_Process_def nodeContext_def Let_def)

section \<open>What a deploy establishes\<close>

lemma deploy_branches_valid:
  assumes "DeployFlow_Handle env dn cmd db = Inr (version, db')"
    and "n \<in> set (db_nodes db')" and "n \<notin> set (db_nodes db)" and "n_Kind n = NodeCondition"
  shows "branches_valid (fds_aggregateKinds (dn_service dn)) (n_Branches n)"
proof -
  obtain d i planned where pl: "validateDeploy env dn cmd = Inr planned"
    and d: "d \<in> set (fd_Nodes (dp_FlowDefinition cmd))"
    and ok: "nodeOk (dn_service dn) (env_inexactFloat64 env) (dn_decoder dn) d"
    and n: "n = (storedNode (dn_decoder dn) (fv_ID version) d)\<lparr>n_ID := i\<rparr>"
    by (rule deploy_added_def[OF assms(1-3)])
  have kind: "nd_Kind d = NodeCondition" using assms(4) n by simp
  have "ParseData (dn_decoder dn) NodeCondition (nd_Data d) = Inr (dataOf (dn_decoder dn) d)"
    using ok kind by (simp add: nodeOk_def)
  then obtain kd where kd: "dataOf (dn_decoder dn) d = ConditionData kd"
    unfolding ParseData.simps bindE_Inr_iff by (metis Inr_inject)
  have brs: "n_Branches n = kn_Branches kd" using n kd by (simp add: branchesIn_def)
  have val: "validateConditionBranches (kn_Branches kd) = Inr ()" using ok kd by (simp add: nodeOk_def)
  note wfd = validateDeploy_wellFormed[OF pl]
  have "degreeOk (dn_decoder dn) (dp_FlowDefinition cmd) d" using wfd(1) d by (simp add: wellFormed_def Let_def)
  then have deg: "distinct (map b_ID (kn_Branches kd))" "length (filter b_IsDefault (kn_Branches kd)) = 1"
    by (simp_all add: degreeOk_def kind kd branchesIn_def branchesOk_def Let_def)
  have "(nd_ID d, ConditionData kd) \<in> set (pl_nodeData planned)" using wfd(2) d kd by force
  moreover obtain fs where "ValidateConditionAggregates (dn_service dn) (pl_nodeData planned) fs = Inr ()"
    using pl by (auto simp: validateDeploy_def bindE_Inr_iff Let_def)
  ultimately have agg: "\<forall>b \<in> set (kn_Branches kd). \<forall>g \<in> set (b_ConditionGroups b). \<forall>c \<in> set (g_Conditions g).
      (if c_Kind c \<noteq> ''field'' \<or> c_Aggregate c = [] then Inr ()
       else validateAggregateReference (dn_service dn) (tableFieldIndex fs) c) = Inr ()"
    unfolding ValidateConditionAggregates_def Let_def checkAll_Inr by fastforce
  have "c_Aggregate c \<in> set (fds_aggregateKinds (dn_service dn))"
    if "b \<in> set (kn_Branches kd)" "g \<in> set (b_ConditionGroups b)" "c \<in> set (g_Conditions g)"
      "c_Kind c = ''field''" "c_Aggregate c \<noteq> []" for b g c
    using agg[rule_format, OF that(1-3)] that(4,5) by (auto simp: validateAggregateReference_def)
  then show ?thesis unfolding branches_valid_def brs using val deg by blast
qed

section \<open>The errors of a deployed condition\<close>

lemma strategyEnv_conditions:
  assumes "strategyModule st env = Inr reg"
  shows "env_condition_evaluators (strategyEnv reg env) = builtinEvaluators (st_aggregators st) (st_engine st) env"
  by (rule strategyModule_Inr[OF assms]) (simp add: strategyEnv_def)

lemma evalCondition_error:
  assumes "strategyModule st env = Inr reg" and "validateCondition c = Inr ()"
    and "c_Kind c = ''field'' \<Longrightarrow> c_Aggregate c \<noteq> [] \<Longrightarrow> c_Aggregate c \<in> set (map fst (st_aggregators st))"
    and "evalCondition (strategyEnv reg env) ec c = Inl e"
  shows "e = ErrIncomparableValues \<or> e = ErrStrategy ExpressionReturnedNonBool
       \<or> (\<exists>src bindings. st_engine st src bindings = Inl e)"
proof (cases "c_Kind c = ''field''")
  case True
  then have "ConditionOperator_IsValid (c_Operator c)" using assms(2) by (auto simp: validateCondition_def)
  moreover have "FieldCondition_Evaluate (indexAggregators (st_aggregators st)) env c ec = Inl e"
    using assms(4) True unfolding evalCondition_def strategyEnv_conditions[OF assms(1)] builtinEvaluators_def by simp
  ultimately show ?thesis using FieldCondition_Inl assms(3)[OF True] by blast
next
  case False
  then have "c_Kind c = ''expression''" using assms(2) by (auto simp: validateCondition_def split: if_splits)
  then have "ExpressionCondition_Evaluate (st_engine st) c ec = Inl e"
    using assms(4) unfolding evalCondition_def strategyEnv_conditions[OF assms(1)] builtinEvaluators_def by simp
  then show ?thesis unfolding ExpressionCondition_Evaluate_def bindE_Inl_iff
    by (elim disjE exE conjE) (auto split: sum.splits)
qed

lemma branches_valid_conditions:
  assumes "branches_valid kinds bs" and "b \<in> set bs" "g \<in> set (b_ConditionGroups b)" "c \<in> set (g_Conditions g)"
  shows "validateCondition c = Inr ()" and "c_Kind c = ''field'' \<Longrightarrow> c_Aggregate c \<noteq> [] \<Longrightarrow> c_Aggregate c \<in> set kinds"
  using assms conditionBranches_Inr[of bs "[]"] unfolding branches_valid_def validateConditionBranches_def by blast+

lemma branches_valid_default:
  assumes "branches_valid kinds bs"
  obtains b where "b \<in> set bs" "b_IsDefault b"
proof -
  have "filter b_IsDefault bs \<noteq> []" using assms unfolding branches_valid_def by force
  then show ?thesis using that by (auto simp: filter_empty_conv)
qed

end
