(* ===== verification/Example_Routing.thy ===== *)
theory Example_Routing
  imports Condition_Routing
begin

text \<open>
  A flow with a condition node over a detail table, deployed and evaluated: the branch \<^verbatim>\<open>hi\<close> asks
  whether the sum of the column \<^verbatim>\<open>amount\<close> is at least 100, the other branch is the default.  The
  module is booted without an organisation service and with one host resolver that replaces the
  built-in kind \<^verbatim>\<open>self\<close> and one of a new kind.
\<close>

definition routeCondition :: Condition where
  "routeCondition = \<lparr>c_Kind = ''field'', c_Subject = ''lines'', c_Aggregate = ''sum'', c_Column = ''amount'',
     c_Operator = ''gte'', c_Value = JNum 100, c_Expression = []\<rparr>"

definition routeBranches :: "ConditionBranch list" where
  "routeBranches = [\<lparr>b_ID = ''lo'', b_Label = [], b_ConditionGroups = [], b_IsDefault = True, b_Priority = 0\<rparr>,
     \<lparr>b_ID = ''hi'', b_Label = [], b_ConditionGroups = [\<lparr>g_Conditions = [routeCondition]\<rparr>], b_IsDefault = False,
      b_Priority = 1\<rparr>]"

definition routeColumn :: FormFieldDefinition where
  "routeColumn = FormField ''amount'' FieldNumber ''Amount'' False [] None None 0 (ColumnTypeOther []) None []"

definition routeField :: FormFieldDefinition where
  "routeField = FormField ''lines'' FieldTable ''Lines'' False [] None None 0 (ColumnTypeOther []) None [routeColumn]"

definition routeHost :: design where
  "routeHost = \<lparr>dn_service = \<lparr>fds_aggregateKinds = [''sum'', ''count'', ''avg''], fds_assigneeKinds = Map.empty, fds_ccKinds = Map.empty\<rparr>,
     dn_decoder = \<lparr>dec_base = (\<lambda>j. Some zeroBaseNodeData), dec_approval = (\<lambda>j. None), dec_handle = (\<lambda>j. None),
       dec_cc = (\<lambda>j. None), dec_condition = (\<lambda>j. Some \<lparr>kn_Base = zeroBaseNodeData, kn_Branches = routeBranches\<rparr>)\<rparr>,
     dn_parse_form = (\<lambda>j. Inr [routeField]), dn_schemas = (\<lambda>t. None), dn_template_ok = (\<lambda>t. True),
     dn_initiatorKinds = Map.empty\<rparr>"

definition routeStore :: db where
  "routeStore = emptyDb\<lparr>db_flows := [zeroFlow\<lparr>fl_ID := ''flow'', fl_BindingMode := BindingStandalone\<rparr>]\<rparr>"

definition routeDeploy :: DeployFlowCmd where
  "routeDeploy = \<lparr>dp_FlowID = ''flow'', dp_Description = None, dp_StorageMode = StorageJSON,
     dp_FlowDefinition = \<lparr>fd_Nodes = [\<lparr>nd_ID = ''s'', nd_Kind = NodeStart, nd_Data = None\<rparr>,
         \<lparr>nd_ID = ''c'', nd_Kind = NodeCondition, nd_Data = Some JNull\<rparr>, \<lparr>nd_ID = ''e'', nd_Kind = NodeEnd, nd_Data = None\<rparr>],
       fd_Edges = [\<lparr>ed_ID = ''sc'', ed_Source = ''s'', ed_Target = ''c'', ed_SourceHandle = None\<rparr>,
         \<lparr>ed_ID = ''hi'', ed_Source = ''c'', ed_Target = ''e'', ed_SourceHandle = Some ''hi''\<rparr>,
         \<lparr>ed_ID = ''lo'', ed_Source = ''c'', ed_Target = ''e'', ed_SourceHandle = Some ''lo''\<rparr>]\<rparr>,
     dp_FormSchema = None\<rparr>"

definition routeStrategies :: Strategies where
  "routeStrategies = \<lparr>st_T = (\<lambda>key. ''label''), st_toStr = (\<lambda>v. []), st_service = None,
     st_engine = (\<lambda>src bindings. Inl (ErrHost src)), st_hostAggregators = [],
     st_hostAssignees = [Some \<lparr>rs_Describe = \<lparr>kd_Kind = ''self'', kd_Label = ''Me'', kd_Selection = SelectionNone\<rparr>, rs_Run = (\<lambda>a rc. Inr [])\<rparr>,
       Some \<lparr>rs_Describe = \<lparr>kd_Kind = ''nurse'', kd_Label = ''Nurse'', kd_Selection = SelectionCustom\<rparr>, rs_Run = (\<lambda>a rc. Inl (ErrHost ''no nurse''))\<rparr>],
     st_hostCCs = [], st_hostInitiators = []\<rparr>"

definition routeForm :: "rat \<Rightarrow> FormData" where
  "routeForm x = Some [(''lines'', JList [JObj [(''amount'', JNum 60)], JObj [], JObj [(''amount'', JNum x)]])]"

lemma route_deployed:
  "case DeployFlow_Handle exampleEnv routeHost routeDeploy routeStore of
     Inl _ \<Rightarrow> False
   | Inr (version, d) \<Rightarrow> map n_Kind (db_nodes d) = [NodeStart, NodeCondition, NodeEnd]
       \<and> map n_Branches (db_nodes d) = [[], routeBranches, []]"
  by code_simp

lemma route_hosts: "hostsRegistrable routeStrategies"
  by code_simp

lemma route_sums:
  "FieldCondition_Evaluate (indexAggregators builtinAggregators) exampleEnv routeCondition
     \<lparr>ec_FormData = routeForm 50, ec_ApplicantID = [], ec_ApplicantDepartmentID = None, ec_Globals = None\<rparr> = Inr True"
  "FieldCondition_Evaluate (indexAggregators builtinAggregators) exampleEnv routeCondition
     \<lparr>ec_FormData = routeForm 30, ec_ApplicantID = [], ec_ApplicantDepartmentID = None, ec_Globals = None\<rparr> = Inr False"
  by code_simp+

end
