(* ===== verification/Strategy_Properties.thy ===== *)
theory Strategy_Properties
  imports Example_Routing
begin

text \<open>
  The properties of the built-in strategies: how a deployed condition node routes, and which
  resolvers a booted application runs with.
\<close>

section \<open>Routing\<close>

text \<open>
  C9: a condition node routes by the first branch, in the order of priority, that matches, and by its
  default branch when no other does; routing leaves the store alone.  For a node a deploy
  stored and the strategies of a booted application nothing else can happen than that the values a
  condition compares do not fit each other or that its expression fails: no operator, evaluator,
  aggregator or branch is ever missing at run time.
\<close>

theorem condition_routes:
  assumes "strategyModule st env = Inr reg"
    and "DeployFlow_Handle denv dn cmd db0 = Inr (version, db1)"
    and "pc_Node pc \<in> set (db_nodes db1)" and "pc_Node pc \<notin> set (db_nodes db0)"
    and "n_Kind (pc_Node pc) = NodeCondition"
    and "set (fds_aggregateKinds (dn_service dn)) \<subseteq> set (map fst (st_aggregators st))"
  shows "case Condition_Process (strategyEnv reg env) pc db of
      Inr (res, db') \<Rightarrow> db' = db \<and> (\<exists>b \<in> set (n_Branches (pc_Node pc)). res = continueResult (Some (b_ID b)) []
        \<and> (if b_IsDefault b
            then \<forall>c \<in> set (n_Branches (pc_Node pc)). c \<noteq> b \<longrightarrow> branchFails (strategyEnv reg env) (nodeContext pc) c
            else branchMatches (strategyEnv reg env) (nodeContext pc) b
              \<and> (\<forall>c \<in> set (n_Branches (pc_Node pc)). \<not> b_IsDefault c \<longrightarrow> b_Priority c < b_Priority b \<longrightarrow>
                   branchFails (strategyEnv reg env) (nodeContext pc) c)))
    | Inl e \<Rightarrow> e = ErrIncomparableValues \<or> e = ErrStrategy ExpressionReturnedNonBool
        \<or> (\<exists>src bindings. st_engine st src bindings = Inl e)"
proof -
  let ?bs = "n_Branches (pc_Node pc)" and ?env = "strategyEnv reg env" and ?ec = "nodeContext pc"
  have v: "branches_valid (fds_aggregateKinds (dn_service dn)) ?bs" by (rule deploy_branches_valid[OF assms(2-5)])
  then obtain d where d: "d \<in> set ?bs" "b_IsDefault d" by (rule branches_valid_default)
  then have eq: "Condition_Process ?env pc db =
      bindE (selectBranch ?env ?ec (sortBranches ?bs) None) (\<lambda>b. Inr (continueResult (Some b) [], db))"
    by (intro Condition_Process_eq) auto
  show ?thesis
  proof (cases "selectBranch ?env ?ec (sortBranches ?bs) None")
    case (Inr bid)
    with selectBranch_routes[OF Inr v] show ?thesis unfolding eq by auto
  next
    case (Inl e)
    have "set (sortBranches ?bs) = set ?bs" by (simp add: sortBranches_def)
    with selectBranch_Inl[OF Inl] d obtain b where "b \<in> set ?bs" "evaluateConditionGroups ?env ?ec (b_ConditionGroups b) = Inl e"
      by auto
    then obtain g c where c: "b \<in> set ?bs" "g \<in> set (b_ConditionGroups b)" "c \<in> set (g_Conditions g)"
      and e: "evalCondition ?env ?ec c = Inl e"
      using evaluateConditionGroups_error by blast
    note valid = branches_valid_conditions[OF v c]
    have "c_Kind c = ''field'' \<Longrightarrow> c_Aggregate c \<noteq> [] \<Longrightarrow> c_Aggregate c \<in> set (map fst (st_aggregators st))"
      using valid(2) assms(6) by blast
    from evalCondition_error[OF assms(1) valid(1) this e] Inl show ?thesis unfolding eq by simp
  qed
qed

theorem condition_routes_witness:
  "\<exists>reg version db1 pc. strategyModule routeStrategies exampleEnv = Inr reg
     \<and> DeployFlow_Handle exampleEnv routeHost routeDeploy routeStore = Inr (version, db1)
     \<and> pc_Node pc \<in> set (db_nodes db1) \<and> n_Branches (pc_Node pc) = routeBranches \<and> pc_FormData pc = routeForm 50
     \<and> (case Condition_Process (strategyEnv reg exampleEnv) pc db1 of
          Inr (res, db') \<Rightarrow> db' = db1 \<and> res \<in> {continueResult (Some ''hi'') [], continueResult (Some ''lo'') []}
        | Inl e \<Rightarrow> e = ErrIncomparableValues \<or> e = ErrStrategy ExpressionReturnedNonBool
            \<or> (\<exists>src bindings. st_engine routeStrategies src bindings = Inl e))"
proof -
  obtain reg where boot: "strategyModule routeStrategies exampleEnv = Inr reg"
    using strategyModule_succeeds[of routeStrategies exampleEnv] route_hosts by (auto simp: routeStrategies_def)
  obtain version db1 where run: "DeployFlow_Handle exampleEnv routeHost routeDeploy routeStore = Inr (version, db1)"
    and nodes: "map n_Kind (db_nodes db1) = [NodeStart, NodeCondition, NodeEnd]"
      "map n_Branches (db_nodes db1) = [[], routeBranches, []]"
    using route_deployed by (auto split: sum.splits)
  then obtain a n b where ns: "db_nodes db1 = [a, n, b]" "n_Kind n = NodeCondition" "n_Branches n = routeBranches"
    by (auto simp: map_eq_Cons_conv)
  obtain pc :: ProcessContext where pc: "pc_Node pc = n" "pc_FormData pc = routeForm 50"
    by (meson ProcessContext.select_convs(2,4))
  have "pc_Node pc \<notin> set (db_nodes routeStore)" by (simp add: routeStore_def emptyDb_def)
  moreover have "set (fds_aggregateKinds (dn_service routeHost)) \<subseteq> set (map fst (st_aggregators routeStrategies))"
    by (auto simp: routeHost_def builtinAggregators_def)
  moreover have "pc_Node pc \<in> set (db_nodes db1)" "n_Kind (pc_Node pc) = NodeCondition" using ns pc by simp_all
  ultimately have *: "case Condition_Process (strategyEnv reg exampleEnv) pc db1 of
      Inr (res, db') \<Rightarrow> db' = db1 \<and> (\<exists>b \<in> set (n_Branches (pc_Node pc)). res = continueResult (Some (b_ID b)) [])
    | Inl e \<Rightarrow> e = ErrIncomparableValues \<or> e = ErrStrategy ExpressionReturnedNonBool
        \<or> (\<exists>src bindings. st_engine routeStrategies src bindings = Inl e)"
    using condition_routes[OF boot run, of pc db1] by (auto split: sum.splits)
  show ?thesis
    using boot run ns pc *
    by (intro exI[of _ reg] exI[of _ version] exI[of _ db1] exI[of _ pc])
      (auto simp: routeBranches_def split: sum.splits)
qed

section \<open>The boot of the strategies\<close>



end
