(* ===== verification/Record_Key.thy ===== *)
theory Record_Key
  imports Approval_Model
begin

text \<open>
  The durable form of a business record key (\<^verbatim>\<open>binding/record_key.go\<close>): each key column is stored with
  the kind of its driver value and the value as text.  The decimal and boolean conversions of
  \<^verbatim>\<open>strconv\<close> are written out; the text of a \<^verbatim>\<open>float64\<close>, of a byte slice (base 64) and of a time are
  the conversions of a record, with what the code relies on as the contract of \<open>text_codec\<close>: what
  is encoded decodes to the same value.  The column holds the parts themselves; that they are
  stored as JSON is not seen by the code, which always unmarshals the whole list.
\<close>

section \<open>Text conversions\<close>

fun decimal :: "nat \<Rightarrow> string" where
  "decimal n = (if n < 10 then [char_of (48 + n)] else decimal (n div 10) @ [char_of (48 + n mod 10)])"

declare decimal.simps [simp del]

definition isDigit :: "char \<Rightarrow> bool" where
  "isDigit c \<longleftrightarrow> 48 \<le> (of_char c :: nat) \<and> (of_char c :: nat) \<le> 57"

fun parseDigits :: "string \<Rightarrow> nat \<Rightarrow> nat option" where
  "parseDigits [] acc = Some acc"
| "parseDigits (c # s) acc = (if isDigit c then parseDigits s (10 * acc + (of_char c - 48)) else None)"

definition FormatInt :: "int \<Rightarrow> string" where
  "FormatInt i = (if i < 0 then CHR ''-'' # decimal (nat (- i)) else decimal (nat i))"

definition int64 :: "int \<Rightarrow> bool" where
  "int64 i \<longleftrightarrow> - (2 ^ 63) \<le> i \<and> i < 2 ^ 63"

definition ParseInt :: "string \<Rightarrow> int option" where
  "ParseInt s =
     (let neg = s \<noteq> [] \<and> hd s = CHR ''-''; signed = neg \<or> (s \<noteq> [] \<and> hd s = CHR ''+'');
          ds = (if signed then tl s else s)
      in if ds = [] then None
         else case parseDigits ds 0 of
             None \<Rightarrow> None
           | Some n \<Rightarrow> let i = (if neg then - int n else int n) in if int64 i then Some i else None)"

definition FormatBool :: "bool \<Rightarrow> string" where
  "FormatBool b = (if b then ''true'' else ''false'')"

definition ParseBool :: "string \<Rightarrow> bool option" where
  "ParseBool s =
     (if s \<in> set [''1'', ''t'', ''T'', ''true'', ''TRUE'', ''True''] then Some True
      else if s \<in> set [''0'', ''f'', ''F'', ''false'', ''FALSE'', ''False''] then Some False
      else None)"

section \<open>The contract of a text conversion\<close>

locale text_codec =
  fixes enc :: "'a \<Rightarrow> string" and dec :: "string \<Rightarrow> 'a option" and valid :: "'a \<Rightarrow> bool"
  assumes dec_enc: "valid x \<Longrightarrow> dec (enc x) = Some x"
begin

lemma enc_inj: "valid x \<Longrightarrow> valid y \<Longrightarrow> enc x = enc y \<Longrightarrow> x = y"
  using dec_enc by (metis option.inject)

lemma enc_dec: "valid x \<Longrightarrow> map_option enc (dec (enc x)) = Some (enc x)"
  by (simp add: dec_enc)

end

lemma parseDigits_append: "parseDigits (s @ t) acc = Option.bind (parseDigits s acc) (parseDigits t)"
  by (induction s arbitrary: acc) auto

lemma of_char_digit: "d < 10 \<Longrightarrow> (of_char (char_of (48 + d) :: char) :: nat) = 48 + d"
  by simp

lemma parseDigits_digit: "d < 10 \<Longrightarrow> parseDigits [char_of (48 + d)] acc = Some (10 * acc + d)"
  by (simp add: isDigit_def)

lemma parseDigits_decimal: "parseDigits (decimal n) 0 = Some n"
proof (induction n rule: decimal.induct)
  case (1 n)
  show ?case
  proof (cases "n < 10")
    case True
    then show ?thesis using parseDigits_digit[of n 0] by (simp add: decimal.simps[of n] del: parseDigits.simps)
  next
    case False
    with 1 show ?thesis using parseDigits_digit[of "n mod 10" "n div 10"]
      by (simp add: decimal.simps[of n] parseDigits_append del: parseDigits.simps)
  qed
qed

lemma decimal_hd: "decimal n \<noteq> [] \<and> isDigit (hd (decimal n))"
proof (induction n rule: decimal.induct)
  case (1 n)
  then show ?case by (cases "n < 10") (simp_all add: decimal.simps[of n] isDigit_def)
qed

lemma decimal_unsigned: "hd (decimal n) \<noteq> CHR ''-'' \<and> hd (decimal n) \<noteq> CHR ''+''"
  using decimal_hd[of n] by (auto simp: isDigit_def)

lemma ParseInt_FormatInt: "int64 i \<Longrightarrow> ParseInt (FormatInt i) = Some i"
  using decimal_hd decimal_unsigned
  by (auto simp: ParseInt_def FormatInt_def parseDigits_decimal Let_def)

interpretation int_text: text_codec FormatInt ParseInt int64
  by unfold_locales (rule ParseInt_FormatInt)

interpretation bool_text: text_codec FormatBool ParseBool "\<lambda>b. True"
  by unfold_locales (simp add: FormatBool_def ParseBool_def)

section \<open>Keys and their parts\<close>

datatype DriverValue =
    DString string | DInt int | DFloat rat | DBool bool | DBytes string | DTime DateTime

text \<open>
  What a resolver may put under a key column: nothing, a value the driver's parameter converter
  rejects, or a value it converts to a driver value.
\<close>

datatype KeyValue = KNil | KUnsupported | KValue DriverValue

type_synonym BusinessRecordKey = "(string \<times> KeyValue) list"

record storedRecordKeyPart =
  kp_Column :: string
  kp_Kind :: string
  kp_Value :: string

record codecs =
  kc_formatFloat :: "rat \<Rightarrow> string"
  kc_parseFloat :: "string \<Rightarrow> rat option"
  kc_encodeBytes :: "string \<Rightarrow> string"
  kc_decodeBytes :: "string \<Rightarrow> string option"
  kc_marshalTime :: "DateTime \<Rightarrow> string"
  kc_unmarshalTime :: "string \<Rightarrow> DateTime option"

abbreviation ErrInvalidBusinessRef :: error where
  "ErrInvalidBusinessRef \<equiv> ErrBinding InvalidBusinessRef"

definition validateRecordKey :: "BusinessBindingConfig \<Rightarrow> BusinessRecordKey \<Rightarrow> error + (string \<times> DriverValue) list" where
  "validateRecordKey config key =
     bindE (ensure (length key = length (bb_KeyColumns config)) ErrInvalidBusinessRef) (\<lambda>_.
       mapE (\<lambda>column. case map_of key column of
           Some (KValue v) \<Rightarrow> Inr (column, v)
         | _ \<Rightarrow> Inl ErrInvalidBusinessRef) (bb_KeyColumns config))"

fun encodeRecordKeyPart :: "codecs \<Rightarrow> string \<Rightarrow> DriverValue \<Rightarrow> storedRecordKeyPart" where
  "encodeRecordKeyPart k column (DString s) = \<lparr>kp_Column = column, kp_Kind = ''string'', kp_Value = s\<rparr>"
| "encodeRecordKeyPart k column (DInt i) = \<lparr>kp_Column = column, kp_Kind = ''int64'', kp_Value = FormatInt i\<rparr>"
| "encodeRecordKeyPart k column (DFloat x) = \<lparr>kp_Column = column, kp_Kind = ''float64'', kp_Value = kc_formatFloat k x\<rparr>"
| "encodeRecordKeyPart k column (DBool b) = \<lparr>kp_Column = column, kp_Kind = ''bool'', kp_Value = FormatBool b\<rparr>"
| "encodeRecordKeyPart k column (DBytes s) = \<lparr>kp_Column = column, kp_Kind = ''bytes'', kp_Value = kc_encodeBytes k s\<rparr>"
| "encodeRecordKeyPart k column (DTime t) = \<lparr>kp_Column = column, kp_Kind = ''time'', kp_Value = kc_marshalTime k t\<rparr>"

definition encodeRecordKey ::
    "codecs \<Rightarrow> BusinessBindingConfig \<Rightarrow> BusinessRecordKey \<Rightarrow> error + storedRecordKeyPart list" where
  "encodeRecordKey k config key =
     bindE (validateRecordKey config key) (\<lambda>validated.
       mapE (\<lambda>column. bindE (ofOption ErrInvalidBusinessRef (map_of validated column)) (\<lambda>v.
         Inr (encodeRecordKeyPart k column v))) (bb_KeyColumns config))"

definition ErrRecordKeyCorrupt :: error where
  "ErrRecordKeyCorrupt = ErrBinding RecordKeyCorrupt"

definition decodeRecordKeyPart :: "codecs \<Rightarrow> storedRecordKeyPart \<Rightarrow> error + DriverValue" where
  "decodeRecordKeyPart k part =
     (if kp_Kind part = ''string'' then Inr (DString (kp_Value part))
      else if kp_Kind part = ''int64'' then
        bindE (ofOption ErrRecordKeyCorrupt (ParseInt (kp_Value part))) (\<lambda>i. Inr (DInt i))
      else if kp_Kind part = ''float64'' then
        bindE (ofOption ErrRecordKeyCorrupt (kc_parseFloat k (kp_Value part))) (\<lambda>x. Inr (DFloat x))
      else if kp_Kind part = ''bool'' then
        bindE (ofOption ErrRecordKeyCorrupt (ParseBool (kp_Value part))) (\<lambda>b. Inr (DBool b))
      else if kp_Kind part = ''bytes'' then
        bindE (ofOption ErrRecordKeyCorrupt (kc_decodeBytes k (kp_Value part))) (\<lambda>s. Inr (DBytes s))
      else if kp_Kind part = ''time'' then
        bindE (ofOption ErrRecordKeyCorrupt (kc_unmarshalTime k (kp_Value part))) (\<lambda>t. Inr (DTime t))
      else Inl ErrInvalidBusinessRef)"

fun decodeParts ::
    "codecs \<Rightarrow> storedRecordKeyPart list \<Rightarrow> (string \<times> DriverValue) list \<Rightarrow> error + (string \<times> DriverValue) list" where
  "decodeParts k [] key = Inr key"
| "decodeParts k (part # parts) key =
     bindE (ensure (kp_Column part \<noteq> []) ErrInvalidBusinessRef) (\<lambda>_.
     bindE (ensure (kp_Column part \<notin> fst ` set key) ErrInvalidBusinessRef) (\<lambda>_.
     bindE (decodeRecordKeyPart k part) (\<lambda>v. decodeParts k parts (key @ [(kp_Column part, v)]))))"

definition decodeRecordKey :: "codecs \<Rightarrow> storedRecordKeyPart list \<Rightarrow> error + (string \<times> DriverValue) list" where
  "decodeRecordKey k parts =
     bindE (ensure (parts \<noteq> []) ErrInvalidBusinessRef) (\<lambda>_. decodeParts k parts [])"

definition recordKeysEqual :: "storedRecordKeyPart list \<Rightarrow> storedRecordKeyPart list \<Rightarrow> bool" where
  "recordKeysEqual left right = (left = right)"

section \<open>The durable form is faithful\<close>

text \<open>The conversions of the record meet the contract, and an integer of a key is an \<^verbatim>\<open>int64\<close>.\<close>

definition codecs_ok :: "codecs \<Rightarrow> bool" where
  "codecs_ok k \<longleftrightarrow> text_codec (kc_formatFloat k) (kc_parseFloat k) (\<lambda>x. True)
     \<and> text_codec (kc_encodeBytes k) (kc_decodeBytes k) (\<lambda>x. True)
     \<and> text_codec (kc_marshalTime k) (kc_unmarshalTime k) (\<lambda>x. True)"

fun fits :: "DriverValue \<Rightarrow> bool" where
  "fits (DInt i) = int64 i"
| "fits _ = True"

lemma decode_encode_part:
  assumes "codecs_ok k" and "fits v"
  shows "decodeRecordKeyPart k (encodeRecordKeyPart k column v) = Inr v"
  using assms
  by (cases v) (simp_all add: decodeRecordKeyPart_def codecs_ok_def text_codec_def int_text.dec_enc bool_text.dec_enc[simplified])

lemma encodeRecordKeyPart_column [simp]: "kp_Column (encodeRecordKeyPart k column v) = column"
  by (cases v) simp_all

lemma decodeParts_encode:
  assumes "codecs_ok k" and "\<forall>(c, v) \<in> set kvs. fits v \<and> c \<noteq> []" and "distinct (map fst key @ map fst kvs)"
  shows "decodeParts k (map (\<lambda>(c, v). encodeRecordKeyPart k c v) kvs) key = Inr (key @ kvs)"
  using assms(2,3)
proof (induction kvs arbitrary: key)
  case (Cons p kvs)
  obtain c v where p: "p = (c, v)" by (cases p)
  have "c \<notin> fst ` set key" "c \<noteq> []" "fits v" using Cons.prems by (auto simp: p)
  moreover have "decodeParts k (map (\<lambda>(c, v). encodeRecordKeyPart k c v) kvs) (key @ [(c, v)]) = Inr ((key @ [(c, v)]) @ kvs)"
    using Cons.prems by (intro Cons.IH) (auto simp: p)
  ultimately show ?case by (simp add: p decode_encode_part[OF assms(1)])
qed simp

lemma validateRecordKey_Inr:
  assumes "validateRecordKey config key = Inr validated"
  shows "map fst validated = bb_KeyColumns config" and "length key = length (bb_KeyColumns config)"
    and "\<And>c v. (c, v) \<in> set validated \<Longrightarrow> map_of key c = Some (KValue v)"
proof -
  have run: "mapE (\<lambda>column. case map_of key column of Some (KValue v) \<Rightarrow> Inr (column, v) | _ \<Rightarrow> Inl ErrInvalidBusinessRef)
      (bb_KeyColumns config) = Inr validated"
    using assms by (auto simp: validateRecordKey_def)
  show "length key = length (bb_KeyColumns config)" using assms by (auto simp: validateRecordKey_def)
  have each: "c = fst p \<and> map_of key c = Some (KValue (snd p))"
    if "(case map_of key c of Some (KValue v) \<Rightarrow> Inr (c, v) | _ \<Rightarrow> Inl ErrInvalidBusinessRef) = Inr p" for c p
    using that by (auto split: option.splits KeyValue.splits)
  have all2: "list_all2 (\<lambda>c p. c = fst p \<and> map_of key c = Some (KValue (snd p))) (bb_KeyColumns config) validated"
    using mapE_Inr_list_all2[OF run] by (rule list_all2_mono) (rule each)
  then show "map fst validated = bb_KeyColumns config"
    by (induction rule: list_all2_induct) auto
  fix c v assume "(c, v) \<in> set validated"
  then obtain i where "i < length validated" "validated ! i = (c, v)" by (auto simp: in_set_conv_nth)
  with list_all2_nthD2[OF all2, of i] show "map_of key c = Some (KValue v)" by auto
qed

lemma encodeRecordKey_Inr:
  assumes "encodeRecordKey k config key = Inr parts" and "distinct (bb_KeyColumns config)"
  obtains validated where "validateRecordKey config key = Inr validated"
    and "parts = map (\<lambda>(c, v). encodeRecordKeyPart k c v) validated"
proof -
  obtain validated where v: "validateRecordKey config key = Inr validated"
    and run: "mapE (\<lambda>column. bindE (ofOption ErrInvalidBusinessRef (map_of validated column)) (\<lambda>v.
         Inr (encodeRecordKeyPart k column v))) (bb_KeyColumns config) = Inr parts"
    using assms(1) unfolding encodeRecordKey_def by blast
  note fst = validateRecordKey_Inr(1)[OF v]
  have d: "distinct (map fst validated)" using fst assms(2) by simp
  have "mapE (\<lambda>column. bindE (ofOption ErrInvalidBusinessRef (map_of validated column)) (\<lambda>v.
         Inr (encodeRecordKeyPart k column v))) (map fst kvs) = Inr (map (\<lambda>(c, v). encodeRecordKeyPart k c v) kvs)"
    if "set kvs \<subseteq> set validated" for kvs
    using that
  proof (induction kvs)
    case (Cons p kvs)
    then have "map_of validated (fst p) = Some (snd p)" using map_of_is_SomeI[OF d] by (cases p) auto
    with Cons show ?case by (cases p) simp
  qed simp
  from this[of validated] run have "parts = map (\<lambda>(c, v). encodeRecordKeyPart k c v) validated"
    unfolding fst by simp
  with v show ?thesis by (rule that)
qed

lemma decode_encode_key:
  assumes "codecs_ok k" and "distinct (bb_KeyColumns config)" and "[] \<notin> set (bb_KeyColumns config)"
    and "bb_KeyColumns config \<noteq> []" and "encodeRecordKey k config key = Inr parts"
    and "\<And>c v. map_of key c = Some (KValue v) \<Longrightarrow> fits v"
  shows "\<exists>validated. validateRecordKey config key = Inr validated \<and> decodeRecordKey k parts = Inr validated"
proof -
  obtain validated where v: "validateRecordKey config key = Inr validated"
    and parts: "parts = map (\<lambda>(c, v). encodeRecordKeyPart k c v) validated"
    by (rule encodeRecordKey_Inr[OF assms(5,2)])
  note val = validateRecordKey_Inr[OF v]
  have "\<forall>(c, w) \<in> set validated. fits w \<and> c \<noteq> []"
    using val(1,3) assms(3,6) by (metis (mono_tags, lifting) case_prodI2 fst_conv image_eqI set_map)
  moreover have "distinct (map fst [] @ map fst validated)" using val(1) assms(2) by simp
  ultimately have "decodeParts k parts [] = Inr validated"
    unfolding parts using decodeParts_encode[OF assms(1), of validated "[]"] by simp
  moreover have "parts \<noteq> []" using parts val(1) assms(4) by auto
  ultimately show ?thesis using v by (simp add: decodeRecordKey_def)
qed

end
