(* ===== verification/Business_Binding.thy ===== *)
theory Business_Binding
  imports Record_Key Flow_Config Tenancy "HOL-Library.Product_Lexorder"
begin

text \<open>
  The business binding (\<^verbatim>\<open>binding/projector.go\<close>, \<^verbatim>\<open>binding/writer.go\<close>, \<^verbatim>\<open>binding/worker.go\<close>,
  \<^verbatim>\<open>command/retry_business_projection.go\<close>): an instance of a bound flow claims a row of a business
  table, and every status it reaches is projected onto that row, in the transaction of the action
  or later by a worker.  The state is the table of projections and the business tables, whose rows
  map a column to its value (\<^term>\<open>None\<close> is NULL, equal to nothing); a stored value equals a bound
  one when it is the same driver value.  The owners are instances of the engine's store.

  The record of the host has the clock, the id generator, the resolver of a business reference, the
  hash of a target (table name and encoded key), the text of an error and the creation time of an
  instance, an audit column the store leaves out (\<^term>\<open>None\<close> is the zero time).  Instants and
  durations are in seconds.  Rows another transaction has locked are skipped by the worker; they
  are an argument.
\<close>

section \<open>State\<close>

datatype ApprovalBindingConsistency =
    ApprovalBindingSynchronous | ApprovalBindingEventual | ApprovalBindingOther string

datatype BindingProjectionStatus =
    BindingProjectionPending | BindingProjectionProcessing | BindingProjectionApplied | BindingProjectionFailed

record BusinessProjection =
  bp_ID :: string
  bp_CreatedAt :: DateTime
  bp_TenantID :: string
  bp_FlowID :: string
  bp_FlowVersionID :: string
  bp_OwnerInstanceID :: string
  bp_AppliedOwnerInstanceID :: "string option"
  bp_TargetHash :: string
  bp_Consistency :: ApprovalBindingConsistency
  bp_Binding :: "BusinessBindingConfig option"
  bp_RecordKey :: "storedRecordKeyPart list"
  bp_DesiredStatus :: InstanceStatus
  bp_DesiredStartedAt :: DateTime
  bp_DesiredFinishedAt :: "DateTime option"
  bp_DesiredRevision :: int
  bp_AppliedRevision :: int
  bp_Status :: BindingProjectionStatus
  bp_AttemptCount :: int
  bp_NextAttemptAt :: "DateTime option"
  bp_LeaseUntil :: "DateTime option"
  bp_LastError :: "string option"
  bp_AppliedAt :: "DateTime option"

type_synonym businessRow = "string \<rightharpoonup> DriverValue"

record bindings =
  bs_projections :: "BusinessProjection list"
  bs_tables :: "string \<Rightarrow> businessRow list"
  bs_next_id :: nat

record bindingConfig =
  cfg_Consistency :: ApprovalBindingConsistency
  cfg_ScanInterval :: int
  cfg_BatchSize :: int

record bindingHost =
  bh_now :: DateTime
  bh_new_id :: "nat \<Rightarrow> string"
  bh_resolve :: "Flow \<Rightarrow> Instance \<Rightarrow> error + BusinessRecordKey"
  bh_hash :: "string \<Rightarrow> storedRecordKeyPart list \<Rightarrow> string"
  bh_codecs :: codecs
  bh_config :: bindingConfig
  bh_error_text :: "error \<Rightarrow> string"
  bh_created :: "Instance \<Rightarrow> DateTime option"

definition coalescePositive :: "int \<Rightarrow> int \<Rightarrow> int" where
  "coalescePositive v dflt = (if v \<le> 0 then dflt else v)"

definition EffectiveConsistency :: "bindingConfig \<Rightarrow> ApprovalBindingConsistency" where
  "EffectiveConsistency c =
     (if cfg_Consistency c = ApprovalBindingOther [] then ApprovalBindingSynchronous else cfg_Consistency c)"

definition EffectiveScanInterval :: "bindingConfig \<Rightarrow> int" where
  "EffectiveScanInterval c = coalescePositive (cfg_ScanInterval c) 10"

definition EffectiveBatchSize :: "bindingConfig \<Rightarrow> int" where
  "EffectiveBatchSize c = coalescePositive (cfg_BatchSize c) 100"

definition ProjectionError :: error where
  "ProjectionError = ErrBinding ProjectionStateInvalid"

section \<open>The writer\<close>

fun InstanceStatus_String :: "InstanceStatus \<Rightarrow> string" where
  "InstanceStatus_String InstanceRunning = ''running''"
| "InstanceStatus_String InstanceApproved = ''approved''"
| "InstanceStatus_String InstanceRejected = ''rejected''"
| "InstanceStatus_String InstanceWithdrawn = ''withdrawn''"
| "InstanceStatus_String InstanceReturned = ''returned''"
| "InstanceStatus_String InstanceTerminated = ''terminated''"

definition projectedStatus :: "BusinessBindingConfig \<Rightarrow> InstanceStatus \<Rightarrow> error + string" where
  "projectedStatus config status =
     (case map_of (bb_StatusMapping config) (Inr status) of
        Some mapped \<Rightarrow> if mapped = [] then Inl (ErrBinding BindingMisconfigured) else Inr mapped
      | None \<Rightarrow> Inr (InstanceStatus_String status))"

definition recordKeyCondition :: "(string \<times> DriverValue) list \<Rightarrow> businessRow \<Rightarrow> bool" where
  "recordKeyCondition key row = list_all (\<lambda>(column, v). row column = Some v) key"

definition setColumns :: "(string \<times> DriverValue option) list \<Rightarrow> businessRow \<Rightarrow> businessRow" where
  "setColumns assignments row = fold (\<lambda>(column, v) r. r(column := v)) assignments row"

text \<open>The assignments of the update statement.\<close>

definition projectionColumns :: "BusinessBindingConfig \<Rightarrow> string \<Rightarrow> string \<Rightarrow> BusinessProjection
    \<Rightarrow> error + (string \<times> DriverValue option) list" where
  "projectionColumns config instanceIDColumn status p =
     (let base = [(bb_StatusColumn config, Some (DString status)), (instanceIDColumn, Some (DString (bp_OwnerInstanceID p)))];
          started = (case bb_StartedAtColumn config of None \<Rightarrow> [] | Some c \<Rightarrow> [(c, Some (DTime (bp_DesiredStartedAt p)))])
      in case bb_FinishedAtColumn config of
           None \<Rightarrow> Inr (base @ started)
         | Some c \<Rightarrow>
             if InstanceStatus_IsFinal (bp_DesiredStatus p) then
               bindE (ofOption ProjectionError (bp_DesiredFinishedAt p)) (\<lambda>t.
                 Inr (base @ started @ [(c, Some (DTime t))]))
             else Inr (base @ started @ [(c, None)]))"

definition normalizedBinding :: "BusinessBindingConfig \<Rightarrow> error + BusinessBindingConfig" where
  "normalizedBinding b =
     (case NormalizeConfig BindingBusiness (Some b) of
        Inr (Some config) \<Rightarrow> Inr config
      | _ \<Rightarrow> Inl (ErrBinding BindingMisconfigured))"

text \<open>The row a projection points at: its table, key and the column of the owner.\<close>

definition projectionTarget ::
    "bindingHost \<Rightarrow> BusinessProjection \<Rightarrow> error + (BusinessBindingConfig \<times> (string \<times> DriverValue) list)" where
  "projectionTarget host p =
     bindE (ofOption ProjectionError (bp_Binding p)) (\<lambda>b.
     bindE (normalizedBinding b) (\<lambda>config.
     bindE (decodeRecordKey (bh_codecs host) (bp_RecordKey p)) (\<lambda>stored.
     bindE (validateRecordKey config (map (\<lambda>(c, v). (c, KValue v)) stored)) (\<lambda>key. Inr (config, key)))))"

text \<open>The fence: after a first write the row must still carry the owner that was applied.\<close>

definition ownedBy :: "string \<Rightarrow> string \<Rightarrow> businessRow \<Rightarrow> bool" where
  "ownedBy instanceIDColumn owner row = (row instanceIDColumn = Some (DString owner))"

definition fence :: "string \<Rightarrow> BusinessProjection \<Rightarrow> businessRow \<Rightarrow> bool" where
  "fence instanceIDColumn p row =
     (bp_AppliedRevision p > 0 \<longrightarrow>
        (case bp_AppliedOwnerInstanceID p of None \<Rightarrow> False | Some o' \<Rightarrow> ownedBy instanceIDColumn o' row))"

definition Write :: "bindingHost \<Rightarrow> BusinessProjection \<Rightarrow> bindings \<Rightarrow> error + bindings" where
  "Write host p bs =
     bindE (projectionTarget host p) (\<lambda>(config, key).
     let rows = bs_tables bs (bb_TableName config); matches = affected (recordKeyCondition key) rows
     in bindE (ensure (matches \<noteq> 0) (ErrBinding BindingTargetMissing)) (\<lambda>_.
        bindE (ensure (\<not> matches > 1) (ErrBinding BindingTargetNotUnique)) (\<lambda>_.
        bindE (ofOption ErrNilDereference (bb_InstanceIDColumn config)) (\<lambda>instanceIDColumn.
        bindE (if bp_AppliedRevision p > 0 then
                 bindE (ofOption ProjectionError (bp_AppliedOwnerInstanceID p)) (\<lambda>o'.
                   ensure (list_ex (\<lambda>r. recordKeyCondition key r \<and> ownedBy instanceIDColumn o' r) rows)
                     (ErrBinding BindingOwnershipConflict))
               else Inr ()) (\<lambda>_.
        bindE (projectedStatus config (bp_DesiredStatus p)) (\<lambda>status.
        bindE (projectionColumns config instanceIDColumn status p) (\<lambda>assignments.
        let clause = (\<lambda>r. recordKeyCondition key r \<and> fence instanceIDColumn p r)
        in bindE (ensure (\<not> affected clause rows > 1) (ErrBinding BindingTargetNotUnique)) (\<lambda>_.
             Inr (bs\<lparr>bs_tables := (bs_tables bs)(bb_TableName config := updateWhere clause (setColumns assignments) rows)\<rparr>)))))))))"

section \<open>The default resolver\<close>

text \<open>
  \<^verbatim>\<open>binding/resolver.go\<close>: the reference is the value of a single key column, or the JSON object of a
  composite key.  The decoder is an argument; it has no result for a text that is not one object.
\<close>

definition ResolveRecordKey ::
    "(string \<Rightarrow> BusinessRecordKey option) \<Rightarrow> Flow \<Rightarrow> Instance \<Rightarrow> error + BusinessRecordKey" where
  "ResolveRecordKey decode flow inst =
     bindE (ofOption (ErrBinding BindingMisconfigured) (fl_BusinessBinding flow)) (\<lambda>config.
     bindE (ensure (bb_KeyColumns config \<noteq> []) (ErrBinding BindingMisconfigured)) (\<lambda>_.
     bindE (ofOption ErrNilDereference (i_BusinessRef inst)) (\<lambda>businessRef.
       case bb_KeyColumns config of
         [column] \<Rightarrow> Inr [(column, KValue (DString businessRef))]
       | _ \<Rightarrow> ofOption ErrInvalidBusinessRef (decode businessRef))))"

section \<open>The projector\<close>

definition findProjection :: "string \<Rightarrow> bindings \<Rightarrow> BusinessProjection option" where
  "findProjection pid bs = find (\<lambda>p. bp_ID p = pid) (bs_projections bs)"

definition updateProjection :: "string \<Rightarrow> (BusinessProjection \<Rightarrow> BusinessProjection) \<Rightarrow> bindings \<Rightarrow> bindings" where
  "updateProjection pid f bs = bs\<lparr>bs_projections := updateWhere (\<lambda>p. bp_ID p = pid) f (bs_projections bs)\<rparr>"

definition setDesiredState :: "bindingHost \<Rightarrow> Instance \<Rightarrow> BusinessProjection \<Rightarrow> error + BusinessProjection" where
  "setDesiredState host inst p =
     (let p1 = p\<lparr>bp_DesiredStatus := i_Status inst,
            bp_DesiredStartedAt := (case bh_created host inst of None \<Rightarrow> bh_now host | Some t \<Rightarrow> t),
            bp_DesiredFinishedAt := None\<rparr>
      in if InstanceStatus_IsFinal (i_Status inst)
         then bindE (ofOption ProjectionError (i_FinishedAt inst)) (\<lambda>t. Inr (p1\<lparr>bp_DesiredFinishedAt := Some t\<rparr>))
         else Inr p1)"

definition resetPendingState :: "bindingHost \<Rightarrow> BusinessProjection \<Rightarrow> BusinessProjection" where
  "resetPendingState host p =
     p\<lparr>bp_Status := BindingProjectionPending, bp_AttemptCount := 0, bp_NextAttemptAt := Some (bh_now host),
       bp_LeaseUntil := None, bp_LastError := None\<rparr>"

text \<open>The columns the two update statements copy from the model.\<close>

definition persistDesiredState :: "BusinessProjection \<Rightarrow> bindings \<Rightarrow> bindings" where
  "persistDesiredState m = updateProjection (bp_ID m) (\<lambda>r. r\<lparr>bp_TenantID := bp_TenantID m, bp_FlowID := bp_FlowID m,
     bp_FlowVersionID := bp_FlowVersionID m, bp_OwnerInstanceID := bp_OwnerInstanceID m, bp_Consistency := bp_Consistency m,
     bp_Binding := bp_Binding m, bp_RecordKey := bp_RecordKey m, bp_DesiredStatus := bp_DesiredStatus m,
     bp_DesiredStartedAt := bp_DesiredStartedAt m, bp_DesiredFinishedAt := bp_DesiredFinishedAt m,
     bp_DesiredRevision := bp_DesiredRevision m, bp_Status := bp_Status m, bp_AttemptCount := bp_AttemptCount m,
     bp_NextAttemptAt := bp_NextAttemptAt m, bp_LeaseUntil := bp_LeaseUntil m, bp_LastError := bp_LastError m\<rparr>)"

definition appliedModel :: "bindingHost \<Rightarrow> BusinessProjection \<Rightarrow> BusinessProjection" where
  "appliedModel host p =
     p\<lparr>bp_AppliedOwnerInstanceID := Some (bp_OwnerInstanceID p), bp_AppliedRevision := bp_DesiredRevision p,
       bp_Status := BindingProjectionApplied, bp_AttemptCount := 0, bp_NextAttemptAt := None, bp_LeaseUntil := None,
       bp_LastError := None, bp_AppliedAt := Some (bh_now host)\<rparr>"

definition markProjectionApplied :: "bindingHost \<Rightarrow> BusinessProjection \<Rightarrow> bindings \<Rightarrow> bindings" where
  "markProjectionApplied host p =
     (let m = appliedModel host p
      in updateProjection (bp_ID p) (\<lambda>r. r\<lparr>bp_AppliedOwnerInstanceID := bp_AppliedOwnerInstanceID m,
           bp_AppliedRevision := bp_AppliedRevision m, bp_Status := bp_Status m, bp_AttemptCount := bp_AttemptCount m,
           bp_NextAttemptAt := bp_NextAttemptAt m, bp_LeaseUntil := bp_LeaseUntil m, bp_LastError := bp_LastError m,
           bp_AppliedAt := bp_AppliedAt m\<rparr>))"

definition applySynchronouslyIfConfigured :: "bindingHost \<Rightarrow> BusinessProjection \<Rightarrow> bindings \<Rightarrow> error + bindings" where
  "applySynchronouslyIfConfigured host p bs =
     (case bp_Consistency p of
        ApprovalBindingEventual \<Rightarrow> Inr bs
      | ApprovalBindingSynchronous \<Rightarrow> bindE (Write host p bs) (\<lambda>bs1. Inr (markProjectionApplied host p bs1))
      | ApprovalBindingOther _ \<Rightarrow> Inl ProjectionError)"

definition ensureOwnerCanBeSuperseded :: "string \<Rightarrow> db \<Rightarrow> error + unit" where
  "ensureOwnerCanBeSuperseded ownerID db =
     (if ownerID = [] then Inr ()
      else case findInstance ownerID db of
          None \<Rightarrow> Inr ()
        | Some owner \<Rightarrow> ensure (InstanceStatus_IsFinal (i_Status owner)) (ErrBinding BindingTargetBusy))"

text \<open>\<^verbatim>\<open>INSERT ... ON CONFLICT (target_hash)\<close>: an existing row of the target stays as it is.\<close>

definition insertProjection :: "bindingHost \<Rightarrow> BusinessProjection \<Rightarrow> bindings \<Rightarrow> bindings" where
  "insertProjection host p bs =
     (if list_ex (\<lambda>r. bp_TargetHash r = bp_TargetHash p) (bs_projections bs) then bs
      else bs\<lparr>bs_projections := bs_projections bs @ [p\<lparr>bp_ID := bh_new_id host (bs_next_id bs), bp_CreatedAt := bh_now host\<rparr>],
              bs_next_id := Suc (bs_next_id bs)\<rparr>)"

definition newProjection ::
    "bindingHost \<Rightarrow> BusinessBindingConfig \<Rightarrow> storedRecordKeyPart list \<Rightarrow> Instance \<Rightarrow> BusinessProjection" where
  "newProjection host config encodedKey inst =
     \<lparr>bp_ID = [], bp_CreatedAt = 0, bp_TenantID = i_TenantID inst, bp_FlowID = i_FlowID inst,
      bp_FlowVersionID = i_FlowVersionID inst, bp_OwnerInstanceID = i_ID inst, bp_AppliedOwnerInstanceID = None,
      bp_TargetHash = bh_hash host (bb_TableName config) encodedKey,
      bp_Consistency = EffectiveConsistency (bh_config host), bp_Binding = Some config, bp_RecordKey = encodedKey,
      bp_DesiredStatus = i_Status inst, bp_DesiredStartedAt = 0, bp_DesiredFinishedAt = None, bp_DesiredRevision = 1,
      bp_AppliedRevision = 0, bp_Status = BindingProjectionPending, bp_AttemptCount = 0, bp_NextAttemptAt = None,
      bp_LeaseUntil = None, bp_LastError = None, bp_AppliedAt = None\<rparr>"

text \<open>The claim of the loaded row by the instance: a new owner, or the row just inserted.\<close>

definition claimProjection ::
    "bindingHost \<Rightarrow> db \<Rightarrow> BusinessBindingConfig \<Rightarrow> storedRecordKeyPart list \<Rightarrow> Instance \<Rightarrow> BusinessProjection
     \<Rightarrow> error + BusinessProjection" where
  "claimProjection host db config encodedKey inst loaded =
     (if bp_OwnerInstanceID loaded \<noteq> i_ID inst then
        bindE (ensureOwnerCanBeSuperseded (bp_OwnerInstanceID loaded) db) (\<lambda>_.
          setDesiredState host inst (loaded\<lparr>bp_TenantID := i_TenantID inst, bp_FlowID := i_FlowID inst,
            bp_FlowVersionID := i_FlowVersionID inst, bp_OwnerInstanceID := i_ID inst,
            bp_Consistency := EffectiveConsistency (bh_config host), bp_Binding := Some config, bp_RecordKey := encodedKey,
            bp_DesiredRevision := bp_DesiredRevision loaded + 1\<rparr>))
      else Inr (if bp_DesiredRevision loaded = 0 then loaded\<lparr>bp_DesiredRevision := 1\<rparr> else loaded))"

definition Bind ::
    "bindingHost \<Rightarrow> db \<Rightarrow> Flow \<Rightarrow> FlowVersion \<Rightarrow> Instance \<Rightarrow> bindings \<Rightarrow> error + (string option \<times> bindings)" where
  "Bind host db flow version inst bs =
     (case fv_BusinessBinding version of
        None \<Rightarrow> Inr (None, bs)
      | Some b \<Rightarrow>
          bindE (normalizedBinding b) (\<lambda>config.
          bindE (ensure (case i_BusinessRef inst of None \<Rightarrow> False | Some r \<Rightarrow> trimSpace r \<noteq> [])
                   (ErrBinding BusinessRefRequired)) (\<lambda>_.
          bindE (bh_resolve host (flow\<lparr>fl_BindingMode := BindingBusiness, fl_BusinessBinding := Some config\<rparr>) inst) (\<lambda>recordKey.
          bindE (encodeRecordKey (bh_codecs host) config recordKey) (\<lambda>encodedKey.
          bindE (setDesiredState host inst (newProjection host config encodedKey inst)) (\<lambda>projection.
          let bs1 = insertProjection host projection bs
          in bindE (ofOption ErrRecordNotFound
                      (find (\<lambda>r. bp_TargetHash r = bp_TargetHash projection) (bs_projections bs1))) (\<lambda>loaded.
             bindE (ensure (case bp_Binding loaded of None \<Rightarrow> False
                            | Some lb \<Rightarrow> bb_TableName lb = bb_TableName config
                                \<and> recordKeysEqual (bp_RecordKey loaded) encodedKey) ProjectionError) (\<lambda>_.
             bindE (claimProjection host db config encodedKey inst loaded) (\<lambda>claimed.
             let p = resetPendingState host claimed
             in bindE (applySynchronouslyIfConfigured host p (persistDesiredState p bs1)) (\<lambda>bs2.
                  Inr (Some (bp_ID p), bs2)))))))))))"

definition Project :: "bindingHost \<Rightarrow> Instance \<Rightarrow> bindings \<Rightarrow> error + bindings" where
  "Project host inst bs =
     (case i_BusinessProjectionID inst of
        None \<Rightarrow> Inr bs
      | Some pid \<Rightarrow>
          if pid = [] then Inr bs
          else bindE (ofOption ProjectionError (findProjection pid bs)) (\<lambda>projection.
            if bp_OwnerInstanceID projection \<noteq> i_ID inst then Inr bs
            else bindE (setDesiredState host inst
                         (projection\<lparr>bp_DesiredRevision := bp_DesiredRevision projection + 1\<rparr>)) (\<lambda>desired.
              let p = resetPendingState host desired
              in applySynchronouslyIfConfigured host p (persistDesiredState p bs))))"

section \<open>The worker\<close>

definition projectionBackoff :: "int \<Rightarrow> int" where
  "projectionBackoff attempt = min (2 ^ nat (min (max attempt 0) 12)) 3600"

function toValidUTF8 :: "string \<Rightarrow> string" where
  "toValidUTF8 [] = []"
| "toValidUTF8 (a # s) =
     (let n = runeLen (a # s)
      in if n = 0 then toValidUTF8 s else a # take (n - 1) s @ toValidUTF8 (drop (n - 1) s))"
  by pat_completeness auto
termination toValidUTF8
  by (relation "measure length") auto

declare toValidUTF8.simps(2) [simp del]

definition projectionError :: "bindingHost \<Rightarrow> error \<Rightarrow> string" where
  "projectionError host err =
     (let message = trimSpace (toValidUTF8 (bh_error_text host err))
      in if length message > 512 then toValidUTF8 (take 512 message) else message)"

definition markProjectionFailed :: "bindingHost \<Rightarrow> BusinessProjection \<Rightarrow> error \<Rightarrow> bindings \<Rightarrow> bindings" where
  "markProjectionFailed host p cause =
     (let attempts = bp_AttemptCount p + 1
      in updateProjection (bp_ID p) (\<lambda>r. r\<lparr>bp_Status := BindingProjectionFailed, bp_AttemptCount := attempts,
           bp_NextAttemptAt := Some (bh_now host + projectionBackoff attempts), bp_LeaseUntil := None,
           bp_LastError := Some (projectionError host cause)\<rparr>))"

definition due :: "DateTime \<Rightarrow> DateTime option \<Rightarrow> bool" where
  "due now t = (case t of None \<Rightarrow> True | Some u \<Rightarrow> u \<le> now)"

definition claimable :: "DateTime \<Rightarrow> BusinessProjection \<Rightarrow> bool" where
  "claimable now p \<longleftrightarrow> bp_Consistency p = ApprovalBindingEventual \<and> bp_DesiredRevision p > bp_AppliedRevision p
     \<and> ((bp_Status p = BindingProjectionPending \<or> bp_Status p = BindingProjectionFailed) \<and> due now (bp_NextAttemptAt p)
        \<or> bp_Status p = BindingProjectionProcessing \<and> due now (bp_LeaseUntil p))"

definition claimBatch :: "bindingHost \<Rightarrow> (string \<Rightarrow> bool) \<Rightarrow> bindings \<Rightarrow> BusinessProjection list \<times> bindings" where
  "claimBatch host locked bs =
     (let now = bh_now host; leaseUntil = now + max 30 (3 * EffectiveScanInterval (bh_config host));
          candidates = filter (\<lambda>p. claimable now p \<and> \<not> locked (bp_ID p)) (bs_projections bs);
          ordered = sort_key (\<lambda>p. (case bp_NextAttemptAt p of None \<Rightarrow> bp_CreatedAt p | Some t \<Rightarrow> t,
                       bp_CreatedAt p, bp_ID p)) candidates;
          claimed = take (nat (EffectiveBatchSize (bh_config host))) ordered;
          lease = (\<lambda>p. p\<lparr>bp_Status := BindingProjectionProcessing, bp_LeaseUntil := Some leaseUntil\<rparr>)
      in if claimed = [] then ([], bs)
         else (map lease claimed,
               bs\<lparr>bs_projections := updateWhere (\<lambda>p. bp_ID p \<in> set (map bp_ID claimed)) lease (bs_projections bs)\<rparr>))"

datatype BindingTrigger =
    BindingTriggerStarted | BindingTriggerCompleted | BindingTriggerReturned | BindingTriggerWithdrawn
  | BindingTriggerResubmitted

definition projectionTrigger :: "BusinessProjection \<Rightarrow> BindingTrigger" where
  "projectionTrigger p =
     (case bp_DesiredStatus p of
        InstanceReturned \<Rightarrow> BindingTriggerReturned
      | InstanceWithdrawn \<Rightarrow> BindingTriggerWithdrawn
      | InstanceApproved \<Rightarrow> BindingTriggerCompleted
      | InstanceRejected \<Rightarrow> BindingTriggerCompleted
      | InstanceTerminated \<Rightarrow> BindingTriggerCompleted
      | InstanceRunning \<Rightarrow>
          if bp_AppliedOwnerInstanceID p \<noteq> Some (bp_OwnerInstanceID p) then BindingTriggerStarted
          else BindingTriggerResubmitted)"

datatype BindingFailure = InstanceBindingFailedEvent Instance BindingTrigger InstanceStatus string string

text \<open>
  One claim: the row is reloaded and left alone unless it is still the claimed revision of the
  claimed owner.  The write runs in a savepoint, so a failed write leaves the tables as they were
  and the failure is recorded.
\<close>

definition applyClaim ::
    "bindingHost \<Rightarrow> db \<Rightarrow> BusinessProjection \<Rightarrow> bindings \<Rightarrow> BindingFailure option \<times> bindings" where
  "applyClaim host db claimed bs =
     (case findProjection (bp_ID claimed) bs of
        None \<Rightarrow> (None, bs)
      | Some current \<Rightarrow>
          if bp_Status current \<noteq> BindingProjectionProcessing
             \<or> bp_OwnerInstanceID current \<noteq> bp_OwnerInstanceID claimed
             \<or> bp_DesiredRevision current \<noteq> bp_DesiredRevision claimed then (None, bs)
          else case Write host current bs of
              Inr bs1 \<Rightarrow> (None, markProjectionApplied host current bs1)
            | Inl e \<Rightarrow>
                (map_option (\<lambda>inst. InstanceBindingFailedEvent inst (projectionTrigger current) (bp_DesiredStatus current)
                     (case bp_Binding current of None \<Rightarrow> [] | Some b \<Rightarrow> bb_TableName b) (projectionError host e))
                   (findInstance (bp_OwnerInstanceID current) db),
                 markProjectionFailed host current e bs))"

fun applyClaims ::
    "bindingHost \<Rightarrow> db \<Rightarrow> BusinessProjection list \<Rightarrow> bindings \<Rightarrow> BindingFailure list \<times> bindings" where
  "applyClaims host db [] bs = ([], bs)"
| "applyClaims host db (c # cs) bs =
     (let (failure, bs1) = applyClaim host db c bs; (failures, bs2) = applyClaims host db cs bs1
      in ((case failure of None \<Rightarrow> failures | Some f \<Rightarrow> f # failures), bs2))"

definition ProcessPending ::
    "bindingHost \<Rightarrow> (string \<Rightarrow> bool) \<Rightarrow> db \<Rightarrow> bindings \<Rightarrow> nat \<times> BindingFailure list \<times> bindings" where
  "ProcessPending host locked db bs =
     (let (claimed, bs1) = claimBatch host locked bs; (failures, bs2) = applyClaims host db claimed bs1
      in (length claimed, failures, bs2))"

definition Retry :: "bindingHost \<Rightarrow> BusinessProjection \<Rightarrow> bindings \<Rightarrow> error + bindings" where
  "Retry host projection bs =
     bindE (ensure (bp_Consistency projection = ApprovalBindingEventual) ProjectionError) (\<lambda>_.
     let p = projection\<lparr>bp_Status := BindingProjectionProcessing, bp_NextAttemptAt := None, bp_LeaseUntil := None\<rparr>
     in case Write host p bs of
          Inr bs1 \<Rightarrow> Inr (markProjectionApplied host p bs1)
        | Inl e \<Rightarrow> Inr (markProjectionFailed host p e bs))"

definition RetryBusinessProjection_Handle ::
    "bindingHost \<Rightarrow> string \<Rightarrow> CallerContext \<Rightarrow> bindings \<Rightarrow> error + bindings" where
  "RetryBusinessProjection_Handle host projectionID caller bs =
     bindE (ofOption (ErrBinding BindingProjectionNotFound) (findProjection projectionID bs)) (\<lambda>projection.
     bindE (case Authorize caller (bp_TenantID projection) of
              Inr _ \<Rightarrow> Inr () | Inl _ \<Rightarrow> Inl (ErrBinding BindingProjectionNotFound)) (\<lambda>_.
       Retry host projection bs))"

section \<open>The claim as the start of an instance sees it\<close>

text \<open>
  What the start of an instance asks of the binding: the id of the projection to link, over the
  projections as they stand.  The environment of the engine runs with it.
\<close>

definition bindingEnv :: "bindingHost \<Rightarrow> bindings \<Rightarrow> env \<Rightarrow> env" where
  "bindingEnv host bs env =
     env\<lparr>env_bind_projection := Some (\<lambda>db flow version inst.
       bindE (Bind host db flow version inst bs) (\<lambda>(link, bs'). ofOption ErrNilDereference link))\<rparr>"

section \<open>The writer changes one row\<close>

lemma normalizedBinding_Inr: "normalizedBinding b = Inr config \<Longrightarrow> NormalizeConfig BindingBusiness (Some b) = Inr (Some config)"
  by (auto simp: normalizedBinding_def split: sum.splits option.splits)

lemma normalized_columns:
  assumes "NormalizeConfig BindingBusiness (Some b) = Inr (Some config)"
  shows "distinct (bb_KeyColumns config @ bindingWriteColumns config)" and "bb_InstanceIDColumn config \<noteq> None"
    and "bb_KeyColumns config \<noteq> []" and "[] \<notin> set (bb_KeyColumns config @ bindingWriteColumns config)"
    and "bb_TableName config \<noteq> []" and "\<And>v. map_of (bb_StatusMapping config) s = Some v \<Longrightarrow> v \<noteq> []"
proof -
  define n where "n = \<lparr>bb_TableName = trimSpace (bb_TableName b), bb_KeyColumns = sort (map trimSpace (bb_KeyColumns b)),
     bb_StatusColumn = trimSpace (bb_StatusColumn b), bb_InstanceIDColumn = normalizeOptionalColumn (bb_InstanceIDColumn b),
     bb_StartedAtColumn = normalizeOptionalColumn (bb_StartedAtColumn b),
     bb_FinishedAtColumn = normalizeOptionalColumn (bb_FinishedAtColumn b),
     bb_StatusMapping = map (\<lambda>(s, v). (s, trimSpace v)) (bb_StatusMapping b)\<rparr>"
  have n: "config = n" and i: "\<not> (bb_TableName n = [] \<or> bb_KeyColumns n = [] \<or> bb_StatusColumn n = [] \<or> bb_InstanceIDColumn n = None)"
    and m: "\<forall>(s, v) \<in> set (bb_StatusMapping n). isProjectableStatus s \<and> v \<noteq> []"
    and e: "\<forall>c \<in> set (bb_TableName n # bb_KeyColumns n @ bindingWriteColumns n). c \<noteq> []"
    and d: "distinct (bb_KeyColumns n @ bindingWriteColumns n)"
    using assms unfolding NormalizeConfig_def ofOption_simps bindE_simps Let_def n_def[symmetric]
    by (auto simp: bindE_Inr_iff split: prod.splits)
  show "distinct (bb_KeyColumns config @ bindingWriteColumns config)" using d n by simp
  show "bb_InstanceIDColumn config \<noteq> None" "bb_KeyColumns config \<noteq> []" "bb_TableName config \<noteq> []" using i n by simp_all
  show "[] \<notin> set (bb_KeyColumns config @ bindingWriteColumns config)" using e n by auto
  show "v \<noteq> []" if "map_of (bb_StatusMapping config) s = Some v" for v
    using m map_of_SomeD[OF that] unfolding n by blast
qed

lemma projectedStatus_total:
  assumes "NormalizeConfig BindingBusiness (Some b) = Inr (Some config)"
  shows "\<exists>status. projectedStatus config s = Inr status"
  using normalized_columns(6)[OF assms, of "Inr s"] by (auto simp: projectedStatus_def split: option.splits)

lemma projectionTarget_Inr:
  assumes "projectionTarget host p = Inr (config, key)"
  obtains b where "bp_Binding p = Some b" "NormalizeConfig BindingBusiness (Some b) = Inr (Some config)"
    "map fst key = bb_KeyColumns config"
  using assms validateRecordKey_Inr(1) normalizedBinding_Inr unfolding projectionTarget_def
  by (smt (verit, ccfv_threshold) Inr_inject bindE_InrE ofOption_Inr prod.inject)

text \<open>A successful write found exactly one row for the key, and that row passed the fence.\<close>

lemma Write_Inr:
  assumes "Write host p bs = Inr bs'"
  obtains config key idcol status cols pre row post where
    "projectionTarget host p = Inr (config, key)" "bb_InstanceIDColumn config = Some idcol"
    "projectedStatus config (bp_DesiredStatus p) = Inr status" "projectionColumns config idcol status p = Inr cols"
    "bs_tables bs (bb_TableName config) = pre @ row # post" "recordKeyCondition key row" "fence idcol p row"
    "\<forall>r \<in> set pre \<union> set post. \<not> recordKeyCondition key r"
    "bs' = bs\<lparr>bs_tables := (bs_tables bs)(bb_TableName config := pre @ setColumns cols row # post)\<rparr>"
proof -
  obtain config key where t: "projectionTarget host p = Inr (config, key)"
    using assms unfolding Write_def by auto
  let ?rows = "bs_tables bs (bb_TableName config)" and ?P = "recordKeyCondition key"
  obtain idcol status cols where
    one: "affected ?P ?rows \<noteq> 0" "\<not> affected ?P ?rows > 1" and idcol: "bb_InstanceIDColumn config = Some idcol"
    and f: "(if bp_AppliedRevision p > 0 then
                 bindE (ofOption ProjectionError (bp_AppliedOwnerInstanceID p)) (\<lambda>o'.
                   ensure (list_ex (\<lambda>r. recordKeyCondition key r \<and> ownedBy idcol o' r) ?rows)
                     (ErrBinding BindingOwnershipConflict))
               else Inr ()) = Inr ()"
    and st: "projectedStatus config (bp_DesiredStatus p) = Inr status" and cols: "projectionColumns config idcol status p = Inr cols"
    and bs': "bs' = bs\<lparr>bs_tables := (bs_tables bs)(bb_TableName config :=
        updateWhere (\<lambda>r. ?P r \<and> fence idcol p r) (setColumns cols) ?rows)\<rparr>"
    using assms unfolding Write_def t bindE_simps prod.case Let_def by (auto simp: bindE_Inr_iff)
  have "length (filter ?P ?rows) = 1" using one unfolding affected_def by linarith
  then obtain row where row: "filter ?P ?rows = [row]" by (auto simp: length_Suc_conv)
  then obtain pre post where split: "?rows = pre @ row # post" "?P row" "\<forall>r \<in> set pre \<union> set post. \<not> ?P r"
    by (smt (verit) Un_iff append_Nil filter_eq_Cons_iff filter_empty_conv)
  have only: "r = row" if "r \<in> set ?rows" "?P r" for r
    using that split by auto
  have fen: "fence idcol p row"
  proof (cases "bp_AppliedRevision p > 0")
    case True
    then obtain o' r where "bp_AppliedOwnerInstanceID p = Some o'" "r \<in> set ?rows" "?P r" "ownedBy idcol o' r"
      using f by (auto simp: list_ex_iff)
    with only show ?thesis by (auto simp: fence_def)
  qed (simp add: fence_def)
  have "updateWhere (\<lambda>r. ?P r \<and> fence idcol p r) (setColumns cols) ?rows = pre @ setColumns cols row # post"
    unfolding split(1) using split(2,3) fen by (auto simp: updateWhere_none)
  with t idcol st cols split fen bs' show ?thesis by (intro that) simp_all
qed

end
