(* ===== verification/Binding_Invariants.thy ===== *)
theory Binding_Invariants
  imports Business_Binding Approval_System
begin

text \<open>
  What the business binding keeps true while approval requests, claims, transitions, the worker,
  manual retries and the host application itself interleave: one projection per target, revisions
  that only grow, and a record of the applied owner for every projection that was ever applied.
\<close>

section \<open>The columns of a write\<close>

lemma setColumns_eq: "setColumns cols r c = (case map_of (rev cols) c of None \<Rightarrow> r c | Some v \<Rightarrow> v)"
proof (induction cols arbitrary: r)
  case (Cons p cols)
  then show ?case by (cases p) (auto simp: setColumns_def map_add_def split: option.splits)
qed (simp add: setColumns_def)

lemma setColumns_distinct:
  assumes "distinct (map fst cols)"
  shows "(c, v) \<in> set cols \<Longrightarrow> setColumns cols r c = v" and "c \<notin> fst ` set cols \<Longrightarrow> setColumns cols r c = r c"
proof -
  have d: "distinct (map fst (rev cols))" using assms by (simp flip: rev_map)
  show "setColumns cols r c = v" if "(c, v) \<in> set cols"
    using map_of_is_SomeI[OF d, of c v] that by (simp add: setColumns_eq)
  show "setColumns cols r c = r c" if "c \<notin> fst ` set cols"
    using that by (simp add: setColumns_eq map_of_eq_None_iff[THEN iffD2])
qed

lemma projectionColumns_Inr:
  assumes "projectionColumns config idcol status p = Inr cols" and "bb_InstanceIDColumn config = Some idcol"
  shows "map fst cols = bindingWriteColumns config"
    and "(bb_StatusColumn config, Some (DString status)) \<in> set cols"
    and "(idcol, Some (DString (bp_OwnerInstanceID p))) \<in> set cols"
    and "bb_StartedAtColumn config = Some c \<Longrightarrow> (c, Some (DTime (bp_DesiredStartedAt p))) \<in> set cols"
    and "bb_FinishedAtColumn config = Some c \<Longrightarrow>
           (c, if InstanceStatus_IsFinal (bp_DesiredStatus p) then map_option DTime (bp_DesiredFinishedAt p) else None) \<in> set cols"
  using assms
  by (auto simp: projectionColumns_def bindingWriteColumns_def Let_def map_filter_simps bindE_Inr_iff
        split: option.splits if_splits)

lemma projectionColumns_total:
  "(InstanceStatus_IsFinal (bp_DesiredStatus p) \<Longrightarrow> bp_DesiredFinishedAt p \<noteq> None) \<Longrightarrow>
     \<exists>cols. projectionColumns config idcol status p = Inr cols"
  by (auto simp: projectionColumns_def Let_def split: option.splits if_splits)

text \<open>The row after a write: the written columns hold the desired state, the others what they held.\<close>

definition showsProjection :: "BusinessBindingConfig \<Rightarrow> BusinessProjection \<Rightarrow> businessRow \<Rightarrow> businessRow \<Rightarrow> bool" where
  "showsProjection config p row row' \<longleftrightarrow>
     (case projectedStatus config (bp_DesiredStatus p) of Inl _ \<Rightarrow> False
      | Inr status \<Rightarrow> row' (bb_StatusColumn config) = Some (DString status))
     \<and> (case bb_InstanceIDColumn config of None \<Rightarrow> False
        | Some c \<Rightarrow> row' c = Some (DString (bp_OwnerInstanceID p)))
     \<and> (case bb_StartedAtColumn config of None \<Rightarrow> True | Some c \<Rightarrow> row' c = Some (DTime (bp_DesiredStartedAt p)))
     \<and> (case bb_FinishedAtColumn config of None \<Rightarrow> True
        | Some c \<Rightarrow> row' c = (if InstanceStatus_IsFinal (bp_DesiredStatus p) then map_option DTime (bp_DesiredFinishedAt p) else None))
     \<and> (\<forall>c. c \<notin> set (bindingWriteColumns config) \<longrightarrow> row' c = row c)"

lemma written_row:
  assumes t: "projectionTarget host p = Inr (config, key)" and i: "bb_InstanceIDColumn config = Some idcol"
    and s: "projectedStatus config (bp_DesiredStatus p) = Inr status"
    and c: "projectionColumns config idcol status p = Inr cols"
  shows "showsProjection config p row (setColumns cols row)"
    and "recordKeyCondition key (setColumns cols row) = recordKeyCondition key row"
    and "ownedBy idcol (bp_OwnerInstanceID p) (setColumns cols row)"
proof -
  obtain b where n: "NormalizeConfig BindingBusiness (Some b) = Inr (Some config)" and k: "map fst key = bb_KeyColumns config"
    by (rule projectionTarget_Inr[OF t])
  note dist = normalized_columns(1)[OF n]
  note cols = projectionColumns_Inr[OF c i]
  have d: "distinct (map fst cols)" using dist cols(1) by simp
  note set = setColumns_distinct[OF d]
  have other: "c \<notin> set (bindingWriteColumns config) \<Longrightarrow> setColumns cols row c = row c" for c
    using set(2)[of c row] cols(1) by (metis set_map)
  show o: "ownedBy idcol (bp_OwnerInstanceID p) (setColumns cols row)"
    using set(1)[OF cols(3)] by (simp add: ownedBy_def)
  show "showsProjection config p row (setColumns cols row)"
    unfolding showsProjection_def s i
    using set(1)[OF cols(2)] set(1)[OF cols(3)] set(1)[OF cols(4)] set(1)[OF cols(5)] other
    by (auto split: option.splits)
  have "setColumns cols row c = row c" if "(c, v) \<in> set key" for c v
  proof (rule other)
    have "c \<in> set (bb_KeyColumns config)" using that k by (metis fst_conv image_eqI set_map)
    then show "c \<notin> set (bindingWriteColumns config)" using dist by auto
  qed
  then show "recordKeyCondition key (setColumns cols row) = recordKeyCondition key row"
    by (auto simp: recordKeyCondition_def list_all_iff)
qed

section \<open>The invariant of the projections\<close>

definition projection_ok :: "BusinessProjection \<Rightarrow> bool" where
  "projection_ok p \<longleftrightarrow> 0 \<le> bp_AppliedRevision p \<and> bp_AppliedRevision p \<le> bp_DesiredRevision p \<and> 1 \<le> bp_DesiredRevision p
     \<and> (0 < bp_AppliedRevision p \<longrightarrow> bp_AppliedOwnerInstanceID p \<noteq> None)
     \<and> (bp_Status p = BindingProjectionApplied \<longrightarrow>
          bp_AppliedRevision p = bp_DesiredRevision p \<and> bp_AppliedOwnerInstanceID p = Some (bp_OwnerInstanceID p))
     \<and> (InstanceStatus_IsFinal (bp_DesiredStatus p) \<longrightarrow> bp_DesiredFinishedAt p \<noteq> None)
     \<and> bp_Binding p \<noteq> None
     \<and> (bp_Status p = BindingProjectionFailed \<longrightarrow> bp_NextAttemptAt p \<noteq> None \<and> bp_LastError p \<noteq> None)"

definition bindings_ok :: "(nat \<Rightarrow> string) \<Rightarrow> bindings \<Rightarrow> bool" where
  "bindings_ok ids bs \<longleftrightarrow> distinct (map bp_ID (bs_projections bs)) \<and> distinct (map bp_TargetHash (bs_projections bs))
     \<and> set (map bp_ID (bs_projections bs)) \<subseteq> ids ` {..<bs_next_id bs}
     \<and> (\<forall>p \<in> set (bs_projections bs). projection_ok p)"

lemma updateProjection_ok:
  assumes "bindings_ok ids bs" and "\<And>r. bp_ID (f r) = bp_ID r \<and> bp_TargetHash (f r) = bp_TargetHash r"
    and "\<And>r. r \<in> set (bs_projections bs) \<Longrightarrow> bp_ID r = pid \<Longrightarrow> projection_ok (f r)"
  shows "bindings_ok ids (updateProjection pid f bs)"
proof -
  have "map bp_ID (updateWhere (\<lambda>p. bp_ID p = pid) f (bs_projections bs)) = map bp_ID (bs_projections bs)"
    "map bp_TargetHash (updateWhere (\<lambda>p. bp_ID p = pid) f (bs_projections bs)) = map bp_TargetHash (bs_projections bs)"
    using assms(2) by (auto intro!: map_updateWhere_key)
  with assms(1,3) show ?thesis
    by (auto simp: bindings_ok_def updateProjection_def updateWhere_in_iff)
qed

lemma tables_ok: "bindings_ok ids (bs\<lparr>bs_tables := T\<rparr>) = bindings_ok ids bs"
  by (simp add: bindings_ok_def)

lemma Write_projections:
  assumes "Write host p bs = Inr bs'"
  shows "bs_projections bs' = bs_projections bs" "bs_next_id bs' = bs_next_id bs"
  by (rule Write_Inr[OF assms]; simp)+

section \<open>How projections advance\<close>

text \<open>The instance may lose its target: it is gone, or its status is final.\<close>

definition superseded :: "string \<Rightarrow> db \<Rightarrow> bool" where
  "superseded owner db \<longleftrightarrow>
     owner = [] \<or> (case findInstance owner db of None \<Rightarrow> True | Some i \<Rightarrow> InstanceStatus_IsFinal (i_Status i))"

definition moves :: "db \<Rightarrow> BusinessProjection \<Rightarrow> BusinessProjection \<Rightarrow> bool" where
  "moves db p p' \<longleftrightarrow> bp_ID p' = bp_ID p \<and> bp_TargetHash p' = bp_TargetHash p
     \<and> bp_DesiredRevision p \<le> bp_DesiredRevision p' \<and> bp_AppliedRevision p \<le> bp_AppliedRevision p'
     \<and> (bp_OwnerInstanceID p' \<noteq> bp_OwnerInstanceID p \<longrightarrow> superseded (bp_OwnerInstanceID p) db)
     \<and> (bp_OwnerInstanceID p' \<noteq> bp_OwnerInstanceID p \<or> bp_DesiredStatus p' \<noteq> bp_DesiredStatus p \<longrightarrow>
          bp_DesiredRevision p < bp_DesiredRevision p')"

definition advances :: "db \<Rightarrow> bindings \<Rightarrow> bindings \<Rightarrow> bool" where
  "advances db bs bs' \<longleftrightarrow> (\<forall>p \<in> set (bs_projections bs). \<exists>p' \<in> set (bs_projections bs'). moves db p p')"

lemma moves_refl [simp]: "moves db p p"
  by (simp add: moves_def)

lemma moves_trans: "moves db p q \<Longrightarrow> moves db q r \<Longrightarrow> moves db p r"
  by (auto simp: moves_def)

lemma advances_same: "bs_projections bs' = bs_projections bs \<Longrightarrow> advances db bs bs'"
  by (auto simp: advances_def intro: moves_refl)

lemma advances_trans: "advances db bs bs1 \<Longrightarrow> advances db bs1 bs2 \<Longrightarrow> advances db bs bs2"
  unfolding advances_def by (meson moves_trans)

lemma updateProjection_advances:
  assumes "\<And>r. r \<in> set (bs_projections bs) \<Longrightarrow> bp_ID r = pid \<Longrightarrow> moves db r (f r)"
  shows "advances db bs (updateProjection pid f bs)"
  unfolding advances_def updateProjection_def
proof
  fix p assume "p \<in> set (bs_projections bs)"
  with assms show "\<exists>p' \<in> set (bs_projections (bs\<lparr>bs_projections := updateWhere (\<lambda>p. bp_ID p = pid) f (bs_projections bs)\<rparr>)). moves db p p'"
    by (intro bexI[of _ "if bp_ID p = pid then f p else p"]) (auto simp: updateWhere_in_iff)
qed

text \<open>A model of a row that agrees with the row on the desired state.\<close>

definition synced :: "BusinessProjection \<Rightarrow> bindings \<Rightarrow> bool" where
  "synced p bs \<longleftrightarrow> (\<forall>r \<in> set (bs_projections bs). bp_ID r = bp_ID p \<longrightarrow>
     bp_DesiredRevision r = bp_DesiredRevision p \<and> bp_OwnerInstanceID r = bp_OwnerInstanceID p)"

lemma synced_row:
  assumes "bindings_ok ids bs" and "p \<in> set (bs_projections bs)"
  shows "r \<in> set (bs_projections bs) \<Longrightarrow> bp_ID r = bp_ID p \<Longrightarrow> r = p"
  using assms distinct_key_eq[of bp_ID "bs_projections bs"] by (auto simp: bindings_ok_def)

lemma bindings_okD: "bindings_ok ids bs \<Longrightarrow> r \<in> set (bs_projections bs) \<Longrightarrow> projection_ok r"
  by (simp add: bindings_ok_def)

lemma markProjectionApplied_ok:
  assumes ok: "bindings_ok ids bs" and sync: "synced p bs"
  shows "bindings_ok ids (markProjectionApplied host p bs)" and "advances db bs (markProjectionApplied host p bs)"
proof -
  have row: "bp_DesiredRevision r = bp_DesiredRevision p \<and> bp_OwnerInstanceID r = bp_OwnerInstanceID p \<and> projection_ok r"
    if "r \<in> set (bs_projections bs)" "bp_ID r = bp_ID p" for r
    using sync that bindings_okD[OF ok] by (auto simp: synced_def)
  show "bindings_ok ids (markProjectionApplied host p bs)"
    unfolding markProjectionApplied_def Let_def appliedModel_def
  proof (rule updateProjection_ok[OF ok], goal_cases)
    case (2 r)
    with row[of r] show ?case by (simp add: projection_ok_def)
  qed simp
  show "advances db bs (markProjectionApplied host p bs)"
    unfolding markProjectionApplied_def Let_def appliedModel_def
  proof (rule updateProjection_advances, goal_cases)
    case (1 r)
    with row[of r] show ?case by (simp add: projection_ok_def moves_def)
  qed
qed

lemma markProjectionFailed_ok:
  assumes ok: "bindings_ok ids bs"
  shows "bindings_ok ids (markProjectionFailed host p e bs)" and "advances db bs (markProjectionFailed host p e bs)"
proof -
  show "bindings_ok ids (markProjectionFailed host p e bs)"
    unfolding markProjectionFailed_def Let_def
  proof (rule updateProjection_ok[OF ok], goal_cases)
    case (2 r)
    with bindings_okD[OF ok, of r] show ?case by (simp add: projection_ok_def)
  qed simp
  show "advances db bs (markProjectionFailed host p e bs)"
    unfolding markProjectionFailed_def Let_def by (rule updateProjection_advances) (simp add: moves_def)
qed

text \<open>The model of a row with its desired state renewed, ready to be persisted.\<close>

definition renewed :: "db \<Rightarrow> BusinessProjection \<Rightarrow> BusinessProjection \<Rightarrow> bool" where
  "renewed db p m \<longleftrightarrow> moves db p m \<and> bp_Binding m \<noteq> None
     \<and> (InstanceStatus_IsFinal (bp_DesiredStatus m) \<longrightarrow> bp_DesiredFinishedAt m \<noteq> None)"

lemma persistDesiredState_ok:
  assumes ok: "bindings_ok ids bs" and row: "loaded \<in> set (bs_projections bs)" and m: "renewed db loaded m"
    and st: "bp_Status m = BindingProjectionPending"
  shows "bindings_ok ids (persistDesiredState m bs)" and "synced m (persistDesiredState m bs)"
    and "advances db bs (persistDesiredState m bs)"
proof -
  let ?f = "\<lambda>r. r\<lparr>bp_TenantID := bp_TenantID m, bp_FlowID := bp_FlowID m,
     bp_FlowVersionID := bp_FlowVersionID m, bp_OwnerInstanceID := bp_OwnerInstanceID m, bp_Consistency := bp_Consistency m,
     bp_Binding := bp_Binding m, bp_RecordKey := bp_RecordKey m, bp_DesiredStatus := bp_DesiredStatus m,
     bp_DesiredStartedAt := bp_DesiredStartedAt m, bp_DesiredFinishedAt := bp_DesiredFinishedAt m,
     bp_DesiredRevision := bp_DesiredRevision m, bp_Status := bp_Status m, bp_AttemptCount := bp_AttemptCount m,
     bp_NextAttemptAt := bp_NextAttemptAt m, bp_LeaseUntil := bp_LeaseUntil m, bp_LastError := bp_LastError m\<rparr>"
  have only: "r = loaded" if "r \<in> set (bs_projections bs)" "bp_ID r = bp_ID m" for r
    using synced_row[OF ok row that(1)] that(2) m by (simp add: renewed_def moves_def)
  have p: "projection_ok loaded" by (rule bindings_okD[OF ok row])
  show "bindings_ok ids (persistDesiredState m bs)"
    unfolding persistDesiredState_def
  proof (rule updateProjection_ok[OF ok], goal_cases)
    case (2 r)
    then have r: "r = loaded" by (rule only)
    show ?case unfolding r using p m st by (simp add: projection_ok_def renewed_def moves_def)
  qed simp
  show "synced m (persistDesiredState m bs)"
    unfolding synced_def
  proof (intro ballI impI)
    fix r assume "r \<in> set (bs_projections (persistDesiredState m bs))" and id: "bp_ID r = bp_ID m"
    then obtain r0 where "r0 \<in> set (bs_projections bs)" and r: "r = (if bp_ID r0 = bp_ID m then ?f r0 else r0)"
      unfolding persistDesiredState_def updateProjection_def by (auto simp: updateWhere_in_iff)
    with id show "bp_DesiredRevision r = bp_DesiredRevision m \<and> bp_OwnerInstanceID r = bp_OwnerInstanceID m"
      by (cases "bp_ID r0 = bp_ID m") simp_all
  qed
  show "advances db bs (persistDesiredState m bs)"
    unfolding persistDesiredState_def
  proof (rule updateProjection_advances, goal_cases)
    case (1 r)
    then have r: "r = loaded" by (rule only)
    show ?case unfolding r using m by (simp add: renewed_def moves_def)
  qed
qed

text \<open>
  What the projector and the worker need of a writer: it leaves the projections alone.  A write
  followed by its bookkeeping then keeps the invariant.
\<close>

locale projection_writer =
  fixes write_row :: "BusinessProjection \<Rightarrow> bindings \<Rightarrow> error + bindings"
  assumes same_projections: "write_row p bs = Inr bs' \<Longrightarrow> bs_projections bs' = bs_projections bs"
    and same_ids: "write_row p bs = Inr bs' \<Longrightarrow> bs_next_id bs' = bs_next_id bs"
begin

lemma written_ok:
  assumes "write_row p bs = Inr bs1" and "bindings_ok ids bs" and "synced p bs"
  shows "bindings_ok ids (markProjectionApplied host p bs1)" and "advances db bs (markProjectionApplied host p bs1)"
proof -
  have b: "bindings_ok ids bs1" "synced p bs1" "advances db bs bs1"
    using assms(2,3) same_projections[OF assms(1)] same_ids[OF assms(1)]
    by (auto simp: synced_def bindings_ok_def intro: advances_same)
  show "bindings_ok ids (markProjectionApplied host p bs1)" by (rule markProjectionApplied_ok(1)[OF b(1,2)])
  show "advances db bs (markProjectionApplied host p bs1)"
    by (rule advances_trans[OF b(3) markProjectionApplied_ok(2)[OF b(1,2)]])
qed

end

interpretation table_writer: projection_writer "Write host" for host
  by unfold_locales (auto dest: Write_projections)

lemma applySynchronously_ok:
  assumes "applySynchronouslyIfConfigured host p bs = Inr bs'" and "bindings_ok ids bs" and "synced p bs"
  shows "bindings_ok ids bs'" and "advances db bs bs'"
proof -
  have "bindings_ok ids bs' \<and> advances db bs bs'"
  proof (cases "bp_Consistency p")
    case ApprovalBindingSynchronous
    then obtain bs1 where w: "Write host p bs = Inr bs1" and bs': "bs' = markProjectionApplied host p bs1"
      using assms(1) by (auto simp: applySynchronouslyIfConfigured_def)
    show ?thesis using table_writer.written_ok[OF w assms(2,3)] unfolding bs' by blast
  qed (use assms in \<open>auto simp: applySynchronouslyIfConfigured_def intro: advances_same\<close>)
  then show "bindings_ok ids bs'" "advances db bs bs'" by blast+
qed

section \<open>The operations\<close>

lemma setDesiredState_Inr:
  assumes "setDesiredState host inst p = Inr q"
  obtains t fin where "q = p\<lparr>bp_DesiredStatus := i_Status inst, bp_DesiredStartedAt := t, bp_DesiredFinishedAt := fin\<rparr>"
    "InstanceStatus_IsFinal (i_Status inst) \<Longrightarrow> fin \<noteq> None"
  using assms unfolding setDesiredState_def Let_def
  by (cases "InstanceStatus_IsFinal (i_Status inst)") auto

lemma insertProjection_ok:
  assumes ok: "bindings_ok (bh_new_id host) bs" and inj: "inj (bh_new_id host)" and p: "projection_ok p"
  shows "bindings_ok (bh_new_id host) (insertProjection host p bs)" and "advances db bs (insertProjection host p bs)"
proof -
  let ?id = "bh_new_id host (bs_next_id bs)"
  let ?new = "p\<lparr>bp_ID := ?id, bp_CreatedAt := bh_now host\<rparr>"
  have ids: "bp_ID ` set (bs_projections bs) \<subseteq> bh_new_id host ` {..<bs_next_id bs}"
    using ok by (simp add: bindings_ok_def)
  then have fresh: "?id \<notin> bp_ID ` set (bs_projections bs)"
    using inj by (auto dest!: subsetD dest: injD)
  have new: "projection_ok ?new" using p by (simp add: projection_ok_def)
  show "bindings_ok (bh_new_id host) (insertProjection host p bs)"
  proof (cases "list_ex (\<lambda>r. bp_TargetHash r = bp_TargetHash p) (bs_projections bs)")
    case False
    then have h: "bp_TargetHash p \<notin> bp_TargetHash ` set (bs_projections bs)" by (auto simp: list_ex_iff)
    show ?thesis
      using ok False fresh h new ids by (simp add: bindings_ok_def insertProjection_def lessThan_Suc subset_insertI2)
  qed (use ok in \<open>simp add: insertProjection_def\<close>)
  have "set (bs_projections bs) \<subseteq> set (bs_projections (insertProjection host p bs))"
    by (auto simp: insertProjection_def)
  then show "advances db bs (insertProjection host p bs)"
    unfolding advances_def using moves_refl by blast
qed

lemma resetPendingState_sel [simp]:
  "bp_ID (resetPendingState host p) = bp_ID p"
  "bp_Status (resetPendingState host p) = BindingProjectionPending"
  "bp_DesiredRevision (resetPendingState host p) = bp_DesiredRevision p"
  "bp_DesiredStatus (resetPendingState host p) = bp_DesiredStatus p"
  "bp_DesiredFinishedAt (resetPendingState host p) = bp_DesiredFinishedAt p"
  "bp_OwnerInstanceID (resetPendingState host p) = bp_OwnerInstanceID p"
  "bp_TargetHash (resetPendingState host p) = bp_TargetHash p"
  "bp_AppliedRevision (resetPendingState host p) = bp_AppliedRevision p"
  "bp_Binding (resetPendingState host p) = bp_Binding p"
  by (simp_all add: resetPendingState_def)

lemma persist_apply_ok:
  assumes a: "applySynchronouslyIfConfigured host (resetPendingState host m) (persistDesiredState (resetPendingState host m) bs) = Inr bs'"
    and "bindings_ok ids bs" "loaded \<in> set (bs_projections bs)" "renewed db loaded m"
  shows "bindings_ok ids bs'" and "advances db bs bs'"
proof -
  have "renewed db loaded (resetPendingState host m)"
    using assms(4) by (simp add: renewed_def moves_def)
  note p = persistDesiredState_ok[OF assms(2,3) this resetPendingState_sel(2)]
  note a = applySynchronously_ok[OF a p(1,2)]
  show "bindings_ok ids bs'" by (rule a(1))
  show "advances db bs bs'" by (rule advances_trans[OF p(3) a(2)])
qed

lemma ensureOwnerCanBeSuperseded_Inr: "ensureOwnerCanBeSuperseded owner db = Inr u \<Longrightarrow> superseded owner db"
  by (auto simp: ensureOwnerCanBeSuperseded_def superseded_def split: if_splits option.splits)

lemma claimProjection_Inr:
  assumes c: "claimProjection host db1 config key inst loaded = Inr m" and ok: "projection_ok loaded"
    and before: "\<And>owner. owner \<noteq> i_ID inst \<Longrightarrow> superseded owner db1 \<Longrightarrow> superseded owner db"
  shows "renewed db loaded m" and "bp_OwnerInstanceID m = i_ID inst"
proof -
  have "renewed db loaded m \<and> bp_OwnerInstanceID m = i_ID inst"
  proof (cases "bp_OwnerInstanceID loaded = i_ID inst")
    case True
    have "bp_DesiredRevision loaded \<noteq> 0" using ok by (simp add: projection_ok_def)
    with c True have "m = loaded" by (simp add: claimProjection_def)
    then show ?thesis using True ok by (simp add: projection_ok_def renewed_def)
  next
    case False
    then have sup: "superseded (bp_OwnerInstanceID loaded) db"
      and d: "setDesiredState host inst (loaded\<lparr>bp_TenantID := i_TenantID inst, bp_FlowID := i_FlowID inst,
            bp_FlowVersionID := i_FlowVersionID inst, bp_OwnerInstanceID := i_ID inst,
            bp_Consistency := EffectiveConsistency (bh_config host), bp_Binding := Some config, bp_RecordKey := key,
            bp_DesiredRevision := bp_DesiredRevision loaded + 1\<rparr>) = Inr m"
      using c before[OF False ensureOwnerCanBeSuperseded_Inr] by (auto simp: claimProjection_def)
    show ?thesis by (rule setDesiredState_Inr[OF d]) (simp add: sup moves_def renewed_def)
  qed
  then show "renewed db loaded m" "bp_OwnerInstanceID m = i_ID inst" by blast+
qed

lemma Project_ok:
  assumes "Project host inst bs = Inr bs'" and ok: "bindings_ok ids bs"
  shows "bindings_ok ids bs'" and "advances db bs bs'"
proof -
  have "bindings_ok ids bs' \<and> advances db bs bs'"
  proof (cases "bs' = bs")
    case False
    then obtain pid projection desired where f: "findProjection pid bs = Some projection"
      and d: "setDesiredState host inst (projection\<lparr>bp_DesiredRevision := bp_DesiredRevision projection + 1\<rparr>) = Inr desired"
      and a: "applySynchronouslyIfConfigured host (resetPendingState host desired)
                (persistDesiredState (resetPendingState host desired) bs) = Inr bs'"
      using assms(1) by (auto simp: Project_def Let_def split: option.splits if_splits)
    have row: "projection \<in> set (bs_projections bs)" using f by (auto simp: findProjection_def dest: find_Some_mem)
    then have "projection_ok projection" using ok by (simp add: bindings_ok_def)
    then have "renewed db projection desired"
      by (rule_tac setDesiredState_Inr[OF d]) (simp add: projection_ok_def renewed_def moves_def)
    then show ?thesis using persist_apply_ok[OF a ok row] by blast
  qed (use ok in \<open>simp add: advances_same\<close>)
  then show "bindings_ok ids bs'" "advances db bs bs'" by blast+
qed

lemma Bind_ok:
  assumes run: "Bind host db1 flow version inst bs = Inr (link, bs')" and ok: "bindings_ok (bh_new_id host) bs"
    and inj: "inj (bh_new_id host)"
    and before: "\<And>owner. owner \<noteq> i_ID inst \<Longrightarrow> superseded owner db1 \<Longrightarrow> superseded owner db"
  shows "bindings_ok (bh_new_id host) bs'" and "advances db bs bs'"
proof -
  have "bindings_ok (bh_new_id host) bs' \<and> advances db bs bs'"
  proof (cases "fv_BusinessBinding version")
    case (Some b)
    obtain config key projection loaded claimed where
      p: "setDesiredState host inst (newProjection host config key inst) = Inr projection"
      and l: "find (\<lambda>r. bp_TargetHash r = bp_TargetHash projection)
                (bs_projections (insertProjection host projection bs)) = Some loaded"
      and c: "claimProjection host db1 config key inst loaded = Inr claimed"
      and a: "applySynchronouslyIfConfigured host (resetPendingState host claimed)
                (persistDesiredState (resetPendingState host claimed) (insertProjection host projection bs)) = Inr bs'"
      using run unfolding Bind_def Some Let_def by auto
    have "projection_ok projection"
      by (rule setDesiredState_Inr[OF p]) (auto simp: projection_ok_def newProjection_def)
    note i = insertProjection_ok[OF ok inj this]
    have row: "loaded \<in> set (bs_projections (insertProjection host projection bs))" using l by (auto dest: find_Some_mem)
    then have "projection_ok loaded" using i(1) by (simp add: bindings_ok_def)
    note m = claimProjection_Inr(1)[OF c this before]
    show ?thesis using persist_apply_ok[OF a i(1) row m] advances_trans[OF i(2)] by blast
  qed (use run ok in \<open>simp add: Bind_def advances_same\<close>)
  then show "bindings_ok (bh_new_id host) bs'" "advances db bs bs'" by blast+
qed

lemma claimBatch_ok:
  assumes run: "claimBatch host locked bs = (claimed, bs')" and ok: "bindings_ok ids bs"
  shows "bindings_ok ids bs'" and "advances db bs bs'"
proof -
  have "bindings_ok ids bs' \<and> advances db bs bs'"
  proof (cases "bs' = bs")
    case True
    then show ?thesis using ok by (simp add: advances_same)
  next
    case False
    then obtain C t where bs': "bs' = bs\<lparr>bs_projections := updateWhere (\<lambda>p. bp_ID p \<in> C)
        (\<lambda>p. p\<lparr>bp_Status := BindingProjectionProcessing, bp_LeaseUntil := Some t\<rparr>) (bs_projections bs)\<rparr>"
      using run unfolding claimBatch_def Let_def by (auto split: if_splits)
    have "map bp_ID (bs_projections bs') = map bp_ID (bs_projections bs)"
      "map bp_TargetHash (bs_projections bs') = map bp_TargetHash (bs_projections bs)"
      "bs_next_id bs' = bs_next_id bs" unfolding bs' by (auto intro!: map_updateWhere_key)
    moreover have "\<forall>p \<in> set (bs_projections bs'). projection_ok p"
    proof
      fix p assume "p \<in> set (bs_projections bs')"
      then obtain r where "r \<in> set (bs_projections bs)" and p: "p = (if bp_ID r \<in> C
          then r\<lparr>bp_Status := BindingProjectionProcessing, bp_LeaseUntil := Some t\<rparr> else r)"
        unfolding bs' by (auto simp: updateWhere_in_iff)
      with bindings_okD[OF ok, of r] show "projection_ok p"
        by (cases "bp_ID r \<in> C") (simp_all add: projection_ok_def)
    qed
    moreover have "advances db bs bs'"
      unfolding bs' advances_def
    proof
      fix p assume "p \<in> set (bs_projections bs)"
      then show "\<exists>p' \<in> set (bs_projections (bs\<lparr>bs_projections := updateWhere (\<lambda>p. bp_ID p \<in> C)
          (\<lambda>p. p\<lparr>bp_Status := BindingProjectionProcessing, bp_LeaseUntil := Some t\<rparr>) (bs_projections bs)\<rparr>)). moves db p p'"
        by (intro bexI[of _ "if bp_ID p \<in> C then p\<lparr>bp_Status := BindingProjectionProcessing, bp_LeaseUntil := Some t\<rparr> else p"])
          (auto simp: updateWhere_in_iff moves_def)
    qed
    ultimately show ?thesis using ok by (simp add: bindings_ok_def)
  qed
  then show "bindings_ok ids bs'" "advances db bs bs'" by blast+
qed

lemma synced_found:
  assumes "bindings_ok ids bs" and "findProjection pid bs = Some p"
  shows "synced p bs"
proof -
  have "p \<in> set (bs_projections bs)" using assms(2) by (auto simp: findProjection_def dest: find_Some_mem)
  then show ?thesis unfolding synced_def using synced_row[OF assms(1)] by blast
qed

lemma applyClaim_ok:
  assumes run: "applyClaim host db claimed bs = (failure, bs')" and ok: "bindings_ok ids bs"
  shows "bindings_ok ids bs'" and "advances db0 bs bs'"
proof -
  have "bindings_ok ids bs' \<and> advances db0 bs bs'"
  proof (cases "bs' = bs")
    case False
    then obtain current where f: "findProjection (bp_ID claimed) bs = Some current"
      and w: "case Write host current bs of Inr bs1 \<Rightarrow> bs' = markProjectionApplied host current bs1
              | Inl e \<Rightarrow> bs' = markProjectionFailed host current e bs"
      using run unfolding applyClaim_def by (auto split: option.splits sum.splits if_splits)
    show ?thesis
    proof (cases "Write host current bs")
      case (Inl e)
      then show ?thesis using w markProjectionFailed_ok[OF ok] by simp
    next
      case (Inr bs1)
      then show ?thesis using w table_writer.written_ok[OF Inr ok synced_found[OF ok f]] by simp
    qed
  qed (use ok in \<open>simp add: advances_same\<close>)
  then show "bindings_ok ids bs'" "advances db0 bs bs'" by blast+
qed

lemma RetryBusinessProjection_ok:
  assumes run: "RetryBusinessProjection_Handle host pid caller bs = Inr bs'" and ok: "bindings_ok ids bs"
  shows "bindings_ok ids bs'" and "advances db bs bs'"
proof -
  obtain p where f: "findProjection pid bs = Some p" and r: "Retry host p bs = Inr bs'"
    using run unfolding RetryBusinessProjection_Handle_def by auto
  define q where "q = p\<lparr>bp_Status := BindingProjectionProcessing, bp_NextAttemptAt := None, bp_LeaseUntil := None\<rparr>"
  have s: "synced q bs" using synced_found[OF ok f] by (simp add: q_def synced_def)
  have w: "case Write host q bs of Inr bs1 \<Rightarrow> bs' = markProjectionApplied host q bs1
            | Inl e \<Rightarrow> bs' = markProjectionFailed host q e bs"
    using r unfolding Retry_def Let_def q_def[symmetric] by (auto split: sum.splits)
  have "bindings_ok ids bs' \<and> advances db bs bs'"
  proof (cases "Write host q bs")
    case (Inl e)
    then show ?thesis using w markProjectionFailed_ok[OF ok] by simp
  next
    case (Inr bs1)
    then show ?thesis using w table_writer.written_ok[OF Inr ok s] by simp
  qed
  then show "bindings_ok ids bs'" "advances db bs bs'" by blast+
qed

section \<open>The binding as a transition system\<close>

text \<open>
  The steps of the binding beside those of the engine.  A claim runs in the transaction that has
  just inserted the claiming instance; a projection in the transaction of a transition; the worker
  leases a batch and handles each lease in a transaction of its own, so other steps may come
  between the lease and its use; the host application may rewrite its tables at any time.
\<close>

inductive bstep :: "(nat \<Rightarrow> string) \<Rightarrow> (nat \<Rightarrow> string) \<Rightarrow> db \<times> bindings \<Rightarrow> db \<times> bindings \<Rightarrow> bool" for ids pids where
  engine: "step ids db db' \<Longrightarrow> bstep ids pids (db, bs) (db', bs)"
| bind: "bh_new_id host = pids \<Longrightarrow> db_instances db1 = db_instances db @ [row] \<Longrightarrow> i_ID row = i_ID inst \<Longrightarrow>
     Bind host db1 flow version inst bs = Inr (link, bs') \<Longrightarrow> bstep ids pids (db, bs) (db, bs')"
| project: "bh_new_id host = pids \<Longrightarrow> Project host inst bs = Inr bs' \<Longrightarrow> bstep ids pids (db, bs) (db, bs')"
| lease: "bh_new_id host = pids \<Longrightarrow> claimBatch host locked bs = (claimed, bs') \<Longrightarrow> bstep ids pids (db, bs) (db, bs')"
| apply_lease: "bh_new_id host = pids \<Longrightarrow> applyClaim host db claimed bs = (failure, bs') \<Longrightarrow>
     bstep ids pids (db, bs) (db, bs')"
| retry: "bh_new_id host = pids \<Longrightarrow> RetryBusinessProjection_Handle host pid caller bs = Inr bs' \<Longrightarrow>
     bstep ids pids (db, bs) (db, bs')"
| business: "bstep ids pids (db, bs) (db, bs\<lparr>bs_tables := T\<rparr>)"

definition breachable :: "(nat \<Rightarrow> string) \<Rightarrow> (nat \<Rightarrow> string) \<Rightarrow> db \<Rightarrow> bindings \<Rightarrow> bool" where
  "breachable ids pids db bs \<longleftrightarrow> (\<exists>db0 bs0. fresh_store ids db0 \<and> bs_projections bs0 = []
     \<and> (bstep ids pids)\<^sup>*\<^sup>* (db0, bs0) (db, bs))"

text \<open>An owner that was superseded when the claiming instance was already stored was so before.\<close>

lemma find_append_miss: "\<not> P row \<Longrightarrow> find P (rows @ [row]) = find P rows"
  by (induction rows) auto

lemma superseded_before_insert:
  assumes "db_instances db1 = db_instances db @ [row]" and "owner \<noteq> i_ID row" and "superseded owner db1"
  shows "superseded owner db"
proof -
  have "findInstance owner db1 = findInstance owner db"
    using assms(1,2) by (simp add: findInstance_def find_append_miss)
  then show ?thesis using assms(3) by (simp add: superseded_def)
qed

lemma bstep_ok:
  assumes "bstep ids pids (db, bs) (db', bs')" and "bindings_ok pids bs" and "inj pids"
  shows "bindings_ok pids bs' \<and> advances db bs bs'"
  using assms(1)
proof (cases rule: bstep.cases)
  case (bind host db1 row inst flow version link)
  then show ?thesis
    using Bind_ok[OF bind(5) _ _ superseded_before_insert[OF bind(3)]] assms(2,3) by auto
next
  case (project host inst)
  then show ?thesis using Project_ok[OF _ assms(2)] by simp
next
  case (lease host locked claimed)
  then show ?thesis using claimBatch_ok[OF _ assms(2)] by simp
next
  case (apply_lease host claimed failure)
  then show ?thesis using applyClaim_ok[OF _ assms(2)] by simp
next
  case (retry host pid caller)
  then show ?thesis using RetryBusinessProjection_ok[OF _ assms(2)] by simp
qed (use assms(2) in \<open>simp_all add: tables_ok advances_same\<close>)

text \<open>What a run keeps of the projections, whatever happened to the store meanwhile.\<close>

definition grows :: "bindings \<Rightarrow> bindings \<Rightarrow> bool" where
  "grows bs bs' \<longleftrightarrow> (\<forall>p \<in> set (bs_projections bs). \<exists>p' \<in> set (bs_projections bs').
     bp_ID p' = bp_ID p \<and> bp_TargetHash p' = bp_TargetHash p
     \<and> bp_DesiredRevision p \<le> bp_DesiredRevision p' \<and> bp_AppliedRevision p \<le> bp_AppliedRevision p')"

lemma advances_grows: "advances db bs bs' \<Longrightarrow> grows bs bs'"
  unfolding advances_def grows_def moves_def by blast

lemma grows_trans: "grows a b \<Longrightarrow> grows b c \<Longrightarrow> grows a c"
  unfolding grows_def by (metis order_trans)

lemma bstep_reachable:
  assumes "bstep ids pids s t" and "reachable ids (fst s)"
  shows "reachable ids (fst t)"
  using assms by (cases rule: bstep.cases) (auto simp: reachable_def intro: rtranclp.rtrancl_into_rtrancl)

interpretation projections: evolving "bstep ids pids"
  "\<lambda>s. inj pids \<and> bindings_ok pids (snd s) \<and> reachable ids (fst s)" "\<lambda>s t. grows (snd s) (snd t)" for ids pids
proof
  have step: "bindings_ok pids (snd t) \<and> grows (snd s) (snd t)"
    if "inj pids \<and> bindings_ok pids (snd s) \<and> reachable ids (fst s)" "bstep ids pids s t" for s t
    using bstep_ok[of ids pids "fst s" "snd s" "fst t" "snd t"] that advances_grows by simp blast
  then show "inj pids \<and> bindings_ok pids (snd t) \<and> reachable ids (fst t)"
    "grows (snd s) (snd t)"
    if "inj pids \<and> bindings_ok pids (snd s) \<and> reachable ids (fst s)" "bstep ids pids s t" for s t
    using that bstep_reachable by blast+
  show "grows (snd s) (snd s)" for s unfolding grows_def by blast
qed (rule grows_trans)

lemma breachable_ok:
  assumes "breachable ids pids db bs" and "inj pids"
  shows "bindings_ok pids bs" and "reachable ids db"
proof -
  obtain db0 bs0 where f: "fresh_store ids db0" "bs_projections bs0 = []" and r: "(bstep ids pids)\<^sup>*\<^sup>* (db0, bs0) (db, bs)"
    using assms(1) by (auto simp: breachable_def)
  have "reachable ids db0" using f(1) by (auto simp: reachable_def)
  then show "bindings_ok pids bs" "reachable ids db"
    using projections.run[OF r] assms(2) f(2) by (simp_all add: bindings_ok_def)
qed

section \<open>The writer\<close>

lemma setColumns_idem: "distinct (map fst cols) \<Longrightarrow> setColumns cols (setColumns cols row) = setColumns cols row"
  by (rule ext) (simp add: setColumns_eq split: option.splits)

lemma Write_eq:
  assumes "projectionTarget host p = Inr (config, key)" and "bb_InstanceIDColumn config = Some idcol"
    and "projectedStatus config (bp_DesiredStatus p) = Inr status" and "projectionColumns config idcol status p = Inr cols"
    and rows: "bs_tables bs (bb_TableName config) = pre @ row # post" and row: "recordKeyCondition key row" "fence idcol p row"
    and others: "\<forall>r \<in> set pre \<union> set post. \<not> recordKeyCondition key r"
  shows "Write host p bs = Inr (bs\<lparr>bs_tables := (bs_tables bs)(bb_TableName config := pre @ setColumns cols row # post)\<rparr>)"
proof -
  let ?P = "recordKeyCondition key" and ?Q = "\<lambda>r. recordKeyCondition key r \<and> fence idcol p r"
  have none: "filter ?P pre = []" "filter ?P post = []" "filter ?Q pre = []" "filter ?Q post = []"
    using others by (auto simp: filter_empty_conv)
  have "affected ?P (pre @ row # post) = 1" "affected ?Q (pre @ row # post) = 1"
    using row none by (simp_all add: affected_def)
  moreover have "updateWhere ?Q (setColumns cols) (pre @ row # post) = pre @ setColumns cols row # post"
    using row others by (simp add: updateWhere_none)
  moreover have "(if bp_AppliedRevision p > 0 then
                 bindE (ofOption ProjectionError (bp_AppliedOwnerInstanceID p)) (\<lambda>o'.
                   ensure (list_ex (\<lambda>r. recordKeyCondition key r \<and> ownedBy idcol o' r) (pre @ row # post))
                     (ErrBinding BindingOwnershipConflict))
               else Inr ()) = Inr ()"
    using row by (auto simp: fence_def split: option.splits)
  ultimately show ?thesis
    unfolding Write_def assms(1) bindE_simps prod.case Let_def rows assms(2) ofOption_simps assms(3,4) by simp
qed

text \<open>One row for the key that passes the fence is all a write needs.\<close>

lemma Write_succeeds:
  assumes t: "projectionTarget host p = Inr (config, key)" and i: "bb_InstanceIDColumn config = Some idcol"
    and ok: "projection_ok p" and one: "filter (recordKeyCondition key) (bs_tables bs (bb_TableName config)) = [row]"
    and f: "fence idcol p row"
  shows "\<exists>bs'. Write host p bs = Inr bs'"
proof -
  obtain b where "NormalizeConfig BindingBusiness (Some b) = Inr (Some config)" by (rule projectionTarget_Inr[OF t])
  then obtain status where s: "projectedStatus config (bp_DesiredStatus p) = Inr status"
    using projectedStatus_total by blast
  have "InstanceStatus_IsFinal (bp_DesiredStatus p) \<Longrightarrow> bp_DesiredFinishedAt p \<noteq> None"
    using ok by (simp add: projection_ok_def)
  then obtain cols where c: "projectionColumns config idcol status p = Inr cols"
    using projectionColumns_total by blast
  obtain pre post where split: "bs_tables bs (bb_TableName config) = pre @ row # post" "recordKeyCondition key row"
    "\<forall>r \<in> set pre. \<not> recordKeyCondition key r" "[] = filter (recordKeyCondition key) post"
    using one unfolding filter_eq_Cons_iff by blast
  have "\<forall>r \<in> set pre \<union> set post. \<not> recordKeyCondition key r"
    using split(3) split(4)[symmetric] by (auto simp: filter_empty_conv)
  then show ?thesis using Write_eq[OF t i s c split(1,2) f] by blast
qed

lemma appliedModel_sel:
  "bp_Binding (appliedModel host p) = bp_Binding p" "bp_RecordKey (appliedModel host p) = bp_RecordKey p"
  "bp_DesiredStatus (appliedModel host p) = bp_DesiredStatus p" "bp_OwnerInstanceID (appliedModel host p) = bp_OwnerInstanceID p"
  "bp_DesiredStartedAt (appliedModel host p) = bp_DesiredStartedAt p"
  "bp_DesiredFinishedAt (appliedModel host p) = bp_DesiredFinishedAt p"
  by (simp_all add: appliedModel_def)

lemma rewrite_applied:
  assumes t: "projectionTarget host p = Inr (config, key)" and i: "bb_InstanceIDColumn config = Some idcol"
    and s: "projectedStatus config (bp_DesiredStatus p) = Inr status" and c: "projectionColumns config idcol status p = Inr cols"
    and bs': "bs' = bs\<lparr>bs_tables := (bs_tables bs)(bb_TableName config := pre @ setColumns cols row # post)\<rparr>"
    and k: "recordKeyCondition key (setColumns cols row)" and others: "\<forall>r \<in> set pre \<union> set post. \<not> recordKeyCondition key r"
  shows "Write host (appliedModel host p) bs' = Inr bs'"
proof -
  let ?q = "appliedModel host p"
  obtain b where n: "NormalizeConfig BindingBusiness (Some b) = Inr (Some config)" by (rule projectionTarget_Inr[OF t])
  have d: "distinct (map fst cols)" using normalized_columns(1)[OF n] projectionColumns_Inr(1)[OF c i] by simp
  have q: "projectionTarget host ?q = Inr (config, key)" "projectedStatus config (bp_DesiredStatus ?q) = Inr status"
    "projectionColumns config idcol status ?q = Inr cols"
    using t s c unfolding projectionTarget_def projectionColumns_def appliedModel_sel by simp_all
  have "fence idcol ?q (setColumns cols row)"
    using written_row(3)[OF t i s c] by (simp add: fence_def appliedModel_def)
  from Write_eq[OF q(1) i q(2,3) _ k this others, of bs'] show ?thesis
    unfolding bs' by (simp add: setColumns_idem[OF d])
qed

end
