(* ===== verification/Binding_Properties.thy ===== *)
theory Binding_Properties
  imports Binding_Invariants Example_Run
begin

text \<open>
  The properties of the business binding: what a write does to the business table, and what stays
  true of the projections however the steps of the engine, the worker and the host interleave.
\<close>

section \<open>An example\<close>

text \<open>Orders with a two-column key, eventual consistency and one claimed order.\<close>

definition orderBinding :: BusinessBindingConfig where
  "orderBinding = \<lparr>bb_TableName = ''orders'', bb_KeyColumns = [''id'', ''shop''], bb_StatusColumn = ''state'',
     bb_InstanceIDColumn = Some ''instance_id'', bb_StartedAtColumn = None, bb_FinishedAtColumn = Some ''closed_at'',
     bb_StatusMapping = [(Inr InstanceApproved, ''ok'')]\<rparr>"

definition orderKey :: "storedRecordKeyPart list" where
  "orderKey = [\<lparr>kp_Column = ''id'', kp_Kind = ''int64'', kp_Value = ''7''\<rparr>,
     \<lparr>kp_Column = ''shop'', kp_Kind = ''string'', kp_Value = ''a''\<rparr>]"

definition orderHost :: bindingHost where
  "orderHost = \<lparr>bh_now = 100, bh_new_id = (\<lambda>n. replicate n CHR ''p''), 
     bh_resolve = ResolveRecordKey (\<lambda>s. Some [(''id'', KValue (DInt 7)), (''shop'', KValue (DString ''a''))]),
     bh_hash = (\<lambda>name key. name @ concat (map kp_Value key)),
     bh_codecs = \<lparr>kc_formatFloat = (\<lambda>x. []), kc_parseFloat = (\<lambda>s. None), kc_encodeBytes = id, kc_decodeBytes = Some,
       kc_marshalTime = FormatInt, kc_unmarshalTime = ParseInt\<rparr>,
     bh_config = \<lparr>cfg_Consistency = ApprovalBindingEventual, cfg_ScanInterval = 0, cfg_BatchSize = 0\<rparr>,
     bh_error_text = (\<lambda>e. []), bh_created = (\<lambda>i. Some 40)\<rparr>"

definition orderProjection :: BusinessProjection where
  "orderProjection = \<lparr>bp_ID = ''p'', bp_CreatedAt = 50, bp_TenantID = ''tenant'', bp_FlowID = ''flow'', bp_FlowVersionID = ''v'',
      bp_OwnerInstanceID = ''i'', bp_AppliedOwnerInstanceID = Some ''i'', bp_TargetHash = ''orders7a'',
      bp_Consistency = ApprovalBindingEventual, bp_Binding = Some orderBinding, bp_RecordKey = orderKey,
      bp_DesiredStatus = InstanceApproved, bp_DesiredStartedAt = 40, bp_DesiredFinishedAt = Some 90, bp_DesiredRevision = 2,
      bp_AppliedRevision = 1, bp_Status = BindingProjectionPending, bp_AttemptCount = 0, bp_NextAttemptAt = Some 90,
      bp_LeaseUntil = None, bp_LastError = None, bp_AppliedAt = Some 50\<rparr>"

definition orderRow :: "int \<Rightarrow> businessRow" where
  "orderRow n = [''id'' \<mapsto> DInt n, ''shop'' \<mapsto> DString ''a'', ''state'' \<mapsto> DString ''running'', ''instance_id'' \<mapsto> DString ''i'']"

definition orders :: bindings where
  "orders = \<lparr>bs_projections = [orderProjection], bs_tables = (\<lambda>name. if name = ''orders'' then [orderRow 6, orderRow 7] else []),
     bs_next_id = 2\<rparr>"

lemma orderBinding_normal: "normalizedBinding orderBinding = Inr orderBinding"
proof -
  have t: "trimSpace ''orders'' = ''orders''" "trimSpace ''id'' = ''id''" "trimSpace ''shop'' = ''shop''"
      "trimSpace ''state'' = ''state''" "trimSpace ''instance_id'' = ''instance_id''" "trimSpace ''closed_at'' = ''closed_at''"
      "trimSpace ''ok'' = ''ok''"
    by (rule trimSpace_ident, code_simp)+
  have s: "sort [''id'', ''shop''] = [''id'', ''shop'']" by code_simp
  show ?thesis
    by (simp add: normalizedBinding_def NormalizeConfig_def orderBinding_def Let_def t s normalizeOptionalColumn_def
        bindingWriteColumns_def ValidateBusinessIdentifier_def identStart_def identChar_def inRange_def map_filter_simps
        isProjectableStatus_def)
qed

lemma order_target: "projectionTarget orderHost orderProjection =
    Inr (orderBinding, [(''id'', DInt 7), (''shop'', DString ''a'')])"
proof -
  have "decodeRecordKey (bh_codecs orderHost) orderKey = Inr [(''id'', DInt 7), (''shop'', DString ''a'')]" by code_simp
  moreover have "validateRecordKey orderBinding [(''id'', KValue (DInt 7)), (''shop'', KValue (DString ''a''))]
      = Inr [(''id'', DInt 7), (''shop'', DString ''a'')]" by code_simp
  ultimately show ?thesis by (simp add: projectionTarget_def orderProjection_def orderBinding_normal)
qed

text \<open>The claim: an instance with a business reference is stored and bound.\<close>

definition orderInstance :: Instance where
  "orderInstance = \<lparr>i_ID = ''i'', i_TenantID = ''tenant'', i_FlowID = ''flow'', i_FlowCode = ''leave'', i_FlowVersionID = ''v'',
     i_Title = [], i_InstanceNo = [], i_Applicant = zeroUserInfo, i_Status = InstanceRunning, i_CurrentNodeID = None,
     i_FinishedAt = None, i_BusinessRef = Some ''7a'', i_FormData = None, i_Globals = None, i_BusinessProjectionID = None\<rparr>"

definition unboundOrders :: bindings where
  "unboundOrders = orders\<lparr>bs_projections := [], bs_next_id := 1\<rparr>"

definition boundProjection :: BusinessProjection where
  "boundProjection = orderProjection\<lparr>bp_CreatedAt := 100, bp_AppliedOwnerInstanceID := None, bp_DesiredStatus := InstanceRunning,
     bp_DesiredFinishedAt := None, bp_DesiredRevision := 1, bp_AppliedRevision := 0, bp_NextAttemptAt := Some 100, bp_AppliedAt := None\<rparr>"

definition boundOrders :: bindings where
  "boundOrders = orders\<lparr>bs_projections := [boundProjection]\<rparr>"

lemma order_bound:
  "Bind orderHost (exampleStore\<lparr>db_instances := [orderInstance]\<rparr>) exampleFlow (exampleVersion\<lparr>fv_BusinessBinding := Some orderBinding\<rparr>)
     orderInstance unboundOrders = Inr (Some ''p'', boundOrders)"
proof -
  have k: "encodeRecordKey (bh_codecs orderHost) orderBinding [(''id'', KValue (DInt 7)), (''shop'', KValue (DString ''a''))] = Inr orderKey"
    by code_simp
  have r: "trimSpace ''7a'' = ''7a''" by (rule trimSpace_ident, code_simp)
  have s: "setDesiredState orderHost orderInstance (newProjection orderHost orderBinding orderKey orderInstance) =
      Inr (boundProjection\<lparr>bp_ID := [], bp_CreatedAt := 0, bp_NextAttemptAt := None\<rparr>)"
    by (simp add: setDesiredState_def Let_def InstanceStatus_IsFinal_def newProjection_def orderHost_def orderInstance_def orderKey_def boundProjection_def
        orderProjection_def orderBinding_def EffectiveConsistency_def)
  have i: "insertProjection orderHost (boundProjection\<lparr>bp_ID := [], bp_CreatedAt := 0, bp_NextAttemptAt := None\<rparr>) unboundOrders =
      orders\<lparr>bs_projections := [boundProjection\<lparr>bp_NextAttemptAt := None\<rparr>]\<rparr>"
    by (simp add: insertProjection_def unboundOrders_def orderHost_def boundProjection_def orderProjection_def orders_def)
  have c: "claimProjection orderHost db orderBinding orderKey orderInstance (boundProjection\<lparr>bp_NextAttemptAt := None\<rparr>) =
      Inr (boundProjection\<lparr>bp_NextAttemptAt := None\<rparr>)" for db
    by (simp add: claimProjection_def orderInstance_def boundProjection_def orderProjection_def)
  have p: "resetPendingState orderHost (boundProjection\<lparr>bp_NextAttemptAt := None\<rparr>) = boundProjection"
    by (simp add: resetPendingState_def orderHost_def boundProjection_def orderProjection_def)
  have a: "applySynchronouslyIfConfigured orderHost boundProjection (persistDesiredState boundProjection
      (orders\<lparr>bs_projections := [boundProjection\<lparr>bp_NextAttemptAt := None\<rparr>]\<rparr>)) = Inr boundOrders"
    by (simp add: applySynchronouslyIfConfigured_def persistDesiredState_def updateProjection_def updateWhere_def
        boundOrders_def boundProjection_def orderProjection_def)
  have l: "bp_TargetHash (boundProjection\<lparr>bp_ID := [], bp_CreatedAt := 0, bp_NextAttemptAt := None\<rparr>) = bp_TargetHash boundProjection"
    "bp_Binding (boundProjection\<lparr>bp_NextAttemptAt := None\<rparr>) = Some orderBinding"
    "bp_RecordKey (boundProjection\<lparr>bp_NextAttemptAt := None\<rparr>) = orderKey" "bp_ID boundProjection = ''p''"
    by (simp_all add: boundProjection_def orderProjection_def)
  have h: "bh_resolve orderHost (f\<lparr>fl_BindingMode := m, fl_BusinessBinding := Some orderBinding\<rparr>) orderInstance =
      Inr [(''id'', KValue (DInt 7)), (''shop'', KValue (DString ''a''))]"
    "i_BusinessRef orderInstance = Some ''7a''" for f m
    by (simp_all add: orderHost_def orderInstance_def ResolveRecordKey_def orderBinding_def)
  show ?thesis
    unfolding Bind_def by (simp add: orderBinding_normal h r k s i c p a l recordKeysEqual_def Let_def)
qed

section \<open>The writer\<close>

text \<open>
  C11: a projection is written exactly when its key finds one row and this row passes the fence
  (it still carries the owner that was applied last).  The write changes this row only: it then
  shows the desired status, owner and times, its key and all other columns are what they were;
  writing the applied projection once more changes nothing.
\<close>

theorem business_write:
  assumes target: "projectionTarget host p = Inr (config, key)" and "bb_InstanceIDColumn config = Some idcol"
    and ok: "projection_ok p"
  shows "case Write host p bs of
      Inl e \<Rightarrow> \<not> (\<exists>row. filter (recordKeyCondition key) (bs_tables bs (bb_TableName config)) = [row] \<and> fence idcol p row)
    | Inr bs' \<Rightarrow> \<exists>pre row row' post. bs_tables bs (bb_TableName config) = pre @ row # post
        \<and> filter (recordKeyCondition key) (pre @ row # post) = [row] \<and> fence idcol p row
        \<and> bs' = bs\<lparr>bs_tables := (bs_tables bs)(bb_TableName config := pre @ row' # post)\<rparr>
        \<and> showsProjection config p row row' \<and> recordKeyCondition key row'
        \<and> Write host (appliedModel host p) bs' = Inr bs'"
proof (cases "Write host p bs")
  case (Inr bs')
  obtain config2 key2 idcol2 status cols pre row post where
    w: "projectionTarget host p = Inr (config2, key2)" "bb_InstanceIDColumn config2 = Some idcol2"
    "projectedStatus config2 (bp_DesiredStatus p) = Inr status" "projectionColumns config2 idcol2 status p = Inr cols"
    "bs_tables bs (bb_TableName config2) = pre @ row # post" "recordKeyCondition key2 row" "fence idcol2 p row"
    "\<forall>r \<in> set pre \<union> set post. \<not> recordKeyCondition key2 r"
    "bs' = bs\<lparr>bs_tables := (bs_tables bs)(bb_TableName config2 := pre @ setColumns cols row # post)\<rparr>"
    by (rule Write_Inr[OF Inr])
  have same: "config2 = config" "key2 = key" "idcol2 = idcol" using w(1,2) assms(1,2) by auto
  note w = w[unfolded same]
  note row' = written_row[OF w(1-4), of row]
  have key': "recordKeyCondition key (setColumns cols row)" using row'(2) w(6) by simp
  have none: "filter (recordKeyCondition key) pre = []" "filter (recordKeyCondition key) post = []"
    using w(8) by (auto simp: filter_empty_conv)
  have "Write host (appliedModel host p) bs' = Inr bs'"
    using rewrite_applied[OF w(1-4) w(9) key' w(8)] .
  with w row'(1) key' none show ?thesis unfolding Inr sum.case
    by (intro exI[of _ pre] exI[of _ row] exI[of _ "setColumns cols row"] exI[of _ post] conjI) simp_all
next
  case (Inl e)
  have False if f: "filter (recordKeyCondition key) (bs_tables bs (bb_TableName config)) = [row]" "fence idcol p row" for row
    using Write_succeeds[OF assms f] Inl by simp
  then show ?thesis unfolding Inl by auto
qed

theorem business_write_witness:
  "\<exists>row'. Write orderHost orderProjection orders = Inr (orders\<lparr>bs_tables := (bs_tables orders)(''orders'' := [orderRow 6, row'])\<rparr>)
     \<and> row' ''state'' = Some (DString ''ok'')
     \<and> showsProjection orderBinding orderProjection (orderRow 7) row'"
proof -
  let ?key = "[(''id'', DInt 7), (''shop'', DString ''a'')]"
  have t: "bs_tables orders (bb_TableName orderBinding) = [orderRow 6, orderRow 7]"
    by (simp add: orders_def orderBinding_def)
  have f: "filter (recordKeyCondition ?key) [orderRow 6, orderRow 7] = [orderRow 7]"
    by (simp add: recordKeyCondition_def orderRow_def)
  have fence: "fence ''instance_id'' orderProjection (orderRow 7)"
    by (simp add: fence_def orderProjection_def orderRow_def ownedBy_def)
  have "orderRow 6 ''id'' \<noteq> orderRow 7 ''id''" by (simp add: orderRow_def)
  then have ne: "orderRow 6 \<noteq> orderRow 7" by metis
  have "bb_InstanceIDColumn orderBinding = Some ''instance_id''" by (simp add: orderBinding_def)
  moreover have "projection_ok orderProjection" by (simp add: projection_ok_def orderProjection_def)
  ultimately have w: "case Write orderHost orderProjection orders of
      Inl e \<Rightarrow> \<not> (\<exists>row. filter (recordKeyCondition ?key) [orderRow 6, orderRow 7] = [row] \<and> fence ''instance_id'' orderProjection row)
    | Inr bs' \<Rightarrow> \<exists>pre row row' post. [orderRow 6, orderRow 7] = pre @ row # post
        \<and> filter (recordKeyCondition ?key) (pre @ row # post) = [row] \<and> fence ''instance_id'' orderProjection row
        \<and> bs' = orders\<lparr>bs_tables := (bs_tables orders)(bb_TableName orderBinding := pre @ row' # post)\<rparr>
        \<and> showsProjection orderBinding orderProjection row row' \<and> recordKeyCondition ?key row'
        \<and> Write orderHost (appliedModel orderHost orderProjection) bs' = Inr bs'"
    using business_write[OF order_target, of "''instance_id''" orders] unfolding t by blast
  obtain bs' where bs': "Write orderHost orderProjection orders = Inr bs'"
    using w f fence by (cases "Write orderHost orderProjection orders") auto
  obtain pre row row' post where s: "[orderRow 6, orderRow 7] = pre @ row # post"
    "filter (recordKeyCondition ?key) (pre @ row # post) = [row]"
    "bs' = orders\<lparr>bs_tables := (bs_tables orders)(bb_TableName orderBinding := pre @ row' # post)\<rparr>"
    "showsProjection orderBinding orderProjection row row'"
    using w unfolding bs' sum.case by blast
  have row: "row = orderRow 7" using s(1,2) f by simp
  then have "pre = [orderRow 6]" "post = []" using s(1) ne by (auto simp: Cons_eq_append_conv)
  moreover have "row' ''state'' = Some (DString ''ok'')"
    using s(4) by (simp add: showsProjection_def projectedStatus_def orderBinding_def orderProjection_def)
  ultimately show ?thesis using bs' s(3,4) row by (auto simp: orderBinding_def)
qed

section \<open>The projections\<close>

text \<open>
  C10: however the requests of the engine, claims, projections, leases of the worker and their use,
  manual retries and the host's own changes of its tables interleave, there is one projection per
  target, its applied revision never passes the desired one, an applied projection is at the desired
  revision of its owner, and one that was ever applied knows the owner on the row.  No run loses a
  projection or takes a revision back; in a step an owner changes only when the former owner is gone or
  finished, and a new owner or status comes with a new revision.
\<close>

theorem projections_consistent:
  assumes "breachable ids pids db bs" and "inj pids"
  shows "distinct (map bp_TargetHash (bs_projections bs)) \<and> (\<forall>p \<in> set (bs_projections bs). projection_ok p)
     \<and> (\<forall>db' bs'. bstep ids pids (db, bs) (db', bs') \<longrightarrow> advances db bs bs')
     \<and> (\<forall>db' bs'. (bstep ids pids)\<^sup>*\<^sup>* (db, bs) (db', bs') \<longrightarrow> grows bs bs')"
proof -
  have ok: "bindings_ok pids bs" by (rule breachable_ok(1)[OF assms])
  moreover have "advances db bs bs'" if "bstep ids pids (db, bs) (db', bs')" for db' bs'
    using bstep_ok[OF that ok assms(2)] by blast
  moreover have "grows bs bs'" if "(bstep ids pids)\<^sup>*\<^sup>* (db, bs) (db', bs')" for db' bs'
    using projections.run_along[OF that] breachable_ok[OF assms] assms(2) by simp
  ultimately show ?thesis by (simp add: bindings_ok_def)
qed

theorem projections_consistent_witness:
  "distinct (map bp_TargetHash (bs_projections boundOrders)) \<and> bs_projections boundOrders = [boundProjection]
     \<and> projection_ok boundProjection
     \<and> advances exampleStore boundOrders (snd (claimBatch orderHost (\<lambda>pid. False) boundOrders))
     \<and> grows boundOrders (snd (claimBatch orderHost (\<lambda>pid. False) boundOrders))"
proof -
  let ?leased = "snd (claimBatch orderHost (\<lambda>pid. False) boundOrders)"
  have inj: "inj (bh_new_id orderHost)" by (rule injI) (simp add: orderHost_def)
  have "bstep exampleIds (bh_new_id orderHost) (exampleStore, unboundOrders) (exampleStore, boundOrders)"
    by (rule bstep.bind[OF refl _ _ order_bound]) (simp_all add: exampleStore_def emptyDb_def)
  then have reach: "breachable exampleIds (bh_new_id orderHost) exampleStore boundOrders"
    unfolding breachable_def using example_fresh
    by (intro exI[of _ exampleStore] exI[of _ unboundOrders]) (simp add: unboundOrders_def)
  have lease: "bstep exampleIds (bh_new_id orderHost) (exampleStore, boundOrders) (exampleStore, ?leased)"
    by (rule bstep.lease[OF refl surjective_pairing])
  have "bs_projections boundOrders = [boundProjection]" by (simp add: boundOrders_def)
  with projections_consistent[OF reach inj] lease r_into_rtranclp[of "bstep exampleIds (bh_new_id orderHost)", OF lease]
  show ?thesis by auto
qed

end
