(* ===== verification/Spec2Isabelle.thy ===== *)
theory Spec2Isabelle
  imports Flow_Properties Form_Properties Command_Properties Strategy_Properties Binding_Properties
begin

text \<open>
  Verification of the approval workflow engine of the framework (\<^verbatim>\<open>src/approval\<close>,
  \<^verbatim>\<open>src/internal/approval\<close>): the part of the repository that carries its own decision logic.  Paths
  below are relative to \<^verbatim>\<open>src/internal/approval\<close> unless they begin with \<^verbatim>\<open>src\<close>.

  \<^bold>\<open>The program.\<close>  A designer draws a flow (a graph of start, approval, handle, condition, carbon-copy
  and end nodes with a form), which the management commands create, deploy as a version and publish.
  An applicant starts an instance of a published version; the engine walks the graph, opens a visit
  per node, resolves assignees (through roles, departments, form fields, delegations), creates their
  tasks and evaluates the pass rule after each decision.  Approvers approve, reject, transfer, add
  or remove colleagues, roll back; applicants withdraw and resubmit; a scanner handles deadlines.
  Each request is a command handled in one transaction.  Form data may be projected into generated
  tables, and the status of an instance into a row of a business table.

  \<^bold>\<open>The theories.\<close>  They follow the packages, from the data upwards.

  \<^item> \<^verbatim>\<open>Prelude\<close>: errors as sums (\<open>bindE\<close>, \<open>ensure\<close>, \<open>ofOption\<close>, \<open>mapE\<close>, \<open>foldE\<close>, \<open>checkAll\<close>), rows
    changed by an UPDATE (\<open>updateWhere\<close>, \<open>affected\<close>), and their rules.
  \<^item> \<^verbatim>\<open>Shared_Ids\<close>, \<^verbatim>\<open>Rune_Text\<close>, \<^verbatim>\<open>Float64\<close>: ordered unique lists and selection rules (\<^verbatim>\<open>shared\<close>), UTF-8
    texts cut by runes, \<^verbatim>\<open>float64\<close> as rationals rounded to 53 bits.
  \<^item> \<^verbatim>\<open>Approval_Model\<close>, \<^verbatim>\<open>Approval_Store\<close>: enumerations, model structs, events and errors; the tables
    and the environment of a command.
  \<^item> \<^verbatim>\<open>Approval_State_Machine\<close>, \<^verbatim>\<open>Pass_Rule\<close>, \<^verbatim>\<open>Delegation\<close>, \<^verbatim>\<open>Compiled_Flow\<close>, \<^verbatim>\<open>Flow_Engine\<close>: the engine
    (\<^verbatim>\<open>engine\<close>, \<^verbatim>\<open>strategy/pass_rule.go\<close>).  The engine compiles a version at each use; \<^verbatim>\<open>Flow_Cache\<close>
    models the cache of compiled versions and shows that it makes no difference.  The contract of a life cycle is a locale interpreted on both
    state machines, the contract of a pass rule one interpreted on the four strategies.
  \<^item> \<^verbatim>\<open>Builtin_Conditions\<close>, \<^verbatim>\<open>Resolver_Overlay\<close>, \<^verbatim>\<open>Builtin_Principals\<close>: the built-in strategies
    (\<^verbatim>\<open>strategy\<close>): condition evaluators and aggregates, assignee, carbon-copy and initiator
    resolvers, the registration of the host's own and the boot of the module.
  \<^item> \<^verbatim>\<open>Tenancy\<close>, \<^verbatim>\<open>Task_Service\<close>, \<^verbatim>\<open>Node_Service\<close>, \<^verbatim>\<open>Form_Validation\<close>: \<^verbatim>\<open>src/approval/tenancy.go\<close> and
    the services (\<^verbatim>\<open>service\<close>).
  \<^item> \<^verbatim>\<open>Approval_Commands\<close>, \<^verbatim>\<open>Start_Instance\<close>, \<^verbatim>\<open>Timeout_Scanner\<close>: the handlers of \<^verbatim>\<open>command\<close> that act on
    an instance, and \<^verbatim>\<open>timeout/scanner.go\<close>.
  \<^item> \<^verbatim>\<open>Flow_Definition\<close>, \<^verbatim>\<open>Flow_Graph\<close>, \<^verbatim>\<open>Flow_Design\<close>, \<^verbatim>\<open>Flow_Config\<close>, \<^verbatim>\<open>Flow_Commands\<close>: validation of a
    definition, node payloads, form design, and the five management commands.
  \<^item> \<^verbatim>\<open>Form_Tables\<close>, \<^verbatim>\<open>Form_Table_Safety\<close>, \<^verbatim>\<open>Form_Storage\<close>, \<^verbatim>\<open>Form_Projection\<close>: generated tables and the
    projection of form data (\<^verbatim>\<open>storage\<close>).
  \<^item> \<^verbatim>\<open>Record_Key\<close>, \<^verbatim>\<open>Business_Binding\<close>: claims of business rows, the fenced write, the worker
    (\<^verbatim>\<open>binding\<close>).  The durable form of a key value is a locale of text codecs, interpreted on the
    integers and booleans of the model; the writer is one the worker and the projector rely on.
  \<^item> \<^verbatim>\<open>Transition_Runs\<close>, \<^verbatim>\<open>Approval_System\<close>: runs of a transition system as locales (what every step keeps
    or follows holds along a run), interpreted on the store and on the binding; a request as a value,
    the transaction, the step relation and the reachable stores; design commands are steps too.
  \<^item> \<^verbatim>\<open>Store_Evolution\<close>, \<^verbatim>\<open>Engine_Invariants\<close>, \<^verbatim>\<open>Service_Invariants\<close>, \<^verbatim>\<open>Command_Invariants\<close>,
    \<^verbatim>\<open>Design_Evolution\<close>, \<^verbatim>\<open>Stored_Graph\<close>, \<^verbatim>\<open>Design_Invariants\<close>, \<^verbatim>\<open>Flow_Safety\<close>, \<^verbatim>\<open>Deployed_Nodes\<close>,
    \<^verbatim>\<open>Condition_Routing\<close>, \<^verbatim>\<open>Binding_Invariants\<close>: the invariants, one theory per layer.
  \<^item> \<^verbatim>\<open>Example_Run\<close>, \<^verbatim>\<open>Example_Design\<close>, \<^verbatim>\<open>Example_Routing\<close>: small deployments evaluated by the kernel;
    they are the inputs of the witnesses.
  \<^item> \<^verbatim>\<open>Flow_Properties\<close>, \<^verbatim>\<open>Form_Properties\<close>, \<^verbatim>\<open>Command_Properties\<close>, \<^verbatim>\<open>Strategy_Properties\<close>,
    \<^verbatim>\<open>Binding_Properties\<close>, \<^verbatim>\<open>Pass_Rule\<close>, \<^verbatim>\<open>Delegation\<close>, \<^verbatim>\<open>Tenancy\<close> and this theory: the properties.

  \<^bold>\<open>State and effects.\<close>  A table is the list of its rows in the order of insertion, and ORDER BY a stable
  sort; a handler maps a store to an error or to a new store, and \<open>TransactionBehavior_Handle\<close> drops
  the changes of a failed one.  A command reads the clock once.  The record \<open>env\<close> holds what the
  repository does not define: clock, id generator, user directory, hooks, regular expressions,
  \<^verbatim>\<open>fmt.Sprint\<close> of composite values, JSON text and its size, code sets, the title template, the number
  generator and integer conversion outside the \<^verbatim>\<open>int64\<close> range.  The record \<open>design\<close> holds the payload
  decoder, the form parser and the inspection of a schema.  The engine's theorems hold for any
  registered resolvers and evaluators; \<open>strategyEnv\<close> supplies those of a booted application, for
  which expression engine, translations, organisation service and \<^verbatim>\<open>cast.ToString\<close> are arguments.  The
  business binding has a state of its own beside the store (projections and business tables); its
  host supplies clock, ids, target hash, resolver and error texts.  A nil dereference is the error
  \<open>ErrNilDereference\<close>; unknown strings of an enumeration are an \<open>Other\<close> constructor.  In a run the
  clock and the host's answers may change from request to request; only the id generator is fixed
  and injective.

  \<^bold>\<open>What is shown.\<close>

  \<^item> \<^emph>\<open>Running instances\<close>: one active visit at the current node, nothing open once an instance is closed,
    life cycles of instances and tasks, isolation of instances, an audit trail that only grows, a
    task decided at most once, and who may decide it (this theory).
  \<^item> \<^emph>\<open>Decisions\<close>: an early decision of a pass rule is final, a complete round decides, the order of the
    rows does not matter, and where the rounding of the ratio rule differs from the exact share.
  \<^item> \<^emph>\<open>Definitions\<close>: deploy accepts exactly the well-formed graphs, compiling gives back what was
    deployed, a deployed version always finds its next node, searches end and are right.
  \<^item> \<^emph>\<open>Strategies\<close>: how a deployed condition node routes and the only ways it can fail; when an
    application boots and which resolvers it runs.
  \<^item> \<^emph>\<open>Forms\<close>: a write refines the projection of the form, generated names are safe and distinct, an
    accepted schema provisions.
  \<^item> \<^emph>\<open>Commands\<close>: who may start, withdraw and urge, which fields a decision may edit.
  \<^item> \<^emph>\<open>Business binding\<close>: the write changes one fenced row and is repeatable; projections stay
    consistent in every interleaving of requests, worker, retries and the host's own writes.

  \<^bold>\<open>Bounds and fuel.\<close>  \<open>ProcessNode\<close> has the depth limit of the source (100; at zero it returns the
  source's error), which is shown irrelevant for deployed versions of at most 100 nodes.  The cycle
  search takes the number of nodes as fuel, shown to be enough; the reachability search is a
  \<open>partial_function\<close> shown to return.  The delegation walk has the source's limit of ten.

  \<^bold>\<open>Not modelled.\<close>  Failures of the database itself; audit columns and the columns only the resources
  render; \<^verbatim>\<open>CleanupExpiredRecords\<close>, which deletes rows by an audit column; the rounding of \<^verbatim>\<open>numeric(5,2)\<close> columns; texts of form
  validation errors; infinities and subnormals of \<^verbatim>\<open>float64\<close>; case mappings of runes into ASCII;
  revision counters are unbounded.  The claim of a business row and the projection of a transition
  run inside the transaction of a request; in the transition system of the binding they are steps
  of their own beside the request's.  Queries, resources, migrations, the form editor, and the
  rest of the framework (ORM, cache, security, storage, event transports, HTTP, command line tool)
  are I/O, glue over third-party libraries, or independent of the engine.
\<close>

section \<open>The running system\<close>

text \<open>
  C1: in every reachable store a running instance has exactly one active visit; it is at the
  instance's current node, and every open task of the instance belongs to that visit.
\<close>

theorem running_instance_one_visit:
  assumes "reachable ids db" and "i \<in> set (db_instances db)" and "i_Status i = InstanceRunning"
  shows "\<exists>v \<in> set (db_visits db). {w \<in> set (db_visits db). v_InstanceID w = i_ID i \<and> v_Status w = NodeVisitActive} = {v}
     \<and> i_CurrentNodeID i = Some (v_NodeID v)
     \<and> (\<forall>t \<in> set (db_tasks db). t_InstanceID t = i_ID i \<and> \<not> TaskStatus_IsFinal (t_Status t) \<longrightarrow>
          t_NodeID t = v_NodeID v \<and> t_VisitID t = v_ID v)"
proof -
  have "settled (i_ID i) db" using reachable_consistent[OF assms(1)] by (simp add: consistent_def)
  then have "running_at (i_ID i) (i_CurrentNodeID i) db" using assms(2,3) by (auto simp: settled_def)
  then obtain v where v: "v \<in> set (db_visits db)" "active_of (i_ID i) v" "i_CurrentNodeID i = Some (v_NodeID v)"
    "\<forall>w \<in> set (db_visits db). active_of (i_ID i) w \<longrightarrow> w = v" "open_at (i_ID i) (v_NodeID v) (v_ID v) db"
    unfolding running_at_def by blast
  have "{w \<in> set (db_visits db). v_InstanceID w = i_ID i \<and> v_Status w = NodeVisitActive} = {v}"
    using v(1,2,4) unfolding active_of_def by blast
  moreover have "\<forall>t \<in> set (db_tasks db). t_InstanceID t = i_ID i \<and> \<not> TaskStatus_IsFinal (t_Status t) \<longrightarrow>
      t_NodeID t = v_NodeID v \<and> t_VisitID t = v_ID v"
    using v(5) by (simp add: open_at_def cancelable_iff_not_final)
  ultimately show ?thesis using v(3) by (intro bexI[OF _ v(1)] conjI)
qed

theorem running_instance_one_visit_witness:
  "\<exists>v \<in> set (db_visits startedStore). {w \<in> set (db_visits startedStore).
       v_InstanceID w = i_ID (hd (db_instances startedStore)) \<and> v_Status w = NodeVisitActive} = {v}
     \<and> i_CurrentNodeID (hd (db_instances startedStore)) = Some (v_NodeID v)
     \<and> (\<forall>t \<in> set (db_tasks startedStore). t_InstanceID t = i_ID (hd (db_instances startedStore))
          \<and> \<not> TaskStatus_IsFinal (t_Status t) \<longrightarrow> t_NodeID t = v_NodeID v \<and> t_VisitID t = v_ID v)"
proof (rule running_instance_one_visit[OF example_reachable(1)])
  show "hd (db_instances startedStore) \<in> set (db_instances startedStore)" using example_facts(1) by simp
  show "i_Status (hd (db_instances startedStore)) = InstanceRunning" by (rule example_facts(2))
qed

text \<open>
  C5: in every reachable store an instance that is not running (finished, withdrawn or returned
  to its applicant) has no active visit and no open task.
\<close>

theorem settled_instance_quiet:
  assumes "reachable ids db" and "i \<in> set (db_instances db)" and "i_Status i \<noteq> InstanceRunning"
  shows "(\<forall>v \<in> set (db_visits db). v_InstanceID v = i_ID i \<longrightarrow> v_Status v \<noteq> NodeVisitActive)
     \<and> (\<forall>t \<in> set (db_tasks db). t_InstanceID t = i_ID i \<longrightarrow> TaskStatus_IsFinal (t_Status t))"
proof -
  have "settled (i_ID i) db" using reachable_consistent[OF assms(1)] by (simp add: consistent_def)
  then have "idle (i_ID i) db" "quiet (i_ID i) db" using assms(2,3) by (auto simp: settled_def)
  then show ?thesis by (auto simp: idle_def active_of_def quiet_def cancelable_iff_not_final)
qed

theorem settled_instance_quiet_witness:
  "i_Status (hd (db_instances doneStore)) = InstanceApproved
   \<and> filter (\<lambda>v. v_InstanceID v = i_ID (hd (db_instances doneStore)) \<and> v_Status v = NodeVisitActive) (db_visits doneStore) = []"
proof
  have mem: "hd (db_instances doneStore) \<in> set (db_instances doneStore)" using example_facts(6) by simp
  show st: "i_Status (hd (db_instances doneStore)) = InstanceApproved" by (rule example_facts(7))
  have "i_Status (hd (db_instances doneStore)) \<noteq> InstanceRunning" by (simp add: st)
  from settled_instance_quiet[OF example_reachable(3) mem this]
  show "filter (\<lambda>v. v_InstanceID v = i_ID (hd (db_instances doneStore)) \<and> v_Status v = NodeVisitActive) (db_visits doneStore) = []"
    by (auto simp: filter_empty_conv)
qed

text \<open>
  C6: an instance is never lost, its tenant, flow, version and applicant never change, its
  status only moves along the instance state machine, and a final status is permanent.
\<close>

theorem instance_lifecycle:
  assumes "reachable ids db" and "(step ids)\<^sup>*\<^sup>* db db'" and "i \<in> set (db_instances db)"
  shows "\<exists>i' \<in> set (db_instances db'). i_ID i' = i_ID i \<and> i_TenantID i' = i_TenantID i \<and> i_FlowID i' = i_FlowID i
     \<and> i_FlowVersionID i' = i_FlowVersionID i \<and> i_Applicant i' = i_Applicant i
     \<and> (CanTransition InstanceStateMachine)\<^sup>*\<^sup>* (i_Status i) (i_Status i')
     \<and> (InstanceStatus_IsFinal (i_Status i) \<longrightarrow> i_Status i' = i_Status i)"
proof -
  have "history db db'" using run_history[OF assms(2) reachable_consistent[OF assms(1)]] .
  then have "rows_evolve instance_moves (\<lambda>_. True) (db_instances db) (db_instances db')" by (simp add: history_def)
  from rows_evolve_kept[OF this assms(3)] obtain i' where "i' \<in> set (db_instances db')" "instance_moves i i'" by blast
  then show ?thesis using inst.final_absorbing by (intro bexI[of _ i']) (auto simp: instance_moves_def)
qed

theorem instance_lifecycle_witness:
  "\<exists>i' \<in> set (db_instances doneStore). i_ID i' = i_ID (hd (db_instances startedStore))
     \<and> (CanTransition InstanceStateMachine)\<^sup>*\<^sup>* (i_Status (hd (db_instances startedStore))) (i_Status i')"
proof -
  have mem: "hd (db_instances startedStore) \<in> set (db_instances startedStore)" using example_facts(1) by simp
  have run: "(step exampleIds)\<^sup>*\<^sup>* startedStore doneStore"
    using example_steps(2,3) by (meson converse_rtranclp_into_rtranclp rtranclp.rtrancl_refl)
  show ?thesis using instance_lifecycle[OF example_reachable(1) run mem] by blast
qed

text \<open>
  C7: a task row is never lost, never moves to another instance, node or visit, its status only
  moves along the task state machine, and a decided or cancelled task is never reopened.
\<close>

theorem task_lifecycle:
  assumes "reachable ids db" and "(step ids)\<^sup>*\<^sup>* db db'" and "t \<in> set (db_tasks db)"
  shows "\<exists>t' \<in> set (db_tasks db'). t_ID t' = t_ID t \<and> t_TenantID t' = t_TenantID t \<and> t_InstanceID t' = t_InstanceID t
     \<and> t_NodeID t' = t_NodeID t \<and> t_VisitID t' = t_VisitID t
     \<and> (CanTransition TaskStateMachine)\<^sup>*\<^sup>* (t_Status t) (t_Status t')
     \<and> (TaskStatus_IsFinal (t_Status t) \<longrightarrow> t_Status t' = t_Status t)"
proof -
  have "history db db'" using run_history[OF assms(2) reachable_consistent[OF assms(1)]] .
  then have "rows_evolve task_moves (\<lambda>_. True) (db_tasks db) (db_tasks db')" by (simp add: history_def)
  from rows_evolve_kept[OF this assms(3)] obtain t' where "t' \<in> set (db_tasks db')" "task_moves t t'" by blast
  then show ?thesis using task.final_absorbing by (intro bexI[of _ t']) (auto simp: task_moves_def)
qed

theorem task_lifecycle_witness:
  "\<exists>t' \<in> set (db_tasks doneStore). t_ID t' = t_ID (hd (db_tasks halfStore)) \<and> t_Status t' = TaskApproved"
proof -
  have mem: "hd (db_tasks halfStore) \<in> set (db_tasks halfStore)" using example_facts(4) by simp
  have st: "t_Status (hd (db_tasks halfStore)) = TaskApproved" by (rule example_facts(5))
  have run: "(step exampleIds)\<^sup>*\<^sup>* halfStore doneStore" using example_steps(3) by blast
  show ?thesis using task_lifecycle[OF example_reachable(2) run mem] st by (auto simp: TaskStatus_IsFinal_def)
qed

text \<open>
  C12: the audit log and the stream of domain events only grow, and a deployed definition is never
  changed: nodes, edges, assignee and copy rules are only added, a version keeps its number, form
  fields and storage mode and moves from draft over published to archived, a flow keeps its tenant
  and its code.
\<close>

theorem audit_append_only:
  assumes "reachable ids db" and "(step ids)\<^sup>*\<^sup>* db db'"
  shows "prefix (db_logs db) (db_logs db') \<and> prefix (db_events db) (db_events db')
     \<and> prefix (db_nodes db) (db_nodes db') \<and> prefix (db_edges db) (db_edges db')
     \<and> prefix (db_node_assignees db) (db_node_assignees db') \<and> prefix (db_node_ccs db) (db_node_ccs db')
     \<and> (\<forall>k < length (db_versions db). version_moves (db_versions db ! k) (db_versions db' ! k))
     \<and> (\<forall>k < length (db_flows db). flow_moves (db_flows db ! k) (db_flows db' ! k))"
proof -
  have "history db db'" using run_history[OF assms(2) reachable_consistent[OF assms(1)]] .
  then have h: "config_evolves db db'" "prefix (db_logs db) (db_logs db')" "prefix (db_events db) (db_events db')"
    by (auto simp: history_def)
  have r: "rows_evolve flow_moves (\<lambda>_. True) (db_flows db) (db_flows db')"
    "rows_evolve version_moves (\<lambda>_. True) (db_versions db) (db_versions db')"
    using h(1) by (auto simp: config_evolves_def)
  then show ?thesis using h rows_evolve_nth[OF r(1)] rows_evolve_nth[OF r(2)] by (auto simp: config_evolves_def)
qed

theorem audit_append_only_witness:
  "prefix (db_logs startedStore) (db_logs halfStore) \<and> prefix (db_events startedStore) (db_events halfStore)
     \<and> version_moves (db_versions startedStore ! 0) (db_versions halfStore ! 0)"
proof -
  have "0 < length (db_versions startedStore)" using example_facts(3) by simp
  moreover have "(step exampleIds)\<^sup>*\<^sup>* startedStore halfStore" using example_steps(2) by blast
  ultimately show ?thesis using audit_append_only[OF example_reachable(1), of halfStore] by blast
qed

text \<open>
  C8: a request works on one instance: the instance row, the tasks, the visits and the carbon
  copies of every other instance are left exactly as they were.
\<close>

theorem request_isolation:
  assumes "reachable ids db" and "step ids db db'"
  shows "\<exists>iid.
       filter (\<lambda>i. i_ID i \<noteq> iid) (db_instances db') = filter (\<lambda>i. i_ID i \<noteq> iid) (db_instances db)
     \<and> filter (\<lambda>t. t_InstanceID t \<noteq> iid) (db_tasks db') = filter (\<lambda>t. t_InstanceID t \<noteq> iid) (db_tasks db)
     \<and> filter (\<lambda>v. v_InstanceID v \<noteq> iid) (db_visits db') = filter (\<lambda>v. v_InstanceID v \<noteq> iid) (db_visits db)
     \<and> filter (\<lambda>r. cc_InstanceID r \<noteq> iid) (db_ccs db') = filter (\<lambda>r. cc_InstanceID r \<noteq> iid) (db_ccs db)"
proof -
  have "(\<exists>iid. store_step iid db db') \<or> design_step db db'"
    using step_commits[OF assms(2) reachable_consistent[OF assms(1)]] by blast
  then show ?thesis using store_step_frame by (auto simp: design_step_def runtime_same_def)
qed

theorem request_isolation_witness:
  "\<exists>iid. filter (\<lambda>t. t_InstanceID t \<noteq> iid) (db_tasks halfStore) = filter (\<lambda>t. t_InstanceID t \<noteq> iid) (db_tasks startedStore)"
  using request_isolation[OF example_reachable(1) example_steps(2)] by blast

section \<open>Decisions\<close>

text \<open>
  C4: a decision is authorised. An approval succeeds only for a pending task of a running
  instance, at the instance's current node, by the task's assignee, from a caller the tenant
  guard lets through.
\<close>

theorem approve_authorised:
  assumes "ApproveTask_Handle env cmd db = Inr db'"
  shows "\<exists>t \<in> set (db_tasks db). \<exists>i \<in> set (db_instances db). t_ID t = cmd_TaskID cmd \<and> t_InstanceID t = i_ID i
     \<and> t_Status t = TaskPending \<and> t_AssigneeID t = u_ID (cmd_Operator cmd)
     \<and> i_Status i = InstanceRunning \<and> i_CurrentNodeID i = Some (t_NodeID t)
     \<and> AllowsInstanceAccess (cmd_Caller cmd) (i_ID i) (i_TenantID i) (u_ID (cmd_Operator cmd)) db"
proof -
  obtain tc where "PrepareOperation env (cmd_TaskID cmd) (cmd_Operator cmd) (cmd_Caller cmd) (cmd_FormData cmd) db = Inr tc"
    using assms unfolding ApproveTask_Handle_def by auto
  note p = PrepareOperation_run[OF this]
  obtain i d where "i \<in> set (db_instances db)" "tc_Instance tc = i\<lparr>i_FormData := d\<rparr>"
    using p(1) by (auto simp: ctx_ok_def)
  then show ?thesis using p by (intro bexI[of _ "tc_Task tc"] bexI[of _ i]) (auto simp: ctx_ok_def)
qed

theorem approve_authorised_witness:
  "\<exists>t \<in> set (db_tasks startedStore). t_ID t = ''iiii'' \<and> t_Status t = TaskPending \<and> t_AssigneeID t = ''alice''"
  using approve_authorised[OF half_run[simplified]] by (auto simp: exampleCmd_def exampleUser_def)

text \<open>
  C2: a task is decided at most once. After an approval has gone through, no approval and no
  rejection of the same task succeeds any more, by whomever and with whatever host answers, however
  many requests came in between.
\<close>

theorem decided_once:
  assumes "reachable ids db" and "env_new_id env = ids" and "ApproveTask_Handle env cmd db = Inr db'"
    and "(step ids)\<^sup>*\<^sup>* db' db''" and "cmd_TaskID cmd' = cmd_TaskID cmd"
  shows "(\<exists>e. ApproveTask_Handle env' cmd' db'' = Inl e) \<and> (\<exists>e. RejectTask_Handle env' cmd' db'' = Inl e)"
proof -
  have con: "consistent ids db" using reachable_consistent[OF assms(1)] .
  have st: "step ids db db'" using execute_step[of env "ApproveTask cmd"] assms(2,3) by simp
  have con': "consistent ids db'" using step_commits[OF st con] by simp
  obtain t where t: "t \<in> set (db_tasks db')" "t_ID t = cmd_TaskID cmd" "TaskStatus_IsFinal (t_Status t)"
    using approve_finishes[OF assms(3)] con assms(2) by (auto simp: consistent_def)
  have "rows_evolve task_moves (\<lambda>_. True) (db_tasks db') (db_tasks db'')"
    using run_history[OF assms(4) con'] by (simp add: history_def)
  from rows_evolve_kept[OF this t(1)] obtain t'' where t'': "t'' \<in> set (db_tasks db'')" "task_moves t t''" by blast
  have fin: "t_Status t'' = t_Status t" "t_ID t'' = cmd_TaskID cmd'"
    using t'' t(2,3) task.final_absorbing assms(5) by (auto simp: task_moves_def)
  have wf: "wf_store env db''" using run_consistent[OF assms(4) con'] assms(2) by (simp add: consistent_def)
  have no: "PrepareOperation env' (cmd_TaskID cmd') op caller fd db'' \<noteq> Inr tc" for op caller fd tc
  proof
    assume "PrepareOperation env' (cmd_TaskID cmd') op caller fd db'' = Inr tc"
    note p = PrepareOperation_run[OF this]
    have "tc_Task tc = t''"
      by (rule distinct_key_eq[OF wf_store_distinct(1)[OF wf] _ t''(1)]) (use p fin in \<open>auto simp: ctx_ok_def\<close>)
    then show False using p(3) fin(1) t(3) by (simp add: TaskStatus_IsFinal_def)
  qed
  have "\<exists>e. PrepareOperation env' (cmd_TaskID cmd') op caller fd db'' = Inl e" for op caller fd
    using no by (cases "PrepareOperation env' (cmd_TaskID cmd') op caller fd db''") auto
  then show ?thesis unfolding ApproveTask_Handle_def RejectTask_Handle_def by (metis bindE_simps(1))
qed

theorem decided_once_witness:
  "(\<exists>e. ApproveTask_Handle exampleEnv (exampleCmd ''iiii'' ''alice'') halfStore = Inl e)
     \<and> (\<exists>e. RejectTask_Handle exampleEnv (exampleCmd ''iiii'' ''alice'') halfStore = Inl e)"
  by (rule decided_once[OF example_reachable(1) refl half_run[simplified]]) simp_all

end
